(* ===== verification/Prelude.thy ===== *)
theory Prelude
  imports Complex_Main "HOL-Library.AList"
begin

text \<open>
  Shared vocabulary of the development: the result type in which every
  \<^verbatim>\<open>raise\<close> of the Python sources is a value, Python dictionaries as
  association lists in insertion order (\<open>AList.update\<close> overwrites in place and
  otherwise appends, \<open>AList.delete\<close> removes, exactly as \<^verbatim>\<open>d[k] = v\<close> and
  \<^verbatim>\<open>d.pop(k, None)\<close> do), the one loop shape that every handler of the server
  uses (a left fold over the messages of a run), and the generic lemmas the
  components share.

  Conventions of all theories. A Python \<^verbatim>\<open>str\<close> is a HOL \<open>string\<close>, one
  \<open>char\<close> per code point, so the strings covered are those over U+0000..U+00FF.
  A Python \<^verbatim>\<open>int\<close> is an \<open>int\<close> (or a \<open>nat\<close> where the code only counts). A
  \<^verbatim>\<open>float\<close> or a clock value is a rational. A \<^verbatim>\<open>None\<close>-able value is an \<open>option\<close>.
\<close>

section \<open>Results\<close>

datatype py_exn =
    ValueError string
  | IndexError
  | KeyError string
  | TypeError
  | AttributeError
  | NameError string
  | UnicodeDecodeError
  | NotImplementedError
  | OverflowError
  | ZeroDivisionError
  | PermissionError string
  | LookupError string
  | ValidationError string
  | BackendError string
  | HTTPException int string
  | McpReadTokenValidationError string
  | ConfigError string
  | MissingWorkspaceError string

type_synonym 'a res = "py_exn + 'a"

definition bind_res :: "'a res \<Rightarrow> ('a \<Rightarrow> 'b res) \<Rightarrow> 'b res" where
  "bind_res r f = (case r of Inl e \<Rightarrow> Inl e | Inr x \<Rightarrow> f x)"

definition is_ok :: "'a res \<Rightarrow> bool" where
  "is_ok r = (case r of Inl _ \<Rightarrow> False | Inr _ \<Rightarrow> True)"

named_theorems res_simps \<open>computation rules of the result type\<close>

lemma bind_res_simps [simp, res_simps]:
  "bind_res (Inl e) f = Inl e"
  "bind_res (Inr x) f = f x"
  by (simp_all add: bind_res_def)

lemma is_ok_simps [simp, res_simps]:
  "\<not> is_ok (Inl e)"
  "is_ok (Inr x)"
  by (simp_all add: is_ok_def)

lemma bind_res_eq_Inr:
  "bind_res r f = Inr y \<longleftrightarrow> (\<exists>x. r = Inr x \<and> f x = Inr y)"
  by (cases r) auto

lemma bind_res_eq_Inl:
  "bind_res r f = Inl e \<longleftrightarrow> r = Inl e \<or> (\<exists>x. r = Inr x \<and> f x = Inl e)"
  by (cases r) auto

lemma is_ok_iff: "is_ok r \<longleftrightarrow> (\<exists>x. r = Inr x)"
  by (cases r) auto

section \<open>Dictionaries\<close>

type_synonym ('k, 'v) dict = "('k \<times> 'v) list"

abbreviation dict_get :: "('k, 'v) dict \<Rightarrow> 'k \<Rightarrow> 'v option" where
  "dict_get d k \<equiv> map_of d k"

abbreviation dict_set :: "('k, 'v) dict \<Rightarrow> 'k \<Rightarrow> 'v \<Rightarrow> ('k, 'v) dict" where
  "dict_set d k v \<equiv> AList.update k v d"

abbreviation dict_pop :: "('k, 'v) dict \<Rightarrow> 'k \<Rightarrow> ('k, 'v) dict" where
  "dict_pop d k \<equiv> AList.delete k d"

definition dict_has :: "('k, 'v) dict \<Rightarrow> 'k \<Rightarrow> bool" where
  "dict_has d k \<longleftrightarrow> k \<in> set (map fst d)"

definition dict_keys :: "('k, 'v) dict \<Rightarrow> 'k list" where
  "dict_keys d = map fst d"

definition dict_getd :: "('k, 'v) dict \<Rightarrow> 'k \<Rightarrow> 'v \<Rightarrow> 'v" where
  "dict_getd d k dflt = (case map_of d k of None \<Rightarrow> dflt | Some v \<Rightarrow> v)"

definition dict_wf :: "('k, 'v) dict \<Rightarrow> bool" where
  "dict_wf d \<longleftrightarrow> distinct (map fst d)"

text \<open>
  \<^verbatim>\<open>min(d, key=lambda k: d[k])\<close>: the first key, in insertion order, whose value
  is least; the empty dictionary has none.
\<close>

fun dict_min :: "('k, 'v :: linorder) dict \<Rightarrow> ('k \<times> 'v) option" where
  "dict_min [] = None"
| "dict_min ((k, v) # d) =
     (case dict_min d of
        None \<Rightarrow> Some (k, v)
      | Some (k', v') \<Rightarrow> if v \<le> v' then Some (k, v) else Some (k', v'))"

named_theorems dict_simps \<open>what the dictionary operations do to membership, order and size\<close>

lemma dict_has_iff: "dict_has d k \<longleftrightarrow> map_of d k \<noteq> None"
  by (simp add: dict_has_def map_of_eq_None_iff)

lemma dict_has_Nil [simp, dict_simps]: "\<not> dict_has [] k"
  by (simp add: dict_has_def)

lemma dict_wf_Nil [simp, dict_simps]: "dict_wf []"
  by (simp add: dict_wf_def)

lemma dict_get_set [simp, dict_simps]:
  "map_of (AList.update k v d) k' = (if k' = k then Some v else map_of d k')"
  by (simp add: update_conv)

lemma dict_get_pop [simp, dict_simps]:
  "map_of (AList.delete k d) k' = (if k' = k then None else map_of d k')"
  by (simp add: delete_conv)

lemma dict_has_set [simp, dict_simps]:
  "dict_has (AList.update k v d) k' \<longleftrightarrow> k' = k \<or> dict_has d k'"
  by (simp add: dict_has_iff)

lemma dict_has_pop [simp, dict_simps]:
  "dict_has (AList.delete k d) k' \<longleftrightarrow> k' \<noteq> k \<and> dict_has d k'"
  by (simp add: dict_has_iff)

lemma dict_wf_set [simp, intro, dict_simps]: "dict_wf d \<Longrightarrow> dict_wf (AList.update k v d)"
  by (simp add: dict_wf_def distinct_update)

lemma dict_wf_pop [simp, intro, dict_simps]: "dict_wf d \<Longrightarrow> dict_wf (AList.delete k d)"
  by (simp add: dict_wf_def distinct_delete)

lemma dict_pop_absent: "\<not> dict_has d k \<Longrightarrow> AList.delete k d = d"
  by (simp add: dict_has_def delete_idem)

lemma length_dict_set:
  "length (AList.update k v d) = (if dict_has d k then length d else Suc (length d))"
  by (induction d) (auto simp: dict_has_def)

lemma length_dict_pop_le: "length (AList.delete k d) \<le> length d"
  by (induction d) auto

lemma length_dict_pop:
  assumes "dict_wf d"
  shows "length (AList.delete k d) = (if dict_has d k then length d - 1 else length d)"
  using assms
proof (induction d)
  case Nil
  then show ?case by simp
next
  case (Cons p d)
  obtain a b where p: "p = (a, b)" by force
  have wf: "dict_wf d" using Cons.prems by (simp add: dict_wf_def)
  show ?case
  proof (cases "a = k")
    case True
    then have "\<not> dict_has d k" using Cons.prems p by (auto simp: dict_wf_def dict_has_def)
    then show ?thesis using True p by (simp add: dict_pop_absent) (simp add: dict_has_def)
  next
    case False
    have "dict_has d k \<Longrightarrow> 0 < length d" by (cases d) auto
    then show ?thesis using False p Cons.IH [OF wf] by (auto simp: dict_has_def)
  qed
qed

lemma dict_min_Some_mem: "dict_min d = Some (k, v) \<Longrightarrow> (k, v) \<in> set d"
  by (induction d arbitrary: k v) (auto split: option.splits if_splits)

lemma dict_min_has: "dict_min d = Some (k, v) \<Longrightarrow> dict_has d k"
  using dict_min_Some_mem by (force simp: dict_has_def)

lemma dict_min_None [simp]: "dict_min d = None \<longleftrightarrow> d = []"
  by (cases d) (auto split: option.splits)

lemma dict_min_least: "dict_min d = Some (k, v) \<Longrightarrow> (k', v') \<in> set d \<Longrightarrow> v \<le> v'"
proof (induction d arbitrary: k v)
  case Nil
  then show ?case by simp
next
  case (Cons p d)
  obtain a b where p: "p = (a, b)" by force
  show ?case
  proof (cases "dict_min d")
    case None
    then show ?thesis using Cons.prems p by simp
  next
    case (Some q)
    obtain a' b' where q: "q = (a', b')" by force
    have "(k', v') \<in> set d \<Longrightarrow> b' \<le> v'" using Cons.IH [of a' b'] Cons.prems(2) Some q by blast
    then show ?thesis using Cons.prems p q Some by (auto split: if_splits)
  qed
qed

lemma dict_getd_set [simp, dict_simps]:
  "dict_getd (AList.update k v d) k' x = (if k' = k then v else dict_getd d k' x)"
  by (simp add: dict_getd_def)

lemma dict_getd_pop [simp, dict_simps]:
  "dict_getd (AList.delete k d) k' x = (if k' = k then x else dict_getd d k' x)"
  by (simp add: dict_getd_def)

lemma map_of_mem_wf: "dict_wf d \<Longrightarrow> map_of d k = Some v \<longleftrightarrow> (k, v) \<in> set d"
  by (simp add: dict_wf_def)

section \<open>Lists\<close>

lemma filter_take_length: "length (filter P (take n xs)) \<le> n"
  by (rule order_trans [OF length_filter_le]) simp

lemma set_take_subset': "x \<in> set (take n xs) \<Longrightarrow> x \<in> set xs"
  using set_take_subset by force

lemma list_all_take: "list_all P xs \<Longrightarrow> list_all P (take n xs)"
  by (auto simp: list_all_iff dest: set_take_subset')

text \<open>
  \<^verbatim>\<open>ORDER BY key ASC\<close>, a stable insertion sort in which a row goes behind every row whose
  key is not greater. SQL leaves the order of rows with equal keys open; they come in table order
  here, which is one of the orders the database may choose.
\<close>

fun ins_by :: "('a \<Rightarrow> 'k :: linorder) \<Rightarrow> 'a \<Rightarrow> 'a list \<Rightarrow> 'a list" where
  "ins_by f x [] = [x]"
| "ins_by f x (y # ys) = (if f y \<le> f x then y # ins_by f x ys else x # y # ys)"

definition order_by :: "('a \<Rightarrow> 'k :: linorder) \<Rightarrow> 'a list \<Rightarrow> 'a list" where
  "order_by f xs = foldl (\<lambda>acc x. ins_by f x acc) [] xs"

lemma order_by_snoc: "order_by f (xs @ [x]) = ins_by f x (order_by f xs)"
  by (simp add: order_by_def)

lemma order_by_Nil [simp]: "order_by f [] = []"
  by (simp add: order_by_def)

lemma set_ins_by [simp]: "set (ins_by f x ys) = insert x (set ys)"
  by (induction ys) auto

lemma length_ins_by [simp]: "length (ins_by f x ys) = Suc (length ys)"
  by (induction ys) auto

lemma distinct_ins_by: "distinct (map g (ins_by f x ys)) \<longleftrightarrow> g x \<notin> g ` set ys \<and> distinct (map g ys)"
  by (induction ys) auto

lemma sorted_ins_by: "sorted (map f ys) \<Longrightarrow> sorted (map f (ins_by f x ys))"
  by (induction ys) auto

lemma ins_by_last: "\<forall>y \<in> set ys. f y \<le> f x \<Longrightarrow> ins_by f x ys = ys @ [x]"
  by (induction ys) auto

lemma set_order_by [simp]: "set (order_by f xs) = set xs"
  by (induction xs rule: rev_induct) (auto simp: order_by_snoc)

lemma length_order_by [simp]: "length (order_by f xs) = length xs"
  by (induction xs rule: rev_induct) (auto simp: order_by_snoc)

lemma sorted_order_by: "sorted (map f (order_by f xs))"
  by (induction xs rule: rev_induct) (auto simp: order_by_snoc sorted_ins_by)

lemma distinct_order_by: "distinct (map g (order_by f xs)) \<longleftrightarrow> distinct (map g xs)"
  by (induction xs rule: rev_induct) (auto simp: order_by_snoc distinct_ins_by)

lemma order_by_append_last:
  "\<forall>y \<in> set xs. f y \<le> f x \<Longrightarrow> order_by f (xs @ [x]) = order_by f xs @ [x]"
  by (simp add: order_by_snoc ins_by_last)

section \<open>Handlers\<close>

text \<open>
  A handler reads and updates a state and returns a value or raises: a state that was
  updated before a \<^verbatim>\<open>raise\<close> stays updated. \<open>bind_act\<close> is sequencing, \<open>try_act\<close> is
  \<^verbatim>\<open>try/except\<close>, \<open>keeps I m\<close> says that \<open>m\<close> preserves \<open>I\<close> whether or not it raises.
\<close>

type_synonym ('s, 'a) act = "'s \<Rightarrow> 'a res \<times> 's"

definition ret :: "'a \<Rightarrow> ('s, 'a) act" where
  "ret x = (\<lambda>s. (Inr x, s))"

definition raise_exn :: "py_exn \<Rightarrow> ('s, 'a) act" where
  "raise_exn e = (\<lambda>s. (Inl e, s))"

definition of_res :: "'a res \<Rightarrow> ('s, 'a) act" where
  "of_res r = (\<lambda>s. (r, s))"

definition bind_act :: "('s, 'a) act \<Rightarrow> ('a \<Rightarrow> ('s, 'b) act) \<Rightarrow> ('s, 'b) act" where
  "bind_act m f = (\<lambda>s. case m s of (Inl e, s') \<Rightarrow> (Inl e, s') | (Inr x, s') \<Rightarrow> f x s')"

definition then_act :: "('s, 'a) act \<Rightarrow> ('s, 'b) act \<Rightarrow> ('s, 'b) act" where
  "then_act m m' = bind_act m (\<lambda>_. m')"

definition try_act :: "('s, 'a) act \<Rightarrow> (py_exn \<Rightarrow> ('s, 'a) act) \<Rightarrow> ('s, 'a) act" where
  "try_act m h = (\<lambda>s. case m s of (Inl e, s') \<Rightarrow> h e s' | (Inr x, s') \<Rightarrow> (Inr x, s'))"

definition upd :: "('s \<Rightarrow> 's) \<Rightarrow> ('s, unit) act" where
  "upd f = (\<lambda>s. (Inr (), f s))"

definition get_act :: "('s \<Rightarrow> 'v) \<Rightarrow> ('v \<Rightarrow> ('s, 'a) act) \<Rightarrow> ('s, 'a) act" where
  "get_act f k = (\<lambda>s. k (f s) s)"

fun each_act :: "('x \<Rightarrow> ('s, unit) act) \<Rightarrow> 'x list \<Rightarrow> ('s, unit) act" where
  "each_act f [] = ret ()"
| "each_act f (x # xs) = then_act (f x) (each_act f xs)"

definition keeps :: "('s \<Rightarrow> bool) \<Rightarrow> ('s, 'a) act \<Rightarrow> bool" where
  "keeps I m \<longleftrightarrow> (\<forall>s. I s \<longrightarrow> I (snd (m s)))"

named_theorems act_defs \<open>definitions of the handler combinators\<close>
named_theorems keeps_intros \<open>how the handler combinators preserve an invariant\<close>

lemmas act_base_defs [act_defs] =
  ret_def raise_exn_def of_res_def bind_act_def then_act_def try_act_def upd_def get_act_def

lemma keepsD: "keeps I m \<Longrightarrow> I s \<Longrightarrow> m s = (r, s') \<Longrightarrow> I s'"
  by (fastforce simp: keeps_def)

lemma keeps_outcome:
  assumes "keeps I m" and "I s" and "\<And>s. I s \<Longrightarrow> I (f s)"
  shows "I (case m s of (Inr _, s') \<Rightarrow> s' | (Inl _, s') \<Rightarrow> f s')"
  using assms by (auto split: prod.splits sum.splits dest: keepsD)

lemma keeps_leaf [keeps_intros]:
  "keeps I (ret x)" "keeps I (raise_exn e)" "keeps I (of_res r)"
  by (simp_all add: keeps_def act_defs)

lemma keeps_bind [keeps_intros]: "keeps I m \<Longrightarrow> (\<And>x. keeps I (f x)) \<Longrightarrow> keeps I (bind_act m f)"
  by (simp add: keeps_def bind_act_def split: prod.splits sum.splits) (metis snd_conv)

lemma keeps_then [keeps_intros]: "keeps I m \<Longrightarrow> keeps I m' \<Longrightarrow> keeps I (then_act m m')"
  by (simp add: then_act_def keeps_bind)

lemma keeps_try [keeps_intros]: "keeps I m \<Longrightarrow> (\<And>e. keeps I (h e)) \<Longrightarrow> keeps I (try_act m h)"
  by (simp add: keeps_def try_act_def split: prod.splits sum.splits) (metis snd_conv)

lemma keeps_upd [keeps_intros]: "(\<And>s. I s \<Longrightarrow> I (f s)) \<Longrightarrow> keeps I (upd f)"
  by (simp add: keeps_def upd_def)

lemma keeps_get [keeps_intros]: "(\<And>v. keeps I (k v)) \<Longrightarrow> keeps I (get_act f k)"
  by (simp add: keeps_def get_act_def)

lemma keeps_if [keeps_intros]:
  "(b \<Longrightarrow> keeps I m) \<Longrightarrow> (\<not> b \<Longrightarrow> keeps I m') \<Longrightarrow> keeps I (if b then m else m')"
  by simp

lemma keeps_option [keeps_intros]:
  "keeps I m \<Longrightarrow> (\<And>x. keeps I (f x)) \<Longrightarrow> keeps I (case v of None \<Rightarrow> m | Some x \<Rightarrow> f x)"
  by (cases v) auto

lemma keeps_each [keeps_intros]: "(\<And>x. keeps I (f x)) \<Longrightarrow> keeps I (each_act f xs)"
  by (induction xs) (auto intro: keeps_intros)

section \<open>Programs that may not return\<close>

text \<open>
  A program over a state whose loops may run forever: \<open>None\<close> is a run that never ends, a raise
  is a value, and a state updated before a raise stays updated.
\<close>

type_synonym ('s, 'a) prog = "'s \<Rightarrow> ('a res \<times> 's) option"

definition ret_p :: "'a \<Rightarrow> ('s, 'a) prog" where
  "ret_p x = (\<lambda>s. Some (Inr x, s))"

definition raise_p :: "py_exn \<Rightarrow> ('s, 'a) prog" where
  "raise_p e = (\<lambda>s. Some (Inl e, s))"

definition res_p :: "'a res \<Rightarrow> ('s, 'a) prog" where
  "res_p r = (\<lambda>s. Some (r, s))"

definition bind_p :: "('s, 'a) prog \<Rightarrow> ('a \<Rightarrow> ('s, 'b) prog) \<Rightarrow> ('s, 'b) prog" where
  "bind_p m f = (\<lambda>s. case m s of
     None \<Rightarrow> None
   | Some (Inl e, s') \<Rightarrow> Some (Inl e, s')
   | Some (Inr x, s') \<Rightarrow> f x s')"

definition then_p :: "('s, 'a) prog \<Rightarrow> ('s, 'b) prog \<Rightarrow> ('s, 'b) prog" where
  "then_p m m' = bind_p m (\<lambda>_. m')"

text \<open>A read and a write of a service that may fail; a failed write leaves the state.\<close>

definition ask_p :: "('s \<Rightarrow> 'a res) \<Rightarrow> ('s, 'a) prog" where
  "ask_p g = (\<lambda>s. Some (g s, s))"

definition tell_p :: "('s \<Rightarrow> 's res) \<Rightarrow> ('s, unit) prog" where
  "tell_p g = (\<lambda>s. case g s of Inl e \<Rightarrow> Some (Inl e, s) | Inr s' \<Rightarrow> Some (Inr (), s'))"

definition try_p :: "('s, 'a) prog \<Rightarrow> (py_exn \<Rightarrow> ('s, 'a) prog) \<Rightarrow> ('s, 'a) prog" where
  "try_p m h = (\<lambda>s. case m s of
     None \<Rightarrow> None
   | Some (Inl e, s') \<Rightarrow> h e s'
   | Some (Inr x, s') \<Rightarrow> Some (Inr x, s'))"

named_theorems prog_simps \<open>computation rules of programs\<close>

lemma prog_run [prog_simps]:
  "ret_p x s = Some (Inr x, s)"
  "raise_p e s = Some (Inl e, s)"
  "res_p r s = Some (r, s)"
  "ask_p g s = Some (g s, s)"
  by (simp_all add: ret_p_def raise_p_def res_p_def ask_p_def)

lemma tell_p_run [prog_simps]:
  "g s = Inr s' \<Longrightarrow> tell_p g s = Some (Inr (), s')"
  "g s = Inl e \<Longrightarrow> tell_p g s = Some (Inl e, s)"
  by (simp_all add: tell_p_def)

lemma bind_p_run [prog_simps]:
  "m s = None \<Longrightarrow> bind_p m f s = None"
  "m s = Some (Inl e, s') \<Longrightarrow> bind_p m f s = Some (Inl e, s')"
  "m s = Some (Inr x, s') \<Longrightarrow> bind_p m f s = f x s'"
  "then_p m m' s = bind_p m (\<lambda>_. m') s"
  by (simp_all add: bind_p_def then_p_def)

lemma bind_p_pure [simp]:
  "bind_p (ret_p x) f = f x"
  "bind_p (res_p (Inr x)) f = f x"
  "bind_p (res_p (Inl e)) f = raise_p e"
  "bind_p (raise_p e) f = raise_p e"
  by (simp_all add: bind_p_def ret_p_def res_p_def raise_p_def)

lemma bind_p_Inr:
  "bind_p m f s = Some (Inr y, s'') \<longleftrightarrow> (\<exists>x s'. m s = Some (Inr x, s') \<and> f x s' = Some (Inr y, s''))"
  by (auto simp: bind_p_def split: option.splits sum.splits)

lemma try_p_run [prog_simps]:
  "m s = None \<Longrightarrow> try_p m h s = None"
  "m s = Some (Inl e, s') \<Longrightarrow> try_p m h s = h e s'"
  "m s = Some (Inr x, s') \<Longrightarrow> try_p m h s = Some (Inr x, s')"
  by (simp_all add: try_p_def)

lemma tell_p_Inr: "tell_p g s = Some (Inr u, s') \<longleftrightarrow> g s = Inr s'"
  by (auto simp: tell_p_def split: sum.splits)

text \<open>An invariant that a program keeps, whether it returns or raises.\<close>

definition keeps_p :: "('s \<Rightarrow> bool) \<Rightarrow> ('s, 'a) prog \<Rightarrow> bool" where
  "keeps_p I m \<longleftrightarrow> (\<forall>s r s'. I s \<longrightarrow> m s = Some (r, s') \<longrightarrow> I s')"

named_theorems keeps_p_intros \<open>rules for invariants of programs\<close>

lemma keeps_pD: "keeps_p I m \<Longrightarrow> I s \<Longrightarrow> m s = Some (r, s') \<Longrightarrow> I s'"
  unfolding keeps_p_def by blast

lemma keeps_pI: "(\<And>s r s'. I s \<Longrightarrow> m s = Some (r, s') \<Longrightarrow> I s') \<Longrightarrow> keeps_p I m"
  unfolding keeps_p_def by blast

lemma keeps_p_leaf [keeps_p_intros]:
  "keeps_p I (ret_p x)" "keeps_p I (raise_p e)" "keeps_p I (res_p r)" "keeps_p I (ask_p g)"
  by (simp_all add: keeps_p_def ret_p_def raise_p_def res_p_def ask_p_def)

lemma keeps_p_bind [keeps_p_intros]:
  assumes "keeps_p I m" and "\<And>x. keeps_p I (f x)"
  shows "keeps_p I (bind_p m f)"
proof (rule keeps_pI)
  fix s r s' assume s: "I s" and b: "bind_p m f s = Some (r, s')"
  then obtain q s1 where m: "m s = Some (q, s1)" by (cases "m s") (auto simp: bind_p_def)
  then have "I s1" using keeps_pD [OF assms(1) s] by simp
  then show "I s'" using b m keeps_pD [OF assms(2)] by (cases q) (auto simp: bind_p_def)
qed

lemma keeps_p_then [keeps_p_intros]: "keeps_p I m \<Longrightarrow> keeps_p I m' \<Longrightarrow> keeps_p I (then_p m m')"
  unfolding then_p_def by (rule keeps_p_bind)

lemma keeps_p_try [keeps_p_intros]:
  assumes "keeps_p I m" and "\<And>e. keeps_p I (h e)"
  shows "keeps_p I (try_p m h)"
proof (rule keeps_pI)
  fix s r s' assume s: "I s" and b: "try_p m h s = Some (r, s')"
  then obtain q s1 where m: "m s = Some (q, s1)" by (cases "m s") (auto simp: try_p_def)
  then have "I s1" using keeps_pD [OF assms(1) s] by simp
  then show "I s'" using b m keeps_pD [OF assms(2)] by (cases q) (auto simp: try_p_def)
qed

section \<open>Runs\<close>

text \<open>
  Every worker of the server is a loop over incoming messages that threads the
  worker's own state: \<open>run step s ms\<close> is the state after the messages \<open>ms\<close> in order.
\<close>

definition run :: "('m \<Rightarrow> 's \<Rightarrow> 's) \<Rightarrow> 's \<Rightarrow> 'm list \<Rightarrow> 's" where
  "run f s ms = fold f ms s"

lemma run_simps [simp]:
  "run f s [] = s"
  "run f s (m # ms) = run f (f m s) ms"
  by (simp_all add: run_def)

lemma run_append: "run f s (ms @ ms') = run f (run f s ms) ms'"
  by (simp add: run_def)

lemma run_replicate_Suc: "run f s (replicate (Suc n) m) = f m (run f s (replicate n m))"
  by (simp only: replicate_Suc replicate_append_same [symmetric] run_append) simp

lemma not_ok_Inl: "\<not> is_ok r \<Longrightarrow> r = Inl (projl r)"
  by (cases r) auto

locale invariant_of =
  fixes step :: "'m \<Rightarrow> 's \<Rightarrow> 's"
    and inv :: "'s \<Rightarrow> bool"
  assumes step_inv: "inv s \<Longrightarrow> inv (step m s)"
begin

lemma run_inv: "inv s \<Longrightarrow> inv (run step s ms)"
  by (induction ms arbitrary: s) (auto simp: step_inv)

end

end
