(* ===== verification/PyText.thy ===== *)
theory PyText
  imports Prelude "HOL-Library.Word"
begin

text \<open>
  The parts of Python's string library that the queue and outbox code rests on:
  UTF-8 encoding and decoding of the modelled strings, hexadecimal text, and
  \<^verbatim>\<open>uuid.UUID\<close> with its printer. A byte string is a \<open>string\<close> too, one \<open>char\<close> per
  byte. The round trips proved here carry the wire-format theorems.
\<close>

abbreviation ord :: "char \<Rightarrow> nat" where
  "ord c \<equiv> of_char c"

abbreviation chr :: "nat \<Rightarrow> char" where
  "chr n \<equiv> char_of n"

section \<open>UTF-8\<close>

definition utf8_char :: "char \<Rightarrow> string" where
  "utf8_char c =
     (if ord c < 128 then [c] else [chr (192 + ord c div 64), chr (128 + ord c mod 64)])"

definition utf8_encode :: "string \<Rightarrow> string" where
  "utf8_encode s = concat (map utf8_char s)"

text \<open>
  Lead bytes 194 and 195 are those of U+0080..U+00FF. Longer sequences spell code
  points outside the modelled strings and are reported like malformed ones.
\<close>

fun utf8_decode :: "string \<Rightarrow> string res" where
  "utf8_decode [] = Inr []"
| "utf8_decode [c] = (if ord c < 128 then Inr [c] else Inl UnicodeDecodeError)"
| "utf8_decode (c # d # cs) =
     (if ord c < 128 then bind_res (utf8_decode (d # cs)) (\<lambda>s. Inr (c # s))
      else if 194 \<le> ord c \<and> ord c \<le> 195 \<and> 128 \<le> ord d \<and> ord d < 192
      then bind_res (utf8_decode cs) (\<lambda>s. Inr (chr ((ord c - 192) * 64 + (ord d - 128)) # s))
      else Inl UnicodeDecodeError)"

lemma ord_chr: "n < 256 \<Longrightarrow> ord (chr n) = n"
  by simp

lemma utf8_decode_ascii:
  "ord c < 128 \<Longrightarrow> utf8_decode (c # cs) = bind_res (utf8_decode cs) (\<lambda>s. Inr (c # s))"
  by (cases cs) auto

lemma utf8_decode_char:
  "utf8_decode (utf8_char c @ cs) = bind_res (utf8_decode cs) (\<lambda>s. Inr (c # s))"
proof (cases "ord c < 128")
  case True
  then show ?thesis by (simp add: utf8_char_def utf8_decode_ascii)
next
  case False
  let ?n = "ord c"
  have b: "128 \<le> ?n" "?n < 256" using False nat_of_char_less_256 [of c] by (auto simp del: nat_of_char_less_256)
  have "?n div 64 \<le> 3" using b by linarith
  then have hi: "ord (chr (192 + ?n div 64)) = 192 + ?n div 64" by (intro ord_chr) linarith
  have lo: "ord (chr (128 + ?n mod 64)) = 128 + ?n mod 64" by (intro ord_chr) auto
  have rng: "2 \<le> ?n div 64" "?n div 64 \<le> 3" using b by linarith+
  have val: "(192 + ?n div 64 - 192) * 64 + (128 + ?n mod 64 - 128) = ?n" by simp
  have enc: "utf8_char c @ cs = chr (192 + ?n div 64) # chr (128 + ?n mod 64) # cs"
    using False by (simp add: utf8_char_def)
  show ?thesis
    unfolding enc utf8_decode.simps(3) hi lo val
    using rng by (simp add: not_less)
qed

lemma utf8_roundtrip_append:
  "utf8_decode (utf8_encode s @ cs) = bind_res (utf8_decode cs) (\<lambda>t. Inr (s @ t))"
proof (induction s)
  case Nil
  show ?case by (cases "utf8_decode cs") (simp_all add: utf8_encode_def)
next
  case (Cons c s)
  have "utf8_encode (c # s) @ cs = utf8_char c @ (utf8_encode s @ cs)"
    by (simp add: utf8_encode_def)
  then show ?case using Cons by (cases "utf8_decode cs") (simp_all add: utf8_decode_char)
qed

lemma utf8_roundtrip [simp]: "utf8_decode (utf8_encode s) = Inr s"
  using utf8_roundtrip_append [of s "[]"] by simp

lemma utf8_encode_Nil [simp]: "utf8_encode s = [] \<longleftrightarrow> s = []"
  by (cases s) (auto simp: utf8_encode_def utf8_char_def)

section \<open>Hexadecimal text\<close>

definition hexdigit :: "nat \<Rightarrow> char" where
  "hexdigit n = ''0123456789abcdef'' ! n"

definition unhex :: "char \<Rightarrow> nat option" where
  "unhex c =
     (let n = ord c in
      if 48 \<le> n \<and> n \<le> 57 then Some (n - 48)
      else if 97 \<le> n \<and> n \<le> 102 then Some (n - 87)
      else if 65 \<le> n \<and> n \<le> 70 then Some (n - 55)
      else None)"

fun hex_fixed :: "nat \<Rightarrow> nat \<Rightarrow> string" where
  "hex_fixed 0 v = []"
| "hex_fixed (Suc n) v = hex_fixed n (v div 16) @ [hexdigit (v mod 16)]"

text \<open>The digits of \<^verbatim>\<open>int(s, 16)\<close>: single underscores may separate digits.\<close>

fun hex_digits :: "nat \<Rightarrow> string \<Rightarrow> nat option" where
  "hex_digits acc [] = Some acc"
| "hex_digits acc (c # cs) =
     (if c = CHR ''_''
      then (case cs of [] \<Rightarrow> None
                     | d # ds \<Rightarrow> (case unhex d of None \<Rightarrow> None
                                                | Some v \<Rightarrow> hex_digits (acc * 16 + v) ds))
      else (case unhex c of None \<Rightarrow> None | Some v \<Rightarrow> hex_digits (acc * 16 + v) cs))"

definition is_space :: "char \<Rightarrow> bool" where
  "is_space c \<longleftrightarrow> ord c \<in> {9, 10, 11, 12, 13, 28, 29, 30, 31, 32, 133, 160}"

definition strip_by :: "(char \<Rightarrow> bool) \<Rightarrow> string \<Rightarrow> string" where
  "strip_by p s = rev (dropWhile p (rev (dropWhile p s)))"

definition lower_char :: "char \<Rightarrow> char" where
  "lower_char c =
     (let n = ord c in
      if (65 \<le> n \<and> n \<le> 90) \<or> (192 \<le> n \<and> n \<le> 222 \<and> n \<noteq> 215) then chr (n + 32) else c)"

definition py_int16 :: "string \<Rightarrow> nat option" where
  "py_int16 s =
     (let t = strip_by is_space s;
          u = (case t of c # cs \<Rightarrow> if c = CHR ''+'' then cs else t | [] \<Rightarrow> []);
          w = (case u of a # b # cs \<Rightarrow>
                 if a = CHR ''0'' \<and> (b = CHR ''x'' \<or> b = CHR ''X'')
                 then (case cs of d # ds \<Rightarrow> if d = CHR ''_'' then ds else cs | [] \<Rightarrow> [])
                 else u
               | _ \<Rightarrow> u)
      in case w of [] \<Rightarrow> None
         | c # cs \<Rightarrow> (case unhex c of None \<Rightarrow> None | Some v \<Rightarrow> hex_digits v cs))"

lemma hexdigit_cases:
  assumes "n < 16"
  shows "unhex (hexdigit n) = Some n \<and> hexdigit n \<noteq> CHR ''_'' \<and> \<not> is_space (hexdigit n)
    \<and> hexdigit n \<notin> set ''-+{}uxX''"
proof -
  have "n \<in> {0, 1, 2, 3, 4, 5, 6, 7, 8, 9, 10, 11, 12, 13, 14, 15}" using assms by (simp only: insert_iff empty_iff) presburger
  then show ?thesis
    by (elim insertE emptyE) (simp_all add: unhex_def hexdigit_def is_space_def)
qed

lemma set_hex_fixed: "c \<in> set (hex_fixed n v) \<Longrightarrow> \<exists>d < 16. c = hexdigit d"
proof (induction n arbitrary: v)
  case 0
  then show ?case by simp
next
  case (Suc n)
  then consider "c \<in> set (hex_fixed n (v div 16))" | "c = hexdigit (v mod 16)" by auto
  then show ?case
  proof cases
    case 1
    then show ?thesis by (rule Suc.IH)
  next
    case 2
    then show ?thesis by (intro exI [of _ "v mod 16"]) simp
  qed
qed

lemma length_hex_fixed [simp]: "length (hex_fixed n v) = n"
  by (induction n arbitrary: v) auto

lemma hex_digits_snoc:
  assumes "\<forall>c \<in> set cs. \<exists>d < 16. c = hexdigit d" and "d < 16"
  shows "hex_digits acc (cs @ [hexdigit d]) = map_option (\<lambda>v. v * 16 + d) (hex_digits acc cs)"
  using assms(1)
proof (induction cs arbitrary: acc)
  case Nil
  then show ?case using hexdigit_cases [OF assms(2)] by simp
next
  case (Cons c cs)
  then obtain e where "e < 16" "c = hexdigit e" by auto
  then show ?case using Cons hexdigit_cases [of e] by simp
qed

lemma hex_digits_fixed: "hex_digits acc (hex_fixed n v) = Some (acc * 16 ^ n + v mod 16 ^ n)"
proof (induction n arbitrary: v)
  case 0
  then show ?case by simp
next
  case (Suc n)
  have "hex_digits acc (hex_fixed (Suc n) v)
      = map_option (\<lambda>w. w * 16 + v mod 16) (hex_digits acc (hex_fixed n (v div 16)))"
    using set_hex_fixed by (simp add: hex_digits_snoc)
  also have "\<dots> = Some ((acc * 16 ^ n + v div 16 mod 16 ^ n) * 16 + v mod 16)"
    using Suc by simp
  also have "(acc * 16 ^ n + v div 16 mod 16 ^ n) * 16 + v mod 16 = acc * 16 ^ Suc n + v mod 16 ^ Suc n"
    by (simp add: mod_mult2_eq algebra_simps)
  finally show ?case .
qed

section \<open>UUIDs\<close>

type_synonym uuid = "128 word"

definition uuid_hex :: "uuid \<Rightarrow> string" where
  "uuid_hex u = hex_fixed 32 (unat u)"

definition uuid_str :: "uuid \<Rightarrow> string" where
  "uuid_str u =
     (let h = uuid_hex u in
      take 8 h @ ''-'' @ take 4 (drop 8 h) @ ''-'' @ take 4 (drop 12 h) @ ''-''
        @ take 4 (drop 16 h) @ ''-'' @ drop 20 h)"

fun remove_all :: "string \<Rightarrow> string \<Rightarrow> nat \<Rightarrow> string" where
  "remove_all pat s 0 = s"
| "remove_all pat [] (Suc k) = []"
| "remove_all pat (c # cs) (Suc k) =
     (if pat \<noteq> [] \<and> take (length pat) (c # cs) = pat
      then remove_all pat (drop (length pat) (c # cs)) k
      else c # remove_all pat cs k)"

text \<open>\<^verbatim>\<open>s.replace(pat, "")\<close>, scanning left to right; each step consumes a character.\<close>

definition replace_empty :: "string \<Rightarrow> string \<Rightarrow> string" where
  "replace_empty pat s = remove_all pat s (length s)"

definition uuid_parse :: "string \<Rightarrow> uuid res" where
  "uuid_parse s =
     (let a = replace_empty ''uuid:'' (replace_empty ''urn:'' s);
          b = strip_by (\<lambda>c. c \<in> set ''{}'') a;
          h = filter (\<lambda>c. c \<noteq> CHR ''-'') b
      in if length h \<noteq> 32 then Inl (ValueError ''badly formed hexadecimal UUID string'')
         else case py_int16 h of
                None \<Rightarrow> Inl (ValueError ''invalid literal for int() with base 16'')
              | Some n \<Rightarrow> Inr (of_nat n))"

lemma remove_all_absent:
  assumes "pat = p # ps" and "p \<notin> set s"
  shows "remove_all pat s k = s"
  using assms(2)
proof (induction s arbitrary: k)
  case Nil
  then show ?case by (cases k) auto
next
  case (Cons c s)
  then show ?case using assms(1) by (cases k) auto
qed

lemma strip_by_absent: "\<forall>c \<in> set s. \<not> p c \<Longrightarrow> strip_by p s = s"
proof -
  assume *: "\<forall>c \<in> set s. \<not> p c"
  have d: "\<And>t. \<forall>c \<in> set t. \<not> p c \<Longrightarrow> dropWhile p t = t"
    by (metis dropWhile_eq_self_iff hd_in_set)
  show ?thesis unfolding strip_by_def using d [OF *] d [of "rev s"] * by simp
qed

lemma py_int16_hex: "py_int16 (hex_fixed 32 v) = Some (v mod 16 ^ 32)"
proof -
  let ?h = "hex_fixed 32 v"
  have hx: "\<forall>c \<in> set ?h. \<exists>d < 16. c = hexdigit d" using set_hex_fixed by blast
  have nsp: "\<forall>c \<in> set ?h. \<not> is_space c \<and> c \<noteq> CHR ''+'' \<and> c \<noteq> CHR ''x'' \<and> c \<noteq> CHR ''X''"
    using hx hexdigit_cases by fastforce
  have strip: "strip_by is_space ?h = ?h" using nsp by (intro strip_by_absent) auto
  have len: "length ?h = 32" by simp
  then obtain a b cs where h: "?h = a # b # cs" by (metis Suc_length_conv numeral_2_eq_2 numeral_eq_Suc pred_numeral_simps(2,3))
  obtain d where d: "d < 16" "a = hexdigit d" using hx h by auto
  have "hex_digits 0 ?h = Some (v mod 16 ^ 32)" using hex_digits_fixed [of 0 32 v] by simp
  moreover have "hex_digits 0 ?h = hex_digits d (b # cs)" using h d hexdigit_cases [OF d(1)] by simp
  ultimately have val: "hex_digits d (b # cs) = Some (v mod 16 ^ 32)" by simp
  show ?thesis
    unfolding py_int16_def Let_def strip
    using nsp d hexdigit_cases [OF d(1)] val by (simp add: h del: hex_digits.simps)
qed

lemma filter_uuid_str: "filter (\<lambda>c. c \<noteq> CHR ''-'') (uuid_str u) = uuid_hex u"
proof -
  let ?h = "uuid_hex u"
  have keep: "\<forall>c \<in> set ?h. c \<noteq> CHR ''-''"
    unfolding uuid_hex_def using set_hex_fixed hexdigit_cases by fastforce
  have f: "filter (\<lambda>c. c \<noteq> CHR ''-'') t = t" if "set t \<subseteq> set ?h" for t
    using that keep by (intro filter_True) auto
  have cut: "take 4 (drop n ?h) @ drop (4 + n) ?h = drop n ?h" for n
    by (metis append_take_drop_id drop_drop)
  have parts: "take 8 ?h @ take 4 (drop 8 ?h) @ take 4 (drop 12 ?h) @ take 4 (drop 16 ?h) @ drop 20 ?h = ?h"
    using cut [of 16] cut [of 12] cut [of 8] by simp
  have sub: "set (take n (drop m ?h)) \<subseteq> set ?h" "set (take n ?h) \<subseteq> set ?h" "set (drop m ?h) \<subseteq> set ?h" for n m
    by (meson set_take_subset set_drop_subset subset_trans)+
  show ?thesis
    unfolding uuid_str_def Let_def by (simp add: f sub parts)
qed

lemma set_uuid_str: "c \<in> set (uuid_str u) \<Longrightarrow> c = CHR ''-'' \<or> (\<exists>d < 16. c = hexdigit d)"
proof -
  assume c: "c \<in> set (uuid_str u)"
  have "c = CHR ''-'' \<or> c \<in> set (uuid_hex u)"
    using c unfolding uuid_str_def Let_def
    by (auto dest!: in_set_takeD in_set_dropD)
  then show ?thesis unfolding uuid_hex_def using set_hex_fixed by blast
qed

lemma uuid_roundtrip [simp]: "uuid_parse (uuid_str u) = Inr u"
proof -
  have cs: "\<forall>c \<in> set (uuid_str u). c \<noteq> CHR ''u'' \<and> c \<notin> set ''{}''"
    using set_uuid_str hexdigit_cases by fastforce
  have r: "replace_empty pat (uuid_str u) = uuid_str u" if "pat = CHR ''u'' # ps" for pat ps
    unfolding replace_empty_def using that cs by (intro remove_all_absent) auto
  have b: "strip_by (\<lambda>c. c \<in> set ''{}'') (uuid_str u) = uuid_str u"
    using cs by (intro strip_by_absent) auto
  have n: "unat u mod 340282366920938463463374607431768211456 = unat u"
    using unsigned_less [of u] by (intro mod_less) simp
  show ?thesis
    unfolding uuid_parse_def Let_def
    by (simp only: r [OF refl] b filter_uuid_str) (simp add: uuid_hex_def py_int16_hex n del: hex_fixed.simps)
qed

lemma uuid_str_inject [simp]: "uuid_str u = uuid_str v \<longleftrightarrow> u = v"
  using uuid_roundtrip [of u] uuid_roundtrip [of v] by (metis sum.inject(2))

lemma uuid_str_nonempty [simp]: "uuid_str u \<noteq> []"
  by (simp add: uuid_str_def Let_def)

end
