(* ===== verification/PyJson.thy ===== *)
theory PyJson
  imports PyText
begin

text \<open>
  \<^verbatim>\<open>json.dumps\<close> and \<^verbatim>\<open>json.loads\<close> as the queue's wire format uses them on event
  metadata: the default separators, \<^verbatim>\<open>ensure_ascii\<close> escapes, a recursive-descent
  reader with Python's whitespace, escape and number rules. A float is represented
  by the text \<^verbatim>\<open>json\<close> prints for it. The reader recurses under fuel: \<open>json_loads\<close>
  gives it two units per character and two more, and \<open>json_roundtrip\<close> shows that this
  is enough to read back everything \<open>json_dumps\<close> prints.
\<close>

datatype json =
    JNull
  | JBool bool
  | JInt int
  | JFloat string
  | JStr string
  | JArr "json list"
  | JObj "(string \<times> json) list"

section \<open>Printing\<close>

fun digits10 :: "nat \<Rightarrow> string" where
  "digits10 n = (if n < 10 then [chr (48 + n)] else digits10 (n div 10) @ [chr (48 + n mod 10)])"

declare digits10.simps [simp del]

definition int_str :: "int \<Rightarrow> string" where
  "int_str i = (if i < 0 then CHR ''-'' # digits10 (nat (- i)) else digits10 (nat i))"

definition json_escape :: "char \<Rightarrow> string" where
  "json_escape c =
     (if c = CHR 0x22 then [CHR 0x5C, CHR 0x22]
      else if c = CHR 0x5C then [CHR 0x5C, CHR 0x5C]
      else if c = CHR 0x0A then [CHR 0x5C, CHR ''n'']
      else if c = CHR 0x0D then [CHR 0x5C, CHR ''r'']
      else if c = CHR 0x09 then [CHR 0x5C, CHR ''t'']
      else if c = CHR 0x0C then [CHR 0x5C, CHR ''f'']
      else if c = CHR 0x08 then [CHR 0x5C, CHR ''b'']
      else if 32 \<le> ord c \<and> ord c < 127 then [c]
      else [CHR 0x5C, CHR ''u''] @ hex_fixed 4 (ord c))"

definition json_quote :: "string \<Rightarrow> string" where
  "json_quote s = CHR 0x22 # concat (map json_escape s) @ [CHR 0x22]"

fun join :: "string \<Rightarrow> string list \<Rightarrow> string" where
  "join sep [] = []"
| "join sep [x] = x"
| "join sep (x # y # xs) = x @ sep @ join sep (y # xs)"

fun json_dumps :: "json \<Rightarrow> string" where
  "json_dumps JNull = ''null''"
| "json_dumps (JBool b) = (if b then ''true'' else ''false'')"
| "json_dumps (JInt i) = int_str i"
| "json_dumps (JFloat t) = t"
| "json_dumps (JStr s) = json_quote s"
| "json_dumps (JArr xs) = ''['' @ join '', '' (map json_dumps xs) @ '']''"
| "json_dumps (JObj kvs) =
     ''{'' @ join '', '' (map (\<lambda>(k, v). json_quote k @ '': '' @ json_dumps v) kvs) @ ''}''"

section \<open>Reading\<close>

definition json_ws :: "char \<Rightarrow> bool" where
  "json_ws c \<longleftrightarrow> c \<in> {CHR '' '', CHR 0x09, CHR 0x0A, CHR 0x0D}"

definition skip_ws :: "string \<Rightarrow> string" where
  "skip_ws s = dropWhile json_ws s"

definition is_dec :: "char \<Rightarrow> bool" where
  "is_dec c \<longleftrightarrow> 48 \<le> ord c \<and> ord c \<le> 57"

definition num_char :: "char \<Rightarrow> bool" where
  "num_char c \<longleftrightarrow> is_dec c \<or> c \<in> set ''+-.eE''"

definition dec_value :: "string \<Rightarrow> nat" where
  "dec_value s = foldl (\<lambda>a c. a * 10 + (ord c - 48)) 0 s"

definition int_token :: "string \<Rightarrow> bool" where
  "int_token t \<longleftrightarrow> t \<noteq> [] \<and> list_all is_dec t \<and> (t = ''0'' \<or> hd t \<noteq> CHR ''0'')"

text \<open>The fraction and exponent of \<^verbatim>\<open>(-?(?:0|[1-9]\d*))(\.\d+)?([eE][-+]?\d+)?\<close>.\<close>

definition exp_ok :: "string \<Rightarrow> bool" where
  "exp_ok s =
     (case s of [] \<Rightarrow> True
      | c # cs \<Rightarrow> (c = CHR ''e'' \<or> c = CHR ''E'') \<and>
          (let ds = (case cs of d # ds \<Rightarrow> if d = CHR ''+'' \<or> d = CHR ''-'' then ds else cs | [] \<Rightarrow> [])
           in ds \<noteq> [] \<and> list_all is_dec ds))"

definition frac_exp_ok :: "string \<Rightarrow> bool" where
  "frac_exp_ok s =
     (case s of [] \<Rightarrow> True
      | c # cs \<Rightarrow> if c = CHR ''.'' then takeWhile is_dec cs \<noteq> [] \<and> exp_ok (dropWhile is_dec cs)
                 else exp_ok s)"

definition json_number :: "string \<Rightarrow> json option" where
  "json_number t =
     (let neg = (t \<noteq> [] \<and> hd t = CHR ''-''); u = (if neg then tl t else t);
          i = takeWhile is_dec u; r = dropWhile is_dec u
      in if \<not> int_token i \<or> \<not> frac_exp_ok r then None
         else if r = [] then Some (JInt (if neg then - int (dec_value i) else int (dec_value i)))
         else Some (JFloat t))"

fun read_string :: "nat \<Rightarrow> string \<Rightarrow> (string \<times> string) option" where
  "read_string 0 s = None"
| "read_string (Suc n) [] = None"
| "read_string (Suc n) (c # cs) =
     (if c = CHR 0x22 then Some ([], cs)
      else if c = CHR 0x5C then
        (case cs of
           [] \<Rightarrow> None
         | e # ds \<Rightarrow>
             if e = CHR ''u'' then
               (case hex_digits 0 (take 4 ds) of
                  None \<Rightarrow> None
                | Some v \<Rightarrow>
                    if length (take 4 ds) = 4 \<and> CHR ''_'' \<notin> set (take 4 ds) \<and> v < 256
                    then map_option (\<lambda>(t, r). (chr v # t, r)) (read_string n (drop 4 ds))
                    else None)
             else if e \<in> {CHR 0x22, CHR 0x5C, CHR ''/''}
               then map_option (\<lambda>(t, r). (e # t, r)) (read_string n ds)
             else if e = CHR ''n'' then map_option (\<lambda>(t, r). (CHR 0x0A # t, r)) (read_string n ds)
             else if e = CHR ''r'' then map_option (\<lambda>(t, r). (CHR 0x0D # t, r)) (read_string n ds)
             else if e = CHR ''t'' then map_option (\<lambda>(t, r). (CHR 0x09 # t, r)) (read_string n ds)
             else if e = CHR ''f'' then map_option (\<lambda>(t, r). (CHR 0x0C # t, r)) (read_string n ds)
             else if e = CHR ''b'' then map_option (\<lambda>(t, r). (CHR 0x08 # t, r)) (read_string n ds)
             else None)
      else if ord c < 32 then None
      else map_option (\<lambda>(t, r). (c # t, r)) (read_string n cs))"

definition starts :: "string \<Rightarrow> string \<Rightarrow> bool" where
  "starts p s \<longleftrightarrow> take (length p) s = p"

fun read_value :: "nat \<Rightarrow> string \<Rightarrow> (json \<times> string) option"
  and read_items :: "nat \<Rightarrow> string \<Rightarrow> (json list \<times> string) option"
  and read_pairs :: "nat \<Rightarrow> string \<Rightarrow> ((string \<times> json) list \<times> string) option"
where
  "read_value 0 s = None"
| "read_value (Suc n) s =
     (case s of
        [] \<Rightarrow> None
      | c # cs \<Rightarrow>
          if c = CHR 0x22 then map_option (\<lambda>(t, r). (JStr t, r)) (read_string n cs)
          else if c = CHR ''['' then
            (case skip_ws cs of
               [] \<Rightarrow> None
             | d # ds \<Rightarrow> if d = CHR '']'' then Some (JArr [], ds)
                        else map_option (\<lambda>(xs, r). (JArr xs, r)) (read_items n (d # ds)))
          else if c = CHR ''{'' then
            (case skip_ws cs of
               [] \<Rightarrow> None
             | d # ds \<Rightarrow> if d = CHR ''}'' then Some (JObj [], ds)
                        else map_option (\<lambda>(kvs, r). (JObj (foldl (\<lambda>a (k, v). dict_set a k v) [] kvs), r))
                               (read_pairs n (d # ds)))
          else if starts ''null'' s then Some (JNull, drop 4 s)
          else if starts ''true'' s then Some (JBool True, drop 4 s)
          else if starts ''false'' s then Some (JBool False, drop 5 s)
          else map_option (\<lambda>v. (v, dropWhile num_char s)) (json_number (takeWhile num_char s)))"
| "read_items 0 s = None"
| "read_items (Suc n) s =
     (case read_value n s of
        None \<Rightarrow> None
      | Some (v, r) \<Rightarrow>
          (case skip_ws r of
             [] \<Rightarrow> None
           | c # cs \<Rightarrow>
               if c = CHR '']'' then Some ([v], cs)
               else if c = CHR '','' then map_option (\<lambda>(vs, q). (v # vs, q)) (read_items n (skip_ws cs))
               else None))"
| "read_pairs 0 s = None"
| "read_pairs (Suc n) s =
     (case s of
        [] \<Rightarrow> None
      | q # qs \<Rightarrow>
          if q \<noteq> CHR 0x22 then None
          else (case read_string n qs of
                  None \<Rightarrow> None
                | Some (k, r) \<Rightarrow>
                    (case skip_ws r of
                       [] \<Rightarrow> None
                     | c # cs \<Rightarrow>
                         if c \<noteq> CHR '':'' then None
                         else (case read_value n (skip_ws cs) of
                                 None \<Rightarrow> None
                               | Some (v, r') \<Rightarrow>
                                   (case skip_ws r' of
                                      [] \<Rightarrow> None
                                    | e # es \<Rightarrow>
                                        if e = CHR ''}'' then Some ([(k, v)], es)
                                        else if e = CHR '','' then
                                          map_option (\<lambda>(kvs, z). ((k, v) # kvs, z))
                                            (read_pairs n (skip_ws es))
                                        else None)))))"

definition json_loads :: "string \<Rightarrow> json res" where
  "json_loads s =
     (case read_value (2 * length s + 2) (skip_ws s) of
        None \<Rightarrow> Inl (ValueError ''JSONDecodeError'')
      | Some (v, r) \<Rightarrow> if skip_ws r = [] then Inr v else Inl (ValueError ''JSONDecodeError''))"

section \<open>Reading back what was printed\<close>

fun json_wf :: "json \<Rightarrow> bool" where
  "json_wf (JFloat t) \<longleftrightarrow> json_number t = Some (JFloat t) \<and> list_all num_char t"
| "json_wf (JArr xs) \<longleftrightarrow> list_all json_wf xs"
| "json_wf (JObj kvs) \<longleftrightarrow> distinct (map fst kvs) \<and> list_all (\<lambda>(k, v). json_wf v) kvs"
| "json_wf v \<longleftrightarrow> True"

lemma digits10_dec: "list_all is_dec (digits10 n)"
proof (induction n rule: digits10.induct)
  case (1 n)
  have dig: "is_dec (chr (48 + k))" if "k < 10" for k using that by (simp add: is_dec_def)
  show ?case using 1 dig [of n] dig [of "n mod 10"] by (subst digits10.simps) auto
qed

lemma digits10_value: "dec_value (digits10 n) = n"
proof (induction n rule: digits10.induct)
  case (1 n)
  have "n mod 10 < 10" by simp
  then show ?case using 1 by (subst digits10.simps) (auto simp: dec_value_def)
qed

lemma digits10_nonempty: "digits10 n \<noteq> []"
  by (subst digits10.simps) simp

lemma digits10_head: "0 < n \<Longrightarrow> hd (digits10 n) \<noteq> CHR ''0''"
proof (induction n rule: digits10.induct)
  case (1 n)
  show ?case
  proof (cases "n < 10")
    case True
    have "chr (48 + n) \<noteq> CHR ''0''"
    proof
      assume "chr (48 + n) = CHR ''0''"
      then have "ord (chr (48 + n)) = ord CHR ''0''" by (simp only:)
      then show False using True 1(2) by simp
    qed
    then show ?thesis using True by (subst digits10.simps) simp
  next
    case False
    then have "hd (digits10 (n div 10)) \<noteq> CHR ''0''" using 1(1) by simp
    then show ?thesis using False digits10_nonempty [of "n div 10"] by (subst digits10.simps) simp
  qed
qed

lemma digits10_int_token: "int_token (digits10 n)"
proof (cases "n = 0")
  case True
  then show ?thesis by (simp add: int_token_def digits10.simps is_dec_def)
next
  case False
  then show ?thesis
    by (simp add: int_token_def digits10_dec digits10_nonempty digits10_head)
qed

lemma is_dec_num_char: "is_dec c \<Longrightarrow> num_char c"
  by (simp add: num_char_def)

lemma takeWhile_dec_all: "list_all is_dec t \<Longrightarrow> takeWhile is_dec t = t \<and> dropWhile is_dec t = []"
  by (induction t) auto

lemma json_number_int: "json_number (int_str i) = Some (JInt i)"
proof -
  have dec: "takeWhile is_dec (digits10 n) = digits10 n" "dropWhile is_dec (digits10 n) = []" for n
    using takeWhile_dec_all [OF digits10_dec] by blast+
  have hd: "hd (digits10 n) \<noteq> CHR ''-''" for n
    using digits10_dec [of n] digits10_nonempty [of n] by (cases "digits10 n") (auto simp: is_dec_def)
  note facts = dec hd digits10_int_token digits10_value digits10_nonempty
  show ?thesis
    by (cases "i < 0") (simp_all add: json_number_def int_str_def Let_def frac_exp_ok_def facts)
qed

lemma int_str_num_char: "list_all num_char (int_str i)"
  using digits10_dec is_dec_num_char
  by (auto simp: int_str_def list_all_iff num_char_def)

lemma json_number_head:
  assumes "json_number t = Some v"
  shows "\<exists>c cs. t = c # cs \<and> (is_dec c \<or> c = CHR ''-'')"
proof (cases t)
  case Nil
  then show ?thesis using assms by (simp add: json_number_def int_token_def)
next
  case (Cons c cs)
  show ?thesis
  proof (cases "c = CHR ''-'' \<or> is_dec c")
    case True
    then show ?thesis using Cons by blast
  next
    case False
    then show ?thesis using assms Cons by (simp add: json_number_def int_token_def)
  qed
qed

lemma num_head_char:
  assumes "is_dec c \<or> c = CHR ''-''"
  shows "c \<notin> {CHR 0x22, CHR ''['', CHR ''{'', CHR ''n'', CHR ''t'', CHR ''f'', CHR '']'', CHR ''}''} \<and> \<not> json_ws c"
  using assms by (auto simp: is_dec_def json_ws_def)

lemma takeWhile_num_append:
  assumes "list_all num_char t" and "rest = [] \<or> \<not> num_char (hd rest)"
  shows "takeWhile num_char (t @ rest) = t \<and> dropWhile num_char (t @ rest) = rest"
  using assms by (induction t) (cases rest; auto)+

lemma read_value_number:
  assumes "json_number t = Some v" and "list_all num_char t"
    and "rest = [] \<or> \<not> num_char (hd rest)" and "0 < n"
  shows "read_value n (t @ rest) = Some (v, rest)"
proof -
  obtain m where n: "n = Suc m" using assms(4) by (cases n) auto
  obtain c cs where t: "t = c # cs" and c: "is_dec c \<or> c = CHR ''-''"
    using json_number_head [OF assms(1)] by blast
  have nc: "c \<noteq> CHR 0x22" "c \<noteq> CHR ''[''" "c \<noteq> CHR ''{''" "c \<noteq> CHR ''n''" "c \<noteq> CHR ''t''" "c \<noteq> CHR ''f''"
    using num_head_char [OF c] by auto
  have "\<not> starts ''null'' (t @ rest) \<and> \<not> starts ''true'' (t @ rest) \<and> \<not> starts ''false'' (t @ rest)"
    using t nc by (simp add: starts_def)
  then show ?thesis
    unfolding n read_value.simps
    using t nc takeWhile_num_append [OF assms(2,3)] assms(1) by simp
qed

lemma read_string_escape:
  "read_string (Suc n) (json_escape c @ cs) = map_option (\<lambda>(t, r). (c # t, r)) (read_string n cs)"
proof -
  have h: "hex_digits 0 (hex_fixed 4 (ord c)) = Some (ord c)"
  proof -
    have "(256 :: nat) \<le> 16 ^ 4" by simp
    with nat_of_char_less_256 have "ord c < 16 ^ 4" by (rule less_le_trans)
    then show ?thesis using hex_digits_fixed [of 0 4 "ord c"] by simp
  qed
  have u: "CHR ''_'' \<notin> set (hex_fixed 4 (ord c))"
    using set_hex_fixed hexdigit_cases by metis
  have t: "take 4 (hex_fixed 4 (ord c) @ cs) = hex_fixed 4 (ord c)"
    "drop 4 (hex_fixed 4 (ord c) @ cs) = cs" by simp_all
  show ?thesis
    using h u t by (auto simp: json_escape_def simp del: hex_fixed.simps)
qed

lemma length_escape: "1 \<le> length (json_escape c)"
  by (simp add: json_escape_def)

lemma read_string_quote:
  "length (concat (map json_escape s)) < n \<Longrightarrow>
     read_string n (concat (map json_escape s) @ CHR 0x22 # rest) = Some (s, rest)"
proof (induction s arbitrary: n)
  case Nil
  then show ?case by (cases n) auto
next
  case (Cons c s)
  then obtain m where n: "n = Suc m" by (cases n) auto
  have "length (concat (map json_escape s)) < m"
    using Cons.prems n length_escape [of c] by simp
  then show ?case using Cons.IH n read_string_escape [of m c] by simp
qed

lemma dumps_head:
  assumes "json_wf v"
  shows "\<exists>c cs. json_dumps v = c # cs \<and> \<not> json_ws c \<and> c \<noteq> CHR '']'' \<and> c \<noteq> CHR ''}''"
proof (cases v)
  case (JInt i)
  then show ?thesis
    using json_number_head [OF json_number_int] num_head_char by fastforce
next
  case (JFloat t)
  then show ?thesis using assms json_number_head [of t "JFloat t"] num_head_char by fastforce
qed (auto simp: json_ws_def json_quote_def)

lemma skip_ws_head: "\<not> json_ws c \<Longrightarrow> skip_ws (c # cs) = c # cs"
  by (simp add: skip_ws_def)

lemma foldl_dict_set:
  "distinct (map fst acc @ map fst kvs) \<Longrightarrow> foldl (\<lambda>a (k, v). dict_set a k v) acc kvs = acc @ kvs"
proof (induction kvs arbitrary: acc)
  case Nil
  then show ?case by simp
next
  case (Cons p kvs)
  obtain k v where p: "p = (k, v)" by force
  have "k \<notin> fst ` set acc" using Cons.prems p by auto
  then have "dict_set acc k v = acc @ [(k, v)]" by (induction acc) auto
  then show ?case using Cons p by simp
qed

lemma comma_not_num [simp]:
  "\<not> num_char CHR '',''" "\<not> num_char CHR '']''" "\<not> num_char CHR ''}''"
  by (simp_all add: num_char_def is_dec_def)

definition reads_back :: "json \<Rightarrow> bool" where
  "reads_back v \<longleftrightarrow>
     (\<forall>n rest. (rest = [] \<or> \<not> num_char (hd rest)) \<longrightarrow> 2 * length (json_dumps v) \<le> n \<longrightarrow>
        read_value n (json_dumps v @ rest) = Some (v, rest))"

lemma reads_backD:
  "reads_back v \<Longrightarrow> rest = [] \<or> \<not> num_char (hd rest) \<Longrightarrow> 2 * length (json_dumps v) \<le> n \<Longrightarrow>
     read_value n (json_dumps v @ rest) = Some (v, rest)"
  unfolding reads_back_def by blast

lemma skip_ws_dumps: "json_wf v \<Longrightarrow> skip_ws (json_dumps v @ s) = json_dumps v @ s"
  using dumps_head [of v] by (auto simp: skip_ws_head)

lemma read_items_dumps:
  assumes "xs \<noteq> []" and "\<forall>v \<in> set xs. reads_back v \<and> json_wf v"
    and "2 * length (join '', '' (map json_dumps xs)) < n"
  shows "read_items n (join '', '' (map json_dumps xs) @ CHR '']'' # rest) = Some (xs, rest)"
  using assms
proof (induction xs arbitrary: n)
  case Nil
  then show ?case by simp
next
  case (Cons x xs)
  obtain m where n: "n = Suc m" using Cons.prems(3) by (cases n) auto
  have x: "reads_back x" using Cons.prems(2) by simp
  show ?case
  proof (cases xs)
    case Nil
    have "read_value m (json_dumps x @ CHR '']'' # rest) = Some (x, CHR '']'' # rest)"
      using Cons.prems(3) n Nil by (intro reads_backD [OF x]) auto
    then show ?thesis using n Nil by (simp add: skip_ws_def json_ws_def)
  next
    case (Cons y ys)
    let ?j = "join '', '' (map json_dumps xs)"
    have j: "join '', '' (map json_dumps (x # xs)) = json_dumps x @ CHR '','' # CHR '' '' # ?j"
      using Cons by simp
    have len: "2 * length (json_dumps x) \<le> m" "2 * length ?j < m"
      using Cons.prems(3) n unfolding j by auto
    have v: "read_value m (json_dumps x @ CHR '','' # CHR '' '' # ?j @ CHR '']'' # rest)
        = Some (x, CHR '','' # CHR '' '' # ?j @ CHR '']'' # rest)"
      by (intro reads_backD [OF x]) (use len in auto)
    have wy: "json_wf y" using Cons.prems(2) Cons by simp
    have "skip_ws (CHR '' '' # ?j @ CHR '']'' # rest) = ?j @ CHR '']'' # rest"
    proof -
      obtain t where t: "?j = json_dumps y @ t" using Cons by (cases ys) auto
      show ?thesis unfolding t using skip_ws_dumps [OF wy] by (simp add: skip_ws_def json_ws_def)
    qed
    moreover have "read_items m (?j @ CHR '']'' # rest) = Some (xs, rest)"
      using Cons.prems(2) len Cons by (intro Cons.IH) auto
    ultimately show ?thesis
      unfolding j n using v by (simp add: skip_ws_head json_ws_def)
  qed
qed

definition pair_text :: "string \<times> json \<Rightarrow> string" where
  "pair_text kv = json_quote (fst kv) @ '': '' @ json_dumps (snd kv)"

lemma read_pairs_dumps:
  assumes "kvs \<noteq> []" and "\<forall>kv \<in> set kvs. reads_back (snd kv) \<and> json_wf (snd kv)"
    and "2 * length (join '', '' (map pair_text kvs)) < n"
  shows "read_pairs n (join '', '' (map pair_text kvs) @ CHR ''}'' # rest) = Some (kvs, rest)"
  using assms
proof (induction kvs arbitrary: n)
  case Nil
  then show ?case by simp
next
  case (Cons x kvs)
  obtain m where n: "n = Suc m" using Cons.prems(3) by (cases n) auto
  obtain k v where x: "x = (k, v)" by force
  have rb: "reads_back v" and wf: "json_wf v" using Cons.prems(2) x by auto
  have pt: "pair_text (k, v) @ t
      = CHR 0x22 # concat (map json_escape k) @ CHR 0x22 # CHR '':'' # CHR '' '' # json_dumps v @ t" for t
    by (simp add: pair_text_def json_quote_def)
  have key: "read_string m (concat (map json_escape k) @ CHR 0x22 # s) = Some (k, s)"
    if "2 * length (pair_text x) \<le> Suc m" for s
    using that by (intro read_string_quote) (simp add: pair_text_def json_quote_def x)
  have ws: "skip_ws (CHR '' '' # json_dumps v @ t) = json_dumps v @ t" for t
    using skip_ws_dumps [OF wf] by (simp add: skip_ws_def json_ws_def)
  have vlen: "length (json_dumps v) + 4 \<le> length (pair_text x)"
    by (simp add: pair_text_def json_quote_def x)
  show ?case
  proof (cases kvs)
    case Nil
    have l: "2 * length (pair_text x) \<le> Suc m" using Cons.prems(3) n Nil by simp
    have "read_value m (json_dumps v @ CHR ''}'' # rest) = Some (v, CHR ''}'' # rest)"
      using l vlen by (intro reads_backD [OF rb]) auto
    then show ?thesis
      unfolding n Nil using key [OF l] ws
      by (simp add: pt x skip_ws_head json_ws_def)
  next
    case (Cons y ys)
    let ?j = "join '', '' (map pair_text kvs)"
    have j: "join '', '' (map pair_text (x # kvs)) = pair_text x @ CHR '','' # CHR '' '' # ?j"
      using Cons by simp
    have l: "2 * length (pair_text x) \<le> Suc m" and lj: "2 * length ?j < m"
      using Cons.prems(3) n unfolding j by auto
    have "read_value m (json_dumps v @ CHR '','' # CHR '' '' # ?j @ CHR ''}'' # rest)
        = Some (v, CHR '','' # CHR '' '' # ?j @ CHR ''}'' # rest)"
      by (intro reads_backD [OF rb]) (use l vlen in auto)
    moreover have "skip_ws (CHR '' '' # ?j @ CHR ''}'' # rest) = ?j @ CHR ''}'' # rest"
    proof -
      obtain t where t: "?j = pair_text y @ t" using Cons by (cases ys) auto
      show ?thesis unfolding t by (simp add: pair_text_def json_quote_def skip_ws_def json_ws_def)
    qed
    moreover have "read_pairs m (?j @ CHR ''}'' # rest) = Some (kvs, rest)"
      using Cons.prems(2) lj Cons by (intro Cons.IH) auto
    ultimately show ?thesis
      unfolding j n using key [OF l] ws by (simp add: pt x skip_ws_head json_ws_def)
  qed
qed

lemma dumps_JObj: "json_dumps (JObj kvs) = ''{'' @ join '', '' (map pair_text kvs) @ ''}''"
proof -
  have "(\<lambda>(k, v). json_quote k @ '': '' @ json_dumps v) = pair_text"
    by (auto simp: pair_text_def)
  then show ?thesis by simp
qed

lemma reads_back_JArr:
  assumes "\<forall>v \<in> set xs. reads_back v \<and> json_wf v"
  shows "reads_back (JArr xs)"
  unfolding reads_back_def
proof (intro allI impI)
  fix n rest
  assume n: "2 * length (json_dumps (JArr xs)) \<le> n"
  let ?j = "join '', '' (map json_dumps xs)"
  obtain m where m: "n = Suc m" "2 * length ?j < m" using n by (cases n) auto
  show "read_value n (json_dumps (JArr xs) @ rest) = Some (JArr xs, rest)"
  proof (cases xs)
    case Nil
    then show ?thesis using m by (simp add: skip_ws_def json_ws_def)
  next
    case (Cons y ys)
    have wy: "json_wf y" using assms Cons by simp
    obtain c cs where c: "json_dumps y = c # cs" "\<not> json_ws c" "c \<noteq> CHR '']''"
      using dumps_head [OF wy] by blast
    obtain t where t: "?j = json_dumps y @ t" using Cons by (cases ys) auto
    have "read_items m (?j @ CHR '']'' # rest) = Some (xs, rest)"
      using assms m Cons by (intro read_items_dumps) auto
    then show ?thesis using m c t by (simp add: skip_ws_head)
  qed
qed

lemma reads_back_JObj:
  assumes "\<forall>kv \<in> set kvs. reads_back (snd kv) \<and> json_wf (snd kv)" and "distinct (map fst kvs)"
  shows "reads_back (JObj kvs)"
  unfolding reads_back_def
proof (intro allI impI)
  fix n rest
  assume n: "2 * length (json_dumps (JObj kvs)) \<le> n"
  let ?j = "join '', '' (map pair_text kvs)"
  obtain m where m: "n = Suc m" "2 * length ?j < m" using n unfolding dumps_JObj by (cases n) auto
  show "read_value n (json_dumps (JObj kvs) @ rest) = Some (JObj kvs, rest)"
  proof (cases kvs)
    case Nil
    then show ?thesis using m by (simp add: skip_ws_def json_ws_def)
  next
    case (Cons y ys)
    obtain t where t: "?j = pair_text y @ t" using Cons by (cases ys) auto
    have "read_pairs m (?j @ CHR ''}'' # rest) = Some (kvs, rest)"
      using assms m Cons by (intro read_pairs_dumps) auto
    moreover have "foldl (\<lambda>a (k, v). dict_set a k v) [] kvs = kvs"
      using foldl_dict_set [of "[]" kvs] assms(2) by simp
    ultimately show ?thesis
      unfolding dumps_JObj using m t
      by (simp add: pair_text_def json_quote_def skip_ws_head json_ws_def)
  qed
qed

lemma reads_back_all: "json_wf v \<Longrightarrow> reads_back v"
proof (induction v)
  case (JInt i)
  have "int_str i \<noteq> []" by (simp add: int_str_def digits10_nonempty)
  then have "2 * length (json_dumps (JInt i)) \<le> n \<Longrightarrow> 0 < n" for n
    by (cases "int_str i") auto
  then show ?case unfolding reads_back_def
    using read_value_number [OF json_number_int int_str_num_char] by auto
next
  case (JFloat t)
  then show ?case unfolding reads_back_def
    using read_value_number [of t] json_number_head [of t] by force
next
  case (JStr s)
  show ?case unfolding reads_back_def
  proof (intro allI impI)
    fix n and rest :: string
    assume "2 * length (json_dumps (JStr s)) \<le> n"
    then obtain m where "n = Suc m" "length (concat (map json_escape s)) < m"
      by (cases n) (auto simp: json_quote_def)
    then show "read_value n (json_dumps (JStr s) @ rest) = Some (JStr s, rest)"
      using read_string_quote [of s m rest] by (simp add: json_quote_def)
  qed
next
  case (JArr xs)
  then show ?case by (intro reads_back_JArr) (auto simp: list_all_iff)
next
  case (JObj kvs)
  have "reads_back (snd kv) \<and> json_wf (snd kv)" if "kv \<in> set kvs" for kv
    using that JObj.IH [of kv "snd kv"] JObj.prems by (force simp: list_all_iff)
  then show ?case using JObj.prems by (intro reads_back_JObj) auto
next
  case JNull
  show ?case unfolding reads_back_def
  proof (intro allI impI)
    fix n and rest :: string
    assume "2 * length (json_dumps JNull) \<le> n"
    then obtain m where "n = Suc m" by (cases n) auto
    then show "read_value n (json_dumps JNull @ rest) = Some (JNull, rest)"
      by (simp add: starts_def)
  qed
next
  case (JBool b)
  show ?case unfolding reads_back_def
  proof (intro allI impI)
    fix n and rest :: string
    assume "2 * length (json_dumps (JBool b)) \<le> n"
    then obtain m where "n = Suc m" by (cases n) (auto split: if_splits)
    then show "read_value n (json_dumps (JBool b) @ rest) = Some (JBool b, rest)"
      by (cases b) (simp_all add: starts_def)
  qed
qed

lemma json_roundtrip: "json_wf v \<Longrightarrow> json_loads (json_dumps v) = Inr v"
proof -
  assume wf: "json_wf v"
  have "read_value (2 * length (json_dumps v) + 2) (json_dumps v @ []) = Some (v, [])"
    using reads_back_all [OF wf] by (intro reads_backD) auto
  then show ?thesis
    using skip_ws_dumps [OF wf, of "[]"] by (simp add: json_loads_def skip_ws_def)
qed

lemma json_dumps_nonempty: "json_wf v \<Longrightarrow> json_dumps v \<noteq> []"
  by (drule dumps_head) auto

end
