(* ===== verification/Messages.thy ===== *)
theory Messages
  imports PyJson
begin

text \<open>
  The payloads of the message queue, one record per Pydantic model of
  \<^verbatim>\<open>queue/messages.py\<close> and \<^verbatim>\<open>ingestion/events.py\<close>, with the defaults of their
  optional fields. An event's metadata is a JSON object.
\<close>

type_synonym metadata = "(string \<times> json) list"

record entity_upsert_event =
  eu_workspace_id :: "string option"
  eu_id :: string
  eu_source_id :: string
  eu_entity_type :: string
  eu_name :: string
  eu_display_name :: string
  eu_metadata :: metadata
  eu_version :: "int option"
  eu_is_backfill :: bool
  eu_content_hash :: "string option"

record edge_upsert_event =
  ee_workspace_id :: "string option"
  ee_id :: string
  ee_source_entity_id :: string
  ee_target_entity_id :: string
  ee_edge_type :: string
  ee_metadata :: metadata
  ee_version :: "int option"
  ee_is_backfill :: bool

record entity_merge_event =
  em_workspace_id :: string
  em_source_id :: "string option"
  em_target_id :: "string option"
  em_merged_node_id :: "string option"

datatype change_action = Created | Updated | Deleted

record document_change_event =
  dc_source_id :: uuid
  dc_source_type :: string
  dc_external_id :: string
  dc_uri :: string
  dc_action :: change_action
  dc_metadata :: "(string \<times> string) list option"
  dc_topology_edges :: "(string \<times> string) list option"

record dlq_message =
  dlq_original_subject :: string
  dlq_original_payload :: string
  dlq_error :: string
  dlq_attempt_count :: int
  dlq_failed_at :: string

definition action_str :: "change_action \<Rightarrow> string" where
  "action_str a =
     (case a of Created \<Rightarrow> ''created'' | Updated \<Rightarrow> ''updated'' | Deleted \<Rightarrow> ''deleted'')"

definition action_of :: "string \<Rightarrow> change_action option" where
  "action_of s =
     (if s = ''created'' then Some Created
      else if s = ''updated'' then Some Updated
      else if s = ''deleted'' then Some Deleted
      else None)"

lemma action_roundtrip [simp]: "action_of (action_str a) = Some a"
  by (cases a) (simp_all add: action_of_def action_str_def)

end
