(* ===== verification/PbEvents.thy ===== *)
theory PbEvents
  imports Messages
begin

text \<open>
  \<^verbatim>\<open>queue/pb_events.py\<close>: the hand-written Protobuf codec of the queue. Varints,
  length-delimited strings, the generic field reader, and the serialiser and
  deserialiser of each event. Integers are unbounded as in Python; bit operations
  are written as the source writes them.
\<close>

unbundle bit_operations_syntax

section \<open>Varints\<close>

function encode_varint :: "int \<Rightarrow> string" where
  "encode_varint v =
     (if 0x80 \<le> v
      then chr (nat ((v AND 0x7F) OR 0x80)) # encode_varint (drop_bit 7 v)
      else [chr (nat (v AND 0x7F))])"
  by pat_completeness auto
termination
  by (relation "measure nat") (auto simp: drop_bit_eq_div)

declare encode_varint.simps [simp del]

function decode_varint_from :: "string \<Rightarrow> nat \<Rightarrow> int \<Rightarrow> nat \<Rightarrow> (int \<times> nat) res" where
  "decode_varint_from data pos val shift =
     (if length data \<le> pos then Inl IndexError
      else let b = int (ord (data ! pos));
               val' = val OR push_bit shift (b AND 0x7F)
           in if b AND 0x80 = 0 then Inr (val', Suc pos)
              else decode_varint_from data (Suc pos) val' (shift + 7))"
  by pat_completeness auto
termination
  by (relation "measure (\<lambda>(data, pos, _). length data - pos)") auto

declare decode_varint_from.simps [simp del]

definition decode_varint :: "string \<Rightarrow> nat \<Rightarrow> (int \<times> nat) res" where
  "decode_varint data pos = decode_varint_from data pos 0 0"

section \<open>Fields\<close>

definition encode_string :: "int \<Rightarrow> string option \<Rightarrow> string" where
  "encode_string field_num val =
     (case val of
        None \<Rightarrow> []
      | Some s \<Rightarrow>
          if s = [] then []
          else let payload = utf8_encode s; tag = push_bit 3 field_num OR 2
               in encode_varint tag @ encode_varint (int (length payload)) @ payload)"

definition encode_int :: "int \<Rightarrow> int \<Rightarrow> string" where
  "encode_int field_num val =
     (let tag = push_bit 3 field_num OR 0 in encode_varint tag @ encode_varint val)"

datatype field_val = FBytes string | FInt int

type_synonym fields = "(int, field_val list) dict"

definition append_field :: "fields \<Rightarrow> int \<Rightarrow> field_val \<Rightarrow> fields" where
  "append_field fs k v = dict_set fs k (dict_getd fs k [] @ [v])"

text \<open>Every varint that is read moves the position forward, so the field loop ends.\<close>

lemma decode_varint_from_pos:
  "decode_varint_from data pos val shift = Inr (v, pos') \<Longrightarrow> pos < pos' \<and> pos' \<le> length data"
proof (induction data pos val shift rule: decode_varint_from.induct)
  case (1 data pos val shift)
  show ?case
    using "1.prems" "1.IH"
    by (subst (asm) decode_varint_from.simps) (fastforce simp: Let_def split: if_splits)
qed

lemma decode_varint_pos: "decode_varint data pos = Inr (v, pos') \<Longrightarrow> pos < pos' \<and> pos' \<le> length data"
  unfolding decode_varint_def by (rule decode_varint_from_pos)

function decode_fields :: "string \<Rightarrow> nat \<Rightarrow> fields \<Rightarrow> fields res" where
  "decode_fields data pos fs =
     (if length data \<le> pos then Inr fs
      else case decode_varint data pos of
             Inl e \<Rightarrow> Inl e
           | Inr (tag, pos1) \<Rightarrow>
               (let field_num = drop_bit 3 tag; wire_type = tag AND 0x07
                in if wire_type = 2 then
                     (case decode_varint data pos1 of
                        Inl e \<Rightarrow> Inl e
                      | Inr (val_len, pos2) \<Rightarrow>
                          decode_fields data (pos2 + nat val_len)
                            (append_field fs field_num
                               (FBytes (take (nat val_len) (drop pos2 data)))))
                   else if wire_type = 0 then
                     (case decode_varint data pos1 of
                        Inl e \<Rightarrow> Inl e
                      | Inr (int_val, pos2) \<Rightarrow>
                          decode_fields data pos2 (append_field fs field_num (FInt int_val)))
                   else Inl NotImplementedError))"
  by pat_completeness auto
termination
  by (relation "measure (\<lambda>(data, pos, _). length data - pos)")
     (auto dest!: decode_varint_pos intro!: diff_less_mono2)

declare decode_fields.simps [simp del]

definition decode_message :: "string \<Rightarrow> fields res" where
  "decode_message data = decode_fields data 0 []"

definition get_str_field :: "fields \<Rightarrow> int \<Rightarrow> string \<Rightarrow> string res" where
  "get_str_field fs field_num dflt =
     (case dict_getd fs field_num [] of
        [] \<Rightarrow> Inr dflt
      | FBytes b # _ \<Rightarrow> utf8_decode b
      | FInt _ # _ \<Rightarrow> Inl AttributeError)"

definition get_int_field :: "fields \<Rightarrow> int \<Rightarrow> int \<Rightarrow> field_val" where
  "get_int_field fs field_num dflt =
     (case dict_getd fs field_num [] of [] \<Rightarrow> FInt dflt | v # _ \<Rightarrow> v)"

definition opt_field :: "fields \<Rightarrow> int \<Rightarrow> field_val option" where
  "opt_field fs field_num = (case dict_getd fs field_num [] of [] \<Rightarrow> None | v # _ \<Rightarrow> Some v)"

section \<open>Events\<close>

definition serialize_document_change_event :: "document_change_event \<Rightarrow> string" where
  "serialize_document_change_event ev =
     encode_string 1 (Some (uuid_str (dc_source_id ev)))
     @ encode_string 2 (Some (dc_source_type ev))
     @ encode_string 3 (Some (dc_external_id ev))
     @ encode_string 4 (Some (dc_uri ev))
     @ encode_string 5 (Some (action_str (dc_action ev)))"

record raw_document_event =
  rd_source_id :: uuid
  rd_source_type :: string
  rd_external_id :: string
  rd_uri :: string
  rd_action :: string

definition deserialize_document_change_event :: "string \<Rightarrow> raw_document_event res" where
  "deserialize_document_change_event data =
     bind_res (decode_message data) (\<lambda>fs.
     bind_res (get_str_field fs 1 []) (\<lambda>s1.
     bind_res (uuid_parse s1) (\<lambda>source_id.
     bind_res (get_str_field fs 2 []) (\<lambda>source_type.
     bind_res (get_str_field fs 3 []) (\<lambda>external_id.
     bind_res (get_str_field fs 4 []) (\<lambda>uri.
     bind_res (get_str_field fs 5 []) (\<lambda>action.
       Inr \<lparr>rd_source_id = source_id, rd_source_type = source_type,
            rd_external_id = external_id, rd_uri = uri, rd_action = action\<rparr>)))))))"

definition truthy_str :: "string option \<Rightarrow> string option" where
  "truthy_str w = (case w of None \<Rightarrow> None | Some s \<Rightarrow> if s = [] then None else Some s)"

definition serialize_entity_upsert_event :: "entity_upsert_event \<Rightarrow> string" where
  "serialize_entity_upsert_event ev =
     encode_string 1 (truthy_str (eu_workspace_id ev))
     @ encode_string 2 (Some (eu_id ev))
     @ encode_string 3 (Some (eu_source_id ev))
     @ encode_string 4 (Some (eu_entity_type ev))
     @ encode_string 5 (Some (eu_name ev))
     @ encode_string 6 (Some (eu_display_name ev))
     @ encode_string 7 (Some (json_dumps (JObj (eu_metadata ev))))
     @ (case eu_version ev of None \<Rightarrow> [] | Some v \<Rightarrow> encode_int 8 v)"

definition loads_or_empty :: "string \<Rightarrow> json" where
  "loads_or_empty s = (case json_loads s of Inl _ \<Rightarrow> JObj [] | Inr v \<Rightarrow> v)"

record raw_entity_event =
  re_workspace_id :: "string option"
  re_id :: string
  re_source_id :: string
  re_entity_type :: string
  re_name :: string
  re_display_name :: string
  re_metadata :: json
  re_version :: "field_val option"

definition deserialize_entity_upsert_event :: "string \<Rightarrow> raw_entity_event res" where
  "deserialize_entity_upsert_event data =
     bind_res (decode_message data) (\<lambda>fs.
     bind_res (get_str_field fs 7 ''{}'') (\<lambda>meta_str.
     bind_res (get_str_field fs 1 []) (\<lambda>ws_str.
     bind_res (get_str_field fs 2 []) (\<lambda>id.
     bind_res (get_str_field fs 3 []) (\<lambda>source_id.
     bind_res (get_str_field fs 4 []) (\<lambda>entity_type.
     bind_res (get_str_field fs 5 []) (\<lambda>name.
     bind_res (get_str_field fs 6 []) (\<lambda>display_name.
       Inr \<lparr>re_workspace_id = truthy_str (Some ws_str), re_id = id,
            re_source_id = source_id, re_entity_type = entity_type, re_name = name,
            re_display_name = display_name, re_metadata = loads_or_empty meta_str,
            re_version = opt_field fs 8\<rparr>))))))))"

definition serialize_edge_upsert_event :: "edge_upsert_event \<Rightarrow> string" where
  "serialize_edge_upsert_event ev =
     encode_string 1 (truthy_str (ee_workspace_id ev))
     @ encode_string 2 (Some (ee_id ev))
     @ encode_string 3 (Some (ee_source_entity_id ev))
     @ encode_string 4 (Some (ee_target_entity_id ev))
     @ encode_string 5 (Some (ee_edge_type ev))
     @ encode_string 6 (Some (json_dumps (JObj (ee_metadata ev))))
     @ (case ee_version ev of None \<Rightarrow> [] | Some v \<Rightarrow> encode_int 7 v)"

record raw_edge_event =
  rg_workspace_id :: "string option"
  rg_id :: string
  rg_source_entity_id :: string
  rg_target_entity_id :: string
  rg_edge_type :: string
  rg_metadata :: json
  rg_version :: "field_val option"

definition deserialize_edge_upsert_event :: "string \<Rightarrow> raw_edge_event res" where
  "deserialize_edge_upsert_event data =
     bind_res (decode_message data) (\<lambda>fs.
     bind_res (get_str_field fs 6 ''{}'') (\<lambda>meta_str.
     bind_res (get_str_field fs 1 []) (\<lambda>ws_str.
     bind_res (get_str_field fs 2 []) (\<lambda>id.
     bind_res (get_str_field fs 3 []) (\<lambda>source_entity_id.
     bind_res (get_str_field fs 4 []) (\<lambda>target_entity_id.
     bind_res (get_str_field fs 5 []) (\<lambda>edge_type.
       Inr \<lparr>rg_workspace_id = truthy_str (Some ws_str), rg_id = id,
            rg_source_entity_id = source_entity_id, rg_target_entity_id = target_entity_id,
            rg_edge_type = edge_type, rg_metadata = loads_or_empty meta_str,
            rg_version = opt_field fs 7\<rparr>)))))))"

text \<open>The field \<open>dlq_failed_at\<close> is the ISO rendering of the dead-letter timestamp.\<close>

definition serialize_dlq_message :: "dlq_message \<Rightarrow> string" where
  "serialize_dlq_message m =
     encode_string 1 (Some (dlq_original_subject m))
     @ encode_string 2 (Some (dlq_original_payload m))
     @ encode_string 3 (Some (dlq_error m))
     @ encode_int 4 (dlq_attempt_count m)
     @ encode_string 5 (Some (dlq_failed_at m))"

section \<open>Bit arithmetic\<close>

lemma and_127 [simp]: "(v::int) AND 127 = v mod 128"
  using take_bit_eq_mask [of 7 v] by (simp add: take_bit_eq_mod mask_eq_exp_minus_1)

lemma and_7: "(v::int) AND 7 = v mod 8"
  using take_bit_eq_mask [of 3 v] by (simp add: take_bit_eq_mod mask_eq_exp_minus_1)

lemma and_128: "0 \<le> b \<Longrightarrow> b < 256 \<Longrightarrow> ((b::int) AND 128 = 0) = (b < 128)"
proof -
  assume b: "0 \<le> b" "b < 256"
  have "(b AND 128 = 0) = (\<not> bit b 7)" using and_exp_eq_0_iff_not_bit [of b 7] by simp
  also have "\<dots> = (b < 128)" using b by (auto simp: bit_iff_odd) presburger+
  finally show ?thesis .
qed

lemma or_128: "0 \<le> b \<Longrightarrow> b < 128 \<Longrightarrow> ((b::int) OR 128) = b + 128"
proof -
  assume b: "0 \<le> b" "b < 128"
  have "b AND 128 = 0" using and_128 b by simp
  then show ?thesis by (simp add: disjunctive_add_eq_or)
qed

lemma or_shift: "0 \<le> val \<Longrightarrow> val < 2 ^ s \<Longrightarrow> ((val::int) OR push_bit s x) = val + x * 2 ^ s"
proof -
  assume v: "0 \<le> val" "val < 2 ^ s"
  have "take_bit s val = val" using v by (simp add: take_bit_int_eq_self)
  then have "val AND push_bit s x = 0"
    by (metis (no_types) and.left_neutral and.right_neutral bit_eq_iff bit_and_iff bit_push_bit_iff bit_take_bit_iff bit_0_eq bot_apply not_le leD bot_bool_def)
  then show ?thesis by (simp add: disjunctive_add_eq_or push_bit_eq_mult)
qed

lemma or_tag: "(push_bit 3 (k::int) OR 2) = 8 * k + 2"
proof -
  have "push_bit 3 k OR 2 = 2 OR push_bit 3 k" by (simp add: or.commute)
  then show ?thesis using or_shift [of 2 3 k] by simp
qed

section \<open>Varint round trip\<close>

definition shift_pos :: "nat \<Rightarrow> (int \<times> nat) res \<Rightarrow> (int \<times> nat) res" where
  "shift_pos k r = bind_res r (\<lambda>(v, p). Inr (v, p + k))"

lemma decode_varint_from_Cons:
  "decode_varint_from (c # data) (Suc pos) val shift
     = shift_pos 1 (decode_varint_from data pos val shift)"
proof (induction data pos val shift rule: decode_varint_from.induct)
  case (1 data pos val shift)
  show ?case
    using "1.IH"
    by (subst (1 2) decode_varint_from.simps) (auto simp: shift_pos_def Let_def)
qed

lemma decode_varint_append:
  "decode_varint (pre @ data) (length pre + pos) = shift_pos (length pre) (decode_varint data pos)"
proof (induction pre)
  case Nil
  show ?case by (cases "decode_varint data pos") (auto simp: shift_pos_def)
next
  case (Cons c pre)
  then show ?case
    by (cases "decode_varint data pos") (auto simp: decode_varint_def decode_varint_from_Cons shift_pos_def)
qed

lemma encode_varint_bytes:
  assumes "0 \<le> v"
  shows "encode_varint v =
    (if v < 128 then [chr (nat v)] else chr (nat (v mod 128 + 128)) # encode_varint (v div 128))"
proof -
  have "(v mod 128 OR 128) = v mod 128 + 128" by (rule or_128) auto
  then show ?thesis
    using assms by (subst encode_varint.simps) (auto simp: drop_bit_eq_div)
qed

lemma decode_encode_varint_from:
  assumes "0 \<le> v" and "0 \<le> val" and "val < 2 ^ shift"
  shows "decode_varint_from (encode_varint v @ rest) 0 val shift
    = Inr (val + v * 2 ^ shift, length (encode_varint v))"
  using assms
proof (induction v arbitrary: val shift rule: encode_varint.induct)
  case (1 v)
  show ?case
  proof (cases "v < 128")
    case True
    have b: "int (ord (chr (nat v))) = v" using True "1.prems"(1) by simp
    have "v AND 128 = 0" using and_128 [of v] True "1.prems"(1) by simp
    moreover have enc: "encode_varint v = [chr (nat v)]"
      using True "1.prems"(1) by (simp add: encode_varint_bytes)
    moreover have "v mod 128 = v" using True "1.prems"(1) by simp
    ultimately show ?thesis
      unfolding enc using b or_shift [OF "1.prems"(2,3), of v]
      by (subst decode_varint_from.simps) simp
  next
    case False
    let ?b = "v mod 128 + 128"
    have b: "int (ord (chr (nat ?b))) = ?b" by (simp add: nat_add_distrib)
    have nz: "?b AND 128 \<noteq> 0" using and_128 [of ?b] by simp
    have low: "?b mod 128 = v mod 128" by simp
    have val': "val OR push_bit shift (v mod 128) = val + v mod 128 * 2 ^ shift"
      by (rule or_shift [OF "1.prems"(2,3)])
    have "v mod 128 * 2 ^ shift \<le> 127 * 2 ^ shift" by (intro mult_right_mono) auto
    moreover have "2 ^ (shift + 7) = 128 * (2 :: int) ^ shift" by (simp add: power_add)
    ultimately have bound: "val + v mod 128 * 2 ^ shift < 2 ^ (shift + 7)"
      using "1.prems"(3) by linarith
    have IH: "decode_varint_from (encode_varint (v div 128) @ rest) 0 (val + v mod 128 * 2 ^ shift) (shift + 7)
        = Inr (val + v mod 128 * 2 ^ shift + v div 128 * 2 ^ (shift + 7), length (encode_varint (v div 128)))"
      using "1.IH" [of "val + v mod 128 * 2 ^ shift" "shift + 7"] False "1.prems" bound
      by (simp add: drop_bit_eq_div)
    have "v = v mod 128 + v div 128 * 128" by simp
    then have "v * 2 ^ shift = (v mod 128 + v div 128 * 128) * 2 ^ shift" by (simp only:)
    then have sum: "v mod 128 * 2 ^ shift + v div 128 * 2 ^ (shift + 7) = v * 2 ^ shift"
      by (simp only: distrib_right power_add) simp
    have enc: "encode_varint v = chr (nat ?b) # encode_varint (v div 128)"
      using False "1.prems"(1) by (simp add: encode_varint_bytes)
    show ?thesis
      unfolding enc using b nz low val' IH sum
      by (subst decode_varint_from.simps)
         (simp add: Let_def decode_varint_from_Cons shift_pos_def add.assoc)
  qed
qed

lemma varint_roundtrip:
  "0 \<le> v \<Longrightarrow> decode_varint (encode_varint v @ rest) 0 = Inr (v, length (encode_varint v))"
  using decode_encode_varint_from [of v 0 0 rest] by (simp add: decode_varint_def)

section \<open>Message round trip\<close>

lemma decode_fields_append:
  "decode_fields (pre @ data) (length pre + pos) fs = decode_fields data pos fs"
proof (induction data pos fs rule: decode_fields.induct)
  case (1 data pos fs)
  show ?case
  proof (cases "length data \<le> pos")
    case True
    then show ?thesis by (subst (1 2) decode_fields.simps) simp
  next
    case False
    show ?thesis
    proof (cases "decode_varint data pos")
      case (Inl e)
      then show ?thesis using False
        by (subst (1 2) decode_fields.simps) (simp add: decode_varint_append shift_pos_def)
    next
      case (Inr r)
      obtain tag pos1 where r: "r = (tag, pos1)" by force
      have tg: "decode_varint data pos = Inr (tag, pos1)"
        "decode_varint (pre @ data) (length pre + pos) = Inr (tag, length pre + pos1)"
        using Inr r by (simp_all add: decode_varint_append shift_pos_def)
      show ?thesis
      proof (cases "decode_varint data pos1")
        case (Inl e)
        then have "decode_varint (pre @ data) (length pre + pos1) = Inl e"
          by (simp add: decode_varint_append shift_pos_def)
        then show ?thesis using False tg Inl
          by (subst (1 2) decode_fields.simps) (simp add: Let_def)
      next
        case (Inr r2)
        obtain v pos2 where r2: "r2 = (v, pos2)" by force
        have "decode_varint (pre @ data) (length pre + pos1) = Inr (v, length pre + pos2)"
          using Inr r2 by (simp add: decode_varint_append shift_pos_def)
        then show ?thesis
          using False tg Inr r2
            "1.IH"(1) [OF False tg(1) refl refl refl _ Inr [unfolded r2] refl]
            "1.IH"(2) [OF False tg(1) refl refl refl _ _ Inr [unfolded r2] refl]
          by (subst (1 2) decode_fields.simps) (simp add: Let_def add.assoc)
      qed
    qed
  qed
qed

definition put_str :: "fields \<Rightarrow> int \<Rightarrow> string option \<Rightarrow> fields" where
  "put_str fs k v =
     (case truthy_str v of None \<Rightarrow> fs | Some s \<Rightarrow> append_field fs k (FBytes (utf8_encode s)))"

lemma decode_string_field:
  assumes "0 \<le> k"
  shows "decode_fields (encode_string k v @ rest) 0 fs = decode_fields rest 0 (put_str fs k v)"
proof (cases "truthy_str v")
  case None
  then have "encode_string k v = []"
    by (auto simp: truthy_str_def encode_string_def split: option.splits if_splits)
  then show ?thesis using None by (simp add: put_str_def)
next
  case (Some s)
  then have v: "v = Some s" "s \<noteq> []" by (auto simp: truthy_str_def split: option.splits if_splits)
  let ?p = "utf8_encode s" and ?tag = "8 * k + 2"
  let ?t = "encode_varint ?tag" and ?l = "encode_varint (int (length ?p))"
  have enc: "encode_string k v @ rest = ?t @ ?l @ ?p @ rest"
    using v by (simp add: encode_string_def or_tag Let_def)
  have d1: "decode_varint (?t @ ?l @ ?p @ rest) 0 = Inr (?tag, length ?t)"
    using assms by (intro varint_roundtrip) simp
  have d2: "decode_varint (?t @ ?l @ ?p @ rest) (length ?t) = Inr (int (length ?p), length ?t + length ?l)"
    using decode_varint_append [of ?t "?l @ ?p @ rest" 0] varint_roundtrip [of "int (length ?p)" "?p @ rest"]
    by (simp add: shift_pos_def add.commute)
  have ne: "?t \<noteq> []" by (subst encode_varint.simps) simp
  have dt: "drop_bit 3 ?tag = k" "?tag AND 7 = 2"
    by (simp_all add: drop_bit_eq_div and_7)
  have tk: "take (length ?p) (drop (length ?t + length ?l) (?t @ ?l @ ?p @ rest)) = ?p" by simp
  have "decode_fields (?t @ ?l @ ?p @ rest) 0 fs
      = decode_fields (?t @ ?l @ ?p @ rest) (length ?t + length ?l + length ?p) (append_field fs k (FBytes ?p))"
    using ne d1 d2 dt tk by (subst decode_fields.simps) (simp add: Let_def)
  also have "\<dots> = decode_fields rest 0 (append_field fs k (FBytes ?p))"
    using decode_fields_append [of "?t @ ?l @ ?p" rest 0] by (simp add: add.assoc)
  finally show ?thesis using enc Some by (simp add: put_str_def)
qed

lemma decode_int_field:
  assumes "0 \<le> k" and "0 \<le> i"
  shows "decode_fields (encode_int k i @ rest) 0 fs = decode_fields rest 0 (append_field fs k (FInt i))"
proof -
  let ?tag = "8 * k"
  let ?t = "encode_varint ?tag" and ?v = "encode_varint i"
  have enc: "encode_int k i @ rest = ?t @ ?v @ rest"
    by (simp add: encode_int_def push_bit_eq_mult mult.commute)
  have d1: "decode_varint (?t @ ?v @ rest) 0 = Inr (?tag, length ?t)"
    using assms by (intro varint_roundtrip) simp
  have d2: "decode_varint (?t @ ?v @ rest) (length ?t) = Inr (i, length ?t + length ?v)"
    using decode_varint_append [of ?t "?v @ rest" 0] varint_roundtrip [OF assms(2), of rest]
    by (simp add: shift_pos_def add.commute)
  have ne: "?t \<noteq> []" by (subst encode_varint.simps) simp
  have dt: "drop_bit 3 ?tag = k" "?tag AND 7 = 0" by (simp_all add: drop_bit_eq_div and_7)
  have "decode_fields (?t @ ?v @ rest) 0 fs
      = decode_fields (?t @ ?v @ rest) (length ?t + length ?v) (append_field fs k (FInt i))"
    using ne d1 d2 dt by (subst decode_fields.simps) (simp add: Let_def)
  also have "\<dots> = decode_fields rest 0 (append_field fs k (FInt i))"
    using decode_fields_append [of "?t @ ?v" rest 0] by simp
  finally show ?thesis using enc by simp
qed

lemma decode_fields_Nil: "decode_fields [] 0 fs = Inr fs"
  by (subst decode_fields.simps) simp

lemmas decode_field_end =
  decode_string_field [where rest = "[]", simplified decode_fields_Nil append_Nil2]
  decode_int_field [where rest = "[]", simplified decode_fields_Nil append_Nil2]

lemmas decode_field_simps = decode_string_field decode_int_field decode_field_end decode_fields_Nil

lemma getd_append_field:
  "dict_getd (append_field fs k v) k' [] = (if k' = k then dict_getd fs k [] @ [v] else dict_getd fs k' [])"
  by (simp add: append_field_def)

lemma getd_put_str:
  "dict_getd (put_str fs k v) k' [] =
     (if k' = k then dict_getd fs k [] @ (case truthy_str v of None \<Rightarrow> [] | Some s \<Rightarrow> [FBytes (utf8_encode s)])
      else dict_getd fs k' [])"
  by (simp add: put_str_def getd_append_field split: option.splits)

lemma getd_Nil [simp]: "dict_getd [] k v = v"
  by (simp add: dict_getd_def)

lemmas field_get_simps = get_str_field_def opt_field_def getd_append_field getd_put_str

lemma truthy_str_None [simp]: "truthy_str None = None"
  by (simp add: truthy_str_def)

lemma truthy_str_idem [simp]: "truthy_str (truthy_str w) = truthy_str w"
  by (simp add: truthy_str_def split: option.splits)

lemma get_written_str:
  "(case (case truthy_str (Some s) of None \<Rightarrow> [] | Some t \<Rightarrow> [FBytes (utf8_encode t)]) of
      [] \<Rightarrow> Inr [] | FBytes b # _ \<Rightarrow> utf8_decode b | FInt _ # _ \<Rightarrow> Inl AttributeError) = Inr s"
  by (simp add: truthy_str_def)

lemma document_event_wire:
  "deserialize_document_change_event (serialize_document_change_event ev) =
     Inr \<lparr>rd_source_id = dc_source_id ev, rd_source_type = dc_source_type ev,
          rd_external_id = dc_external_id ev, rd_uri = dc_uri ev, rd_action = action_str (dc_action ev)\<rparr>"
  unfolding deserialize_document_change_event_def serialize_document_change_event_def decode_message_def
  by (simp add: decode_field_simps field_get_simps get_written_str)

lemma entity_event_wire:
  assumes "json_wf (JObj (eu_metadata ev))" and "\<forall>v. eu_version ev = Some v \<longrightarrow> 0 \<le> v"
  shows "deserialize_entity_upsert_event (serialize_entity_upsert_event ev) =
     Inr \<lparr>re_workspace_id = truthy_str (eu_workspace_id ev), re_id = eu_id ev,
          re_source_id = eu_source_id ev, re_entity_type = eu_entity_type ev,
          re_name = eu_name ev, re_display_name = eu_display_name ev,
          re_metadata = JObj (eu_metadata ev),
          re_version = map_option FInt (eu_version ev)\<rparr>"
proof -
  let ?m = "json_dumps (JObj (eu_metadata ev))"
  have m: "truthy_str (Some ?m) = Some ?m" "loads_or_empty ?m = JObj (eu_metadata ev)"
    using json_dumps_nonempty [OF assms(1)] json_roundtrip [OF assms(1)]
    by (simp_all add: truthy_str_def loads_or_empty_def del: json_dumps.simps)
  have w: "truthy_str (Some (case truthy_str (eu_workspace_id ev) of None \<Rightarrow> [] | Some s \<Rightarrow> s))
      = truthy_str (eu_workspace_id ev)"
    by (simp add: truthy_str_def split: option.splits)
  show ?thesis
    unfolding deserialize_entity_upsert_event_def serialize_entity_upsert_event_def decode_message_def
    using assms(2) m w
    by (cases "eu_version ev"; cases "truthy_str (eu_workspace_id ev)")
       (simp_all add: decode_field_simps field_get_simps get_written_str del: json_dumps.simps)
qed

lemma edge_event_wire:
  assumes "json_wf (JObj (ee_metadata ev))" and "\<forall>v. ee_version ev = Some v \<longrightarrow> 0 \<le> v"
  shows "deserialize_edge_upsert_event (serialize_edge_upsert_event ev) =
     Inr \<lparr>rg_workspace_id = truthy_str (ee_workspace_id ev), rg_id = ee_id ev,
          rg_source_entity_id = ee_source_entity_id ev, rg_target_entity_id = ee_target_entity_id ev,
          rg_edge_type = ee_edge_type ev, rg_metadata = JObj (ee_metadata ev),
          rg_version = map_option FInt (ee_version ev)\<rparr>"
proof -
  let ?m = "json_dumps (JObj (ee_metadata ev))"
  have m: "truthy_str (Some ?m) = Some ?m" "loads_or_empty ?m = JObj (ee_metadata ev)"
    using json_dumps_nonempty [OF assms(1)] json_roundtrip [OF assms(1)]
    by (simp_all add: truthy_str_def loads_or_empty_def del: json_dumps.simps)
  have w: "truthy_str (Some (case truthy_str (ee_workspace_id ev) of None \<Rightarrow> [] | Some s \<Rightarrow> s))
      = truthy_str (ee_workspace_id ev)"
    by (simp add: truthy_str_def split: option.splits)
  show ?thesis
    unfolding deserialize_edge_upsert_event_def serialize_edge_upsert_event_def decode_message_def
    using assms(2) m w
    by (cases "ee_version ev"; cases "truthy_str (ee_workspace_id ev)")
       (simp_all add: decode_field_simps field_get_simps get_written_str del: json_dumps.simps)
qed

text \<open>
  A text whose first byte is an opening brace is never a message of this codec: the
  byte 0x7B is read as field 15 with wire type 3.
\<close>

lemma decode_message_brace: "decode_message (CHR ''{'' # rest) = Inl NotImplementedError"
proof -
  have "decode_varint (CHR ''{'' # rest) 0 = Inr (123, 1)"
    unfolding decode_varint_def by (subst decode_varint_from.simps) (simp add: and_128)
  then show ?thesis
    unfolding decode_message_def by (subst decode_fields.simps) (simp add: Let_def and_7)
qed

end
