(* ===== verification/Queue.thy ===== *)
theory Queue
  imports PbEvents
begin

text \<open>
  \<^verbatim>\<open>queue/producer.py\<close> and \<^verbatim>\<open>queue/consumer.py\<close>: what a published payload looks like
  on the wire, and what a consumer does with one raw message: decode and deliver it,
  negatively acknowledge it, or dead-letter it. Pydantic is not part of the
  repository; its lax coercions and its JSON text for merge events are the fields of
  a parameter record. The broker is a parameter too: it stores a message and acknowledges it,
  refuses it, or stores it while the acknowledgement is lost, which the producer sees as a failure.
\<close>

record pydantic =
  py_int :: "json \<Rightarrow> int option"
  py_bool :: "json \<Rightarrow> bool option"
  py_int_bytes :: "string \<Rightarrow> int option"
  py_dump_merge :: "entity_merge_event \<Rightarrow> string"
  py_load_merge :: "string \<Rightarrow> entity_merge_event option"

datatype payload =
    PDoc document_change_event
  | PEntity entity_upsert_event
  | PEdge edge_upsert_event
  | PMerge entity_merge_event
  | PDlq dlq_message

section \<open>Producer\<close>

definition encode_payload :: "pydantic \<Rightarrow> payload \<Rightarrow> string" where
  "encode_payload pyd p =
     (case p of
        PDoc ev \<Rightarrow> serialize_document_change_event ev
      | PEntity ev \<Rightarrow> serialize_entity_upsert_event ev
      | PEdge ev \<Rightarrow> serialize_edge_upsert_event ev
      | PDlq m \<Rightarrow> serialize_dlq_message m
      | PMerge ev \<Rightarrow> py_dump_merge pyd ev)"

type_synonym stream = "(string \<times> string) list"

text \<open>What becomes of a publish: stored and acknowledged, refused, or stored without an acknowledgement in time.\<close>

datatype pub_outcome = Stored | Refused | Unacknowledged

type_synonym broker = "string \<Rightarrow> string \<Rightarrow> pub_outcome"

definition publish :: "pydantic \<Rightarrow> broker \<Rightarrow> string \<Rightarrow> payload \<Rightarrow> stream \<Rightarrow> unit res \<times> stream" where
  "publish pyd broker subject p js =
     (let data = encode_payload pyd p
      in case broker subject data of
           Stored \<Rightarrow> (Inr (), js @ [(subject, data)])
         | Refused \<Rightarrow> (Inl (BackendError ''publish''), js)
         | Unacknowledged \<Rightarrow> (Inl (BackendError ''no acknowledgement''), js @ [(subject, data)]))"

section \<open>Consumer\<close>

datatype payload_type = TDoc | TEntity | TEdge | TMerge

datatype settle = Ack | Nak "rat option" | Term

record raw_msg =
  rm_subject :: string
  rm_data :: string
  rm_num_delivered :: "int option"

record queue_consumer =
  qc_payload_type :: payload_type
  qc_max_deliver :: int

definition get_num_delivered :: "raw_msg \<Rightarrow> int" where
  "get_num_delivered raw = (case rm_num_delivered raw of None \<Rightarrow> 1 | Some n \<Rightarrow> n)"

definition validate_version :: "pydantic \<Rightarrow> field_val option \<Rightarrow> int option res" where
  "validate_version pyd v =
     (case v of
        None \<Rightarrow> Inr None
      | Some (FInt i) \<Rightarrow> Inr (Some i)
      | Some (FBytes b) \<Rightarrow>
          (case py_int_bytes pyd b of None \<Rightarrow> Inl (ValidationError ''version'') | Some i \<Rightarrow> Inr (Some i)))"

definition validate_metadata :: "json \<Rightarrow> metadata res" where
  "validate_metadata j = (case j of JObj kvs \<Rightarrow> Inr kvs | _ \<Rightarrow> Inl (ValidationError ''metadata''))"

text \<open>
  \<^verbatim>\<open>model_validate\<close> on the dictionary a deserialiser returns: the dictionary has no
  \<^verbatim>\<open>is_backfill\<close> and no \<^verbatim>\<open>content_hash\<close> key, so both take the model's default.
\<close>

definition validate_entity :: "pydantic \<Rightarrow> raw_entity_event \<Rightarrow> entity_upsert_event res" where
  "validate_entity pyd r =
     bind_res (validate_metadata (re_metadata r)) (\<lambda>md.
     bind_res (validate_version pyd (re_version r)) (\<lambda>ver.
       Inr \<lparr>eu_workspace_id = re_workspace_id r, eu_id = re_id r,
            eu_source_id = re_source_id r, eu_entity_type = re_entity_type r,
            eu_name = re_name r, eu_display_name = re_display_name r,
            eu_metadata = md, eu_version = ver, eu_is_backfill = False,
            eu_content_hash = None\<rparr>))"

definition validate_edge :: "pydantic \<Rightarrow> raw_edge_event \<Rightarrow> edge_upsert_event res" where
  "validate_edge pyd r =
     bind_res (validate_metadata (rg_metadata r)) (\<lambda>md.
     bind_res (validate_version pyd (rg_version r)) (\<lambda>ver.
       Inr \<lparr>ee_workspace_id = rg_workspace_id r, ee_id = rg_id r,
            ee_source_entity_id = rg_source_entity_id r,
            ee_target_entity_id = rg_target_entity_id r,
            ee_edge_type = rg_edge_type r, ee_metadata = md, ee_version = ver,
            ee_is_backfill = False\<rparr>))"

definition validate_document :: "raw_document_event \<Rightarrow> document_change_event res" where
  "validate_document r =
     (case action_of (rd_action r) of
        None \<Rightarrow> Inl (ValidationError ''action'')
      | Some a \<Rightarrow>
          Inr \<lparr>dc_source_id = rd_source_id r, dc_source_type = rd_source_type r,
               dc_external_id = rd_external_id r, dc_uri = rd_uri r, dc_action = a,
               dc_metadata = None, dc_topology_edges = None\<rparr>)"

definition decode_payload :: "pydantic \<Rightarrow> payload_type \<Rightarrow> string \<Rightarrow> payload res" where
  "decode_payload pyd ty data =
     (case ty of
        TDoc \<Rightarrow> bind_res (deserialize_document_change_event data) (\<lambda>r.
                 bind_res (validate_document r) (\<lambda>ev. Inr (PDoc ev)))
      | TEntity \<Rightarrow> bind_res (deserialize_entity_upsert_event data) (\<lambda>r.
                 bind_res (validate_entity pyd r) (\<lambda>ev. Inr (PEntity ev)))
      | TEdge \<Rightarrow> bind_res (deserialize_edge_upsert_event data) (\<lambda>r.
                 bind_res (validate_edge pyd r) (\<lambda>ev. Inr (PEdge ev)))
      | TMerge \<Rightarrow> (case py_load_merge pyd data of
                     None \<Rightarrow> Inl (ValidationError ''merge'')
                   | Some ev \<Rightarrow> Inr (PMerge ev)))"

record consumed =
  co_yield :: "payload option"
  co_settle :: "settle option"
  co_dlq :: "dlq_message list"

text \<open>
  The dead-letter entry holds the payload decoded with \<^verbatim>\<open>errors="replace"\<close>, whose
  replacement character is outside the modelled strings: that text is a parameter.
  \<open>dlq\<close> says whether the dead-letter publish succeeds, and with which timestamp; the
  message is terminated either way.
\<close>

datatype dlq_outcome = Dlq_published string | Dlq_failed

definition consumer_route_to_dlq ::
  "(string \<Rightarrow> string) \<Rightarrow> dlq_outcome \<Rightarrow> queue_consumer \<Rightarrow> raw_msg \<Rightarrow> int \<Rightarrow> consumed" where
  "consumer_route_to_dlq replaced dlq qc raw attempt_count =
     \<lparr>co_yield = None, co_settle = Some Term,
      co_dlq = (case dlq of
                  Dlq_published failed_at \<Rightarrow>
                      [\<lparr>dlq_original_subject = rm_subject raw,
                       dlq_original_payload = replaced (rm_data raw),
                       dlq_error = ''Exceeded max_deliver='' @ int_str (qc_max_deliver qc),
                       dlq_attempt_count = attempt_count, dlq_failed_at = failed_at\<rparr>]
                | Dlq_failed \<Rightarrow> [])\<rparr>"

definition process_raw ::
  "pydantic \<Rightarrow> (string \<Rightarrow> string) \<Rightarrow> dlq_outcome \<Rightarrow> queue_consumer \<Rightarrow> raw_msg \<Rightarrow> consumed" where
  "process_raw pyd replaced dlq qc raw =
     (let attempt = get_num_delivered raw
      in if qc_max_deliver qc \<le> attempt then consumer_route_to_dlq replaced dlq qc raw attempt
         else case decode_payload pyd (qc_payload_type qc) (rm_data raw) of
                Inl _ \<Rightarrow> \<lparr>co_yield = None, co_settle = Some (Nak None), co_dlq = []\<rparr>
              | Inr p \<Rightarrow> \<lparr>co_yield = Some p, co_settle = None, co_dlq = []\<rparr>)"

section \<open>What survives the queue\<close>

definition wire_entity :: "entity_upsert_event \<Rightarrow> entity_upsert_event" where
  "wire_entity ev =
     ev\<lparr>eu_workspace_id := truthy_str (eu_workspace_id ev),
        eu_is_backfill := False, eu_content_hash := None\<rparr>"

definition wire_edge :: "edge_upsert_event \<Rightarrow> edge_upsert_event" where
  "wire_edge ev =
     ev\<lparr>ee_workspace_id := truthy_str (ee_workspace_id ev), ee_is_backfill := False\<rparr>"

definition wire_document :: "document_change_event \<Rightarrow> document_change_event" where
  "wire_document ev = ev\<lparr>dc_metadata := None, dc_topology_edges := None\<rparr>"

definition entity_wire_ok :: "entity_upsert_event \<Rightarrow> bool" where
  "entity_wire_ok ev \<longleftrightarrow>
     json_wf (JObj (eu_metadata ev))
     \<and> (case eu_version ev of None \<Rightarrow> True | Some v \<Rightarrow> 0 \<le> v)"

definition edge_wire_ok :: "edge_upsert_event \<Rightarrow> bool" where
  "edge_wire_ok ev \<longleftrightarrow>
     json_wf (JObj (ee_metadata ev))
     \<and> (case ee_version ev of None \<Rightarrow> True | Some v \<Rightarrow> 0 \<le> v)"

lemma decode_encode_entity:
  "entity_wire_ok ev \<Longrightarrow> decode_payload pyd TEntity (encode_payload pyd (PEntity ev)) = Inr (PEntity (wire_entity ev))"
  by (simp add: entity_wire_ok_def decode_payload_def encode_payload_def entity_event_wire
      validate_entity_def validate_metadata_def validate_version_def wire_entity_def
      del: json_wf.simps split: option.splits)

lemma decode_encode_edge:
  "edge_wire_ok ev \<Longrightarrow> decode_payload pyd TEdge (encode_payload pyd (PEdge ev)) = Inr (PEdge (wire_edge ev))"
  by (simp add: edge_wire_ok_def decode_payload_def encode_payload_def edge_event_wire
      validate_edge_def validate_metadata_def validate_version_def wire_edge_def
      del: json_wf.simps split: option.splits)

lemma decode_encode_document:
  "decode_payload pyd TDoc (encode_payload pyd (PDoc ev)) = Inr (PDoc (wire_document ev))"
  by (simp add: decode_payload_def encode_payload_def document_event_wire validate_document_def
      wire_document_def)

lemma decode_payload_brace:
  "ty \<noteq> TMerge \<Longrightarrow> decode_payload pyd ty (CHR ''{'' # rest) = Inl NotImplementedError"
  by (cases ty) (simp_all add: decode_payload_def deserialize_document_change_event_def
      deserialize_entity_upsert_event_def deserialize_edge_upsert_event_def decode_message_brace)

section \<open>The queue as an interface\<close>

text \<open>
  What a handler may rely on for one payload type: an event that meets \<open>ok\<close> and is
  published comes out of the consumer as \<open>view\<close> of it, unless its deliveries are used
  up, and a second trip through the queue changes nothing more.
\<close>

locale event_channel =
  fixes pyd :: pydantic
    and ty :: payload_type
    and inj :: "'e \<Rightarrow> payload"
    and ok :: "'e \<Rightarrow> bool"
    and view :: "'e \<Rightarrow> 'e"
  assumes decodes: "ok e \<Longrightarrow> decode_payload pyd ty (encode_payload pyd (inj e)) = Inr (inj (view e))"
    and view_ok: "ok e \<Longrightarrow> ok (view e)"
    and view_view: "view (view e) = view e"
begin

lemma delivered:
  assumes "ok e"
    and "publish pyd broker subject (inj e) js = (r, js @ [(subject, data)])"
    and "get_num_delivered raw < qc_max_deliver qc" and "rm_data raw = data"
    and "qc_payload_type qc = ty"
  shows "process_raw pyd replaced dlq qc raw
    = \<lparr>co_yield = Some (inj (view e)), co_settle = None, co_dlq = []\<rparr>"
proof -
  have "data = encode_payload pyd (inj e)"
    using assms(2) by (simp add: publish_def Let_def split: pub_outcome.splits)
  then show ?thesis
    using assms decodes [OF assms(1)] by (simp add: process_raw_def)
qed

lemma republished:
  "ok e \<Longrightarrow> decode_payload pyd ty (encode_payload pyd (inj (view e))) = Inr (inj (view e))"
  using decodes [OF view_ok] by (simp add: view_view)

end

interpretation entity_channel: event_channel pyd TEntity PEntity entity_wire_ok wire_entity
  for pyd :: pydantic
  by unfold_locales (auto simp: decode_encode_entity wire_entity_def entity_wire_ok_def)

interpretation edge_channel: event_channel pyd TEdge PEdge edge_wire_ok wire_edge
  for pyd :: pydantic
  by unfold_locales (auto simp: decode_encode_edge wire_edge_def edge_wire_ok_def)

interpretation document_channel: event_channel pyd TDoc PDoc "\<lambda>_. True" wire_document
  for pyd :: pydantic
  by unfold_locales (auto simp: decode_encode_document wire_document_def)

section \<open>Properties\<close>

text \<open>
  Claim C9: An entity upsert event that is published and then delivered reaches the
  handler with every field it was published with, except that the backfill flag is
  false and the content hash is absent: the wire format has no field for either.
\<close>

theorem entity_event_survives_queue:
  assumes "entity_wire_ok ev"
    and "publish pyd broker subject (PEntity ev) js = (r, js @ [(subject, data)])"
    and "get_num_delivered raw < qc_max_deliver qc" and "rm_data raw = data"
    and "qc_payload_type qc = TEntity"
  shows "process_raw pyd replaced dlq qc raw
    = \<lparr>co_yield = Some (PEntity (ev\<lparr>eu_workspace_id := truthy_str (eu_workspace_id ev),
         eu_is_backfill := False, eu_content_hash := None\<rparr>)), co_settle = None, co_dlq = []\<rparr>"
  using entity_channel.delivered [OF assms] by (simp add: wire_entity_def)

definition sample_pydantic :: pydantic where
  "sample_pydantic =
     \<lparr>py_int = (\<lambda>_. None), py_bool = (\<lambda>_. None), py_int_bytes = (\<lambda>_. None),
      py_dump_merge = (\<lambda>ev. ''M'' @ em_workspace_id ev),
      py_load_merge = (\<lambda>_. None)\<rparr>"

definition sample_dlq :: dlq_outcome where
  "sample_dlq = Dlq_published ''2024-01-01T00:00:00+00:00''"

definition sample_entity :: entity_upsert_event where
  "sample_entity =
     \<lparr>eu_workspace_id = Some ''w'', eu_id = ''i'', eu_source_id = ''s'', eu_entity_type = ''t'',
      eu_name = ''n'', eu_display_name = ''d'', eu_metadata = [(''k'', JInt 7)],
      eu_version = Some 300, eu_is_backfill = True, eu_content_hash = Some ''h''\<rparr>"

lemma sample_entity_ok: "entity_wire_ok sample_entity"
  by (simp add: entity_wire_ok_def sample_entity_def)

theorem entity_event_survives_queue_witness:
  "\<exists>data p. publish sample_pydantic (\<lambda>_ _. Stored) ''outbox.entity.upsert'' (PEntity sample_entity) []
       = (Inr (), [(''outbox.entity.upsert'', data)])
     \<and> eu_is_backfill sample_entity
     \<and> co_yield (process_raw sample_pydantic (\<lambda>s. s) sample_dlq
         \<lparr>qc_payload_type = TEntity, qc_max_deliver = 5\<rparr>
         \<lparr>rm_subject = ''outbox.entity.upsert'', rm_data = data, rm_num_delivered = Some 1\<rparr>)
       = Some (PEntity p)
     \<and> \<not> eu_is_backfill p"
proof -
  let ?d = "encode_payload sample_pydantic (PEntity sample_entity)"
  let ?s = "''outbox.entity.upsert''"
  have pub: "publish sample_pydantic (\<lambda>_ _. Stored) ?s (PEntity sample_entity) [] = (Inr (), [] @ [(?s, ?d)])"
    by (simp add: publish_def)
  have "co_yield (process_raw sample_pydantic (\<lambda>s. s) sample_dlq
      \<lparr>qc_payload_type = TEntity, qc_max_deliver = 5\<rparr>
      \<lparr>rm_subject = ?s, rm_data = ?d, rm_num_delivered = Some 1\<rparr>)
    = Some (PEntity (sample_entity\<lparr>eu_workspace_id := truthy_str (eu_workspace_id sample_entity),
         eu_is_backfill := False, eu_content_hash := None\<rparr>))"
    by (subst entity_event_survives_queue [OF sample_entity_ok pub]) (simp_all add: get_num_delivered_def)
  then show ?thesis using pub by (auto simp: sample_entity_def)
qed

lemma process_raw_cases:
  "process_raw pyd replaced dlq qc raw =
     (if qc_max_deliver qc \<le> get_num_delivered raw
      then consumer_route_to_dlq replaced dlq qc raw (get_num_delivered raw)
      else if is_ok (decode_payload pyd (qc_payload_type qc) (rm_data raw))
      then \<lparr>co_yield = Some (projr (decode_payload pyd (qc_payload_type qc) (rm_data raw))),
            co_settle = None, co_dlq = []\<rparr>
      else \<lparr>co_yield = None, co_settle = Some (Nak None), co_dlq = []\<rparr>)"
  by (auto simp: process_raw_def is_ok_def Let_def split: sum.splits)

text \<open>
  The successive deliveries of one message: the broker counts them from 1 and goes on
  while the message is not settled.
\<close>

definition nth_delivery ::
  "pydantic \<Rightarrow> (string \<Rightarrow> string) \<Rightarrow> dlq_outcome \<Rightarrow> queue_consumer \<Rightarrow> raw_msg \<Rightarrow> nat \<Rightarrow> consumed" where
  "nth_delivery pyd replaced dlq qc raw n =
     process_raw pyd replaced dlq qc (raw\<lparr>rm_num_delivered := Some (int n)\<rparr>)"

lemma nth_delivery_yield:
  "co_yield (nth_delivery pyd replaced dlq qc raw n) \<noteq> None
     \<longleftrightarrow> int n < qc_max_deliver qc \<and> is_ok (decode_payload pyd (qc_payload_type qc) (rm_data raw))"
  by (simp add: nth_delivery_def process_raw_cases get_num_delivered_def consumer_route_to_dlq_def)

lemma filter_upto: "k \<le> N \<Longrightarrow> length (filter (\<lambda>n. n < k) [1..<N]) = k - 1"
proof (induction N)
  case 0
  then show ?case by simp
next
  case (Suc N)
  show ?case
  proof (cases "k \<le> N")
    case True
    then show ?thesis using Suc by simp
  next
    case False
    then have k: "k = Suc N" using Suc.prems by simp
    have "filter (\<lambda>n. n < k) [1..<Suc N] = [1..<Suc N]" using k by (intro filter_True) auto
    then show ?thesis using k by simp
  qed
qed

text \<open>
  Of the deliveries the broker makes of one decodable message, the handler
  sees exactly those below the limit: one fewer than \<open>max_deliver\<close>. The delivery that
  reaches the limit terminates the message and writes one dead-letter entry, or none
  when the dead-letter publish fails, in which case the message is gone.
\<close>

theorem deliveries_before_dead_letter:
  assumes "is_ok (decode_payload pyd (qc_payload_type qc) (rm_data raw))"
    and "qc_max_deliver qc = int (Suc k)"
  shows "length (filter (\<lambda>n. co_yield (nth_delivery pyd replaced dlq qc raw n) \<noteq> None)
      [1..<Suc (Suc k)]) = k
    \<and> co_settle (nth_delivery pyd replaced dlq qc raw (Suc k)) = Some Term
    \<and> length (co_dlq (nth_delivery pyd replaced dlq qc raw (Suc k))) = (case dlq of Dlq_published _ \<Rightarrow> 1 | Dlq_failed \<Rightarrow> 0)"
proof -
  have "(\<lambda>n. co_yield (nth_delivery pyd replaced dlq qc raw n) \<noteq> None) = (\<lambda>n. n < Suc k)"
    using assms by (simp only: nth_delivery_yield fun_eq_iff) auto
  then have "length (filter (\<lambda>n. co_yield (nth_delivery pyd replaced dlq qc raw n) \<noteq> None)
      [1..<Suc (Suc k)]) = k"
    using filter_upto [of "Suc k" "Suc (Suc k)"] by (simp only:)
  moreover have "nth_delivery pyd replaced dlq qc raw (Suc k)
      = consumer_route_to_dlq replaced dlq qc (raw\<lparr>rm_num_delivered := Some (int (Suc k))\<rparr>) (int (Suc k))"
    using assms(2) by (simp add: nth_delivery_def process_raw_cases get_num_delivered_def)
  ultimately show ?thesis by (simp add: consumer_route_to_dlq_def split: dlq_outcome.split)
qed

definition sample_raw :: raw_msg where
  "sample_raw = \<lparr>rm_subject = ''outbox.entity.upsert'',
     rm_data = encode_payload sample_pydantic (PEntity sample_entity), rm_num_delivered = None\<rparr>"

theorem deliveries_before_dead_letter_witness:
  "length (filter (\<lambda>n. co_yield (nth_delivery sample_pydantic (\<lambda>s. s) Dlq_failed
      \<lparr>qc_payload_type = TEntity, qc_max_deliver = 5\<rparr> sample_raw n) \<noteq> None) [1..<6]) = 4"
proof -
  have "is_ok (decode_payload sample_pydantic TEntity (rm_data sample_raw))"
    using decode_encode_entity [OF sample_entity_ok] by (simp add: sample_raw_def)
  then show ?thesis
    using deliveries_before_dead_letter
      [of sample_pydantic "\<lparr>qc_payload_type = TEntity, qc_max_deliver = 5\<rparr>" sample_raw 4 "\<lambda>s. s" Dlq_failed]
    by simp
qed

text \<open>
  A JSON object is never readable by the consumers of document, entity or
  edge events: whatever follows the opening brace, the message is negatively
  acknowledged on every delivery below the limit and terminated at the limit.
\<close>

theorem json_body_never_delivered:
  assumes "qc_payload_type qc \<noteq> TMerge" and "rm_data raw = CHR ''{'' # rest"
  shows "co_yield (process_raw pyd replaced dlq qc raw) = None
    \<and> co_settle (process_raw pyd replaced dlq qc raw)
        = Some (if qc_max_deliver qc \<le> get_num_delivered raw then Term else Nak None)"
  using assms decode_payload_brace [OF assms(1), of pyd rest]
  by (simp add: process_raw_cases consumer_route_to_dlq_def)

theorem json_body_never_delivered_witness:
  "co_yield (process_raw sample_pydantic (\<lambda>s. s) sample_dlq
     \<lparr>qc_payload_type = TDoc, qc_max_deliver = 5\<rparr>
     \<lparr>rm_subject = ''ingest.changes.k8s-operator'', rm_data = CHR ''{'' # ''}'', rm_num_delivered = Some 1\<rparr>) = None"
  using json_body_never_delivered
    [of "\<lparr>qc_payload_type = TDoc, qc_max_deliver = 5\<rparr>"
        "\<lparr>rm_subject = ''ingest.changes.k8s-operator'', rm_data = CHR ''{'' # ''}'', rm_num_delivered = Some 1\<rparr>"
        "''}''" sample_pydantic "\<lambda>s. s" sample_dlq]
  by simp

end
