(* ===== verification/OutboxWorker.thy ===== *)
theory OutboxWorker
  imports Queue
begin

text \<open>
  \<^verbatim>\<open>outbox_worker.py\<close>: the poller that moves rows of the \<^verbatim>\<open>outbox_events\<close> table to the
  queue. One tick takes the oldest unprocessed rows, validates each payload against
  the event model its type names, publishes it and marks the row. A row whose payload
  does not validate, or whose publish is refused, stays unprocessed.
\<close>

record outbox_row =
  ob_id :: uuid
  ob_event_type :: string
  ob_payload :: metadata
  ob_entity_id :: "uuid option"
  ob_created_at :: rat
  ob_processed :: bool
  ob_processed_at :: "rat option"

section \<open>Model validation\<close>

definition req_str :: "metadata \<Rightarrow> string \<Rightarrow> string res" where
  "req_str d k = (case map_of d k of Some (JStr s) \<Rightarrow> Inr s | _ \<Rightarrow> Inl (ValidationError k))"

definition opt_str :: "metadata \<Rightarrow> string \<Rightarrow> string option res" where
  "opt_str d k =
     (case map_of d k of
        None \<Rightarrow> Inr None
      | Some JNull \<Rightarrow> Inr None
      | Some (JStr s) \<Rightarrow> Inr (Some s)
      | Some _ \<Rightarrow> Inl (ValidationError k))"

definition dict_metadata :: "metadata \<Rightarrow> metadata res" where
  "dict_metadata d =
     (case map_of d ''metadata'' of
        None \<Rightarrow> Inr []
      | Some (JObj kvs) \<Rightarrow> Inr kvs
      | Some _ \<Rightarrow> Inl (ValidationError ''metadata''))"

definition dict_version :: "pydantic \<Rightarrow> metadata \<Rightarrow> int option res" where
  "dict_version pyd d =
     (case map_of d ''version'' of
        None \<Rightarrow> Inr None
      | Some JNull \<Rightarrow> Inr None
      | Some (JInt i) \<Rightarrow> Inr (Some i)
      | Some j \<Rightarrow> (case py_int pyd j of None \<Rightarrow> Inl (ValidationError ''version'') | Some i \<Rightarrow> Inr (Some i)))"

definition dict_backfill :: "pydantic \<Rightarrow> metadata \<Rightarrow> bool res" where
  "dict_backfill pyd d =
     (case map_of d ''is_backfill'' of
        None \<Rightarrow> Inr False
      | Some (JBool b) \<Rightarrow> Inr b
      | Some j \<Rightarrow> (case py_bool pyd j of None \<Rightarrow> Inl (ValidationError ''is_backfill'') | Some b \<Rightarrow> Inr b))"

definition entity_model_validate :: "pydantic \<Rightarrow> metadata \<Rightarrow> entity_upsert_event res" where
  "entity_model_validate pyd d =
     bind_res (opt_str d ''workspace_id'') (\<lambda>ws.
     bind_res (req_str d ''id'') (\<lambda>id.
     bind_res (req_str d ''source_id'') (\<lambda>src.
     bind_res (req_str d ''entity_type'') (\<lambda>ty.
     bind_res (req_str d ''name'') (\<lambda>nm.
     bind_res (req_str d ''display_name'') (\<lambda>dn.
     bind_res (dict_metadata d) (\<lambda>md.
     bind_res (dict_version pyd d) (\<lambda>ver.
     bind_res (dict_backfill pyd d) (\<lambda>bf.
     bind_res (opt_str d ''content_hash'') (\<lambda>h.
       Inr \<lparr>eu_workspace_id = ws, eu_id = id, eu_source_id = src, eu_entity_type = ty,
            eu_name = nm, eu_display_name = dn, eu_metadata = md, eu_version = ver,
            eu_is_backfill = bf, eu_content_hash = h\<rparr>))))))))))"

definition edge_model_validate :: "pydantic \<Rightarrow> metadata \<Rightarrow> edge_upsert_event res" where
  "edge_model_validate pyd d =
     bind_res (opt_str d ''workspace_id'') (\<lambda>ws.
     bind_res (req_str d ''id'') (\<lambda>id.
     bind_res (req_str d ''source_entity_id'') (\<lambda>src.
     bind_res (req_str d ''target_entity_id'') (\<lambda>tgt.
     bind_res (req_str d ''edge_type'') (\<lambda>ty.
     bind_res (dict_metadata d) (\<lambda>md.
     bind_res (dict_version pyd d) (\<lambda>ver.
     bind_res (dict_backfill pyd d) (\<lambda>bf.
       Inr \<lparr>ee_workspace_id = ws, ee_id = id, ee_source_entity_id = src,
            ee_target_entity_id = tgt, ee_edge_type = ty, ee_metadata = md,
            ee_version = ver, ee_is_backfill = bf\<rparr>))))))))"

definition merge_model_validate :: "metadata \<Rightarrow> entity_merge_event res" where
  "merge_model_validate d =
     bind_res (req_str d ''workspace_id'') (\<lambda>ws.
     bind_res (opt_str d ''source_id'') (\<lambda>src.
     bind_res (opt_str d ''target_id'') (\<lambda>tgt.
     bind_res (opt_str d ''merged_node_id'') (\<lambda>mn.
       Inr \<lparr>em_workspace_id = ws, em_source_id = src, em_target_id = tgt,
            em_merged_node_id = mn\<rparr>))))"

section \<open>One tick\<close>

text \<open>The subject and payload of a row; no payload for an event type the worker does not know.\<close>

definition event_payload :: "pydantic \<Rightarrow> outbox_row \<Rightarrow> (string \<times> payload) option res" where
  "event_payload pyd row =
     (let ty = ob_event_type row; d = ob_payload row
      in if ty = ''entity.upsert''
           then bind_res (entity_model_validate pyd d) (\<lambda>ev. Inr (Some (''outbox.entity.upsert'', PEntity ev)))
         else if ty = ''edge.upsert''
           then bind_res (edge_model_validate pyd d) (\<lambda>ev. Inr (Some (''outbox.edge.upsert'', PEdge ev)))
         else if ty = ''entity.merge'' \<or> ty = ''entity.unmerge''
           then bind_res (merge_model_validate d) (\<lambda>ev. Inr (Some (''outbox.'' @ ty, PMerge ev)))
         else Inr None)"

definition mark_processed :: "rat \<Rightarrow> outbox_row \<Rightarrow> outbox_row" where
  "mark_processed now row = row\<lparr>ob_processed := True, ob_processed_at := Some now\<rparr>"

definition publish_row ::
  "pydantic \<Rightarrow> broker \<Rightarrow> rat \<Rightarrow> outbox_row \<Rightarrow> stream \<Rightarrow> outbox_row \<times> stream" where
  "publish_row pyd broker now row js =
     (case event_payload pyd row of
        Inl _ \<Rightarrow> (row, js)
      | Inr None \<Rightarrow> (mark_processed now row, js)
      | Inr (Some (subject, p)) \<Rightarrow>
          (case publish pyd broker subject p js of
             (Inl _, js') \<Rightarrow> (row, js')
           | (Inr _, js') \<Rightarrow> (mark_processed now row, js')))"

fun publish_batch ::
  "pydantic \<Rightarrow> broker \<Rightarrow> rat \<Rightarrow> outbox_row list \<Rightarrow> stream \<Rightarrow> outbox_row list \<times> stream" where
  "publish_batch pyd broker now [] js = ([], js)"
| "publish_batch pyd broker now (r # rs) js =
     (let (r', js') = publish_row pyd broker now r js;
          (rs', js'') = publish_batch pyd broker now rs js'
      in (r' # rs', js''))"

definition select_batch :: "nat \<Rightarrow> (uuid \<Rightarrow> bool) \<Rightarrow> outbox_row list \<Rightarrow> outbox_row list" where
  "select_batch batch_size locked rows =
     take batch_size (order_by ob_created_at
       (filter (\<lambda>r. \<not> ob_processed r \<and> \<not> locked (ob_id r)) rows))"

definition write_back :: "outbox_row list \<Rightarrow> outbox_row list \<Rightarrow> outbox_row list" where
  "write_back changed rows =
     map (\<lambda>r. case map_of (map (\<lambda>u. (ob_id u, u)) changed) (ob_id r) of None \<Rightarrow> r | Some u \<Rightarrow> u) rows"

text \<open>
  What a tick depends on outside the table: whether the broker is connected, which
  outcome of its publishes, which rows other workers have locked, the clock, and whether
  the transaction commits. Messages published before a failed commit stay published.
\<close>

record tick_env =
  te_connected :: bool
  te_broker :: broker
  te_locked :: "uuid \<Rightarrow> bool"
  te_now :: rat
  te_commits :: bool

definition tick ::
  "pydantic \<Rightarrow> nat \<Rightarrow> tick_env \<Rightarrow> outbox_row list \<times> stream \<Rightarrow> outbox_row list \<times> stream" where
  "tick pyd batch_size env st =
     (let (rows, js) = st
      in if \<not> te_connected env then (rows, js)
         else let sel = select_batch batch_size (te_locked env) rows
              in if sel = [] then (rows, js)
                 else let (changed, js') = publish_batch pyd (te_broker env) (te_now env) sel js
                      in (if te_commits env then write_back changed rows else rows, js'))"

text \<open>
  The life of the table: ticks of the worker, and inserts by the writers. A primary
  key that exists already is refused by the database.
\<close>

datatype outbox_action = OTick tick_env | OInsert outbox_row

definition outbox_step ::
  "pydantic \<Rightarrow> nat \<Rightarrow> outbox_action \<Rightarrow> outbox_row list \<times> stream \<Rightarrow> outbox_row list \<times> stream" where
  "outbox_step pyd batch_size a st =
     (case a of
        OTick env \<Rightarrow> tick pyd batch_size env st
      | OInsert r \<Rightarrow>
          if ob_id r \<in> ob_id ` set (fst st) then st
          else (fst st @ [r\<lparr>ob_processed := False, ob_processed_at := None\<rparr>], snd st))"

section \<open>What a batch does\<close>

text \<open>
  The reference reading of one row: the messages it puts on the stream, and whether it
  is finished. Neither mentions the state the loop threads.
\<close>

definition row_event :: "pydantic \<Rightarrow> broker \<Rightarrow> outbox_row \<Rightarrow> stream" where
  "row_event pyd broker r =
     (case event_payload pyd r of
        Inr (Some (s, p)) \<Rightarrow> (if broker s (encode_payload pyd p) = Refused then [] else [(s, encode_payload pyd p)])
      | _ \<Rightarrow> [])"

definition row_done :: "pydantic \<Rightarrow> broker \<Rightarrow> outbox_row \<Rightarrow> bool" where
  "row_done pyd broker r =
     (case event_payload pyd r of
        Inl _ \<Rightarrow> False
      | Inr None \<Rightarrow> True
      | Inr (Some (s, p)) \<Rightarrow> broker s (encode_payload pyd p) = Stored)"

definition finish_row :: "pydantic \<Rightarrow> broker \<Rightarrow> rat \<Rightarrow> outbox_row \<Rightarrow> outbox_row" where
  "finish_row pyd broker now r = (if row_done pyd broker r then mark_processed now r else r)"

lemma mark_processed_fields [simp]:
  "ob_id (mark_processed now r) = ob_id r"
  "ob_event_type (mark_processed now r) = ob_event_type r"
  "ob_payload (mark_processed now r) = ob_payload r"
  "ob_created_at (mark_processed now r) = ob_created_at r"
  "ob_processed (mark_processed now r)"
  by (simp_all add: mark_processed_def)

lemma event_payload_mark [simp]: "event_payload pyd (mark_processed now r) = event_payload pyd r"
  by (simp add: event_payload_def)

lemma event_payload_insert [simp]:
  "event_payload pyd (r\<lparr>ob_processed := b, ob_processed_at := t\<rparr>) = event_payload pyd r"
  by (simp add: event_payload_def)

lemma finish_row_fields [simp]:
  "ob_id (finish_row pyd broker now r) = ob_id r"
  "event_payload pyd' (finish_row pyd broker now r) = event_payload pyd' r"
  "ob_processed (finish_row pyd broker now r) \<longleftrightarrow> ob_processed r \<or> row_done pyd broker r"
  by (simp_all add: finish_row_def)

lemma publish_row_eq:
  "publish_row pyd broker now r js = (finish_row pyd broker now r, js @ row_event pyd broker r)"
  by (auto simp: publish_row_def publish_def finish_row_def row_done_def row_event_def Let_def
      split: sum.splits option.splits pub_outcome.splits)

lemma publish_batch_eq:
  "publish_batch pyd broker now rs js =
     (map (finish_row pyd broker now) rs, js @ concat (map (row_event pyd broker) rs))"
  by (induction rs arbitrary: js) (simp_all add: publish_row_eq)

lemma select_batch_sub: "r \<in> set (select_batch n locked rows) \<Longrightarrow> r \<in> set rows \<and> \<not> ob_processed r"
  by (auto simp: select_batch_def dest!: set_take_subset')

lemma select_batch_ids:
  "distinct (map ob_id rows) \<Longrightarrow> distinct (map ob_id (select_batch n locked rows))"
  by (simp add: select_batch_def take_map [symmetric] distinct_order_by distinct_map_filter)

lemma ids_inj: "distinct (map ob_id rows) \<Longrightarrow> r \<in> set rows \<Longrightarrow> r' \<in> set rows \<Longrightarrow> ob_id r = ob_id r' \<Longrightarrow> r = r'"
  by (auto simp: distinct_map inj_on_def)

lemma write_back_map:
  assumes ids: "distinct (map ob_id rows)" and sel: "set sel \<subseteq> set rows"
    and dsel: "distinct (map ob_id sel)" and f: "\<And>r. ob_id (f r) = ob_id r"
  shows "write_back (map f sel) rows = map (\<lambda>r. if r \<in> set sel then f r else r) rows"
proof -
  have "(case map_of (map (\<lambda>u. (ob_id u, u)) (map f sel)) (ob_id r) of None \<Rightarrow> r | Some u \<Rightarrow> u)
      = (if r \<in> set sel then f r else r)" if r: "r \<in> set rows" for r
  proof (cases "r \<in> set sel")
    case True
    have "map_of (map (\<lambda>u. (ob_id u, u)) (map f sel)) (ob_id r) = Some (f r)"
      using True dsel by (intro map_of_is_SomeI) (auto simp: o_def f)
    then show ?thesis using True by simp
  next
    case False
    have "ob_id r \<notin> ob_id ` set sel"
      using False ids_inj [OF ids r] sel by blast
    then have "map_of (map (\<lambda>u. (ob_id u, u)) (map f sel)) (ob_id r) = None"
      by (auto simp: map_of_eq_None_iff f image_iff)
    then show ?thesis using False by simp
  qed
  then show ?thesis by (simp add: write_back_def)
qed

lemma tick_eq:
  assumes "distinct (map ob_id rows)" and "te_connected env"
    and sel: "sel = select_batch n (te_locked env) rows"
  shows "tick pyd n env (rows, js) =
    (if te_commits env
       then map (\<lambda>r. if r \<in> set sel then finish_row pyd (te_broker env) (te_now env) r else r) rows
       else rows,
     js @ concat (map (row_event pyd (te_broker env)) sel))"
proof -
  have "write_back (map (finish_row pyd (te_broker env) (te_now env)) sel) rows =
      map (\<lambda>r. if r \<in> set sel then finish_row pyd (te_broker env) (te_now env) r else r) rows"
    using assms by (intro write_back_map) (auto simp: select_batch_ids dest: select_batch_sub)
  then show ?thesis using assms by (simp add: tick_def publish_batch_eq Let_def)
qed

lemma tick_disconnected: "\<not> te_connected env \<Longrightarrow> tick pyd n env st = st"
  by (cases st) (simp add: tick_def)

section \<open>Nothing is lost\<close>

definition row_accounted :: "pydantic \<Rightarrow> stream \<Rightarrow> outbox_row \<Rightarrow> bool" where
  "row_accounted pyd js r =
     (case event_payload pyd r of
        Inl _ \<Rightarrow> False
      | Inr None \<Rightarrow> True
      | Inr (Some (s, p)) \<Rightarrow> (s, encode_payload pyd p) \<in> set js)"

definition outbox_inv :: "pydantic \<Rightarrow> outbox_row list \<times> stream \<Rightarrow> bool" where
  "outbox_inv pyd st \<longleftrightarrow> distinct (map ob_id (fst st))
     \<and> (\<forall>r \<in> set (fst st). ob_processed r \<longrightarrow> row_accounted pyd (snd st) r)"

lemma row_accounted_mono: "row_accounted pyd js r \<Longrightarrow> set js \<subseteq> set js' \<Longrightarrow> row_accounted pyd js' r"
  by (auto simp: row_accounted_def split: sum.splits option.splits)

lemma row_accounted_fields [simp]:
  "row_accounted pyd js (finish_row pyd' broker now r) = row_accounted pyd js r"
  by (simp add: row_accounted_def)

lemma done_accounted: "row_done pyd broker r \<Longrightarrow> row_accounted pyd (row_event pyd broker r) r"
  by (auto simp: row_done_def row_accounted_def row_event_def split: sum.splits option.splits)

lemma tick_inv:
  assumes inv: "outbox_inv pyd (rows, js)"
  shows "outbox_inv pyd (tick pyd n env (rows, js))"
proof (cases "te_connected env")
  case False
  then show ?thesis using inv by (simp add: tick_disconnected)
next
  case True
  define sel where "sel = select_batch n (te_locked env) rows"
  define js' where "js' = js @ concat (map (row_event pyd (te_broker env)) sel)"
  have ids: "distinct (map ob_id rows)" using inv by (simp add: outbox_inv_def)
  have old: "row_accounted pyd js' r" if "r \<in> set rows" "ob_processed r" for r
    using inv that row_accounted_mono [of pyd js r js'] by (simp add: outbox_inv_def js'_def)
  have new: "row_accounted pyd js' r" if "r \<in> set sel" "row_done pyd (te_broker env) r" for r
    using done_accounted [OF that(2)] that(1) by (rule_tac row_accounted_mono) (auto simp: js'_def)
  have ids': "distinct (map ob_id (map (\<lambda>r. if r \<in> set sel then finish_row pyd (te_broker env) (te_now env) r else r) rows))"
    using ids by (simp add: o_def if_distrib [of ob_id] cong: if_cong)
  have tick: "tick pyd n env (rows, js) =
      (if te_commits env
         then map (\<lambda>r. if r \<in> set sel then finish_row pyd (te_broker env) (te_now env) r else r) rows
         else rows, js')"
    unfolding js'_def by (rule tick_eq [OF ids True sel_def])
  show ?thesis
    using ids ids' old new unfolding tick outbox_inv_def by auto
qed

lemma outbox_step_inv: "outbox_inv pyd st \<Longrightarrow> outbox_inv pyd (outbox_step pyd n a st)"
  by (cases st; cases a) (auto simp: outbox_step_def tick_inv, auto simp: outbox_inv_def)

interpretation outbox: invariant_of "outbox_step pyd n" "outbox_inv pyd" for pyd n
  by unfold_locales (rule outbox_step_inv)

text \<open>
  Claim C4: In every run of the outbox from an empty table, over any sequence of inserts
  and ticks and whatever the broker, the locks and the commits do, a row is marked
  processed only when its payload validated and its message is on the stream, or when
  its event type is one the worker does not publish.
\<close>

theorem processed_rows_were_published:
  assumes "run (outbox_step pyd n) ([], []) actions = (rows, js)"
    and "r \<in> set rows" and "ob_processed r"
  shows "(\<exists>s p. event_payload pyd r = Inr (Some (s, p)) \<and> (s, encode_payload pyd p) \<in> set js)
    \<or> ob_event_type r \<notin> {''entity.upsert'', ''edge.upsert'', ''entity.merge'', ''entity.unmerge''}"
proof -
  have "outbox_inv pyd (rows, js)"
    using outbox.run_inv [of pyd "([], [])" n actions] assms(1) by (simp add: outbox_inv_def)
  then have acc: "row_accounted pyd js r" using assms by (simp add: outbox_inv_def)
  have "event_payload pyd r \<noteq> Inr None"
    if "ob_event_type r \<in> {''entity.upsert'', ''edge.upsert'', ''entity.merge'', ''entity.unmerge''}"
    using that by (auto simp: event_payload_def Let_def bind_res_eq_Inr split: if_splits)
  then show ?thesis using acc by (auto simp: row_accounted_def split: sum.splits option.splits)
qed

definition sample_env :: tick_env where
  "sample_env = \<lparr>te_connected = True, te_broker = (\<lambda>_ _. Stored), te_locked = (\<lambda>_. False),
     te_now = 9, te_commits = True\<rparr>"

definition merge_row :: "uuid \<Rightarrow> rat \<Rightarrow> outbox_row" where
  "merge_row i t = \<lparr>ob_id = i, ob_event_type = ''entity.merge'',
     ob_payload = [(''workspace_id'', JStr ''w'')], ob_entity_id = None,
     ob_created_at = t, ob_processed = False, ob_processed_at = None\<rparr>"

lemma merge_row_payload:
  "event_payload pyd (merge_row i t) = Inr (Some (''outbox.entity.merge'', PMerge
     \<lparr>em_workspace_id = ''w'', em_source_id = None, em_target_id = None, em_merged_node_id = None\<rparr>))"
  by (simp add: event_payload_def merge_row_def merge_model_validate_def req_str_def opt_str_def)

lemma merge_row_run:
  "run (outbox_step sample_pydantic 50) ([], []) [OInsert (merge_row 1 0), OTick sample_env]
     = ([mark_processed 9 (merge_row 1 0)], [(''outbox.entity.merge'', ''Mw'')])"
proof -
  have ins: "outbox_step sample_pydantic 50 (OInsert (merge_row 1 0)) ([], []) = ([merge_row 1 0], [])"
    by (simp add: outbox_step_def merge_row_def)
  have sel: "select_batch 50 (te_locked sample_env) [merge_row 1 0] = [merge_row 1 0]"
    by (simp add: select_batch_def order_by_def sample_env_def merge_row_def)
  have "tick sample_pydantic 50 sample_env ([merge_row 1 0], [])
      = ([mark_processed 9 (merge_row 1 0)], [(''outbox.entity.merge'', ''Mw'')])"
    unfolding tick_def Let_def prod.case sel publish_batch_eq
    by (simp add: sample_env_def finish_row_def row_done_def row_event_def merge_row_payload
        encode_payload_def sample_pydantic_def write_back_def)
  then show ?thesis by (simp only: run_simps ins) (simp add: outbox_step_def)
qed

theorem processed_rows_were_published_witness:
  "\<exists>rows js r. run (outbox_step sample_pydantic 50) ([], []) [OInsert (merge_row 1 0), OTick sample_env] = (rows, js)
    \<and> r \<in> set rows \<and> ob_processed r \<and> js \<noteq> []
    \<and> (\<exists>s p. event_payload sample_pydantic r = Inr (Some (s, p)) \<and> (s, encode_payload sample_pydantic p) \<in> set js)"
proof -
  have "ob_event_type (mark_processed 9 (merge_row 1 0)) = ''entity.merge''" by (simp add: merge_row_def)
  then show ?thesis
    using processed_rows_were_published [OF merge_row_run, of "mark_processed 9 (merge_row 1 0)"] merge_row_run
    by fastforce
qed

section \<open>Blocking and draining\<close>

definition undecodable :: "pydantic \<Rightarrow> outbox_row \<Rightarrow> bool" where
  "undecodable pyd r \<longleftrightarrow> \<not> is_ok (event_payload pyd r)"

definition pending :: "outbox_row list \<Rightarrow> outbox_row list" where
  "pending rows = order_by ob_created_at (filter (\<lambda>r. \<not> ob_processed r) rows)"

definition blocked :: "pydantic \<Rightarrow> nat \<Rightarrow> outbox_row list \<Rightarrow> bool" where
  "blocked pyd n rows \<longleftrightarrow> n \<le> length (takeWhile (undecodable pyd) (pending rows))"

lemma undecodable_row:
  "undecodable pyd r \<Longrightarrow> row_event pyd broker r = [] \<and> finish_row pyd broker now r = r"
  by (auto simp: undecodable_def row_event_def finish_row_def row_done_def is_ok_def split: sum.splits)

lemma select_unlocked: "(\<forall>i. \<not> locked i) \<Longrightarrow> select_batch n locked rows = take n (pending rows)"
  by (simp add: select_batch_def pending_def)

lemma blocked_tick:
  assumes "blocked pyd n rows" and "\<forall>i. \<not> te_locked env i" and "distinct (map ob_id rows)"
  shows "tick pyd n env (rows, js) = (rows, js)"
proof (cases "te_connected env")
  case True
  let ?sel = "take n (pending rows)"
  have "take n (takeWhile (undecodable pyd) (pending rows)) = ?sel"
    using assms(1) by (metis blocked_def takeWhile_eq_take take_take min_absorb1)
  then have bad: "undecodable pyd r" if "r \<in> set ?sel" for r
    using that by (metis set_take_subset' set_takeWhileD)
  then have "map (row_event pyd (te_broker env)) ?sel = map (\<lambda>_. []) ?sel"
    by (intro map_cong) (auto dest: undecodable_row)
  then have "concat (map (row_event pyd (te_broker env)) ?sel) = []" by simp
  moreover have "map (\<lambda>r. if r \<in> set ?sel then finish_row pyd (te_broker env) (te_now env) r else r) rows = rows"
    using bad by (intro map_idI) (auto dest: undecodable_row)
  ultimately show ?thesis
    using tick_eq [OF assms(3) True refl, of pyd n js] by (simp only: select_unlocked [OF assms(2)]) simp
qed (simp add: tick_disconnected)

lemma blocked_insert:
  assumes "blocked pyd n rows" and "\<forall>r' \<in> set rows. ob_created_at r' \<le> ob_created_at r" and "\<not> ob_processed r"
  shows "blocked pyd n (rows @ [r])"
proof -
  have "pending (rows @ [r]) = pending rows @ [r]"
    using assms(2,3) by (simp add: pending_def order_by_append_last)
  moreover have "length (takeWhile (undecodable pyd) (pending rows)) \<le> length (pending rows)"
    by (rule length_takeWhile_le)
  ultimately show ?thesis using assms(1) by (auto simp: blocked_def takeWhile_append)
qed

text \<open>
  The runs in which a single worker polls and rows arrive in the order of their
  timestamps, as an inductive relation.
\<close>

inductive sole_worker :: "pydantic \<Rightarrow> nat \<Rightarrow> outbox_row list \<times> stream \<Rightarrow> outbox_row list \<times> stream \<Rightarrow> bool"
  for pyd n where
  sw_tick: "(\<forall>i. \<not> te_locked env i) \<Longrightarrow> sole_worker pyd n st (outbox_step pyd n (OTick env) st)"
| sw_insert: "(\<forall>r' \<in> set (fst st). ob_created_at r' \<le> ob_created_at r) \<Longrightarrow>
    sole_worker pyd n st (outbox_step pyd n (OInsert r) st)"

lemma sole_worker_blocked:
  assumes "sole_worker pyd n st st'" and "blocked pyd n (fst st)" and "distinct (map ob_id (fst st))"
  shows "snd st' = snd st \<and> blocked pyd n (fst st') \<and> distinct (map ob_id (fst st'))"
  using assms(1)
proof (cases rule: sole_worker.cases)
  case sw_tick
  then show ?thesis using blocked_tick [OF assms(2) _ assms(3), of _ "snd st"] assms(2,3)
    by (auto simp: outbox_step_def)
next
  case sw_insert
  then show ?thesis using assms(2,3) by (auto simp: outbox_step_def intro!: blocked_insert)
qed

lemma sole_worker_blocked_star:
  assumes "(sole_worker pyd n)\<^sup>*\<^sup>* st st'" and "blocked pyd n (fst st)" and "distinct (map ob_id (fst st))"
  shows "snd st' = snd st \<and> blocked pyd n (fst st') \<and> distinct (map ob_id (fst st'))"
  using assms(1)
proof (induction rule: rtranclp_induct)
  case base
  then show ?case using assms(2,3) by simp
next
  case (step y z)
  then show ?case using sole_worker_blocked by (metis (no_types))
qed

text \<open>
  Once the oldest unprocessed rows include a full batch whose payloads do not
  validate, the worker never publishes anything again, whatever valid rows arrive
  later and whatever the broker does, while it is the only worker.
\<close>

theorem bad_batch_blocks_outbox:
  assumes "(sole_worker pyd n)\<^sup>*\<^sup>* (rows, js) (rows', js')"
    and "blocked pyd n rows" and "distinct (map ob_id rows)"
  shows "js' = js \<and> blocked pyd n rows'"
  using sole_worker_blocked_star [OF assms(1)] assms(2,3) by simp

definition idless_edge_row :: "uuid \<Rightarrow> rat \<Rightarrow> outbox_row" where
  "idless_edge_row i t = \<lparr>ob_id = i, ob_event_type = ''edge.upsert'',
     ob_payload = [(''workspace_id'', JStr ''w''), (''source_entity_id'', JStr ''a''),
       (''target_entity_id'', JStr ''b''), (''edge_type'', JStr ''calls'')], ob_entity_id = None,
     ob_created_at = t, ob_processed = False, ob_processed_at = None\<rparr>"

theorem bad_batch_blocks_outbox_witness:
  "\<exists>rows'. (sole_worker sample_pydantic 1)\<^sup>*\<^sup>* ([idless_edge_row 1 0], []) (rows', [])
     \<and> merge_row 2 5 \<in> set rows' \<and> blocked sample_pydantic 1 rows'"
proof -
  let ?st = "([idless_edge_row 1 0], []) :: outbox_row list \<times> stream"
  let ?st1 = "([idless_edge_row 1 0, merge_row 2 5], []) :: outbox_row list \<times> stream"
  have b: "blocked sample_pydantic 1 [idless_edge_row 1 0]"
    by (simp add: blocked_def pending_def order_by_def undecodable_def idless_edge_row_def event_payload_def
        edge_model_validate_def opt_str_def req_str_def)
  have ids: "distinct (map ob_id [idless_edge_row 1 0])" by simp
  have ins: "outbox_step sample_pydantic 1 (OInsert (merge_row 2 5)) ?st = ?st1"
    by (simp add: outbox_step_def idless_edge_row_def merge_row_def)
  have one: "sole_worker sample_pydantic 1 ?st ?st1"
    using sw_insert [of ?st "merge_row 2 5" sample_pydantic 1] unfolding ins
    by (simp add: idless_edge_row_def merge_row_def)
  obtain rows' js' where tick: "outbox_step sample_pydantic 1 (OTick sample_env) ?st1 = (rows', js')"
    by fastforce
  have two: "sole_worker sample_pydantic 1 ?st1 (rows', js')"
    using sw_tick [of sample_env sample_pydantic 1 ?st1] unfolding tick by (simp add: sample_env_def)
  have path: "(sole_worker sample_pydantic 1)\<^sup>*\<^sup>* ?st (rows', js')"
    using one two by (meson r_into_rtranclp rtranclp.rtrancl_into_rtrancl)
  have st1: "(sole_worker sample_pydantic 1)\<^sup>*\<^sup>* ?st ?st1" using one by simp
  have "js' = [] \<and> blocked sample_pydantic 1 rows'" by (rule bad_batch_blocks_outbox [OF path b ids])
  moreover have "blocked sample_pydantic 1 [idless_edge_row 1 0, merge_row 2 5]"
    using bad_batch_blocks_outbox [OF st1 b ids] by simp
  ultimately show ?thesis using st1 by (intro exI [of _ "[idless_edge_row 1 0, merge_row 2 5]"]) simp
qed

text \<open>
  A tick in good conditions: connected, nothing locked, the transaction commits, and
  the broker stores what it is given.
\<close>

definition good_tick :: "tick_env \<Rightarrow> bool" where
  "good_tick env \<longleftrightarrow> te_connected env \<and> te_commits env \<and> (\<forall>i. \<not> te_locked env i) \<and> (\<forall>s d. te_broker env s d = Stored)"

definition publishable :: "pydantic \<Rightarrow> outbox_row list \<times> stream \<Rightarrow> bool" where
  "publishable pyd st \<longleftrightarrow> distinct (map ob_id (fst st)) \<and> (\<forall>r \<in> set (fst st). is_ok (event_payload pyd r))"

lemma good_done: "good_tick env \<Longrightarrow> is_ok (event_payload pyd r) \<Longrightarrow> row_done pyd (te_broker env) r"
  by (auto simp: good_tick_def row_done_def is_ok_def split: sum.splits option.splits)

lemma length_pending: "length (pending rows) = length (filter (\<lambda>r. \<not> ob_processed r) rows)"
  by (simp add: pending_def)

lemma length_filter_minus:
  assumes "distinct (map g rows)" and "set sel \<subseteq> set (filter P rows)" and "distinct sel"
  shows "length (filter (\<lambda>r. P r \<and> r \<notin> set sel) rows) = length (filter P rows) - length sel"
proof -
  have d: "distinct rows" using assms(1) by (simp add: distinct_map)
  have "set (filter (\<lambda>r. P r \<and> r \<notin> set sel) rows) = set (filter P rows) - set sel" by auto
  then have "length (filter (\<lambda>r. P r \<and> r \<notin> set sel) rows) = card (set (filter P rows) - set sel)"
    using d by (metis distinct_card distinct_filter)
  also have "\<dots> = length (filter P rows) - length sel"
    using d assms by (simp add: card_Diff_subset distinct_card [symmetric])
  finally show ?thesis .
qed

lemma good_tick_pending:
  assumes good: "good_tick env" and pub: "publishable pyd (rows, js)"
  shows "length (pending (fst (tick pyd n env (rows, js)))) = length (pending rows) - n
    \<and> publishable pyd (tick pyd n env (rows, js))"
proof -
  let ?sel = "take n (pending rows)"
  let ?f = "\<lambda>r. if r \<in> set ?sel then finish_row pyd (te_broker env) (te_now env) r else r"
  have ids: "distinct (map ob_id rows)" and ok: "\<forall>r \<in> set rows. is_ok (event_payload pyd r)"
    using pub by (auto simp: publishable_def)
  have t: "fst (tick pyd n env (rows, js)) = map ?f rows"
    using tick_eq [OF ids _ refl, of env pyd n js] good by (simp add: good_tick_def select_unlocked)
  have sub: "set ?sel \<subseteq> set (filter (\<lambda>r. \<not> ob_processed r) rows)"
    using set_take_subset [of n "pending rows"] by (auto simp: pending_def)
  have dsel: "distinct ?sel"
    using select_batch_ids [OF ids, of n "te_locked env"] good
    by (simp add: select_unlocked good_tick_def distinct_map)
  have "\<And>r. r \<in> set rows \<Longrightarrow> ob_processed (?f r) \<longleftrightarrow> ob_processed r \<or> r \<in> set ?sel"
    using ok good by (auto simp: good_done)
  then have "filter (\<lambda>r. \<not> ob_processed r) (map ?f rows) = map ?f (filter (\<lambda>r. \<not> ob_processed r \<and> r \<notin> set ?sel) rows)"
    by (simp add: filter_map o_def cong: filter_cong)
  then have "length (pending (map ?f rows)) = length (pending rows) - length ?sel"
    using length_filter_minus [OF ids sub dsel] by (simp add: length_pending)
  moreover have "publishable pyd (map ?f rows, js')" for js'
    using ids ok by (auto simp: publishable_def o_def if_distrib [of ob_id] cong: if_cong)
  ultimately show ?thesis using t by (cases "tick pyd n env (rows, js)") (auto simp: min_def)
qed

lemma good_ticks_pending:
  assumes "list_all good_tick envs" and "publishable pyd st"
  shows "length (pending (fst (run (tick pyd n) st envs))) = length (pending (fst st)) - n * length envs"
  using assms
proof (induction envs arbitrary: st)
  case (Cons env envs)
  have "length (pending (fst (tick pyd n env st))) = length (pending (fst st)) - n \<and> publishable pyd (tick pyd n env st)"
    using good_tick_pending [of env pyd "fst st" "snd st" n] Cons.prems by simp
  then show ?case using Cons by simp
qed simp

text \<open>
  Claim C11: A table of rows that all validate is drained: with a batch of \<open>n\<close> rows and
  \<open>k\<close> good ticks, where \<open>k * n\<close> is at least the number of unprocessed rows, every row
  is processed.
\<close>

theorem valid_outbox_drains:
  assumes "publishable pyd st" and "list_all good_tick envs"
    and "length (filter (\<lambda>r. \<not> ob_processed r) (fst st)) \<le> n * length envs"
  shows "\<forall>r \<in> set (fst (run (tick pyd n) st envs)). ob_processed r"
proof -
  have "length (pending (fst (run (tick pyd n) st envs))) = 0"
    using good_ticks_pending [OF assms(2,1), of n] assms(3) by (simp add: length_pending)
  then show ?thesis by (simp add: length_pending filter_empty_conv)
qed

theorem valid_outbox_drains_witness:
  "list_all ob_processed (fst (run (tick sample_pydantic 2) ([merge_row 1 4, merge_row 2 3, merge_row 3 3], [])
      [sample_env, sample_env]))"
proof -
  have "\<forall>r \<in> set (fst (run (tick sample_pydantic 2) ([merge_row 1 4, merge_row 2 3, merge_row 3 3], [])
      [sample_env, sample_env])). ob_processed r"
    by (rule valid_outbox_drains)
      (simp_all add: publishable_def merge_row_payload, simp_all add: good_tick_def sample_env_def merge_row_def)
  then show ?thesis by (simp add: list_all_iff)
qed

end
