(* ===== verification/Fingerprint.thy ===== *)
theory Fingerprint
  imports PyJson "HOL-Library.List_Lexorder" "HOL-Library.Char_ord"
begin

text \<open>
  \<^verbatim>\<open>audit/fingerprint.py\<close>: the canonical JSON text of a payload (sorted keys, compact
  separators, no ASCII escaping) and the hashes computed from it, and Python's
  \<^verbatim>\<open>repr\<close> of a metadata dictionary, which the entity text for embeddings contains. The
  BLAKE2b digest itself is a parameter, a function from bytes to a hexadecimal string.
\<close>

section \<open>Canonical JSON\<close>

definition canon_escape :: "char \<Rightarrow> string" where
  "canon_escape c = (if ord c < 127 then json_escape c else [c])"

definition canon_quote :: "string \<Rightarrow> string" where
  "canon_quote s = CHR 0x22 # concat (map canon_escape s) @ [CHR 0x22]"

fun canonical_json :: "json \<Rightarrow> string" where
  "canonical_json JNull = ''null''"
| "canonical_json (JBool b) = (if b then ''true'' else ''false'')"
| "canonical_json (JInt i) = int_str i"
| "canonical_json (JFloat t) = t"
| "canonical_json (JStr s) = canon_quote s"
| "canonical_json (JArr xs) = ''['' @ join '','' (map canonical_json xs) @ '']''"
| "canonical_json (JObj kvs) =
     ''{'' @ join '','' (map (\<lambda>(k, t). canon_quote k @ '':'' @ t)
       (sort_key fst (map (\<lambda>(k, v). (k, canonical_json v)) kvs))) @ ''}''"

definition compute_state_fingerprint :: "(string \<Rightarrow> string) \<Rightarrow> json \<Rightarrow> string" where
  "compute_state_fingerprint blake2b payload =
     blake2b (''omniscience-replay-v1:'' @ utf8_encode (canonical_json payload))"

definition entity_content_hash ::
  "(string \<Rightarrow> string) \<Rightarrow> string \<Rightarrow> string \<Rightarrow> string \<Rightarrow> (string \<times> json) list \<Rightarrow> string" where
  "entity_content_hash blake2b entity_type name display_name metadata =
     compute_state_fingerprint blake2b
       (JObj [(''entity_type'', JStr entity_type), (''name'', JStr name),
              (''display_name'', JStr display_name), (''metadata'', JObj metadata)])"

section \<open>repr\<close>

definition repr_char :: "char \<Rightarrow> char \<Rightarrow> string" where
  "repr_char q c =
     (if c = q \<or> c = CHR 0x5C then [CHR 0x5C, c]
      else if c = CHR 0x0A then [CHR 0x5C, CHR ''n'']
      else if c = CHR 0x0D then [CHR 0x5C, CHR ''r'']
      else if c = CHR 0x09 then [CHR 0x5C, CHR ''t'']
      else if ord c < 32 \<or> (127 \<le> ord c \<and> ord c \<le> 160) \<or> ord c = 173
        then [CHR 0x5C, CHR ''x''] @ hex_fixed 2 (ord c)
      else [c])"

definition repr_str :: "string \<Rightarrow> string" where
  "repr_str s =
     (let q = (if CHR 0x27 \<in> set s \<and> CHR 0x22 \<notin> set s then CHR 0x22 else CHR 0x27)
      in q # concat (map (repr_char q) s) @ [q])"

fun py_repr :: "json \<Rightarrow> string" where
  "py_repr JNull = ''None''"
| "py_repr (JBool b) = (if b then ''True'' else ''False'')"
| "py_repr (JInt i) = int_str i"
| "py_repr (JFloat t) = t"
| "py_repr (JStr s) = repr_str s"
| "py_repr (JArr xs) = ''['' @ join '', '' (map py_repr xs) @ '']''"
| "py_repr (JObj kvs) =
     ''{'' @ join '', '' (map (\<lambda>(k, v). repr_str k @ '': '' @ py_repr v) kvs) @ ''}''"

section \<open>Key order\<close>

lemma sort_key_set:
  assumes "distinct (map fst xs)" and "distinct (map fst ys)" and "set xs = set ys"
  shows "sort_key fst xs = sort_key fst ys"
proof (rule map_sorted_distinct_set_unique [of fst])
  show "inj_on fst (set (sort_key fst xs) \<union> set (sort_key fst ys))"
    using assms by (simp add: distinct_map)
  show "distinct (map fst (sort_key fst xs))" "distinct (map fst (sort_key fst ys))"
    using assms by (auto simp: distinct_map)
qed (use assms in simp_all)

lemma canonical_json_set:
  assumes "distinct (map fst kvs)" and "distinct (map fst kvs')" and "set kvs = set kvs'"
  shows "canonical_json (JObj kvs) = canonical_json (JObj kvs')"
proof -
  have fsts: "map fst (map (\<lambda>(k, v). (k, canonical_json v)) xs) = map fst xs" for xs
    by (simp add: o_def case_prod_unfold)
  have "sort_key fst (map (\<lambda>(k, v). (k, canonical_json v)) kvs)
      = sort_key fst (map (\<lambda>(k, v). (k, canonical_json v)) kvs')"
    by (rule sort_key_set) (simp_all only: fsts assms set_map)
  then show ?thesis by simp
qed

text \<open>
  The content hash of an entity does not depend on the order in which its
  metadata was assembled: two dictionaries with the same contents give the same hash.
\<close>

theorem content_hash_order_independent:
  assumes "distinct (map fst md)" and "distinct (map fst md')" and "map_of md = map_of md'"
  shows "entity_content_hash blake2b ty nm dn md = entity_content_hash blake2b ty nm dn md'"
proof -
  have "set md = set md'"
    using assms by (metis map_of_eqI graph_map_of_if_distinct_dom map_of_inject_set)
  then show ?thesis
    using canonical_json_set [OF assms(1,2)]
    by (simp add: entity_content_hash_def compute_state_fingerprint_def del: canonical_json.simps(7))
      (simp add: canonical_json.simps(7) [of "_ # _"] del: canonical_json.simps(7))
qed

theorem content_hash_order_independent_witness:
  "entity_content_hash (\<lambda>b. b) ''function'' ''pkg.f'' ''f'' [(''lang'', JStr ''py''), (''arity'', JInt 2)]
     = entity_content_hash (\<lambda>b. b) ''function'' ''pkg.f'' ''f'' [(''arity'', JInt 2), (''lang'', JStr ''py'')]"
  by (rule content_hash_order_independent) auto

end
