(* ===== verification/OutboxConsumer.thy ===== *)
theory OutboxConsumer
  imports Queue Fingerprint
begin

text \<open>
  \<^verbatim>\<open>outbox_consumer.py\<close>: the worker that applies outbox events to the graph and the
  vector store, retries failures with a growing delay, parks an entity or edge that
  keeps failing, dead-letters what concerns a parked item, and republishes parked items
  as backfills. The state is the worker's own dictionaries, its loop variables (they
  survive from one message to the next), which of its tasks still run, and the log of
  the calls it made. The stores, the database, the broker and the clocks answer through
  an environment given with each message. A handler runs to its end before the next one
  starts.
\<close>

definition MAX_PARKED_ITEMS :: nat where "MAX_PARKED_ITEMS = 10000"

definition MAX_RETRIES_BEFORE_PARK :: nat where "MAX_RETRIES_BEFORE_PARK = 3"

section \<open>Calls\<close>

record entity_upsert =
  up_id :: uuid
  up_source_id :: uuid
  up_entity_type :: string
  up_name :: string
  up_display_name :: string
  up_chunk_id :: "uuid option"
  up_metadata :: metadata
  up_version :: "int option"
  up_content_hash :: "string option"
  up_bypass_source_checkpoint :: bool

record edge_upsert =
  ue_source_entity_id :: uuid
  ue_target_entity_id :: uuid
  ue_edge_type :: string
  ue_metadata :: metadata
  ue_version :: "int option"
  ue_bypass_source_checkpoint :: bool

record chunk_payload =
  ck_ord :: nat
  ck_text :: string
  ck_embedding :: "rat list"
  ck_symbol :: string
  ck_metadata :: metadata
  ck_embedding_model :: string
  ck_embedding_provider :: string
  ck_parser_version :: string
  ck_chunker_strategy :: string

record chunks_upsert =
  cu_source_id :: uuid
  cu_external_id :: string
  cu_uri :: string
  cu_title :: string
  cu_content_hash :: string
  cu_metadata :: metadata
  cu_chunks :: "chunk_payload list"
  cu_version :: "int option"

datatype oc_call =
    UpsertEntity entity_upsert uuid
  | UpsertEdge edge_upsert uuid
  | UpsertChunks chunks_upsert
  | MergeNodes uuid uuid uuid
  | UnmergeNode uuid uuid
  | PublishEvent string payload
  | PublishDlq string dlq_message

text \<open>The rows of the \<^verbatim>\<open>entities\<close> and \<^verbatim>\<open>edges\<close> tables, as the two republishing loops read them.\<close>

record pg_entity =
  pe_id :: uuid
  pe_source_id :: uuid
  pe_entity_type :: string
  pe_name :: string
  pe_display_name :: string
  pe_metadata :: metadata
  pe_version :: int
  pe_content_hash :: "string option"

record pg_edge =
  pg_id :: uuid
  pg_source_entity_id :: uuid
  pg_target_entity_id :: uuid
  pg_edge_type :: string
  pg_metadata :: metadata
  pg_version :: int

section \<open>State\<close>

record gauges =
  ga_entities_count :: nat
  ga_entities_oldest :: rat
  ga_edges_count :: nat
  ga_edges_oldest :: rat

record oc_state =
  oc_parked_entities :: "(uuid, rat) dict"
  oc_parked_edges :: "(uuid, rat) dict"
  oc_edge_deps :: "(uuid, uuid \<times> uuid) dict"
  oc_entity_attempts :: "(uuid, nat) dict"
  oc_edge_attempts :: "(uuid, nat) dict"
  oc_gauges :: gauges
  oc_dlq_producer :: bool
  oc_entity_task :: bool
  oc_edge_task :: bool
  oc_merge_task :: bool
  oc_unpark_task :: bool
  oc_var_entity_id :: "uuid option"
  oc_var_edge_id :: "uuid option"
  oc_var_source_id :: "uuid option"
  oc_var_target_id :: "uuid option"
  oc_calls :: "(oc_call \<times> bool) list"
  oc_settled :: "settle list"

record oc_env =
  ev_answer :: "(oc_call \<times> bool) list \<Rightarrow> oc_call \<Rightarrow> bool res"
  ev_settles :: "settle list \<Rightarrow> settle \<Rightarrow> bool"
  ev_embed :: "string \<Rightarrow> rat list list res"
  ev_edges :: "uuid list \<Rightarrow> (pg_edge \<times> uuid option) list res"
  ev_entities :: "uuid list \<Rightarrow> (pg_entity \<times> uuid option) list res"
  ev_blake2b :: "string \<Rightarrow> string"
  ev_dump_json :: "payload \<Rightarrow> string"
  ev_exn_str :: "py_exn \<Rightarrow> string"
  ev_monotonic :: rat
  ev_time :: rat
  ev_utcnow :: string
  ev_model_name :: string
  ev_provider_name :: string
  ev_session_factory :: bool

definition oc_init :: oc_state where
  "oc_init = \<lparr>oc_parked_entities = [], oc_parked_edges = [], oc_edge_deps = [],
     oc_entity_attempts = [], oc_edge_attempts = [],
     oc_gauges = \<lparr>ga_entities_count = 0, ga_entities_oldest = 0, ga_edges_count = 0, ga_edges_oldest = 0\<rparr>,
     oc_dlq_producer = False, oc_entity_task = False, oc_edge_task = False, oc_merge_task = False,
     oc_unpark_task = False, oc_var_entity_id = None, oc_var_edge_id = None,
     oc_var_source_id = None, oc_var_target_id = None, oc_calls = [], oc_settled = []\<rparr>"

definition oc_start :: "bool \<Rightarrow> oc_state \<Rightarrow> oc_state" where
  "oc_start session_factory s =
     s\<lparr>oc_dlq_producer := True, oc_entity_task := True, oc_edge_task := True,
       oc_merge_task := True, oc_unpark_task := session_factory\<rparr>"

definition oc_stop :: "oc_state \<Rightarrow> oc_state" where
  "oc_stop s = s\<lparr>oc_entity_task := False, oc_edge_task := False, oc_merge_task := False,
     oc_unpark_task := False\<rparr>"

section \<open>Primitive actions\<close>

definition call :: "oc_env \<Rightarrow> oc_call \<Rightarrow> (oc_state, bool) act" where
  "call env c = (\<lambda>s.
     let a = ev_answer env (oc_calls s) c
     in (a, s\<lparr>oc_calls := oc_calls s @ [(c, is_ok a)]\<rparr>))"

definition settle_msg :: "oc_env \<Rightarrow> settle \<Rightarrow> (oc_state, unit) act" where
  "settle_msg env k = (\<lambda>s.
     if ev_settles env (oc_settled s) k then (Inr (), s\<lparr>oc_settled := oc_settled s @ [k]\<rparr>)
     else (Inl (BackendError ''settle''), s))"

definition oldest_age :: "rat \<Rightarrow> (uuid, rat) dict \<Rightarrow> rat" where
  "oldest_age now d = (case dict_min d of None \<Rightarrow> 0 | Some (_, t) \<Rightarrow> now - t)"

definition update_metrics :: "oc_env \<Rightarrow> oc_state \<Rightarrow> oc_state" where
  "update_metrics env s =
     s\<lparr>oc_gauges := \<lparr>ga_entities_count = length (oc_parked_entities s),
          ga_entities_oldest = oldest_age (ev_time env) (oc_parked_entities s),
          ga_edges_count = length (oc_parked_edges s),
          ga_edges_oldest = oldest_age (ev_time env) (oc_parked_edges s)\<rparr>\<rparr>"

definition route_to_dlq :: "oc_env \<Rightarrow> string \<Rightarrow> payload \<Rightarrow> string \<Rightarrow> string \<Rightarrow> (oc_state, unit) act" where
  "route_to_dlq env subject p dlq_subject error_msg =
     get_act oc_dlq_producer (\<lambda>ready.
       if \<not> ready then ret ()
       else try_act
         (then_act
            (call env (PublishDlq dlq_subject
               \<lparr>dlq_original_subject = subject, dlq_original_payload = ev_dump_json env p,
                dlq_error = error_msg, dlq_attempt_count = 1, dlq_failed_at = ev_utcnow env\<rparr>))
            (settle_msg env Term))
         (\<lambda>_. settle_msg env (Nak None)))"

definition workspace_of :: "string option \<Rightarrow> uuid res" where
  "workspace_of w = (case truthy_str w of None \<Rightarrow> Inr 0 | Some t \<Rightarrow> uuid_parse t)"

section \<open>Republishing parked edges\<close>

definition entity_backfill_event :: "pg_entity \<Rightarrow> uuid option \<Rightarrow> entity_upsert_event" where
  "entity_backfill_event e tenant =
     \<lparr>eu_workspace_id = map_option uuid_str tenant, eu_id = uuid_str (pe_id e),
      eu_source_id = uuid_str (pe_source_id e), eu_entity_type = pe_entity_type e,
      eu_name = pe_name e, eu_display_name = pe_display_name e, eu_metadata = pe_metadata e,
      eu_version = Some (pe_version e), eu_is_backfill = True, eu_content_hash = pe_content_hash e\<rparr>"

definition edge_backfill_event :: "pg_edge \<Rightarrow> uuid option \<Rightarrow> edge_upsert_event" where
  "edge_backfill_event e tenant =
     \<lparr>ee_workspace_id = map_option uuid_str tenant, ee_id = uuid_str (pg_id e),
      ee_source_entity_id = uuid_str (pg_source_entity_id e),
      ee_target_entity_id = uuid_str (pg_target_entity_id e), ee_edge_type = pg_edge_type e,
      ee_metadata = pg_metadata e, ee_version = Some (pg_version e), ee_is_backfill = True\<rparr>"

definition edges_to_unpark :: "uuid \<Rightarrow> oc_state \<Rightarrow> uuid list" where
  "edges_to_unpark resolved s =
     map fst (filter (\<lambda>(e_id, (src_id, tgt_id)).
         (src_id = resolved \<or> tgt_id = resolved)
         \<and> \<not> dict_has (oc_parked_entities s) (if src_id = resolved then tgt_id else src_id))
       (oc_edge_deps s))"

definition unpark_edge :: "uuid \<Rightarrow> oc_state \<Rightarrow> oc_state" where
  "unpark_edge e s = s\<lparr>oc_parked_edges := dict_pop (oc_parked_edges s) e,
                       oc_edge_deps := dict_pop (oc_edge_deps s) e\<rparr>"

definition auto_unpark_edges :: "oc_env \<Rightarrow> uuid \<Rightarrow> (oc_state, unit) act" where
  "auto_unpark_edges env resolved =
     (if \<not> ev_session_factory env then ret ()
      else get_act (edges_to_unpark resolved) (\<lambda>ids.
        if ids = [] then ret ()
        else bind_act (of_res (ev_edges env ids)) (\<lambda>rows.
          then_act
            (each_act (\<lambda>(edge, tenant).
               then_act (call env (PublishEvent ''outbox.edge.upsert'' (PEdge (edge_backfill_event edge tenant))))
                        (upd (unpark_edge (pg_id edge)))) rows)
            (upd (update_metrics env)))))"

section \<open>Failures\<close>

definition evict_entity :: "oc_state \<Rightarrow> oc_state" where
  "evict_entity s =
     (if MAX_PARKED_ITEMS < length (oc_parked_entities s)
      then case dict_min (oc_parked_entities s) of
             None \<Rightarrow> s
           | Some (k, _) \<Rightarrow> s\<lparr>oc_parked_entities := dict_pop (oc_parked_entities s) k\<rparr>
      else s)"

definition park_entity :: "rat \<Rightarrow> uuid \<Rightarrow> oc_state \<Rightarrow> oc_state" where
  "park_entity now e s =
     evict_entity
       (if dict_has (oc_parked_entities s) e then s
        else s\<lparr>oc_parked_entities := dict_set (oc_parked_entities s) e now\<rparr>)"

definition evict_edge :: "oc_state \<Rightarrow> oc_state" where
  "evict_edge s =
     (if MAX_PARKED_ITEMS < length (oc_parked_edges s)
      then case dict_min (oc_parked_edges s) of
             None \<Rightarrow> s
           | Some (k, _) \<Rightarrow> unpark_edge k s
      else s)"

definition park_edge :: "rat \<Rightarrow> uuid \<Rightarrow> uuid \<Rightarrow> uuid \<Rightarrow> oc_state \<Rightarrow> oc_state" where
  "park_edge now e src tgt s =
     evict_edge
       (if dict_has (oc_parked_edges s) e then s
        else s\<lparr>oc_parked_edges := dict_set (oc_parked_edges s) e now,
               oc_edge_deps := dict_set (oc_edge_deps s) e (src, tgt)\<rparr>)"

definition handle_entity_failure ::
  "oc_env \<Rightarrow> uuid \<Rightarrow> string \<Rightarrow> entity_upsert_event \<Rightarrow> py_exn \<Rightarrow> (oc_state, unit) act" where
  "handle_entity_failure env e subject ev exc =
     get_act (\<lambda>s. dict_getd (oc_entity_attempts s) e 0 + 1) (\<lambda>attempt.
       then_act (upd (\<lambda>s. s\<lparr>oc_entity_attempts := dict_set (oc_entity_attempts s) e attempt\<rparr>))
         (if attempt \<le> MAX_RETRIES_BEFORE_PARK
          then settle_msg env (Nak (Some (2 ^ attempt)))
          else then_act (upd (park_entity (ev_monotonic env) e))
                 (then_act (upd (update_metrics env))
                    (route_to_dlq env subject (PEntity ev) ''ingest.dlq.outbox_entity''
                       (''Processing failed: '' @ ev_exn_str env exc)))))"

definition handle_edge_failure ::
  "oc_env \<Rightarrow> uuid \<Rightarrow> uuid \<Rightarrow> uuid \<Rightarrow> string \<Rightarrow> edge_upsert_event \<Rightarrow> py_exn \<Rightarrow> (oc_state, unit) act" where
  "handle_edge_failure env e src tgt subject ev exc =
     get_act (\<lambda>s. dict_getd (oc_edge_attempts s) e 0 + 1) (\<lambda>attempt.
       then_act (upd (\<lambda>s. s\<lparr>oc_edge_attempts := dict_set (oc_edge_attempts s) e attempt\<rparr>))
         (if attempt \<le> MAX_RETRIES_BEFORE_PARK
          then settle_msg env (Nak (Some (2 ^ attempt)))
          else then_act (upd (park_edge (ev_monotonic env) e src tgt))
                 (then_act (upd (update_metrics env))
                    (route_to_dlq env subject (PEdge ev) ''ingest.dlq.outbox_edge''
                       (''Processing failed: '' @ ev_exn_str env exc)))))"

section \<open>Entities\<close>

definition entity_text :: "entity_upsert_event \<Rightarrow> string" where
  "entity_text ev =
     ''Entity: '' @ eu_entity_type ev @ '' '' @ eu_name ev @ '' ('' @ eu_display_name ev @ ''). ''
       @ ''Metadata: '' @ py_repr (JObj (eu_metadata ev))"

definition entity_upsert_of :: "uuid \<Rightarrow> uuid \<Rightarrow> entity_upsert_event \<Rightarrow> entity_upsert" where
  "entity_upsert_of e src ev =
     \<lparr>up_id = e, up_source_id = src, up_entity_type = eu_entity_type ev, up_name = eu_name ev,
      up_display_name = eu_display_name ev, up_chunk_id = None, up_metadata = eu_metadata ev,
      up_version = eu_version ev, up_content_hash = None,
      up_bypass_source_checkpoint = eu_is_backfill ev\<rparr>"

definition chunks_upsert_of ::
  "oc_env \<Rightarrow> uuid \<Rightarrow> uuid \<Rightarrow> rat list \<Rightarrow> entity_upsert_event \<Rightarrow> chunks_upsert" where
  "chunks_upsert_of env ws src embedding ev =
     \<lparr>cu_source_id = src, cu_external_id = ''entity:'' @ eu_id ev,
      cu_uri = ''entity://'' @ eu_entity_type ev @ ''/'' @ eu_name ev, cu_title = eu_display_name ev,
      cu_content_hash = (case eu_content_hash ev of Some h \<Rightarrow> h
         | None \<Rightarrow> entity_content_hash (ev_blake2b env) (eu_entity_type ev) (eu_name ev)
                     (eu_display_name ev) (eu_metadata ev)),
      cu_metadata = [(''workspace_id'', JStr (uuid_str ws))],
      cu_chunks =
        [\<lparr>ck_ord = 0, ck_text = entity_text ev, ck_embedding = embedding, ck_symbol = eu_name ev,
          ck_metadata = foldl (\<lambda>d (k, v). dict_set d k v)
            [(''workspace_id'', JStr (uuid_str ws)), (''entity_type'', JStr (eu_entity_type ev)),
             (''name'', JStr (eu_name ev)), (''display_name'', JStr (eu_display_name ev))]
            (eu_metadata ev),
          ck_embedding_model = ev_model_name env, ck_embedding_provider = ev_provider_name env,
          ck_parser_version = ''outbox_v1'', ck_chunker_strategy = ''entity_outbox''\<rparr>],
      cu_version = eu_version ev\<rparr>"

definition first_embedding :: "oc_env \<Rightarrow> string \<Rightarrow> rat list res" where
  "first_embedding env text =
     bind_res (ev_embed env text) (\<lambda>es. case es of [] \<Rightarrow> Inl IndexError | e # _ \<Rightarrow> Inr e)"

text \<open>The two store writes, the acknowledgement, and the edges that waited for the entity.\<close>

definition apply_entity :: "oc_env \<Rightarrow> uuid \<Rightarrow> entity_upsert_event \<Rightarrow> (oc_state, unit) act" where
  "apply_entity env e ev =
     bind_act (of_res (workspace_of (eu_workspace_id ev))) (\<lambda>ws.
     bind_act (of_res (uuid_parse (eu_source_id ev))) (\<lambda>src.
     then_act (call env (UpsertEntity (entity_upsert_of e src ev) ws)) (
     bind_act (of_res (first_embedding env (entity_text ev))) (\<lambda>embedding.
     then_act (call env (UpsertChunks (chunks_upsert_of env ws src embedding ev))) (
     then_act (upd (\<lambda>s. s\<lparr>oc_entity_attempts := dict_pop (oc_entity_attempts s) e\<rparr>)) (
     then_act (settle_msg env Ack)
       (if ev_session_factory env then auto_unpark_edges env e else ret ())))))))"

definition consume_entity_body :: "oc_env \<Rightarrow> string \<Rightarrow> entity_upsert_event \<Rightarrow> (oc_state, unit) act" where
  "consume_entity_body env subject ev =
     bind_act (of_res (uuid_parse (eu_id ev))) (\<lambda>e.
     then_act (upd (\<lambda>s. s\<lparr>oc_var_entity_id := Some e\<rparr>)) (
     then_act
       (if eu_is_backfill ev
        then upd (\<lambda>s. update_metrics env
               (s\<lparr>oc_parked_entities := dict_pop (oc_parked_entities s) e,
                  oc_entity_attempts := dict_pop (oc_entity_attempts s) e\<rparr>))
        else ret ()) (
     get_act (\<lambda>s. dict_has (oc_parked_entities s) e) (\<lambda>parked.
       if parked
       then route_to_dlq env subject (PEntity ev) ''ingest.dlq.outbox_entity''
              (''Entity '' @ uuid_str e @ '' is parked due to previous failure'')
       else apply_entity env e ev))))"

definition consume_entity :: "oc_env \<Rightarrow> string \<Rightarrow> entity_upsert_event \<Rightarrow> (oc_state, unit) act" where
  "consume_entity env subject ev =
     try_act (consume_entity_body env subject ev) (\<lambda>exc.
       get_act oc_var_entity_id (\<lambda>v.
         case v of
           None \<Rightarrow> settle_msg env (Nak None)
         | Some e \<Rightarrow> handle_entity_failure env e subject ev exc))"

section \<open>Edges\<close>

definition edge_upsert_of :: "uuid \<Rightarrow> uuid \<Rightarrow> edge_upsert_event \<Rightarrow> edge_upsert" where
  "edge_upsert_of src tgt ev =
     \<lparr>ue_source_entity_id = src, ue_target_entity_id = tgt, ue_edge_type = ee_edge_type ev,
      ue_metadata = ee_metadata ev, ue_version = ee_version ev,
      ue_bypass_source_checkpoint = ee_is_backfill ev\<rparr>"

definition apply_edge :: "oc_env \<Rightarrow> uuid \<Rightarrow> uuid \<Rightarrow> uuid \<Rightarrow> edge_upsert_event \<Rightarrow> (oc_state, unit) act" where
  "apply_edge env e src tgt ev =
     bind_act (of_res (workspace_of (ee_workspace_id ev))) (\<lambda>ws.
     then_act (call env (UpsertEdge (edge_upsert_of src tgt ev) ws)) (
     then_act (upd (\<lambda>s. s\<lparr>oc_edge_attempts := dict_pop (oc_edge_attempts s) e\<rparr>))
       (settle_msg env Ack)))"

definition consume_edge_body :: "oc_env \<Rightarrow> string \<Rightarrow> edge_upsert_event \<Rightarrow> (oc_state, unit) act" where
  "consume_edge_body env subject ev =
     bind_act (of_res (uuid_parse (ee_id ev))) (\<lambda>e.
     then_act (upd (\<lambda>s. s\<lparr>oc_var_edge_id := Some e\<rparr>)) (
     bind_act (of_res (uuid_parse (ee_source_entity_id ev))) (\<lambda>src.
     then_act (upd (\<lambda>s. s\<lparr>oc_var_source_id := Some src\<rparr>)) (
     bind_act (of_res (uuid_parse (ee_target_entity_id ev))) (\<lambda>tgt.
     then_act (upd (\<lambda>s. s\<lparr>oc_var_target_id := Some tgt\<rparr>)) (
     then_act
       (if ee_is_backfill ev
        then upd (\<lambda>s. update_metrics env
               ((unpark_edge e s)\<lparr>oc_edge_attempts := dict_pop (oc_edge_attempts s) e\<rparr>))
        else ret ()) (
     get_act (\<lambda>s. dict_has (oc_parked_edges s) e) (\<lambda>parked.
       if parked
       then route_to_dlq env subject (PEdge ev) ''ingest.dlq.outbox_edge''
              (''Edge '' @ uuid_str e @ '' is parked due to previous failure'')
       else
         get_act (\<lambda>s. dict_has (oc_parked_entities s) src \<or> dict_has (oc_parked_entities s) tgt) (\<lambda>waits.
           if waits
           then then_act (upd (park_edge (ev_monotonic env) e src tgt))
                  (then_act (upd (update_metrics env))
                     (route_to_dlq env subject (PEdge ev) ''ingest.dlq.outbox_edge''
                        (''Edge '' @ uuid_str e @ '' involves parked entities'')))
           else apply_edge env e src tgt ev)))))))))"

definition bound_var :: "string \<Rightarrow> 'a option \<Rightarrow> ('s, 'a) act" where
  "bound_var name v = (case v of None \<Rightarrow> raise_exn (NameError name) | Some x \<Rightarrow> ret x)"

definition consume_edge :: "oc_env \<Rightarrow> string \<Rightarrow> edge_upsert_event \<Rightarrow> (oc_state, unit) act" where
  "consume_edge env subject ev =
     try_act (consume_edge_body env subject ev) (\<lambda>exc.
       get_act oc_var_edge_id (\<lambda>v.
         case v of
           None \<Rightarrow> settle_msg env (Nak None)
         | Some e \<Rightarrow>
             get_act oc_var_source_id (\<lambda>vs.
             get_act oc_var_target_id (\<lambda>vt.
               bind_act (bound_var ''source_entity_id'' vs) (\<lambda>src.
               bind_act (bound_var ''target_entity_id'' vt) (\<lambda>tgt.
                 handle_edge_failure env e src tgt subject ev exc))))))"

section \<open>Merges\<close>

definition ends_with :: "string \<Rightarrow> string \<Rightarrow> bool" where
  "ends_with suffix s \<longleftrightarrow> length suffix \<le> length s \<and> drop (length s - length suffix) s = suffix"

definition consume_merge_body :: "oc_env \<Rightarrow> string \<Rightarrow> entity_merge_event \<Rightarrow> (oc_state, unit) act" where
  "consume_merge_body env subject ev =
     bind_act (of_res (uuid_parse (em_workspace_id ev))) (\<lambda>ws.
       if ends_with ''entity.merge'' subject
       then (case (em_source_id ev, em_target_id ev) of
               (Some a, Some b) \<Rightarrow>
                 bind_act (of_res (uuid_parse a)) (\<lambda>src.
                 bind_act (of_res (uuid_parse b)) (\<lambda>tgt.
                 then_act (call env (MergeNodes ws src tgt)) (settle_msg env Ack)))
             | _ \<Rightarrow> settle_msg env Term)
       else if ends_with ''entity.unmerge'' subject
       then (case em_merged_node_id ev of
               None \<Rightarrow> settle_msg env Term
             | Some a \<Rightarrow>
                 bind_act (of_res (uuid_parse a)) (\<lambda>node.
                 then_act (call env (UnmergeNode ws node)) (settle_msg env Ack)))
       else settle_msg env Ack)"

definition consume_merge :: "oc_env \<Rightarrow> string \<Rightarrow> entity_merge_event \<Rightarrow> (oc_state, unit) act" where
  "consume_merge env subject ev =
     try_act (consume_merge_body env subject ev) (\<lambda>exc.
       route_to_dlq env subject (PMerge ev) ''ingest.dlq.outbox_merge''
         (''Merge/unmerge processing failed: '' @ ev_exn_str env exc))"

section \<open>The unpark loop\<close>

definition unpark_timeout_seconds :: rat where "unpark_timeout_seconds = 300"

definition stale_keys :: "rat \<Rightarrow> (uuid, rat) dict \<Rightarrow> uuid list" where
  "stale_keys now d = map fst (filter (\<lambda>(_, parked_at). unpark_timeout_seconds < now - parked_at) d)"

definition unpark_iteration :: "oc_env \<Rightarrow> (oc_state, unit) act" where
  "unpark_iteration env =
     try_act
       (get_act (\<lambda>s. stale_keys (ev_monotonic env) (oc_parked_entities s)) (\<lambda>entities.
        get_act (\<lambda>s. stale_keys (ev_monotonic env) (oc_parked_edges s)) (\<lambda>edges.
          then_act
            (if entities = [] then ret ()
             else bind_act (of_res (ev_entities env entities)) (\<lambda>rows.
               each_act (\<lambda>(e, tenant). then_act
                 (call env (PublishEvent ''outbox.entity.upsert'' (PEntity (entity_backfill_event e tenant))))
                 (ret ())) rows))
            (if edges = [] then ret ()
             else bind_act (of_res (ev_edges env edges)) (\<lambda>rows.
               each_act (\<lambda>(e, tenant). then_act
                 (call env (PublishEvent ''outbox.edge.upsert'' (PEdge (edge_backfill_event e tenant))))
                 (ret ())) rows)))))
       (\<lambda>_. ret ())"

section \<open>The worker\<close>

datatype oc_event =
    EntityMsg oc_env string entity_upsert_event
  | EdgeMsg oc_env string edge_upsert_event
  | MergeMsg oc_env string entity_merge_event
  | UnparkTick oc_env

text \<open>
  One message or one iteration of the unpark loop. An exception that leaves a handler
  ends the task of that handler: nothing restarts it.
\<close>

definition oc_step :: "oc_event \<Rightarrow> oc_state \<Rightarrow> oc_state" where
  "oc_step e s =
     (case e of
        EntityMsg env subject ev \<Rightarrow>
          if \<not> oc_entity_task s then s
          else (case consume_entity env subject ev (s\<lparr>oc_settled := []\<rparr>) of
                  (Inr _, s') \<Rightarrow> s' | (Inl _, s') \<Rightarrow> s'\<lparr>oc_entity_task := False\<rparr>)
      | EdgeMsg env subject ev \<Rightarrow>
          if \<not> oc_edge_task s then s
          else (case consume_edge env subject ev (s\<lparr>oc_settled := []\<rparr>) of
                  (Inr _, s') \<Rightarrow> s' | (Inl _, s') \<Rightarrow> s'\<lparr>oc_edge_task := False\<rparr>)
      | MergeMsg env subject ev \<Rightarrow>
          if \<not> oc_merge_task s then s
          else (case consume_merge env subject ev (s\<lparr>oc_settled := []\<rparr>) of
                  (Inr _, s') \<Rightarrow> s' | (Inl _, s') \<Rightarrow> s'\<lparr>oc_merge_task := False\<rparr>)
      | UnparkTick env \<Rightarrow>
          if \<not> oc_unpark_task s then s else snd (unpark_iteration env s))"

section \<open>The invariant\<close>

definition parked_ok :: "('k, 'v) dict \<Rightarrow> bool" where
  "parked_ok d \<longleftrightarrow> dict_wf d \<and> length d \<le> MAX_PARKED_ITEMS"

definition oc_inv :: "oc_state \<Rightarrow> bool" where
  "oc_inv s \<longleftrightarrow>
     parked_ok (oc_parked_entities s) \<and> parked_ok (oc_parked_edges s)
     \<and> dict_wf (oc_edge_deps s) \<and> dict_wf (oc_entity_attempts s) \<and> dict_wf (oc_edge_attempts s)
     \<and> (\<forall>k. dict_has (oc_edge_deps s) k \<longleftrightarrow> dict_has (oc_parked_edges s) k)
     \<and> (\<forall>k. dict_has (oc_parked_entities s) k \<longrightarrow>
          MAX_RETRIES_BEFORE_PARK < dict_getd (oc_entity_attempts s) k 0)"

definition oc_inv_free :: "uuid \<Rightarrow> oc_state \<Rightarrow> bool" where
  "oc_inv_free e s \<longleftrightarrow> oc_inv s \<and> \<not> dict_has (oc_parked_entities s) e"

lemma oc_inv_frame [simp]:
  "oc_inv (s\<lparr>oc_calls := cs\<rparr>) = oc_inv s"
  "oc_inv (s\<lparr>oc_settled := ks\<rparr>) = oc_inv s"
  "oc_inv (s\<lparr>oc_gauges := g\<rparr>) = oc_inv s"
  "oc_inv (s\<lparr>oc_entity_task := b\<rparr>) = oc_inv s"
  "oc_inv (s\<lparr>oc_edge_task := b\<rparr>) = oc_inv s"
  "oc_inv (s\<lparr>oc_merge_task := b\<rparr>) = oc_inv s"
  "oc_inv (s\<lparr>oc_var_entity_id := v\<rparr>) = oc_inv s"
  "oc_inv (s\<lparr>oc_var_edge_id := v\<rparr>) = oc_inv s"
  "oc_inv (s\<lparr>oc_var_source_id := v\<rparr>) = oc_inv s"
  "oc_inv (s\<lparr>oc_var_target_id := v\<rparr>) = oc_inv s"
  "oc_inv (update_metrics env s) = oc_inv s"
  by (simp_all add: oc_inv_def update_metrics_def)

lemma parked_ok_pop [simp, intro]: "parked_ok d \<Longrightarrow> parked_ok (AList.delete k d)"
  using length_dict_pop_le [of k d] by (auto simp: parked_ok_def)

lemma evict_bound:
  assumes "dict_wf d" and "length d \<le> Suc MAX_PARKED_ITEMS" and "MAX_PARKED_ITEMS < length d"
    and "dict_min d = Some (k, v)"
  shows "parked_ok (AList.delete k d)"
  using assms length_dict_pop [OF assms(1), of k] dict_min_has [OF assms(4)] by (auto simp: parked_ok_def)

lemma unpark_edge_inv: "oc_inv s \<Longrightarrow> oc_inv (unpark_edge e s)"
  by (auto simp: oc_inv_def unpark_edge_def)

lemma park_entity_inv:
  assumes "oc_inv s" and "MAX_RETRIES_BEFORE_PARK < dict_getd (oc_entity_attempts s) e 0"
  shows "oc_inv (park_entity now e s)"
proof (cases "dict_has (oc_parked_entities s) e")
  case True
  then show ?thesis using assms(1) by (simp add: park_entity_def evict_entity_def oc_inv_def parked_ok_def)
next
  case False
  let ?d = "AList.update e now (oc_parked_entities s)"
  have wf: "dict_wf ?d" and len: "length ?d \<le> Suc MAX_PARKED_ITEMS"
    using assms(1) False by (auto simp: oc_inv_def parked_ok_def length_dict_set)
  show ?thesis
  proof (cases "MAX_PARKED_ITEMS < length ?d")
    case True
    then obtain k v where m: "dict_min ?d = Some (k, v)" by (cases "dict_min ?d") auto
    show ?thesis
      using evict_bound [OF wf len True m] assms False True m
      by (auto simp: park_entity_def evict_entity_def oc_inv_def)
  next
    case small: False
    then show ?thesis
      using wf assms False by (auto simp: park_entity_def evict_entity_def oc_inv_def parked_ok_def)
  qed
qed

lemma park_edge_inv:
  assumes "oc_inv s"
  shows "oc_inv (park_edge now e src tgt s)"
proof (cases "dict_has (oc_parked_edges s) e")
  case True
  then show ?thesis using assms by (simp add: park_edge_def evict_edge_def oc_inv_def parked_ok_def)
next
  case False
  let ?d = "AList.update e now (oc_parked_edges s)"
  have wf: "dict_wf ?d" and len: "length ?d \<le> Suc MAX_PARKED_ITEMS"
    using assms False by (auto simp: oc_inv_def parked_ok_def length_dict_set)
  show ?thesis
  proof (cases "MAX_PARKED_ITEMS < length ?d")
    case True
    then obtain k v where m: "dict_min ?d = Some (k, v)" by (cases "dict_min ?d") auto
    show ?thesis
      using evict_bound [OF wf len True m] assms False True m
      by (auto simp: park_edge_def evict_edge_def unpark_edge_def oc_inv_def)
  next
    case small: False
    then show ?thesis
      using wf assms False by (auto simp: park_edge_def evict_edge_def oc_inv_def parked_ok_def)
  qed
qed

text \<open>Actions that touch none of the dictionaries, then those that do.\<close>

lemma keeps_call [keeps_intros]:
  "(\<And>s b. I s \<Longrightarrow> I (s\<lparr>oc_calls := oc_calls s @ [(c, b)]\<rparr>)) \<Longrightarrow> keeps I (call env c)"
  by (simp add: keeps_def call_def Let_def)

lemma keeps_settle [keeps_intros]:
  "(\<And>s. I s \<Longrightarrow> I (s\<lparr>oc_settled := oc_settled s @ [k]\<rparr>)) \<Longrightarrow> keeps I (settle_msg env k)"
  by (simp add: keeps_def settle_msg_def)

lemma keeps_route_to_dlq [keeps_intros]:
  assumes "\<And>s d m b. I s \<Longrightarrow> I (s\<lparr>oc_calls := oc_calls s @ [(PublishDlq d m, b)]\<rparr>)"
    and "\<And>s k. I s \<Longrightarrow> k \<noteq> Ack \<Longrightarrow> I (s\<lparr>oc_settled := oc_settled s @ [k]\<rparr>)"
  shows "keeps I (route_to_dlq env subject p dlq err)"
  unfolding route_to_dlq_def by (intro keeps_intros assms) simp_all

lemma keeps_auto_unpark [keeps_intros]:
  assumes "\<And>s v p b. I s \<Longrightarrow> I (s\<lparr>oc_calls := oc_calls s @ [(PublishEvent v p, b)]\<rparr>)"
    and "\<And>s k. I s \<Longrightarrow> I (unpark_edge k s)"
    and "\<And>s. I s \<Longrightarrow> I (update_metrics env s)"
  shows "keeps I (auto_unpark_edges env e)"
  unfolding auto_unpark_edges_def case_prod_unfold by (intro keeps_intros assms)

lemma oc_inv_free_frame:
  "oc_inv_free e s \<Longrightarrow> oc_inv_free e (s\<lparr>oc_calls := cs\<rparr>)"
  "oc_inv_free e s \<Longrightarrow> oc_inv_free e (s\<lparr>oc_settled := ks\<rparr>)"
  "oc_inv_free e s \<Longrightarrow> oc_inv_free e (update_metrics env s)"
  "oc_inv_free e s \<Longrightarrow> oc_inv_free e (unpark_edge k s)"
  "oc_inv_free e s \<Longrightarrow> oc_inv_free e (s\<lparr>oc_entity_attempts := dict_pop (oc_entity_attempts s) e\<rparr>)"
  by (auto simp: oc_inv_free_def unpark_edge_inv)
    (auto simp: oc_inv_def update_metrics_def unpark_edge_def)

lemma keeps_apply_entity: "keeps (oc_inv_free e) (apply_entity env e ev)"
  unfolding apply_entity_def by (intro keeps_intros oc_inv_free_frame)

lemma handle_entity_failure_eq:
  fixes s :: oc_state and e :: uuid
  defines "a \<equiv> dict_getd (oc_entity_attempts s) e 0 + 1"
  defines "s1 \<equiv> s\<lparr>oc_entity_attempts := dict_set (oc_entity_attempts s) e a\<rparr>"
  shows "handle_entity_failure env e subject ev exc s =
      (if a \<le> MAX_RETRIES_BEFORE_PARK then settle_msg env (Nak (Some (2 ^ a))) s1
       else route_to_dlq env subject (PEntity ev) ''ingest.dlq.outbox_entity''
              (''Processing failed: '' @ ev_exn_str env exc)
              (update_metrics env (park_entity (ev_monotonic env) e s1)))"
  by (simp add: handle_entity_failure_def act_defs a_def s1_def)

lemma handle_entity_failure_inv: "keeps oc_inv (handle_entity_failure env e subject ev exc)"
  unfolding keeps_def
proof (intro allI impI)
  fix s assume inv: "oc_inv s"
  define a where "a = dict_getd (oc_entity_attempts s) e 0 + 1"
  define s1 where "s1 = s\<lparr>oc_entity_attempts := dict_set (oc_entity_attempts s) e a\<rparr>"
  have s1: "oc_inv s1" using inv by (auto simp: s1_def a_def oc_inv_def less_Suc_eq)
  have park: "oc_inv (update_metrics env (park_entity (ev_monotonic env) e s1))"
    if "\<not> a \<le> MAX_RETRIES_BEFORE_PARK"
    using park_entity_inv [OF s1] that by (simp add: s1_def)
  have "keeps oc_inv (settle_msg env k)" "keeps oc_inv (route_to_dlq env subject p dlq err)" for k p dlq err
    by (intro keeps_intros; simp)+
  then show "oc_inv (snd (handle_entity_failure env e subject ev exc s))"
    using s1 park unfolding handle_entity_failure_eq a_def [symmetric] s1_def [symmetric]
    by (simp add: keeps_def)
qed

lemma handle_edge_failure_inv: "keeps oc_inv (handle_edge_failure env e src tgt subject ev exc)"
  unfolding handle_edge_failure_def
  by (intro keeps_intros) (simp_all add: park_edge_inv, auto simp: oc_inv_def)

lemma consume_entity_inv: "keeps oc_inv (consume_entity env subject ev)"
proof -
  have body: "keeps oc_inv (get_act (\<lambda>s. dict_has (oc_parked_entities s) e) (\<lambda>parked.
      if parked then route_to_dlq env subject p dlq err else apply_entity env e ev))" for e p dlq err
    using keeps_apply_entity [of e env ev] keeps_route_to_dlq [of oc_inv env subject p dlq err]
    by (auto simp: keeps_def get_act_def oc_inv_free_def)
  show ?thesis
    unfolding consume_entity_def consume_entity_body_def
    by (intro keeps_intros body handle_entity_failure_inv) (simp_all, auto simp: oc_inv_def)
qed

lemma consume_edge_inv: "keeps oc_inv (consume_edge env subject ev)"
  unfolding consume_edge_def consume_edge_body_def apply_edge_def bound_var_def
  by (intro keeps_intros handle_edge_failure_inv)
    (simp_all add: park_edge_inv, auto simp: oc_inv_def unpark_edge_def)

lemma consume_merge_inv: "keeps oc_inv (consume_merge env subject ev)"
  unfolding consume_merge_def consume_merge_body_def case_prod_unfold
  by (intro keeps_intros) simp_all

lemma unpark_iteration_inv: "keeps oc_inv (unpark_iteration env)"
  unfolding unpark_iteration_def case_prod_unfold by (intro keeps_intros) simp_all

lemma oc_step_inv: "oc_inv s \<Longrightarrow> oc_inv (oc_step e s)"
  by (cases e)
    (auto simp: oc_step_def unpark_iteration_inv [unfolded keeps_def]
      intro!: keeps_outcome [of oc_inv] consume_entity_inv consume_edge_inv consume_merge_inv)

interpretation outbox_consumer: invariant_of oc_step oc_inv
  by unfold_locales (rule oc_step_inv)

section \<open>Properties\<close>

text \<open>
  Claim C5: However the stores, the database, the broker and the clock behave, in every
  state the worker can reach at most 10000 entities and 10000 edges are parked, the
  endpoints recorded for edges are exactly those of the parked edges, and every parked
  entity has used up its three retries.
\<close>

theorem parking_invariant:
  defines "reached \<equiv> \<lambda>sf events. run oc_step (oc_start sf oc_init) events"
  shows "length (oc_parked_entities (reached sf events)) \<le> 10000
    \<and> length (oc_parked_edges (reached sf events)) \<le> 10000
    \<and> set (dict_keys (oc_edge_deps (reached sf events))) = set (dict_keys (oc_parked_edges (reached sf events)))
    \<and> set (dict_keys (oc_parked_entities (reached sf events)))
        \<subseteq> {k. 3 < dict_getd (oc_entity_attempts (reached sf events)) k 0}"
proof -
  have "oc_inv (reached sf events)"
    unfolding reached_def by (rule outbox_consumer.run_inv) (simp add: oc_inv_def oc_start_def oc_init_def parked_ok_def)
  then show ?thesis
    by (auto simp: oc_inv_def parked_ok_def MAX_PARKED_ITEMS_def MAX_RETRIES_BEFORE_PARK_def
        dict_keys_def dict_has_def)
qed

definition is_dlq_call :: "oc_call \<times> bool \<Rightarrow> bool" where
  "is_dlq_call x \<longleftrightarrow> (case fst x of PublishDlq _ _ \<Rightarrow> True | _ \<Rightarrow> False)"

definition quarantined :: "uuid \<Rightarrow> (oc_call \<times> bool) list \<Rightarrow> oc_state \<Rightarrow> bool" where
  "quarantined e cs s \<longleftrightarrow> oc_inv s \<and> dict_has (oc_parked_entities s) e
     \<and> (\<exists>xs. oc_calls s = cs @ xs \<and> list_all is_dlq_call xs)"

lemma quarantined_frame:
  "quarantined e cs s \<Longrightarrow> quarantined e cs (s\<lparr>oc_calls := oc_calls s @ [(PublishDlq d m, b)]\<rparr>)"
  "quarantined e cs s \<Longrightarrow> quarantined e cs (s\<lparr>oc_settled := ks\<rparr>)"
  "quarantined e cs s \<Longrightarrow> quarantined e cs (update_metrics env s)"
  "quarantined e cs s \<Longrightarrow> quarantined e cs (s\<lparr>oc_var_entity_id := v\<rparr>)"
  "quarantined e cs s \<Longrightarrow> quarantined e cs (s\<lparr>oc_entity_task := tb\<rparr>)"
  by (auto simp: quarantined_def is_dlq_call_def) (simp_all add: update_metrics_def)

lemma quarantined_park: "quarantined e cs s \<Longrightarrow> park_entity now e s = s"
  by (simp add: quarantined_def park_entity_def evict_entity_def oc_inv_def parked_ok_def)

lemma quarantined_attempt:
  "quarantined e cs s \<Longrightarrow>
     quarantined e cs (s\<lparr>oc_entity_attempts := dict_set (oc_entity_attempts s) e (dict_getd (oc_entity_attempts s) e 0 + 1)\<rparr>)"
  by (auto simp: quarantined_def oc_inv_def less_Suc_eq)

lemma quarantined_keeps:
  "keeps (quarantined e cs) (settle_msg env k)"
  "keeps (quarantined e cs) (route_to_dlq env subject p dlq err)"
  "keeps (\<lambda>s. quarantined e cs s \<and> oc_var_entity_id s = v) (route_to_dlq env subject p dlq err)"
  by (intro keeps_intros; auto intro: quarantined_frame)+

lemma quarantined_failure:
  assumes "quarantined e cs s"
  shows "quarantined e cs (snd (handle_entity_failure env e subject ev exc s))"
  using quarantined_attempt [OF assms] quarantined_keeps(1,2)
  by (simp add: handle_entity_failure_eq quarantined_park quarantined_frame keeps_def del: power_Suc)

lemma quarantined_consume:
  assumes "quarantined e cs s" and "uuid_parse (eu_id ev) = Inr e" and "\<not> eu_is_backfill ev"
  shows "quarantined e cs (snd (consume_entity env subject ev s))"
proof -
  define R where "R = route_to_dlq env subject (PEntity ev) ''ingest.dlq.outbox_entity''
              (''Entity '' @ uuid_str e @ '' is parked due to previous failure'')"
  obtain r s' where R: "R (s\<lparr>oc_var_entity_id := Some e\<rparr>) = (r, s')" by fastforce
  have body: "consume_entity_body env subject ev s = (r, s')"
    using assms R by (simp add: consume_entity_body_def act_defs quarantined_def R_def)
  have "quarantined e cs s' \<and> oc_var_entity_id s' = Some e"
    using keepsD [OF quarantined_keeps(3) _ R [unfolded R_def], of e cs "Some e"] quarantined_frame(4) [OF assms(1)] by simp
  then show ?thesis
    by (cases r) (auto simp: consume_entity_def try_act_def get_act_def body quarantined_failure)
qed

lemma reachable_inv: "oc_inv (run oc_step (oc_start sf oc_init) events)"
  by (rule outbox_consumer.run_inv) (simp add: oc_inv_def oc_start_def oc_init_def parked_ok_def)

lemma quarantined_step:
  assumes "oc_inv s" and "dict_has (oc_parked_entities s) e" and "uuid_parse (eu_id ev) = Inr e" and "\<not> eu_is_backfill ev"
  shows "quarantined e (oc_calls s) (oc_step (EntityMsg env subject ev) s)"
proof -
  have q: "quarantined e (oc_calls s) s" using assms(1,2) by (simp add: quarantined_def)
  have "quarantined e (oc_calls s) (snd (consume_entity env subject ev (s\<lparr>oc_settled := []\<rparr>)))"
    by (rule quarantined_consume [OF quarantined_frame(2) [OF q] assms(3,4)])
  then show ?thesis
    using q by (auto simp: oc_step_def quarantined_frame split: prod.splits sum.splits)
qed

text \<open>
  Claim C7: An event for a parked entity that does not carry the backfill flag changes
  neither store, in any environment: the only calls made are dead-letter publishes, and
  the entity is still parked afterwards.
\<close>

theorem parked_entity_is_quarantined:
  assumes "run oc_step (oc_start sf oc_init) events = s"
    and "dict_has (oc_parked_entities s) e" and "uuid_parse (eu_id ev) = Inr e" and "\<not> eu_is_backfill ev"
  shows "dict_has (oc_parked_entities (oc_step (EntityMsg env subject ev) s)) e
    \<and> (\<exists>xs. oc_calls (oc_step (EntityMsg env subject ev) s) = oc_calls s @ xs \<and> list_all is_dlq_call xs)"
  using quarantined_step [OF _ assms(2-4)] reachable_inv assms(1) by (auto simp: quarantined_def)

subsection \<open>Retries\<close>

text \<open>
  A message that always fails before it is settled, in states whose loop variable
  satisfies \<open>V\<close>, and is charged to the entity \<open>e\<close>.
\<close>

definition fails_on :: "(uuid option \<Rightarrow> bool) \<Rightarrow> uuid \<Rightarrow> oc_env \<Rightarrow> string \<Rightarrow> entity_upsert_event \<Rightarrow> bool" where
  "fails_on V e env subject ev \<longleftrightarrow> V (Some e) \<and>
     (\<forall>s. V (oc_var_entity_id s) \<longrightarrow> \<not> dict_has (oc_parked_entities s) e \<longrightarrow>
        (\<exists>exc cs. consume_entity_body env subject ev s = (Inl exc, s\<lparr>oc_var_entity_id := Some e, oc_calls := cs\<rparr>)))"

definition reliable :: "oc_env \<Rightarrow> bool" where
  "reliable env \<longleftrightarrow> (\<forall>k. ev_settles env [] k) \<and> (\<forall>cs d m. is_ok (ev_answer env cs (PublishDlq d m)))"

definition awaiting :: "(uuid option \<Rightarrow> bool) \<Rightarrow> uuid \<Rightarrow> oc_state \<Rightarrow> bool" where
  "awaiting V e s \<longleftrightarrow> oc_entity_task s \<and> oc_dlq_producer s \<and> V (oc_var_entity_id s)
     \<and> \<not> dict_has (oc_parked_entities s) e"

lemma failing_step:
  assumes "fails_on V e env subject ev" and "reliable env" and "awaiting V e s"
  obtains exc cs where "oc_step (EntityMsg env subject ev) s =
    (let a = dict_getd (oc_entity_attempts s) e 0 + 1;
         s1 = s\<lparr>oc_settled := [], oc_var_entity_id := Some e, oc_calls := cs,
                oc_entity_attempts := dict_set (oc_entity_attempts s) e a\<rparr>
     in if a \<le> MAX_RETRIES_BEFORE_PARK then s1\<lparr>oc_settled := [Nak (Some (2 ^ a))]\<rparr>
        else snd (route_to_dlq env subject (PEntity ev) ''ingest.dlq.outbox_entity''
              (''Processing failed: '' @ ev_exn_str env exc)
              (update_metrics env (park_entity (ev_monotonic env) e s1))))"
proof -
  obtain exc cs where body: "consume_entity_body env subject ev (s\<lparr>oc_settled := []\<rparr>)
      = (Inl exc, s\<lparr>oc_settled := [], oc_var_entity_id := Some e, oc_calls := cs\<rparr>)"
    using assms(1) [unfolded fails_on_def, THEN conjunct2, THEN spec, of "s\<lparr>oc_settled := []\<rparr>"] assms(3)
    by (auto simp: awaiting_def)
  let ?s = "s\<lparr>oc_settled := [], oc_var_entity_id := Some e, oc_calls := cs\<rparr>"
  have step: "oc_step (EntityMsg env subject ev) s =
      (case handle_entity_failure env e subject ev exc ?s of
         (Inr _, s') \<Rightarrow> s' | (Inl _, s') \<Rightarrow> s'\<lparr>oc_entity_task := False\<rparr>)"
    using assms(3) by (simp add: oc_step_def consume_entity_def try_act_def get_act_def body awaiting_def)
  have route: "fst (route_to_dlq env subject p d m x) = Inr ()" if "oc_settled x = []" for p d m x
    using assms(2) that by (auto simp: route_to_dlq_def act_defs settle_msg_def call_def reliable_def Let_def
        split: sum.splits prod.splits)
  let ?a = "dict_getd (oc_entity_attempts s) e 0 + 1"
  define s1 where "s1 = ?s\<lparr>oc_entity_attempts := dict_set (oc_entity_attempts s) e ?a\<rparr>"
  define R where "R = route_to_dlq env subject (PEntity ev) ''ingest.dlq.outbox_entity''
              (''Processing failed: '' @ ev_exn_str env exc)
              (update_metrics env (park_entity (ev_monotonic env) e s1))"
  have "handle_entity_failure env e subject ev exc ?s =
      (if ?a \<le> MAX_RETRIES_BEFORE_PARK then settle_msg env (Nak (Some (2 ^ ?a))) s1 else R)"
    unfolding R_def s1_def using handle_entity_failure_eq [of env e subject ev exc ?s] by simp
  moreover have "settle_msg env k s1 = (Inr (), s1\<lparr>oc_settled := [k]\<rparr>)" for k
    using assms(2) by (simp add: settle_msg_def reliable_def s1_def)
  moreover have "oc_settled (update_metrics env (park_entity (ev_monotonic env) e s1)) = []"
    by (simp add: update_metrics_def park_entity_def evict_entity_def s1_def split: option.splits)
  then have "R = (Inr (), snd R)" using route unfolding R_def by (metis prod.collapse)
  ultimately have "oc_step (EntityMsg env subject ev) s =
      (if ?a \<le> MAX_RETRIES_BEFORE_PARK then s1\<lparr>oc_settled := [Nak (Some (2 ^ ?a))]\<rparr> else snd R)"
    unfolding step by (simp split: prod.splits sum.splits) (metis Inr_not_Inl fst_conv snd_conv)
  then show ?thesis
    by (intro that [of cs exc]) (simp only: Let_def R_def s1_def)
qed

lemma failing_retry:
  assumes "fails_on V e env subject ev" and "reliable env" and "awaiting V e s"
    and "dict_getd (oc_entity_attempts s) e 0 = n" and "n < MAX_RETRIES_BEFORE_PARK"
  defines "s' \<equiv> oc_step (EntityMsg env subject ev) s"
  shows "awaiting V e s' \<and> dict_getd (oc_entity_attempts s') e 0 = Suc n
    \<and> oc_settled s' = [Nak (Some (2 ^ Suc n))] \<and> oc_parked_entities s' = oc_parked_entities s"
proof -
  obtain exc cs where "s' = s\<lparr>oc_settled := [], oc_var_entity_id := Some e, oc_calls := cs,
      oc_entity_attempts := dict_set (oc_entity_attempts s) e (Suc n), oc_settled := [Nak (Some (2 ^ Suc n))]\<rparr>"
    using failing_step [OF assms(1-3)] assms(4,5) unfolding s'_def by (force simp: Let_def)
  then show ?thesis using assms(1,3) by (simp add: awaiting_def fails_on_def)
qed

lemma failing_last:
  assumes "fails_on V e env subject ev" and "reliable env" and "awaiting V e s"
    and "MAX_RETRIES_BEFORE_PARK \<le> dict_getd (oc_entity_attempts s) e 0"
    and "length (oc_parked_entities s) < MAX_PARKED_ITEMS"
  defines "s' \<equiv> oc_step (EntityMsg env subject ev) s"
  shows "oc_settled s' = [Term] \<and> dict_get (oc_parked_entities s') e = Some (ev_monotonic env)"
proof -
  obtain exc cs where s': "s' = snd (route_to_dlq env subject (PEntity ev) ''ingest.dlq.outbox_entity''
       (''Processing failed: '' @ ev_exn_str env exc)
       (update_metrics env (park_entity (ev_monotonic env) e
          (s\<lparr>oc_settled := [], oc_var_entity_id := Some e, oc_calls := cs,
             oc_entity_attempts := dict_set (oc_entity_attempts s) e (dict_getd (oc_entity_attempts s) e 0 + 1)\<rparr>))))"
    using failing_step [OF assms(1-3)] assms(4) unfolding s'_def by (force simp: Let_def)
  show ?thesis
    using assms(2,3,5) unfolding s'
    by (auto simp: route_to_dlq_def act_defs call_def settle_msg_def update_metrics_def park_entity_def
        evict_entity_def length_dict_set awaiting_def reliable_def Let_def is_ok_def split: sum.splits)
qed

lemma failing_retries:
  assumes "fails_on V e env subject ev" and "reliable env" and "awaiting V e s"
    and "dict_getd (oc_entity_attempts s) e 0 = 0" and "n \<le> MAX_RETRIES_BEFORE_PARK"
  defines "s' \<equiv> run oc_step s (replicate n (EntityMsg env subject ev))"
  shows "awaiting V e s' \<and> dict_getd (oc_entity_attempts s') e 0 = n
    \<and> (0 < n \<longrightarrow> oc_settled s' = [Nak (Some (2 ^ n))]) \<and> oc_parked_entities s' = oc_parked_entities s"
  using assms(5) unfolding s'_def
proof (induction n)
  case 0
  then show ?case using assms(3,4) by simp
next
  case (Suc n)
  then show ?case
    using failing_retry [OF assms(1,2), of "run oc_step s (replicate n (EntityMsg env subject ev))" n]
    by (simp only: run_replicate_Suc) (simp del: power_Suc)
qed

text \<open>
  A message whose graph write always fails, and one whose identifier is not a UUID: the
  second is charged to whatever entity the loop variable still names.
\<close>

lemma apply_entity_graph_err:
  assumes "\<not> is_ok (ev_answer env (oc_calls s) (UpsertEntity (entity_upsert_of e src ev) ws))"
    and "workspace_of (eu_workspace_id ev) = Inr ws" and "uuid_parse (eu_source_id ev) = Inr src"
  shows "\<exists>x. apply_entity env e ev s =
    (Inl x, s\<lparr>oc_calls := oc_calls s @ [(UpsertEntity (entity_upsert_of e src ev) ws, False)]\<rparr>)"
proof -
  obtain x where "ev_answer env (oc_calls s) (UpsertEntity (entity_upsert_of e src ev) ws) = Inl x"
    using not_ok_Inl [OF assms(1)] by blast
  then show ?thesis using assms(2,3) by (simp add: apply_entity_def act_defs call_def Let_def)
qed

lemma graph_down_apply_entity:
  assumes "\<And>cs u ws. \<not> is_ok (ev_answer env cs (UpsertEntity u ws))"
  shows "\<exists>exc cs. apply_entity env e ev s = (Inl exc, s\<lparr>oc_calls := cs\<rparr>)"
proof -
  have same: "s = s\<lparr>oc_calls := oc_calls s\<rparr>" by simp
  consider (ws) x where "workspace_of (eu_workspace_id ev) = Inl x"
    | (src) w x where "workspace_of (eu_workspace_id ev) = Inr w" "uuid_parse (eu_source_id ev) = Inl x"
    | (ok) w x where "workspace_of (eu_workspace_id ev) = Inr w" "uuid_parse (eu_source_id ev) = Inr x"
    by (cases "workspace_of (eu_workspace_id ev)"; cases "uuid_parse (eu_source_id ev)") auto
  then show ?thesis
  proof cases
    case ok
    then show ?thesis using apply_entity_graph_err [OF assms] by blast
  next
    case ws
    then have "apply_entity env e ev s = (Inl x, s)" by (simp add: apply_entity_def act_defs)
    then show ?thesis using same by metis
  next
    case src
    then have "apply_entity env e ev s = (Inl x, s)" by (simp add: apply_entity_def act_defs)
    then show ?thesis using same by metis
  qed
qed

lemma graph_down_fails_on:
  assumes "uuid_parse (eu_id ev) = Inr e" and "\<not> eu_is_backfill ev"
    and "\<And>cs u ws. \<not> is_ok (ev_answer env cs (UpsertEntity u ws))"
  shows "fails_on (\<lambda>_. True) e env subject ev"
proof -
  have "\<exists>exc cs. consume_entity_body env subject ev s = (Inl exc, s\<lparr>oc_var_entity_id := Some e, oc_calls := cs\<rparr>)"
    if "\<not> dict_has (oc_parked_entities s) e" for s
    using graph_down_apply_entity [OF assms(3), of e ev "s\<lparr>oc_var_entity_id := Some e\<rparr>"] assms(1,2) that
    by (auto simp: consume_entity_body_def act_defs)
  then show ?thesis by (simp add: fails_on_def)
qed

lemma bad_id_fails_on:
  assumes "uuid_parse (eu_id ev) = Inl x"
  shows "fails_on (\<lambda>v. v = Some e) e env subject ev"
  unfolding fails_on_def
proof (intro conjI refl allI impI)
  fix s :: oc_state assume v: "oc_var_entity_id s = Some e"
  have "consume_entity_body env subject ev s = (Inl x, s)"
    using assms by (simp add: consume_entity_body_def act_defs)
  moreover have "s = s\<lparr>oc_var_entity_id := Some e, oc_calls := oc_calls s\<rparr>" using v by simp
  ultimately show "\<exists>exc cs. consume_entity_body env subject ev s =
      (Inl exc, s\<lparr>oc_var_entity_id := Some e, oc_calls := cs\<rparr>)" by metis
qed

text \<open>
  Claim C8: While the graph store is down, the deliveries of one entity event are
  negatively acknowledged with delays of 2, 4 and 8 seconds; the fourth one parks the
  entity and terminates the message.
\<close>

theorem entity_retry_schedule:
  fixes subject :: string
  assumes "awaiting (\<lambda>_. True) e s" and "oc_entity_attempts s = []"
    and "length (oc_parked_entities s) < MAX_PARKED_ITEMS"
    and "uuid_parse (eu_id ev) = Inr e" and "\<not> eu_is_backfill ev"
    and "\<And>cs u ws. \<not> is_ok (ev_answer env cs (UpsertEntity u ws))" and "reliable env"
  defines "after \<equiv> \<lambda>n. run oc_step s (replicate n (EntityMsg env subject ev))"
  shows "map (\<lambda>n. oc_settled (after n)) [1, 2, 3, 4] =
      [[Nak (Some 2)], [Nak (Some 4)], [Nak (Some 8)], [Term]]
    \<and> \<not> dict_has (oc_parked_entities (after 3)) e \<and> dict_has (oc_parked_entities (after 4)) e"
proof -
  note fails = graph_down_fails_on [OF assms(4-6)]
  have zero: "dict_getd (oc_entity_attempts s) e 0 = 0" using assms(2) by (simp add: dict_getd_def)
  note retries = failing_retries [OF fails assms(7,1) zero, where subject = subject]
  have three: "awaiting (\<lambda>_. True) e (after 3) \<and> dict_getd (oc_entity_attempts (after 3)) e 0 = 3
      \<and> oc_settled (after 3) = [Nak (Some (2 ^ 3))] \<and> oc_parked_entities (after 3) = oc_parked_entities s"
    using retries [of 3] by (simp add: MAX_RETRIES_BEFORE_PARK_def after_def)
  have "after 4 = oc_step (EntityMsg env subject ev) (after 3)"
    unfolding after_def using run_replicate_Suc [of oc_step s 3] by (simp add: eval_nat_numeral)
  then have "oc_settled (after 4) = [Term] \<and> dict_has (oc_parked_entities (after 4)) e"
    using failing_last [OF fails assms(7), of "after 3"] three assms(3)
    by (simp add: MAX_RETRIES_BEFORE_PARK_def dict_has_iff)
  moreover have naks: "oc_settled (after n) = [Nak (Some (2 ^ n))]" if "0 < n" "n \<le> 3" for n
    using retries [of n] that by (simp add: MAX_RETRIES_BEFORE_PARK_def after_def)
  ultimately show ?thesis
    using three assms(1) naks [of 1] naks [of 2] by (simp add: awaiting_def)
qed

text \<open>
  Four messages whose identifier is not a UUID, arriving after a message for
  the entity \<open>e\<close>, park \<open>e\<close>: the loop variable still names it, so the failures of the
  malformed messages are charged to an entity that never failed.
\<close>

theorem malformed_ids_park_previous_entity:
  assumes "awaiting (\<lambda>v. v = Some e) e s" and "dict_getd (oc_entity_attempts s) e 0 = 0"
    and "length (oc_parked_entities s) < MAX_PARKED_ITEMS"
    and "uuid_parse (eu_id ev) = Inl x" and "reliable env"
  shows "dict_has (oc_parked_entities (run oc_step s (replicate 4 (EntityMsg env subject ev)))) e"
proof -
  note fails = bad_id_fails_on [OF assms(4)]
  let ?s3 = "run oc_step s (replicate 3 (EntityMsg env subject ev))"
  have three: "awaiting (\<lambda>v. v = Some e) e ?s3 \<and> dict_getd (oc_entity_attempts ?s3) e 0 = 3
      \<and> oc_parked_entities ?s3 = oc_parked_entities s"
    using failing_retries [OF fails assms(5,1,2), of 3 subject] by (simp add: MAX_RETRIES_BEFORE_PARK_def)
  have "run oc_step s (replicate 4 (EntityMsg env subject ev)) = oc_step (EntityMsg env subject ev) ?s3"
    using run_replicate_Suc [of oc_step s 3] by (simp add: eval_nat_numeral)
  then show ?thesis
    using failing_last [OF fails assms(5), where s = ?s3] three assms(3)
    by (simp add: MAX_RETRIES_BEFORE_PARK_def dict_has_iff)
qed

definition sample_oc_env :: "(oc_call \<Rightarrow> bool) \<Rightarrow> oc_env" where
  "sample_oc_env up =
     \<lparr>ev_answer = (\<lambda>_ c. if up c then Inr True else Inl (BackendError ''down'')),
      ev_settles = (\<lambda>ks _. ks = []), ev_embed = (\<lambda>_. Inr [[1]]), ev_edges = (\<lambda>_. Inr []),
      ev_entities = (\<lambda>_. Inr []), ev_blake2b = (\<lambda>b. b), ev_dump_json = (\<lambda>_. ''{}''),
      ev_exn_str = (\<lambda>_. ''down''), ev_monotonic = 7, ev_time = 1000, ev_utcnow = ''2024-01-01T00:00:00+00:00'',
      ev_model_name = ''m'', ev_provider_name = ''p'', ev_session_factory = True\<rparr>"

definition graph_up :: "oc_call \<Rightarrow> bool" where
  "graph_up c = (case c of UpsertEntity _ _ \<Rightarrow> False | _ \<Rightarrow> True)"

definition sample_upsert :: "string \<Rightarrow> entity_upsert_event" where
  "sample_upsert i = sample_entity\<lparr>eu_id := i, eu_source_id := uuid_str 9, eu_workspace_id := None, eu_is_backfill := False\<rparr>"

definition down_env :: oc_env where "down_env = sample_oc_env graph_up"

lemma down_env_facts:
  "reliable down_env" "\<not> is_ok (ev_answer down_env cs (UpsertEntity u ws))" "ev_monotonic down_env = 7"
  by (simp_all add: reliable_def down_env_def sample_oc_env_def graph_up_def)

lemma sample_upsert_facts [simp]: "eu_id (sample_upsert i) = i" "\<not> eu_is_backfill (sample_upsert i)"
  by (simp_all add: sample_upsert_def)

lemma started_awaiting: "awaiting (\<lambda>_. True) e (oc_start sf oc_init)"
  by (simp add: awaiting_def oc_start_def oc_init_def)

theorem entity_retry_schedule_witness:
  "map (\<lambda>n. oc_settled (run oc_step (oc_start True oc_init)
       (replicate n (EntityMsg down_env ''outbox.entity.upsert'' (sample_upsert (uuid_str 1)))))) [1, 2, 3, 4]
     = [[Nak (Some 2)], [Nak (Some 4)], [Nak (Some 8)], [Term]]"
  using entity_retry_schedule [OF started_awaiting [of 1 True], of "sample_upsert (uuid_str 1)" down_env] down_env_facts
  by (simp add: oc_start_def oc_init_def MAX_PARKED_ITEMS_def)

lemma parked_sample_run:
  "dict_has (oc_parked_entities (run oc_step (oc_start True oc_init)
     (replicate 4 (EntityMsg down_env subject (sample_upsert (uuid_str 1)))))) 1"
proof -
  let ?m = "EntityMsg down_env subject (sample_upsert (uuid_str 1))"
  let ?s3 = "run oc_step (oc_start True oc_init) (replicate 3 ?m)"
  have fails: "fails_on (\<lambda>_. True) 1 down_env subject (sample_upsert (uuid_str 1))"
    using down_env_facts by (intro graph_down_fails_on) simp_all
  have "awaiting (\<lambda>_. True) 1 ?s3 \<and> dict_getd (oc_entity_attempts ?s3) 1 0 = 3 \<and> oc_parked_entities ?s3 = []"
    using failing_retries [OF fails down_env_facts(1) started_awaiting [of 1 True], where n = 3]
    by (simp add: oc_start_def oc_init_def dict_getd_def MAX_RETRIES_BEFORE_PARK_def)
  then show ?thesis
    using failing_last [OF fails down_env_facts(1), of ?s3] run_replicate_Suc [of oc_step "oc_start True oc_init" 3 ?m]
    by (simp add: MAX_RETRIES_BEFORE_PARK_def MAX_PARKED_ITEMS_def dict_has_iff eval_nat_numeral)
qed

theorem parked_entity_is_quarantined_witness:
  "\<exists>s xs. s = run oc_step (oc_start True oc_init)
       (replicate 4 (EntityMsg down_env ''outbox.entity.upsert'' (sample_upsert (uuid_str 1))))
     \<and> oc_calls (oc_step (EntityMsg (sample_oc_env (\<lambda>_. True)) ''outbox.entity.upsert'' (sample_upsert (uuid_str 1))) s)
       = oc_calls s @ xs
     \<and> list_all is_dlq_call xs"
  using parked_entity_is_quarantined [OF refl parked_sample_run [of "''outbox.entity.upsert''"],
      of "sample_upsert (uuid_str 1)" "sample_oc_env (\<lambda>_. True)" "''outbox.entity.upsert''"]
  by simp

theorem malformed_ids_park_previous_entity_witness:
  "dict_has (oc_parked_entities (run oc_step ((oc_start True oc_init)\<lparr>oc_var_entity_id := Some 1\<rparr>)
     (replicate 4 (EntityMsg down_env ''outbox.entity.upsert'' (sample_upsert ''not-a-uuid''))))) 1"
  by (rule malformed_ids_park_previous_entity [where x = "ValueError ''badly formed hexadecimal UUID string''"])
    (simp_all add: awaiting_def oc_start_def oc_init_def dict_getd_def MAX_PARKED_ITEMS_def down_env_facts,
     simp add: uuid_parse_def replace_empty_def strip_by_def)

subsection \<open>Acknowledgement\<close>

definition both_written :: "oc_env \<Rightarrow> uuid \<Rightarrow> entity_upsert_event \<Rightarrow> (oc_call \<times> bool) list \<Rightarrow> oc_state \<Rightarrow> bool" where
  "both_written env e ev cs s \<longleftrightarrow> (\<exists>src ws emb rest. oc_calls s = cs @
     [(UpsertEntity (entity_upsert_of e src ev) ws, True), (UpsertChunks (chunks_upsert_of env ws src emb ev), True)] @ rest)"

definition ack_ok :: "oc_env \<Rightarrow> entity_upsert_event \<Rightarrow> (oc_call \<times> bool) list \<Rightarrow> oc_state \<Rightarrow> bool" where
  "ack_ok env ev cs s \<longleftrightarrow> Ack \<in> set (oc_settled s) \<longrightarrow>
     (\<exists>e. uuid_parse (eu_id ev) = Inr e \<and> both_written env e ev cs s)"

lemma both_writtenI:
  "oc_calls s = cs @ [(UpsertEntity (entity_upsert_of e src ev) ws, True),
     (UpsertChunks (chunks_upsert_of env ws src emb ev), True)] @ rest \<Longrightarrow> both_written env e ev cs s"
  by (auto simp: both_written_def simp del: append_Cons append_Nil)

lemma both_written_append:
  assumes "both_written env e ev cs s"
  shows "both_written env e ev cs (s\<lparr>oc_calls := oc_calls s @ [x]\<rparr>)"
proof -
  obtain src ws emb rest where "oc_calls s = cs @ [(UpsertEntity (entity_upsert_of e src ev) ws, True),
     (UpsertChunks (chunks_upsert_of env ws src emb ev), True)] @ rest"
    using assms by (auto simp: both_written_def)
  then show ?thesis by (intro both_writtenI [where rest = "rest @ [x]"]) simp
qed

lemma both_written_frame:
  "both_written env e ev cs (s\<lparr>oc_settled := ks\<rparr>) = both_written env e ev cs s"
  "both_written env e ev cs (update_metrics env' s) = both_written env e ev cs s"
  "both_written env e ev cs (unpark_edge k s) = both_written env e ev cs s"
  "both_written env e ev cs (s\<lparr>oc_entity_attempts := d\<rparr>) = both_written env e ev cs s"
  "both_written env e ev cs (park_entity now k s) = both_written env e ev cs s"
  by (auto simp: both_written_def update_metrics_def unpark_edge_def park_entity_def evict_entity_def
      split: option.splits)

lemma park_entity_settled [simp]: "oc_settled (park_entity now k s) = oc_settled s"
  by (auto simp: park_entity_def evict_entity_def split: option.splits)

lemma update_metrics_fields [simp]:
  "oc_settled (update_metrics env s) = oc_settled s"
  "oc_calls (update_metrics env s) = oc_calls s"
  "oc_parked_entities (update_metrics env s) = oc_parked_entities s"
  "oc_parked_edges (update_metrics env s) = oc_parked_edges s"
  "oc_edge_deps (update_metrics env s) = oc_edge_deps s"
  by (simp_all add: update_metrics_def)

lemma ack_ok_frame:
  "ack_ok env ev cs s \<Longrightarrow> ack_ok env ev cs (s\<lparr>oc_calls := oc_calls s @ [x]\<rparr>)"
  "ack_ok env ev cs s \<Longrightarrow> k \<noteq> Ack \<Longrightarrow> ack_ok env ev cs (s\<lparr>oc_settled := oc_settled s @ [k]\<rparr>)"
  "ack_ok env ev cs s \<Longrightarrow> ack_ok env ev cs (s\<lparr>oc_entity_attempts := d\<rparr>)"
  "ack_ok env ev cs s \<Longrightarrow> ack_ok env ev cs (update_metrics env' s)"
  "ack_ok env ev cs s \<Longrightarrow> ack_ok env ev cs (park_entity now e s)"
  by (auto simp: ack_ok_def both_written_frame both_written_append)

lemma ack_ok_failure: "keeps (ack_ok env ev cs) (handle_entity_failure env' e subject ev' exc)"
  unfolding handle_entity_failure_def by (intro keeps_intros ack_ok_frame) simp_all

lemma ack_ok_route: "keeps (ack_ok env ev cs) (route_to_dlq env' subject p dlq err)"
  by (intro keeps_intros ack_ok_frame) simp_all

lemma ack_ok_apply:
  assumes "oc_calls s = cs" and "oc_settled s = []" and "uuid_parse (eu_id ev) = Inr e"
  shows "ack_ok env ev cs (snd (apply_entity env e ev s))"
proof -
  define rest where "rest = then_act (upd (\<lambda>s. s\<lparr>oc_entity_attempts := dict_pop (oc_entity_attempts s) e\<rparr>))
     (then_act (settle_msg env Ack) (if ev_session_factory env then auto_unpark_edges env e else ret ()))"
  have "keeps (both_written env e ev cs) rest"
    unfolding rest_def by (intro keeps_intros) (simp_all add: both_written_frame both_written_append)
  then have rest: "ack_ok env ev cs (snd (rest s'))" if "both_written env e ev cs s'" for s'
    using that assms(3) by (auto simp: keeps_def ack_ok_def)
  have mid: "ack_ok env ev cs (snd (rest (s\<lparr>oc_calls := cs @ [(UpsertEntity (entity_upsert_of e src ev) ws, True),
     (UpsertChunks (chunks_upsert_of env ws src emb ev), True)]\<rparr>)))" for src ws emb
    by (intro rest both_writtenI [where rest = "[]"]) simp
  have none: "ack_ok env ev cs (s\<lparr>oc_calls := cs'\<rparr>)" "ack_ok env ev cs s" for cs'
    using assms(2) by (simp_all add: ack_ok_def)
  show ?thesis
    using assms(1) mid none unfolding apply_entity_def rest_def [symmetric]
    by (auto simp: act_defs call_def Let_def is_ok_def split: sum.splits)
qed

lemma ack_ok_consume:
  assumes "oc_calls s = cs" and "oc_settled s = []"
  shows "ack_ok env ev cs (snd (consume_entity env subject ev s))"
proof -
  have body: "ack_ok env ev cs (snd (consume_entity_body env subject ev s))"
  proof (cases "uuid_parse (eu_id ev)")
    case (Inl x)
    then show ?thesis using assms by (simp add: consume_entity_body_def act_defs ack_ok_def)
  next
    case (Inr e)
    define s1 where "s1 = (if eu_is_backfill ev
        then update_metrics env (s\<lparr>oc_var_entity_id := Some e, oc_parked_entities := dict_pop (oc_parked_entities s) e,
                  oc_entity_attempts := dict_pop (oc_entity_attempts s) e\<rparr>)
        else s\<lparr>oc_var_entity_id := Some e\<rparr>)"
    have s1: "oc_calls s1 = cs" "oc_settled s1 = []" using assms by (auto simp: s1_def)
    have eq: "consume_entity_body env subject ev s =
        (if dict_has (oc_parked_entities s1) e
         then route_to_dlq env subject (PEntity ev) ''ingest.dlq.outbox_entity''
              (''Entity '' @ uuid_str e @ '' is parked due to previous failure'') s1
         else apply_entity env e ev s1)"
      using Inr by (simp add: consume_entity_body_def act_defs s1_def)
    have "ack_ok env ev cs s1" using s1 by (simp add: ack_ok_def)
    then show ?thesis
      using ack_ok_apply [OF s1 Inr, of env] ack_ok_route [of env ev cs]
      unfolding eq by (simp add: keeps_def)
  qed
  have "keeps (ack_ok env ev cs) (get_act oc_var_entity_id (\<lambda>v.
         case v of None \<Rightarrow> settle_msg env (Nak None)
         | Some e \<Rightarrow> handle_entity_failure env e subject ev exc))" for exc
    by (intro keeps_intros ack_ok_failure ack_ok_frame) simp_all
  then show ?thesis
    using body unfolding consume_entity_def try_act_def
    by (cases "consume_entity_body env subject ev s") (auto simp: keeps_def split: sum.splits)
qed

text \<open>
  Claim C6: An entity event is acknowledged only after both writes of it succeeded, the
  graph store first and the vector store second, each with the event's own fields.
\<close>

theorem ack_after_both_stores:
  assumes "oc_entity_task s" and "Ack \<in> set (oc_settled (oc_step (EntityMsg env subject ev) s))"
  shows "\<exists>e src ws emb rest. uuid_parse (eu_id ev) = Inr e
    \<and> oc_calls (oc_step (EntityMsg env subject ev) s) = oc_calls s
        @ [(UpsertEntity (entity_upsert_of e src ev) ws, True),
           (UpsertChunks (chunks_upsert_of env ws src emb ev), True)] @ rest"
proof -
  obtain r s' where c: "consume_entity env subject ev (s\<lparr>oc_settled := []\<rparr>) = (r, s')" by fastforce
  have ok: "ack_ok env ev (oc_calls s) s'"
    using ack_ok_consume [of "s\<lparr>oc_settled := []\<rparr>" "oc_calls s" env ev subject] c by simp
  have "Ack \<in> set (oc_settled s')" and "oc_calls (oc_step (EntityMsg env subject ev) s) = oc_calls s'"
    using assms c by (cases r; simp add: oc_step_def)+
  then show ?thesis using ok by (auto simp: ack_ok_def both_written_def)
qed

theorem ack_after_both_stores_witness:
  "\<exists>e src ws emb rest. uuid_parse (uuid_str 1) = Inr e
    \<and> oc_calls (oc_step (EntityMsg (sample_oc_env (\<lambda>_. True)) ''outbox.entity.upsert'' (sample_upsert (uuid_str 1)))
         (oc_start True oc_init))
      = [(UpsertEntity (entity_upsert_of e src (sample_upsert (uuid_str 1))) ws, True),
         (UpsertChunks (chunks_upsert_of (sample_oc_env (\<lambda>_. True)) ws src emb (sample_upsert (uuid_str 1))), True)] @ rest"
proof -
  let ?s = "oc_start True oc_init" and ?env = "sample_oc_env (\<lambda>_. True)" and ?ev = "sample_upsert (uuid_str 1)"
  have "eu_source_id ?ev = uuid_str 9" "eu_workspace_id ?ev = None" by (simp_all add: sample_upsert_def)
  then have "Ack \<in> set (oc_settled (oc_step (EntityMsg ?env ''outbox.entity.upsert'' ?ev) ?s))"
    by (simp add: oc_step_def consume_entity_def consume_entity_body_def apply_entity_def act_defs
        call_def settle_msg_def auto_unpark_edges_def edges_to_unpark_def first_embedding_def workspace_of_def
        truthy_str_def sample_oc_env_def oc_start_def oc_init_def Let_def del: append_Cons)
  then show ?thesis
    using ack_after_both_stores [of ?s ?env "''outbox.entity.upsert''" ?ev] by (simp add: oc_start_def oc_init_def)
qed

subsection \<open>Edges\<close>

definition is_edge_write :: "oc_call \<Rightarrow> bool" where
  "is_edge_write c = (case c of UpsertEdge _ _ \<Rightarrow> True | _ \<Rightarrow> False)"

definition edge_dead :: "nat \<Rightarrow> oc_state \<Rightarrow> bool" where
  "edge_dead n s \<longleftrightarrow> \<not> oc_edge_task s \<and> length (filter (is_edge_write \<circ> fst) (oc_calls s)) = n"

lemma edge_dead_frame:
  "edge_dead n s \<Longrightarrow> \<not> is_edge_write c \<Longrightarrow> edge_dead n (s\<lparr>oc_calls := oc_calls s @ [(c, b)]\<rparr>)"
  "edge_dead n (s\<lparr>oc_settled := ks\<rparr>) = edge_dead n s"
  "edge_dead n (s\<lparr>oc_var_entity_id := v\<rparr>) = edge_dead n s"
  "edge_dead n (s\<lparr>oc_entity_task := tb\<rparr>) = edge_dead n s"
  "edge_dead n (s\<lparr>oc_merge_task := tb\<rparr>) = edge_dead n s"
  "edge_dead n (s\<lparr>oc_entity_attempts := d\<rparr>) = edge_dead n s"
  "edge_dead n (s\<lparr>oc_parked_entities := d'\<rparr>) = edge_dead n s"
  "edge_dead n (update_metrics env s) = edge_dead n s"
  "edge_dead n (unpark_edge k s) = edge_dead n s"
  "edge_dead n (park_entity now e s) = edge_dead n s"
  by (auto simp: edge_dead_def update_metrics_def unpark_edge_def park_entity_def evict_entity_def split: option.splits)

lemmas edge_dead_simps = edge_dead_frame is_edge_write_def

lemma edge_dead_entity: "keeps (edge_dead n) (consume_entity env subject ev)"
  unfolding consume_entity_def consume_entity_body_def apply_entity_def handle_entity_failure_def
  by (intro keeps_intros) (simp_all add: edge_dead_simps)

lemma edge_dead_merge: "keeps (edge_dead n) (consume_merge env subject ev)"
  unfolding consume_merge_def consume_merge_body_def case_prod_unfold
  by (intro keeps_intros) (simp_all add: edge_dead_simps)

lemma edge_dead_unpark: "keeps (edge_dead n) (unpark_iteration env)"
  unfolding unpark_iteration_def case_prod_unfold by (intro keeps_intros) (simp_all add: edge_dead_simps)

lemma edge_dead_step: "edge_dead n s \<Longrightarrow> edge_dead n (oc_step e s)"
proof (cases e)
  case (EdgeMsg env subject ev)
  then show "edge_dead n s \<Longrightarrow> ?thesis" by (simp add: oc_step_def edge_dead_def)
qed (auto simp: oc_step_def edge_dead_frame edge_dead_unpark [unfolded keeps_def]
    intro!: keeps_outcome [of "edge_dead n"] edge_dead_entity edge_dead_merge)

interpretation edge_dead: invariant_of oc_step "edge_dead n" for n
  by unfold_locales (rule edge_dead_step)

text \<open>
  On a worker that has not yet read an edge event with well-formed endpoints,
  one edge event with a well-formed identifier and a malformed source endpoint leaves the
  message unsettled and ends the edge task: the failure path reads an unbound variable.
  No edge is written after that, whatever arrives.
\<close>

theorem malformed_endpoint_ends_edge_task:
  fixes env :: oc_env and subject :: string
  assumes "oc_edge_task s" and "oc_var_source_id s = None"
    and "uuid_parse (ee_id ev) = Inr e" and "uuid_parse (ee_source_entity_id ev) = Inl x"
  defines "s1 \<equiv> oc_step (EdgeMsg env subject ev) s"
  shows "oc_settled s1 = [] \<and> \<not> oc_edge_task (run oc_step s1 events)
    \<and> length (filter (is_edge_write \<circ> fst) (oc_calls (run oc_step s1 events)))
      = length (filter (is_edge_write \<circ> fst) (oc_calls s))"
proof -
  have "consume_edge env subject ev (s\<lparr>oc_settled := []\<rparr>)
      = (Inl (NameError ''source_entity_id''), s\<lparr>oc_settled := [], oc_var_edge_id := Some e\<rparr>)"
    using assms(2-4) by (simp add: consume_edge_def consume_edge_body_def act_defs bound_var_def)
  then have s1: "s1 = s\<lparr>oc_settled := [], oc_var_edge_id := Some e, oc_edge_task := False\<rparr>"
    using assms(1) by (simp add: s1_def oc_step_def)
  define n where "n = length (filter (is_edge_write \<circ> fst) (oc_calls s))"
  have "edge_dead n s1" unfolding n_def s1 by (simp add: edge_dead_def)
  then have "edge_dead n (run oc_step s1 events)" by (rule edge_dead.run_inv)
  then show ?thesis using s1 by (simp add: edge_dead_def n_def)
qed

definition sample_edge_event :: "string \<Rightarrow> string \<Rightarrow> edge_upsert_event" where
  "sample_edge_event i src =
     \<lparr>ee_workspace_id = None, ee_id = i, ee_source_entity_id = src, ee_target_entity_id = uuid_str 2,
      ee_edge_type = ''calls'', ee_metadata = [], ee_version = None, ee_is_backfill = False\<rparr>"

theorem malformed_endpoint_ends_edge_task_witness:
  "\<not> oc_edge_task (run oc_step
      (oc_step (EdgeMsg (sample_oc_env (\<lambda>_. True)) ''outbox.edge.upsert'' (sample_edge_event (uuid_str 5) ''x''))
        (oc_start True oc_init))
      [EdgeMsg (sample_oc_env (\<lambda>_. True)) ''outbox.edge.upsert'' (sample_edge_event (uuid_str 6) (uuid_str 1))])"
proof -
  have bad: "uuid_parse ''x'' = Inl (ValueError ''badly formed hexadecimal UUID string'')"
    by (simp add: uuid_parse_def replace_empty_def strip_by_def)
  show ?thesis
    using malformed_endpoint_ends_edge_task [of "oc_start True oc_init" "sample_edge_event (uuid_str 5) ''x''" 5
      "ValueError ''badly formed hexadecimal UUID string''" "sample_oc_env (\<lambda>_. True)" "''outbox.edge.upsert''"
      "[EdgeMsg (sample_oc_env (\<lambda>_. True)) ''outbox.edge.upsert'' (sample_edge_event (uuid_str 6) (uuid_str 1))]"]
    by (simp add: oc_start_def oc_init_def sample_edge_event_def bad)
qed

text \<open>
  The dictionaries after a list of edges was unparked, and the republished backfills.
\<close>

lemma each_unpark:
  assumes "\<And>cs v p. is_ok (ev_answer env cs (PublishEvent v p))"
  shows "each_act (\<lambda>(edge, tenant).
      then_act (call env (PublishEvent ''outbox.edge.upsert'' (PEdge (edge_backfill_event edge tenant))))
        (upd (unpark_edge (pg_id edge)))) rows s
    = (Inr (), s\<lparr>oc_parked_edges := fold (\<lambda>k d. dict_pop d k) (map (pg_id \<circ> fst) rows) (oc_parked_edges s),
         oc_edge_deps := fold (\<lambda>k d. dict_pop d k) (map (pg_id \<circ> fst) rows) (oc_edge_deps s),
         oc_calls := oc_calls s @ map (\<lambda>(edge, tenant).
           (PublishEvent ''outbox.edge.upsert'' (PEdge (edge_backfill_event edge tenant)), True)) rows\<rparr>)"
proof (induction rows arbitrary: s)
  case Nil
  then show ?case by (simp add: ret_def)
next
  case (Cons r rows)
  obtain edge tenant where r: "r = (edge, tenant)" by force
  let ?c = "PublishEvent ''outbox.edge.upsert'' (PEdge (edge_backfill_event edge tenant))"
  obtain b where b: "ev_answer env (oc_calls s) ?c = Inr b"
    using assms [of "oc_calls s"] by (auto simp: is_ok_iff)
  have "then_act (call env ?c) (upd (unpark_edge (pg_id edge))) s
      = (Inr (), s\<lparr>oc_calls := oc_calls s @ [(?c, True)], oc_parked_edges := dict_pop (oc_parked_edges s) (pg_id edge),
           oc_edge_deps := dict_pop (oc_edge_deps s) (pg_id edge)\<rparr>)"
    using b by (simp add: act_defs call_def unpark_edge_def)
  then show ?case
    using Cons by (simp add: r then_act_def bind_act_def)
qed

lemma map_of_fold_pop: "map_of (fold (\<lambda>k d. dict_pop d k) ks d) x = (if x \<in> set ks then None else map_of d x)"
  by (induction ks arbitrary: d) auto

definition all_up :: "oc_env \<Rightarrow> bool" where
  "all_up env \<longleftrightarrow> (\<forall>cs c. is_ok (ev_answer env cs c)) \<and> (\<forall>k. ev_settles env [] k)
     \<and> (\<forall>t. is_ok (first_embedding env t)) \<and> ev_session_factory env"

definition backfill_call :: "pg_edge \<times> uuid option \<Rightarrow> oc_call \<times> bool" where
  "backfill_call = (\<lambda>(edge, tenant).
     (PublishEvent ''outbox.edge.upsert'' (PEdge (edge_backfill_event edge tenant)), True))"

lemma auto_unpark_all_up:
  assumes "all_up env" and "ev_edges env (edges_to_unpark e s) = Inr rows" and "edges_to_unpark e s = [] \<Longrightarrow> rows = []"
  shows "\<exists>s'. auto_unpark_edges env e s = (Inr (), s') \<and> oc_settled s' = oc_settled s
    \<and> oc_calls s' = oc_calls s @ map backfill_call rows
    \<and> map_of (oc_parked_edges s') = (\<lambda>k. if k \<in> (pg_id \<circ> fst) ` set rows then None else map_of (oc_parked_edges s) k)"
proof (cases "edges_to_unpark e s = []")
  case True
  then show ?thesis using assms by (simp add: auto_unpark_edges_def act_defs all_up_def)
next
  case False
  then show ?thesis
    using assms each_unpark [of env rows s]
    by (auto simp: auto_unpark_edges_def get_act_def of_res_def bind_act_def then_act_def upd_def
      map_of_fold_pop fun_eq_iff all_up_def backfill_call_def)
qed

lemma apply_entity_all_up:
  assumes up: "all_up env" and "oc_settled s = []"
    and ws: "workspace_of (eu_workspace_id ev) = Inr ws" and src: "uuid_parse (eu_source_id ev) = Inr src"
  shows "\<exists>emb. first_embedding env (entity_text ev) = Inr emb \<and> apply_entity env e ev s = auto_unpark_edges env e
    (s\<lparr>oc_calls := oc_calls s @ [(UpsertEntity (entity_upsert_of e src ev) ws, True),
         (UpsertChunks (chunks_upsert_of env ws src emb ev), True)],
       oc_entity_attempts := dict_pop (oc_entity_attempts s) e, oc_settled := [Ack]\<rparr>)"
proof -
  obtain emb where emb: "first_embedding env (entity_text ev) = Inr emb"
    using up unfolding all_up_def is_ok_iff by blast
  obtain b1 where "ev_answer env (oc_calls s) (UpsertEntity (entity_upsert_of e src ev) ws) = Inr b1"
    using up unfolding all_up_def is_ok_iff by blast
  moreover obtain b2 where "ev_answer env (oc_calls s @ [(UpsertEntity (entity_upsert_of e src ev) ws, True)])
      (UpsertChunks (chunks_upsert_of env ws src emb ev)) = Inr b2"
    using up unfolding all_up_def is_ok_iff by blast
  ultimately show ?thesis
    using assms emb
    by (intro exI [of _ emb]) (simp add: apply_entity_def act_defs call_def settle_msg_def all_up_def Let_def)
qed

lemma consume_entity_all_up:
  assumes "all_up env" and "oc_entity_task s" and "uuid_parse (eu_id ev) = Inr e"
    and "\<not> eu_is_backfill ev" and "\<not> dict_has (oc_parked_entities s) e"
    and "workspace_of (eu_workspace_id ev) = Inr ws" and "uuid_parse (eu_source_id ev) = Inr src"
    and "ev_edges env (edges_to_unpark e s) = Inr rows" and "map (pg_id \<circ> fst) rows = edges_to_unpark e s"
  shows "\<exists>emb s'. first_embedding env (entity_text ev) = Inr emb
    \<and> oc_step (EntityMsg env subject ev) s = s' \<and> oc_settled s' = [Ack]
    \<and> oc_calls s' = oc_calls s
        @ [(UpsertEntity (entity_upsert_of e src ev) ws, True), (UpsertChunks (chunks_upsert_of env ws src emb ev), True)]
        @ map backfill_call rows
    \<and> map_of (oc_parked_edges s') =
        (\<lambda>k. if k \<in> set (edges_to_unpark e s) then None else map_of (oc_parked_edges s) k)"
proof -
  define t where "t = s\<lparr>oc_settled := [], oc_var_entity_id := Some e\<rparr>"
  obtain emb where emb: "first_embedding env (entity_text ev) = Inr emb" and app: "apply_entity env e ev t = auto_unpark_edges env e
    (t\<lparr>oc_calls := oc_calls t @ [(UpsertEntity (entity_upsert_of e src ev) ws, True),
         (UpsertChunks (chunks_upsert_of env ws src emb ev), True)],
       oc_entity_attempts := dict_pop (oc_entity_attempts t) e, oc_settled := [Ack]\<rparr>)"
    using apply_entity_all_up [OF assms(1) _ assms(6,7), of t e] by (auto simp: t_def)
  define u where "u = t\<lparr>oc_calls := oc_calls t @ [(UpsertEntity (entity_upsert_of e src ev) ws, True),
         (UpsertChunks (chunks_upsert_of env ws src emb ev), True)],
       oc_entity_attempts := dict_pop (oc_entity_attempts t) e, oc_settled := [Ack]\<rparr>"
  have ids: "edges_to_unpark e u = edges_to_unpark e s" by (simp add: edges_to_unpark_def u_def t_def)
  have q: "ev_edges env (edges_to_unpark e u) = Inr rows" using assms(8) ids by simp
  have nil: "rows = []" if "edges_to_unpark e u = []" using assms(9) ids that by simp
  from auto_unpark_all_up [OF assms(1) q nil]
  obtain s' where un: "auto_unpark_edges env e u = (Inr (), s')" "oc_settled s' = oc_settled u"
    "oc_calls s' = oc_calls u @ map backfill_call rows"
    "map_of (oc_parked_edges s') = (\<lambda>k. if k \<in> (pg_id \<circ> fst) ` set rows then None else map_of (oc_parked_edges u) k)"
    by blast
  have rows: "(pg_id \<circ> fst) ` set rows = set (edges_to_unpark e s)" using assms(9) by (metis set_map)
  have "consume_entity env subject ev (s\<lparr>oc_settled := []\<rparr>) = (Inr (), s')"
    using assms(3-5) app un(1) by (simp add: consume_entity_def consume_entity_body_def act_defs t_def u_def)
  then have step: "oc_step (EntityMsg env subject ev) s = s'" using assms(2) by (simp add: oc_step_def)
  have pu: "oc_parked_edges u = oc_parked_edges s" by (simp add: u_def t_def)
  show ?thesis
    using emb step un(2,3) un(4) [unfolded rows pu] by (intro exI [of _ emb] exI [of _ s']) (simp add: u_def t_def)
qed

text \<open>
  When an entity that is not parked is written and every service answers, its
  event is acknowledged and each edge that waited for it and whose other endpoint is not
  parked is republished as a backfill, after the two writes, and is no longer parked.
\<close>

theorem resolved_entity_releases_edges:
  assumes "all_up env" and "oc_entity_task s" and "uuid_parse (eu_id ev) = Inr e"
    and "\<not> eu_is_backfill ev" and "\<not> dict_has (oc_parked_entities s) e"
    and "workspace_of (eu_workspace_id ev) = Inr ws" and "uuid_parse (eu_source_id ev) = Inr src"
    and "ev_edges env (edges_to_unpark e s) = Inr rows" and "map (pg_id \<circ> fst) rows = edges_to_unpark e s"
  shows "\<exists>emb s'. first_embedding env (entity_text ev) = Inr emb
    \<and> oc_step (EntityMsg env subject ev) s = s' \<and> oc_settled s' = [Ack]
    \<and> oc_calls s' = oc_calls s
        @ [(UpsertEntity (entity_upsert_of e src ev) ws, True), (UpsertChunks (chunks_upsert_of env ws src emb ev), True)]
        @ map backfill_call rows
    \<and> map_of (oc_parked_edges s') =
        (\<lambda>k. if k \<in> set (edges_to_unpark e s) then None else map_of (oc_parked_edges s) k)"
  by (rule consume_entity_all_up [OF assms])

definition waiting_edge :: pg_edge where
  "waiting_edge = \<lparr>pg_id = 5, pg_source_entity_id = 1, pg_target_entity_id = 2, pg_edge_type = ''calls'',
     pg_metadata = [], pg_version = 1\<rparr>"

definition waiting_state :: oc_state where
  "waiting_state = (oc_start True oc_init)\<lparr>oc_parked_edges := [(5, 7)], oc_edge_deps := [(5, (1, 2))]\<rparr>"

definition db_env :: oc_env where
  "db_env = (sample_oc_env (\<lambda>_. True))\<lparr>ev_edges := (\<lambda>_. Inr [(waiting_edge, None)])\<rparr>"

theorem resolved_entity_releases_edges_witness:
  "\<exists>s'. oc_step (EntityMsg db_env ''outbox.entity.upsert'' (sample_upsert (uuid_str 1))) waiting_state = s'
     \<and> oc_settled s' = [Ack] \<and> map_of (oc_parked_edges waiting_state) 5 = Some 7 \<and> map_of (oc_parked_edges s') 5 = None"
proof -
  have ids: "edges_to_unpark 1 waiting_state = [5]"
    by (simp add: edges_to_unpark_def waiting_state_def oc_start_def oc_init_def)
  have up: "all_up db_env"
    by (simp add: all_up_def db_env_def sample_oc_env_def first_embedding_def)
  have "\<exists>emb s'. first_embedding db_env (entity_text (sample_upsert (uuid_str 1))) = Inr emb
     \<and> oc_step (EntityMsg db_env ''outbox.entity.upsert'' (sample_upsert (uuid_str 1))) waiting_state = s'
     \<and> oc_settled s' = [Ack]
     \<and> oc_calls s' = oc_calls waiting_state
        @ [(UpsertEntity (entity_upsert_of 1 9 (sample_upsert (uuid_str 1))) 0, True),
           (UpsertChunks (chunks_upsert_of db_env 0 9 emb (sample_upsert (uuid_str 1))), True)]
        @ map backfill_call [(waiting_edge, None)]
    \<and> map_of (oc_parked_edges s') =
        (\<lambda>k. if k \<in> set (edges_to_unpark 1 waiting_state) then None else map_of (oc_parked_edges waiting_state) k)"
    by (rule resolved_entity_releases_edges [OF up])
      (simp_all only: ids, simp_all add: waiting_state_def oc_start_def oc_init_def sample_upsert_def workspace_of_def
        truthy_str_def db_env_def waiting_edge_def)
  moreover have "map_of (oc_parked_edges waiting_state) 5 = Some 7" by (simp add: waiting_state_def)
  ultimately show ?thesis by (auto simp: ids)
qed

end
