(* ===== verification/Reconcile.thy ===== *)
theory Reconcile
  imports OutboxWorker OutboxConsumer
begin

text \<open>
  \<^verbatim>\<open>reconcile_worker.py\<close>: the periodic comparison of the projections with Postgres. The
  state is the Postgres tables the worker reads and writes, the points of the vector
  store it deletes, the sources it end-dates in the graph and the re-emit cursor of the
  current run. What the two stores report is a parameter record.
\<close>

section \<open>State\<close>

datatype run_status = RunRunning | RunOk | RunPartial | RunError

record run_row =
  rr_id :: uuid
  rr_source_id :: uuid
  rr_status :: run_status
  rr_started_at :: rat

record new_event =
  ne_event_type :: string
  ne_entity_id :: "uuid option"
  ne_payload :: metadata

record rc_state =
  rc_workspaces :: "uuid list"
  rc_sources :: "(uuid \<times> uuid option) list"
  rc_documents :: "(uuid \<times> bool) list"
  rc_entities :: "pg_entity list"
  rc_edges :: "pg_edge list"
  rc_runs :: "run_row list"
  rc_outbox :: "new_event list"
  rc_reemit_cursor :: int
  rc_deleted_points :: "(uuid \<times> uuid \<times> string) list"
  rc_end_dated :: "(uuid \<times> string) list"

record rc_conf =
  rk_tick_seconds :: int
  rk_orphan_limit :: int
  rk_reemit_cap :: int

text \<open>
  What the stores answer: entity and edge versions, content hashes, chunk and entity
  counts by source, and the vector client's count and scroll under a filter.
\<close>

record rc_stores =
  vs_entity_versions :: "uuid \<Rightarrow> (uuid, int) dict res"
  gs_entity_versions :: "uuid \<Rightarrow> (uuid, int) dict res"
  vs_content_hashes :: "uuid \<Rightarrow> (uuid, string) dict res"
  gs_content_hashes :: "uuid \<Rightarrow> (uuid, string) dict res"
  gs_edge_versions :: "uuid \<Rightarrow> (uuid \<times> uuid \<times> string, int) dict res"
  vs_count_by_source :: "uuid \<Rightarrow> (string, int) dict res"
  gs_count_by_source :: "uuid \<Rightarrow> (string, int) dict res"
  qc_count :: "(uuid \<times> uuid \<times> string) list \<Rightarrow> uuid \<Rightarrow> uuid \<Rightarrow> int res"
  qc_scroll :: "(uuid \<times> uuid \<times> string) list \<Rightarrow> uuid \<Rightarrow> uuid \<Rightarrow> int \<Rightarrow> string list res"
  qc_delete :: "string list \<Rightarrow> unit res"
  gs_end_date :: "uuid \<Rightarrow> string \<Rightarrow> int res"

definition reconcile_conf :: "int \<Rightarrow> int \<Rightarrow> int \<Rightarrow> rc_conf" where
  "reconcile_conf tick_seconds orphan_limit reemit_cap =
     \<lparr>rk_tick_seconds = max tick_seconds 60, rk_orphan_limit = max orphan_limit 1,
      rk_reemit_cap = max reemit_cap 1\<rparr>"

section \<open>Queries\<close>

definition try_parse_uuid :: "string \<Rightarrow> uuid option" where
  "try_parse_uuid v = (case uuid_parse v of Inl _ \<Rightarrow> None | Inr u \<Rightarrow> Some u)"

definition tenant_sources :: "uuid \<Rightarrow> rc_state \<Rightarrow> uuid list" where
  "tenant_sources ws s = map fst (filter (\<lambda>(_, t). t = Some ws) (rc_sources s))"

definition load_active_source_ids :: "uuid \<Rightarrow> rc_state \<Rightarrow> uuid list" where
  "load_active_source_ids ws s =
     remdups (map fst (filter (\<lambda>(src, tombstoned). \<not> tombstoned \<and> src \<in> set (tenant_sources ws s)) (rc_documents s)))"

definition tenant_entities :: "uuid \<Rightarrow> rc_state \<Rightarrow> pg_entity list" where
  "tenant_entities ws s = filter (\<lambda>e. pe_source_id e \<in> set (tenant_sources ws s)) (rc_entities s)"

definition tenant_edges :: "uuid \<Rightarrow> rc_state \<Rightarrow> pg_edge list" where
  "tenant_edges ws s =
     filter (\<lambda>g. \<exists>e \<in> set (tenant_entities ws s). pe_id e = pg_source_entity_id g) (rc_edges s)"

section \<open>Events\<close>

definition entity_drift_payload :: "uuid \<Rightarrow> pg_entity \<Rightarrow> metadata" where
  "entity_drift_payload ws ent =
     [(''workspace_id'', JStr (uuid_str ws)), (''id'', JStr (uuid_str (pe_id ent))),
      (''source_id'', JStr (uuid_str (pe_source_id ent))), (''entity_type'', JStr (pe_entity_type ent)),
      (''name'', JStr (pe_name ent)), (''display_name'', JStr (pe_display_name ent)),
      (''metadata'', JObj (pe_metadata ent)), (''version'', JInt (pe_version ent)),
      (''is_backfill'', JBool True),
      (''content_hash'', (case pe_content_hash ent of None \<Rightarrow> JNull | Some h \<Rightarrow> JStr h))]"

definition edge_drift_payload :: "uuid \<Rightarrow> pg_edge \<Rightarrow> metadata" where
  "edge_drift_payload ws g =
     [(''workspace_id'', JStr (uuid_str ws)),
      (''source_entity_id'', JStr (uuid_str (pg_source_entity_id g))),
      (''target_entity_id'', JStr (uuid_str (pg_target_entity_id g))),
      (''edge_type'', JStr (pg_edge_type g)), (''metadata'', JObj (pg_metadata g)),
      (''version'', JInt (pg_version g)), (''is_backfill'', JBool True)]"

definition entity_event :: "uuid \<Rightarrow> pg_entity \<Rightarrow> new_event" where
  "entity_event ws ent = \<lparr>ne_event_type = ''entity.upsert'', ne_entity_id = Some (pe_id ent),
     ne_payload = entity_drift_payload ws ent\<rparr>"

definition edge_event :: "uuid \<Rightarrow> pg_edge \<Rightarrow> new_event" where
  "edge_event ws g = \<lparr>ne_event_type = ''edge.upsert'', ne_entity_id = Some (pg_source_entity_id g),
     ne_payload = edge_drift_payload ws g\<rparr>"

definition emit :: "new_event list \<Rightarrow> rc_state \<Rightarrow> rc_state" where
  "emit evs s = s\<lparr>rc_outbox := rc_outbox s @ evs, rc_reemit_cursor := rc_reemit_cursor s + int (length evs)\<rparr>"

section \<open>Drift checks\<close>

definition entity_drifted ::
  "(uuid, int) dict \<Rightarrow> (uuid, int) dict \<Rightarrow> (uuid, string) dict \<Rightarrow> (uuid, string) dict \<Rightarrow> pg_entity \<Rightarrow> bool" where
  "entity_drifted qv nv qh nh ent =
     (let i = pe_id ent;
          version_drift = (dict_getd qv i 0 < pe_version ent \<or> dict_getd nv i 0 < pe_version ent);
          hash_drift = (case pe_content_hash ent of
             None \<Rightarrow> False
           | Some h \<Rightarrow> (case dict_get qh i of None \<Rightarrow> False | Some q \<Rightarrow> q \<noteq> h)
                     \<or> (case dict_get nh i of None \<Rightarrow> False | Some n \<Rightarrow> n \<noteq> h))
      in version_drift \<or> hash_drift)"

definition check_entity_drift :: "rc_conf \<Rightarrow> rc_stores \<Rightarrow> uuid \<Rightarrow> (rc_state, unit) act" where
  "check_entity_drift cf st ws =
     get_act (\<lambda>s. rk_reemit_cap cf - rc_reemit_cursor s) (\<lambda>remaining.
       if remaining \<le> 0 then ret ()
       else get_act (tenant_entities ws) (\<lambda>pg_entities.
         bind_act (of_res (vs_entity_versions st ws)) (\<lambda>qv.
         bind_act (of_res (gs_entity_versions st ws)) (\<lambda>nv.
         bind_act (of_res (vs_content_hashes st ws)) (\<lambda>qh.
         bind_act (of_res (gs_content_hashes st ws)) (\<lambda>nh.
           let to_backfill = filter (entity_drifted qv nv qh nh) pg_entities
           in if to_backfill = [] then ret ()
              else upd (emit (map (entity_event ws) (take (nat remaining) to_backfill)))))))))"

definition edge_drifted :: "(uuid \<times> uuid \<times> string, int) dict \<Rightarrow> pg_edge \<Rightarrow> bool" where
  "edge_drifted vers g \<longleftrightarrow>
     dict_getd vers (pg_source_entity_id g, pg_target_entity_id g, pg_edge_type g) 0 < pg_version g"

definition check_edge_drift :: "rc_conf \<Rightarrow> rc_stores \<Rightarrow> uuid \<Rightarrow> (rc_state, unit) act" where
  "check_edge_drift cf st ws =
     get_act (\<lambda>s. rk_reemit_cap cf - rc_reemit_cursor s) (\<lambda>remaining.
       if remaining \<le> 0 then ret ()
       else get_act (tenant_edges ws) (\<lambda>pg_edges.
         if pg_edges = [] then ret ()
         else bind_act (of_res (gs_edge_versions st ws)) (\<lambda>vers.
           let to_backfill = filter (edge_drifted vers) pg_edges
           in if to_backfill = [] then ret ()
              else upd (emit (map (edge_event ws) (take (nat remaining) to_backfill))))))"

definition reemit_entities_for_missing_sources ::
  "rc_conf \<Rightarrow> uuid \<Rightarrow> uuid list \<Rightarrow> (rc_state, unit) act" where
  "reemit_entities_for_missing_sources cf ws missing =
     get_act (\<lambda>s. rk_reemit_cap cf - rc_reemit_cursor s) (\<lambda>remaining.
       if remaining \<le> 0 then ret ()
       else get_act (\<lambda>s. filter (\<lambda>e. pe_source_id e \<in> set missing) (tenant_entities ws s)) (\<lambda>entities.
         if entities = [] then ret ()
         else upd (emit (map (entity_event ws) (take (nat remaining) entities)))))"

text \<open>The most recent run in status \<^verbatim>\<open>ok\<close>: \<^verbatim>\<open>ORDER BY started_at DESC LIMIT 1\<close>.\<close>

definition latest_ok_run :: "uuid \<Rightarrow> rc_state \<Rightarrow> run_row option" where
  "latest_ok_run src s =
     (case order_by (\<lambda>r. - rr_started_at r)
             (filter (\<lambda>r. rr_source_id r = src \<and> rr_status r = RunOk) (rc_runs s)) of
        [] \<Rightarrow> None
      | r # _ \<Rightarrow> Some r)"

definition mark_ingestion_run_partial :: "uuid \<Rightarrow> rc_state \<Rightarrow> rc_state" where
  "mark_ingestion_run_partial src s =
     (case latest_ok_run src s of
        None \<Rightarrow> s
      | Some r0 \<Rightarrow> s\<lparr>rc_runs := map (\<lambda>r. if rr_id r = rr_id r0 \<and> rr_status r = RunOk
                                       then r\<lparr>rr_status := RunPartial\<rparr> else r) (rc_runs s)\<rparr>)"

fun parse_all :: "string list \<Rightarrow> uuid list res" where
  "parse_all [] = Inr []"
| "parse_all (k # ks) = bind_res (uuid_parse k) (\<lambda>u. bind_res (parse_all ks) (\<lambda>us. Inr (u # us)))"

definition check_pg_missing_qdrant ::
  "rc_conf \<Rightarrow> rc_stores \<Rightarrow> uuid \<Rightarrow> uuid list \<Rightarrow> (rc_state, uuid list) act" where
  "check_pg_missing_qdrant cf st ws pg_source_ids =
     (if pg_source_ids = [] then ret []
      else bind_act (of_res (vs_count_by_source st ws)) (\<lambda>counts.
        bind_act (of_res (parse_all (map fst (filter (\<lambda>(_, n). 0 < n) counts)))) (\<lambda>present.
          let missing = sort (filter (\<lambda>u. u \<notin> set present) pg_source_ids)
          in then_act (if missing = [] then ret () else reemit_entities_for_missing_sources cf ws missing)
               (then_act (each_act (\<lambda>src. upd (mark_ingestion_run_partial src)) missing) (ret missing)))))"

section \<open>Orphans\<close>

definition orphan_sources :: "uuid list \<Rightarrow> (string, int) dict \<Rightarrow> string list" where
  "orphan_sources pg counts =
     map fst (filter (\<lambda>(src, n). 0 < n \<and> (case try_parse_uuid src of None \<Rightarrow> True | Some u \<Rightarrow> u \<notin> set pg)) counts)"

definition delete_qdrant_orphan_source ::
  "rc_stores \<Rightarrow> uuid \<Rightarrow> uuid \<Rightarrow> int \<Rightarrow> (rc_state, int) act" where
  "delete_qdrant_orphan_source st ws src limit =
     get_act rc_deleted_points (\<lambda>gone.
       bind_act (of_res (qc_count st gone ws src)) (\<lambda>n.
         let to_delete = min n limit
         in if to_delete = 0 then ret 0
            else bind_act (of_res (qc_scroll st gone ws src to_delete)) (\<lambda>ids.
              if ids = [] then ret 0
              else then_act (of_res (qc_delete st ids))
                (then_act (upd (\<lambda>s. s\<lparr>rc_deleted_points := rc_deleted_points s @ map (\<lambda>i. (ws, src, i)) ids\<rparr>))
                   (ret (int (length ids)))))))"

fun delete_orphans :: "rc_stores \<Rightarrow> uuid \<Rightarrow> string list \<Rightarrow> int \<Rightarrow> int \<Rightarrow> (rc_state, int) act" where
  "delete_orphans st ws [] budget deleted_total = ret deleted_total"
| "delete_orphans st ws (src_str # rest) budget deleted_total =
     (if budget \<le> 0 then ret deleted_total
      else case try_parse_uuid src_str of
             None \<Rightarrow> delete_orphans st ws rest budget deleted_total
           | Some src \<Rightarrow> bind_act (delete_qdrant_orphan_source st ws src budget) (\<lambda>deleted.
               delete_orphans st ws rest (budget - deleted) (deleted_total + deleted)))"

definition check_qdrant_orphans ::
  "rc_conf \<Rightarrow> rc_stores \<Rightarrow> uuid \<Rightarrow> uuid list \<Rightarrow> (rc_state, string list \<times> int) act" where
  "check_qdrant_orphans cf st ws pg =
     bind_act (of_res (vs_count_by_source st ws)) (\<lambda>counts.
       let orphans = orphan_sources pg counts
       in bind_act (delete_orphans st ws orphans (rk_orphan_limit cf) 0) (\<lambda>deleted_total. ret (orphans, deleted_total)))"

definition check_neo4j_orphans :: "rc_stores \<Rightarrow> uuid \<Rightarrow> uuid list \<Rightarrow> (rc_state, string list) act" where
  "check_neo4j_orphans st ws pg =
     bind_act (of_res (gs_count_by_source st ws)) (\<lambda>counts.
       let orphans = orphan_sources pg counts
       in then_act (each_act (\<lambda>src. then_act (of_res (gs_end_date st ws src))
                 (upd (\<lambda>s. s\<lparr>rc_end_dated := rc_end_dated s @ [(ws, src)]\<rparr>))) orphans)
            (ret orphans))"

section \<open>One run\<close>

record workspace_report =
  wr_workspace_id :: uuid
  wr_pg_missing_qdrant :: "uuid list"
  wr_qdrant_orphan_sources :: "string list"
  wr_qdrant_orphans_deleted :: int
  wr_neo4j_orphan_sources :: "string list"

definition reconcile_workspace :: "rc_conf \<Rightarrow> rc_stores \<Rightarrow> uuid \<Rightarrow> (rc_state, workspace_report) act" where
  "reconcile_workspace cf st ws =
     get_act (load_active_source_ids ws) (\<lambda>pg.
     bind_act (check_pg_missing_qdrant cf st ws pg) (\<lambda>missing.
     bind_act (check_qdrant_orphans cf st ws pg) (\<lambda>(orphans, deleted).
     bind_act (check_neo4j_orphans st ws pg) (\<lambda>n_orphans.
     then_act (check_entity_drift cf st ws) (
     then_act (check_edge_drift cf st ws)
       (ret \<lparr>wr_workspace_id = ws, wr_pg_missing_qdrant = missing, wr_qdrant_orphan_sources = orphans,
             wr_qdrant_orphans_deleted = deleted, wr_neo4j_orphan_sources = n_orphans\<rparr>))))))"

fun reconcile_all :: "rc_conf \<Rightarrow> rc_stores \<Rightarrow> uuid list \<Rightarrow> (rc_state, workspace_report list) act" where
  "reconcile_all cf st [] = ret []"
| "reconcile_all cf st (ws # rest) =
     bind_act (reconcile_workspace cf st ws) (\<lambda>r.
     bind_act (reconcile_all cf st rest) (\<lambda>rs. ret (r # rs)))"

definition run_once :: "rc_conf \<Rightarrow> rc_stores \<Rightarrow> (rc_state, workspace_report list) act" where
  "run_once cf st =
     then_act (upd (\<lambda>s. s\<lparr>rc_reemit_cursor := 0\<rparr>))
       (get_act rc_workspaces (\<lambda>wss. reconcile_all cf st wss))"

section \<open>What a step emits\<close>

text \<open>
  \<open>emits cf P m\<close>: whether or not \<open>m\<close> raises, it appends to the outbox a list of events
  that satisfies \<open>P\<close>, moves the cursor by its length and does not pass the cap.
\<close>

definition emits :: "rc_conf \<Rightarrow> (new_event list \<Rightarrow> bool) \<Rightarrow> (rc_state, 'a) act \<Rightarrow> bool" where
  "emits cf P m \<longleftrightarrow> (\<forall>s. \<exists>evs. rc_outbox (snd (m s)) = rc_outbox s @ evs
     \<and> rc_reemit_cursor (snd (m s)) = rc_reemit_cursor s + int (length evs)
     \<and> (rc_reemit_cursor s \<le> rk_reemit_cap cf \<longrightarrow> rc_reemit_cursor (snd (m s)) \<le> rk_reemit_cap cf)
     \<and> P evs)"

named_theorems emits_intros \<open>how the combinators emit\<close>

lemma emits_quiet:
  assumes "P []" and "\<And>s. rc_outbox (snd (m s)) = rc_outbox s \<and> rc_reemit_cursor (snd (m s)) = rc_reemit_cursor s"
  shows "emits cf P m"
  unfolding emits_def using assms by (intro allI exI [of _ "[]"]) simp

lemma emits_leaf [emits_intros]:
  "P [] \<Longrightarrow> emits cf P (ret x)" "P [] \<Longrightarrow> emits cf P (of_res r)"
  by (rule emits_quiet; simp add: ret_def of_res_def)+

lemma emits_upd [emits_intros]:
  assumes "P []" and "\<And>s. rc_outbox (f s) = rc_outbox s" and "\<And>s. rc_reemit_cursor (f s) = rc_reemit_cursor s"
  shows "emits cf P (upd f)"
  using assms by (intro emits_quiet) (simp_all add: upd_def)

text \<open>Sequencing, for a predicate \<open>P\<close> on the first part and \<open>Q\<close> on the whole.\<close>

lemma emits_bind_gen:
  assumes m: "emits cf P m" and f: "\<And>x. emits cf Q (f x)"
    and app: "\<And>a b. P a \<Longrightarrow> Q b \<Longrightarrow> Q (a @ b)" and nil: "Q []"
  shows "emits cf Q (bind_act m f)"
  unfolding emits_def
proof
  fix s
  obtain r s1 where ms: "m s = (r, s1)" by fastforce
  obtain a where a: "rc_outbox s1 = rc_outbox s @ a" "rc_reemit_cursor s1 = rc_reemit_cursor s + int (length a)"
    "rc_reemit_cursor s \<le> rk_reemit_cap cf \<longrightarrow> rc_reemit_cursor s1 \<le> rk_reemit_cap cf" "P a"
    using m [unfolded emits_def, THEN spec, of s] ms by auto
  show "\<exists>evs. rc_outbox (snd (bind_act m f s)) = rc_outbox s @ evs
     \<and> rc_reemit_cursor (snd (bind_act m f s)) = rc_reemit_cursor s + int (length evs)
     \<and> (rc_reemit_cursor s \<le> rk_reemit_cap cf \<longrightarrow> rc_reemit_cursor (snd (bind_act m f s)) \<le> rk_reemit_cap cf)
     \<and> Q evs"
  proof (cases r)
    case (Inl e)
    then show ?thesis using a app [OF a(4) nil] ms by (intro exI [of _ a]) (simp add: bind_act_def)
  next
    case (Inr x)
    obtain b where b: "rc_outbox (snd (f x s1)) = rc_outbox s1 @ b"
      "rc_reemit_cursor (snd (f x s1)) = rc_reemit_cursor s1 + int (length b)"
      "rc_reemit_cursor s1 \<le> rk_reemit_cap cf \<longrightarrow> rc_reemit_cursor (snd (f x s1)) \<le> rk_reemit_cap cf" "Q b"
      using f [of x, unfolded emits_def, THEN spec, of s1] by auto
    then show ?thesis using a app [OF a(4) b(4)] ms Inr by (intro exI [of _ "a @ b"]) (simp add: bind_act_def)
  qed
qed

lemma emits_bind [emits_intros]:
  "emits cf (list_all p) m \<Longrightarrow> (\<And>x. emits cf (list_all p) (f x)) \<Longrightarrow> emits cf (list_all p) (bind_act m f)"
  by (rule emits_bind_gen) auto

lemma emits_then [emits_intros]:
  "emits cf (list_all p) m \<Longrightarrow> emits cf (list_all p) m' \<Longrightarrow> emits cf (list_all p) (then_act m m')"
  by (simp add: then_act_def emits_bind)

lemma emits_get [emits_intros]: "(\<And>v. emits cf P (k v)) \<Longrightarrow> emits cf P (get_act f k)"
  by (simp add: emits_def get_act_def)

lemma emits_if [emits_intros]: "(b \<Longrightarrow> emits cf P m) \<Longrightarrow> (\<not> b \<Longrightarrow> emits cf P m') \<Longrightarrow> emits cf P (if b then m else m')"
  by simp

lemma emits_each [emits_intros]:
  "(\<And>x. emits cf (list_all p) (f x)) \<Longrightarrow> emits cf (list_all p) (each_act f xs)"
  by (induction xs) (auto intro: emits_intros)

text \<open>The capped emission that the three re-emitting checks end in.\<close>

lemma emits_capped:
  assumes "\<And>r s. 0 < r \<Longrightarrow> rk_reemit_cap cf - rc_reemit_cursor s = r \<Longrightarrow>
      \<exists>evs. snd (k r s) = emit evs s \<and> int (length evs) \<le> r \<and> P evs" and "P []"
  shows "emits cf P (get_act (\<lambda>s. rk_reemit_cap cf - rc_reemit_cursor s) (\<lambda>remaining.
    if remaining \<le> 0 then ret () else k remaining))"
  unfolding emits_def
proof
  fix s :: rc_state
  let ?r = "rk_reemit_cap cf - rc_reemit_cursor s"
  let ?m = "get_act (\<lambda>s. rk_reemit_cap cf - rc_reemit_cursor s) (\<lambda>remaining. if remaining \<le> 0 then ret () else k remaining)"
  show "\<exists>evs. rc_outbox (snd (?m s)) = rc_outbox s @ evs
     \<and> rc_reemit_cursor (snd (?m s)) = rc_reemit_cursor s + int (length evs)
     \<and> (rc_reemit_cursor s \<le> rk_reemit_cap cf \<longrightarrow> rc_reemit_cursor (snd (?m s)) \<le> rk_reemit_cap cf)
     \<and> P evs"
  proof (cases "?r \<le> 0")
    case True
    then show ?thesis using assms(2) by (intro exI [of _ "[]"]) (simp add: get_act_def ret_def)
  next
    case False
    then obtain evs where "snd (k ?r s) = emit evs s" "int (length evs) \<le> ?r" "P evs"
      using assms(1) [of ?r s] by auto
    then show ?thesis using False by (intro exI [of _ evs]) (simp add: get_act_def emit_def)
  qed
qed

lemma emit_Nil [simp]: "emit [] s = s"
  by (simp add: emit_def)

lemma emit_take:
  assumes "0 < r" and "list_all p (map f xs)"
  shows "\<exists>evs. snd (upd (emit (map f (take (nat r) xs))) s) = emit evs s \<and> int (length evs) \<le> r \<and> list_all p evs"
proof -
  have "list_all p (map f (take (nat r) xs))"
    using assms(2) by (auto simp: list_all_iff dest: set_take_subset')
  then show ?thesis
    using assms(1) by (intro exI [of _ "map f (take (nat r) xs)"]) (auto simp: upd_def min_def)
qed

lemma emit_none: "0 < r \<Longrightarrow> \<exists>evs. s = emit evs s \<and> int (length evs) \<le> r \<and> list_all p evs"
  by (intro exI [of _ "[]"]) simp

definition is_entity_event :: "new_event \<Rightarrow> bool" where
  "is_entity_event ev \<longleftrightarrow> ne_event_type ev = ''entity.upsert''"

definition is_edge_event :: "new_event \<Rightarrow> bool" where
  "is_edge_event ev \<longleftrightarrow> ne_event_type ev = ''edge.upsert''"

lemma event_types [simp]:
  "is_entity_event (entity_event ws e)" "is_edge_event (edge_event ws g)"
  by (simp_all add: is_entity_event_def entity_event_def is_edge_event_def edge_event_def)

lemma list_all_map_all: "(\<And>x. p (f x)) \<Longrightarrow> list_all p (map f xs)"
  by (simp add: list_all_iff)

lemma check_entity_drift_emits:
  "(\<And>e. p (entity_event ws e)) \<Longrightarrow> emits cf (list_all p) (check_entity_drift cf st ws)"
  unfolding check_entity_drift_def
  by (rule emits_capped)
    (auto simp: get_act_def bind_act_def of_res_def ret_def Let_def split: sum.split
      intro: emit_none emit_take [OF _ list_all_map_all])

lemma check_edge_drift_emits:
  "(\<And>g. p (edge_event ws g)) \<Longrightarrow> emits cf (list_all p) (check_edge_drift cf st ws)"
  unfolding check_edge_drift_def
  by (rule emits_capped)
    (auto simp: get_act_def bind_act_def of_res_def ret_def Let_def split: sum.split
      intro: emit_none emit_take [OF _ list_all_map_all])

lemma reemit_missing_emits:
  "(\<And>e. p (entity_event ws e)) \<Longrightarrow> emits cf (list_all p) (reemit_entities_for_missing_sources cf ws missing)"
  unfolding reemit_entities_for_missing_sources_def
  by (rule emits_capped)
    (auto simp: get_act_def ret_def intro: emit_none emit_take [OF _ list_all_map_all])

lemma mark_partial_fields [simp]:
  "rc_outbox (mark_ingestion_run_partial src s) = rc_outbox s"
  "rc_reemit_cursor (mark_ingestion_run_partial src s) = rc_reemit_cursor s"
  by (simp_all add: mark_ingestion_run_partial_def split: option.split)

lemma check_pg_missing_emits:
  "(\<And>e. p (entity_event ws e)) \<Longrightarrow> emits cf (list_all p) (check_pg_missing_qdrant cf st ws pg)"
  unfolding check_pg_missing_qdrant_def Let_def
  by (intro emits_intros reemit_missing_emits) simp_all

lemma delete_orphan_emits: "emits cf (list_all p) (delete_qdrant_orphan_source st ws src limit)"
  unfolding delete_qdrant_orphan_source_def Let_def by (intro emits_intros) simp_all

lemma delete_orphans_emits: "emits cf (list_all p) (delete_orphans st ws srcs budget deleted_total)"
  by (induction st ws srcs budget deleted_total rule: delete_orphans.induct)
    (auto intro!: emits_intros delete_orphan_emits split: option.split)

lemma check_qdrant_orphans_emits: "emits cf (list_all p) (check_qdrant_orphans cf' st ws pg)"
  unfolding check_qdrant_orphans_def Let_def by (intro emits_intros delete_orphans_emits) simp_all

lemma check_neo4j_orphans_emits: "emits cf (list_all p) (check_neo4j_orphans st ws pg)"
  unfolding check_neo4j_orphans_def Let_def by (intro emits_intros) simp_all

definition causal :: "new_event list \<Rightarrow> bool" where
  "causal evs \<longleftrightarrow> (\<exists>a b. evs = a @ b \<and> list_all is_entity_event a \<and> list_all is_edge_event b)"

lemma causal_Nil [simp]: "causal []"
  by (simp add: causal_def)

lemma causal_entities: "list_all is_entity_event a \<Longrightarrow> causal b \<Longrightarrow> causal (a @ b)"
  unfolding causal_def by (metis append_assoc list_all_append)

lemma causal_edges: "list_all is_edge_event a \<Longrightarrow> causal a"
  unfolding causal_def by (intro exI [of _ "[]"] exI [of _ a]) simp

lemma causal_edges_only: "list_all is_edge_event a \<Longrightarrow> b = [] \<Longrightarrow> causal (a @ b)"
  by (simp add: causal_edges)

lemma emits_causal:
  assumes "emits cf (list_all is_entity_event) m" and "\<And>x. emits cf causal (f x)"
  shows "emits cf causal (bind_act m f)"
  using assms by (rule emits_bind_gen) (simp_all add: causal_entities)

lemma emits_weaken: "emits cf P m \<Longrightarrow> (\<And>x. P x \<Longrightarrow> Q x) \<Longrightarrow> emits cf Q m"
  unfolding emits_def by blast

lemma reconcile_workspace_emits: "emits cf causal (reconcile_workspace cf st ws)"
proof -
  have last: "emits cf causal (then_act (check_edge_drift cf st ws) (ret r))" for r :: workspace_report
  proof -
    have "emits cf (list_all is_edge_event) (then_act (check_edge_drift cf st ws) (ret r))"
      by (intro emits_intros check_edge_drift_emits) simp_all
    then show ?thesis by (rule emits_weaken) (rule causal_edges)
  qed
  have drift: "emits cf causal (then_act (check_entity_drift cf st ws) (then_act (check_edge_drift cf st ws) (ret r)))"
    for r :: workspace_report
    unfolding then_act_def [of "check_entity_drift cf st ws"] by (intro emits_causal check_entity_drift_emits last) simp_all
  show ?thesis
    unfolding reconcile_workspace_def case_prod_unfold
    by (intro emits_get emits_causal check_pg_missing_emits check_qdrant_orphans_emits check_neo4j_orphans_emits drift)
      simp_all
qed

lemma reconcile_all_emits: "emits cf (\<lambda>_. True) (reconcile_all cf st wss)"
proof (induction wss)
  case Nil
  then show ?case by (simp add: emits_leaf)
next
  case (Cons ws wss)
  have "emits cf (\<lambda>_. True) (reconcile_workspace cf st ws)"
    using reconcile_workspace_emits by (rule emits_weaken) simp
  then show ?case
    using Cons by (auto intro!: emits_bind_gen [where P = "\<lambda>_. True"] emits_leaf)
qed

section \<open>Properties\<close>

text \<open>
  Claim C10: A reconcile run inserts at most \<open>reemit_tick_cap\<close> events into the outbox, over
  all workspaces together, whatever the stores report and wherever it fails; and never
  removes one.
\<close>

theorem reemission_is_capped:
  "\<exists>evs. rc_outbox (snd (run_once (reconcile_conf secs orphans cap) st s)) = rc_outbox s @ evs
     \<and> int (length evs) \<le> max cap 1"
proof -
  let ?cf = "reconcile_conf secs orphans cap"
  obtain evs where "rc_outbox (snd (reconcile_all ?cf st (rc_workspaces s) (s\<lparr>rc_reemit_cursor := 0\<rparr>))) = rc_outbox s @ evs"
    "rc_reemit_cursor (snd (reconcile_all ?cf st (rc_workspaces s) (s\<lparr>rc_reemit_cursor := 0\<rparr>))) = int (length evs)"
    "0 \<le> rk_reemit_cap ?cf \<longrightarrow>
       rc_reemit_cursor (snd (reconcile_all ?cf st (rc_workspaces s) (s\<lparr>rc_reemit_cursor := 0\<rparr>))) \<le> rk_reemit_cap ?cf"
    using reconcile_all_emits [of ?cf st "rc_workspaces s", unfolded emits_def, THEN spec, of "s\<lparr>rc_reemit_cursor := 0\<rparr>"]
    by auto
  then show ?thesis
    by (intro exI [of _ evs]) (simp add: run_once_def then_act_def bind_act_def upd_def get_act_def reconcile_conf_def)
qed

text \<open>
  Within one workspace every entity event is inserted before every edge event,
  also when a store fails midway.
\<close>

theorem entities_before_edges:
  "\<exists>evs. rc_outbox (snd (reconcile_workspace cf st ws s)) = rc_outbox s @ evs
     \<and> (\<exists>a b. evs = a @ b \<and> list_all is_entity_event a \<and> list_all is_edge_event b)"
  using reconcile_workspace_emits [of cf st ws, unfolded emits_def, THEN spec, of s] by (auto simp: causal_def)

subsection \<open>Starvation\<close>

definition for_workspace :: "uuid \<Rightarrow> new_event \<Rightarrow> bool" where
  "for_workspace ws ev \<longleftrightarrow> map_of (ne_payload ev) ''workspace_id'' = Some (JStr (uuid_str ws))"

lemma event_workspace [simp]: "for_workspace ws (entity_event ws e)" "for_workspace ws (edge_event ws g)"
  by (simp_all add: for_workspace_def entity_event_def entity_drift_payload_def edge_event_def edge_drift_payload_def)

lemma reconcile_workspace_tags: "emits cf (list_all (for_workspace ws)) (reconcile_workspace cf st ws)"
  unfolding reconcile_workspace_def case_prod_unfold
  by (intro emits_intros check_pg_missing_emits check_qdrant_orphans_emits check_neo4j_orphans_emits
      check_entity_drift_emits check_edge_drift_emits) simp_all

lemma emits_at_cap:
  assumes "emits cf P m" and "rc_reemit_cursor s = rk_reemit_cap cf"
  shows "rc_outbox (snd (m s)) = rc_outbox s \<and> rc_reemit_cursor (snd (m s)) = rk_reemit_cap cf"
  using assms(1) [unfolded emits_def, THEN spec, of s] assms(2) by auto

text \<open>No check changes the tables it reads.\<close>

definition same_tables :: "rc_state \<Rightarrow> rc_state \<Rightarrow> bool" where
  "same_tables s0 s \<longleftrightarrow> rc_entities s = rc_entities s0 \<and> rc_sources s = rc_sources s0 \<and> rc_edges s = rc_edges s0"

lemma same_tables_frame:
  "same_tables s0 s \<Longrightarrow> same_tables s0 (emit evs s)"
  "same_tables s0 s \<Longrightarrow> same_tables s0 (mark_ingestion_run_partial src s)"
  "same_tables s0 s \<Longrightarrow> same_tables s0 (s\<lparr>rc_deleted_points := ps\<rparr>)"
  "same_tables s0 s \<Longrightarrow> same_tables s0 (s\<lparr>rc_end_dated := ds\<rparr>)"
  by (auto simp: same_tables_def emit_def mark_ingestion_run_partial_def split: option.split)

lemma same_tables_checks:
  "keeps (same_tables s0) (check_pg_missing_qdrant cf st ws pg)"
  "keeps (same_tables s0) (check_neo4j_orphans st ws pg)"
  "keeps (same_tables s0) (delete_qdrant_orphan_source st ws src limit)"
  unfolding check_pg_missing_qdrant_def check_neo4j_orphans_def delete_qdrant_orphan_source_def
    reemit_entities_for_missing_sources_def Let_def
  by (intro keeps_intros same_tables_frame; assumption)+

lemma same_tables_orphans: "keeps (same_tables s0) (check_qdrant_orphans cf st ws pg)"
proof -
  have "keeps (same_tables s0) (delete_orphans st ws srcs budget n)" for srcs budget n
    by (induction srcs arbitrary: budget n)
      (auto intro!: keeps_intros same_tables_checks split: option.split)
  then show ?thesis unfolding check_qdrant_orphans_def Let_def by (intro keeps_intros)
qed

lemma tenant_entities_same: "same_tables s0 s \<Longrightarrow> tenant_entities ws s = tenant_entities ws s0"
  by (simp add: tenant_entities_def tenant_sources_def same_tables_def)

lemma drift_reaches_cap:
  assumes "vs_entity_versions st ws = Inr qv" and "gs_entity_versions st ws = Inr nv"
    and "vs_content_hashes st ws = Inr qh" and "gs_content_hashes st ws = Inr nh"
    and "rk_reemit_cap cf \<le> int (length (filter (entity_drifted qv nv qh nh) (tenant_entities ws s)))"
    and "0 \<le> rc_reemit_cursor s" and "rc_reemit_cursor s \<le> rk_reemit_cap cf"
  shows "\<exists>s'. check_entity_drift cf st ws s = (Inr (), s') \<and> rc_reemit_cursor s' = rk_reemit_cap cf"
proof (cases "rk_reemit_cap cf - rc_reemit_cursor s \<le> 0")
  case True
  then show ?thesis using assms(7) by (simp add: check_entity_drift_def get_act_def ret_def)
next
  case False
  let ?d = "filter (entity_drifted qv nv qh nh) (tenant_entities ws s)"
  have "?d \<noteq> []" using False assms(5,6) by auto
  then show ?thesis
    using False assms
    by (auto simp: check_entity_drift_def get_act_def bind_act_def of_res_def upd_def emit_def min_def Let_def)
qed

text \<open>When the first workspace alone has as many drifted entities as the cap allows.\<close>

definition drift_fills_cap :: "rc_conf \<Rightarrow> rc_stores \<Rightarrow> uuid \<Rightarrow> rc_state \<Rightarrow> bool" where
  "drift_fills_cap cf st ws s \<longleftrightarrow> (\<exists>qv nv qh nh. vs_entity_versions st ws = Inr qv \<and> gs_entity_versions st ws = Inr nv
     \<and> vs_content_hashes st ws = Inr qh \<and> gs_content_hashes st ws = Inr nh
     \<and> rk_reemit_cap cf \<le> int (length (filter (entity_drifted qv nv qh nh) (tenant_entities ws s))))"

lemma drift_fills_cap_same: "same_tables s0 s \<Longrightarrow> drift_fills_cap cf st ws s = drift_fills_cap cf st ws s0"
  by (simp add: drift_fills_cap_def tenant_entities_same)

definition cursor_ok :: "rc_conf \<Rightarrow> rc_state \<Rightarrow> bool" where
  "cursor_ok cf s \<longleftrightarrow> 0 \<le> rc_reemit_cursor s \<and> rc_reemit_cursor s \<le> rk_reemit_cap cf"

lemma emits_cursor_ok: "emits cf P m \<Longrightarrow> keeps (cursor_ok cf) m"
  unfolding emits_def keeps_def cursor_ok_def by (metis add_nonneg_nonneg of_nat_0_le_iff)

text \<open>A postcondition for runs that do not raise.\<close>

definition ends_at_cap :: "rc_conf \<Rightarrow> (rc_state \<Rightarrow> bool) \<Rightarrow> (rc_state, 'a) act \<Rightarrow> bool" where
  "ends_at_cap cf P m \<longleftrightarrow> (\<forall>s s' r. P s \<longrightarrow> m s = (Inr r, s') \<longrightarrow> rc_reemit_cursor s' = rk_reemit_cap cf)"

lemma ends_at_cap_bind:
  assumes "keeps P m" and "\<And>x. ends_at_cap cf P (f x)"
  shows "ends_at_cap cf P (bind_act m f)"
  using assms unfolding ends_at_cap_def
  by (auto simp: bind_act_def split: prod.splits sum.splits) (metis keepsD)

lemma ends_at_cap_get: "(\<And>v. ends_at_cap cf P (k v)) \<Longrightarrow> ends_at_cap cf P (get_act f k)"
  by (auto simp: ends_at_cap_def get_act_def)

definition crowded :: "rc_conf \<Rightarrow> rc_stores \<Rightarrow> uuid \<Rightarrow> rc_state \<Rightarrow> rc_state \<Rightarrow> bool" where
  "crowded cf st ws s0 s \<longleftrightarrow> same_tables s0 s \<and> cursor_ok cf s \<and> drift_fills_cap cf st ws s0"

lemma crowded_keeps:
  assumes "keeps (same_tables s0) m" and "emits cf P m"
  shows "keeps (crowded cf st ws s0) m"
  using assms(1) emits_cursor_ok [OF assms(2)] by (simp add: keeps_def crowded_def)

lemma crowded_drift:
  "ends_at_cap cf (crowded cf st ws s0)
     (then_act (check_entity_drift cf st ws) (then_act (check_edge_drift cf st ws) (ret r)))"
  unfolding ends_at_cap_def
proof (intro allI impI)
  fix s s' r'
  assume c: "crowded cf st ws s0 s"
    and run: "then_act (check_entity_drift cf st ws) (then_act (check_edge_drift cf st ws) (ret r)) s = (Inr r', s')"
  have "drift_fills_cap cf st ws s" and cur: "0 \<le> rc_reemit_cursor s" "rc_reemit_cursor s \<le> rk_reemit_cap cf"
    using c by (auto simp: crowded_def cursor_ok_def drift_fills_cap_same)
  then obtain qv nv qh nh where "vs_entity_versions st ws = Inr qv" "gs_entity_versions st ws = Inr nv"
    "vs_content_hashes st ws = Inr qh" "gs_content_hashes st ws = Inr nh"
    "rk_reemit_cap cf \<le> int (length (filter (entity_drifted qv nv qh nh) (tenant_entities ws s)))"
    by (auto simp: drift_fills_cap_def)
  from drift_reaches_cap [OF this cur]
  obtain s1 where s1: "check_entity_drift cf st ws s = (Inr (), s1)" "rc_reemit_cursor s1 = rk_reemit_cap cf"
    by blast
  obtain q s2 where s2: "check_edge_drift cf st ws s1 = (q, s2)" by fastforce
  have "rc_reemit_cursor s2 = rk_reemit_cap cf"
    using emits_at_cap [OF check_edge_drift_emits [of "\<lambda>_. True"] s1(2), of st ws] s2 by simp
  then show "rc_reemit_cursor s' = rk_reemit_cap cf"
    using run s1 s2 by (cases q) (auto simp: then_act_def bind_act_def ret_def)
qed

lemma crowded_workspace: "ends_at_cap cf (crowded cf st ws s0) (reconcile_workspace cf st ws)"
  unfolding reconcile_workspace_def case_prod_unfold
  by (intro ends_at_cap_get ends_at_cap_bind crowded_drift
      crowded_keeps [where P = "list_all (\<lambda>_. True)"] same_tables_checks same_tables_orphans
      check_pg_missing_emits check_qdrant_orphans_emits check_neo4j_orphans_emits) simp

text \<open>
  When the drifted entities of the first workspace fill the cap, a run emits
  events for that workspace only: every other workspace waits until the first one has
  healed, however many runs that takes.
\<close>

theorem first_workspace_starves_others:
  assumes "rc_workspaces s = w # rest" and "drift_fills_cap cf st w s" and "0 \<le> rk_reemit_cap cf"
  shows "\<exists>evs. rc_outbox (snd (run_once cf st s)) = rc_outbox s @ evs \<and> list_all (for_workspace w) evs"
proof -
  define s0 where "s0 = s\<lparr>rc_reemit_cursor := 0\<rparr>"
  have run: "run_once cf st s = reconcile_all cf st (w # rest) s0"
    using assms(1) by (simp add: run_once_def then_act_def bind_act_def upd_def get_act_def s0_def)
  obtain r s1 where w: "reconcile_workspace cf st w s0 = (r, s1)" by fastforce
  obtain evs where evs: "rc_outbox s1 = rc_outbox s @ evs" "list_all (for_workspace w) evs"
    using reconcile_workspace_tags [of cf w st, unfolded emits_def, THEN spec, of s0] w by (auto simp: s0_def)
  have "crowded cf st w s0 s0"
    using assms(2,3) by (simp add: crowded_def same_tables_def cursor_ok_def s0_def drift_fills_cap_def
        tenant_entities_def tenant_sources_def)
  then have cap: "rc_reemit_cursor s1 = rk_reemit_cap cf" if "r = Inr x" for x
    using crowded_workspace [of cf st w s0] w that by (simp add: ends_at_cap_def)
  have "rc_outbox (snd (reconcile_all cf st (w # rest) s0)) = rc_outbox s1"
  proof (cases r)
    case (Inl e)
    then show ?thesis using w by (simp add: bind_act_def)
  next
    case (Inr x)
    have "rc_outbox (snd (reconcile_all cf st rest s1)) = rc_outbox s1"
      using emits_at_cap [OF reconcile_all_emits cap [OF Inr]] by simp
    then show ?thesis using w Inr by (auto simp: bind_act_def ret_def split: prod.splits sum.splits)
  qed
  then show ?thesis using evs run by simp
qed

definition sample_stores :: rc_stores where
  "sample_stores =
     \<lparr>vs_entity_versions = (\<lambda>_. Inr []), gs_entity_versions = (\<lambda>_. Inr []), vs_content_hashes = (\<lambda>_. Inr []),
      gs_content_hashes = (\<lambda>_. Inr []), gs_edge_versions = (\<lambda>_. Inr []), vs_count_by_source = (\<lambda>_. Inr []),
      gs_count_by_source = (\<lambda>_. Inr []), qc_count = (\<lambda>_ _ _. Inr 3), qc_scroll = (\<lambda>_ _ _ n. Inr (replicate (nat (min n 3)) ''p'')),
      qc_delete = (\<lambda>_. Inr ()), gs_end_date = (\<lambda>_ _. Inr 0)\<rparr>"

definition sample_pg_entity :: "uuid \<Rightarrow> uuid \<Rightarrow> pg_entity" where
  "sample_pg_entity i src = \<lparr>pe_id = i, pe_source_id = src, pe_entity_type = ''service'', pe_name = ''svc'',
     pe_display_name = ''svc'', pe_metadata = [], pe_version = 1, pe_content_hash = None\<rparr>"

definition sample_pg :: rc_state where
  "sample_pg = \<lparr>rc_workspaces = [1, 2], rc_sources = [(10, Some 1), (20, Some 2)], rc_documents = [],
     rc_entities = [sample_pg_entity 11 10, sample_pg_entity 21 20], rc_edges = [waiting_edge],
     rc_runs = [], rc_outbox = [], rc_reemit_cursor = 0, rc_deleted_points = [], rc_end_dated = []\<rparr>"

theorem first_workspace_starves_others_witness:
  "\<exists>evs. rc_outbox (snd (run_once (reconcile_conf 3600 200 1) sample_stores sample_pg)) = evs
     \<and> list_all (for_workspace 1) evs"
  using first_workspace_starves_others [of sample_pg 1 "[2]" "reconcile_conf 3600 200 1" sample_stores]
  by (simp add: drift_fills_cap_def sample_stores_def sample_pg_def tenant_entities_def tenant_sources_def
      sample_pg_entity_def entity_drifted_def dict_getd_def reconcile_conf_def)

subsection \<open>Ingestion runs\<close>

definition ok_runs :: "uuid \<Rightarrow> rc_state \<Rightarrow> run_row list" where
  "ok_runs src s = filter (\<lambda>r. rr_source_id r = src \<and> rr_status r = RunOk) (rc_runs s)"

lemma latest_ok_run_cases:
  "(latest_ok_run src s = None \<and> ok_runs src s = []) \<or> (\<exists>r \<in> set (ok_runs src s). latest_ok_run src s = Some r)"
proof (cases "order_by (\<lambda>r. - rr_started_at r) (ok_runs src s)")
  case Nil
  then have "ok_runs src s = []" by (metis length_0_conv length_order_by)
  then show ?thesis using Nil by (simp add: latest_ok_run_def ok_runs_def)
next
  case (Cons r rs)
  then have "r \<in> set (ok_runs src s)" by (metis list.set_intros(1) set_order_by)
  then show ?thesis using Cons by (simp add: latest_ok_run_def ok_runs_def)
qed

lemma filter_mark_one:
  assumes "distinct (map rr_id runs)" and "r0 \<in> set runs" and "P r0" and "rr_status r0 = RunOk"
    and "\<And>r. P r \<Longrightarrow> rr_status r = RunOk" and "\<And>r. \<not> P (r\<lparr>rr_status := RunPartial\<rparr>)"
  shows "Suc (length (filter P (map (\<lambda>r. if rr_id r = rr_id r0 \<and> rr_status r = RunOk then r\<lparr>rr_status := RunPartial\<rparr> else r) runs)))
    = length (filter P runs)"
  using assms(1,2)
proof (induction runs)
  case (Cons r runs)
  let ?f = "\<lambda>r. if rr_id r = rr_id r0 \<and> rr_status r = RunOk then r\<lparr>rr_status := RunPartial\<rparr> else r"
  show ?case
  proof (cases "r = r0")
    case True
    then have "map ?f runs = runs" using Cons.prems by (intro map_idI) (metis distinct.simps(2) image_eqI list.set_map list.simps(9))
    then show ?thesis using True assms(3,4,6) by simp
  next
    case False
    then have "r0 \<in> set runs" using Cons.prems by simp
    then have "?f r = r" using Cons.prems by auto
    then show ?thesis using Cons False by auto
  qed
qed simp

lemma mark_partial_count:
  assumes "distinct (map rr_id (rc_runs s))"
  shows "length (ok_runs src (mark_ingestion_run_partial src s)) = length (ok_runs src s) - 1
    \<and> map rr_id (rc_runs (mark_ingestion_run_partial src s)) = map rr_id (rc_runs s)"
  using latest_ok_run_cases [of src s]
proof (elim disjE conjE bexE)
  assume "latest_ok_run src s = None" "ok_runs src s = []"
  then show ?thesis by (simp add: mark_ingestion_run_partial_def)
next
  fix r assume r: "r \<in> set (ok_runs src s)" "latest_ok_run src s = Some r"
  then have "Suc (length (ok_runs src (mark_ingestion_run_partial src s))) = length (ok_runs src s)"
    using filter_mark_one [OF assms, of r "\<lambda>r. rr_source_id r = src \<and> rr_status r = RunOk"]
    by (auto simp: mark_ingestion_run_partial_def ok_runs_def)
  then show ?thesis using r(2) by (auto simp: mark_ingestion_run_partial_def o_def if_distrib [of rr_id])
qed

text \<open>
  Marking is not idempotent: every repetition for the same source turns one more
  run from ok to partial, so as many ticks as there are ok runs leave none, although only
  the most recent run can be concerned by the drift.
\<close>

theorem repeated_marks_consume_history:
  assumes "distinct (map rr_id (rc_runs s))"
  shows "length (ok_runs src ((mark_ingestion_run_partial src ^^ n) s)) = length (ok_runs src s) - n"
proof -
  have "length (ok_runs src ((mark_ingestion_run_partial src ^^ n) s)) = length (ok_runs src s) - n
      \<and> map rr_id (rc_runs ((mark_ingestion_run_partial src ^^ n) s)) = map rr_id (rc_runs s)"
  proof (induction n)
    case (Suc n)
    then show ?case using mark_partial_count [of "(mark_ingestion_run_partial src ^^ n) s" src] assms by simp
  qed simp
  then show ?thesis by simp
qed

theorem repeated_marks_consume_history_witness:
  "ok_runs 10 ((mark_ingestion_run_partial 10 ^^ 2) (sample_pg\<lparr>rc_runs :=
     [\<lparr>rr_id = 1, rr_source_id = 10, rr_status = RunOk, rr_started_at = 1\<rparr>,
      \<lparr>rr_id = 2, rr_source_id = 10, rr_status = RunOk, rr_started_at = 2\<rparr>]\<rparr>)) = []"
  using repeated_marks_consume_history [of "sample_pg\<lparr>rc_runs :=
     [\<lparr>rr_id = 1, rr_source_id = 10, rr_status = RunOk, rr_started_at = 1\<rparr>,
      \<lparr>rr_id = 2, rr_source_id = 10, rr_status = RunOk, rr_started_at = 2\<rparr>]\<rparr>" 10 2]
  by (simp add: ok_runs_def)

subsection \<open>Orphan deletion\<close>

definition orphan_points :: "uuid \<Rightarrow> uuid list \<Rightarrow> (uuid \<times> uuid \<times> string) list \<Rightarrow> bool" where
  "orphan_points ws pg ps \<longleftrightarrow> list_all (\<lambda>(w, src, _). w = ws \<and> src \<notin> set pg) ps"

text \<open>The vector client returns at most as many records as it is asked for.\<close>

definition scroll_bounded :: "rc_stores \<Rightarrow> bool" where
  "scroll_bounded st \<longleftrightarrow> (\<forall>gone ws src n ids. qc_scroll st gone ws src n = Inr ids \<longrightarrow> int (length ids) \<le> max n 0)"

definition deletes_within :: "uuid \<Rightarrow> uuid list \<Rightarrow> int \<Rightarrow> rc_state \<Rightarrow> rc_state \<Rightarrow> bool" where
  "deletes_within ws pg n s s' \<longleftrightarrow> (\<exists>ps. rc_deleted_points s' = rc_deleted_points s @ ps
     \<and> int (length ps) \<le> n \<and> orphan_points ws pg ps)"

lemma deletes_within_refl: "0 \<le> n \<Longrightarrow> deletes_within ws pg n s s"
  by (simp add: deletes_within_def orphan_points_def)

lemma deletes_within_trans:
  assumes "deletes_within ws pg n s s'" and "deletes_within ws pg m s' s''" and "n + m \<le> k"
  shows "deletes_within ws pg k s s''"
proof -
  obtain ps qs where "rc_deleted_points s' = rc_deleted_points s @ ps" "int (length ps) \<le> n" "orphan_points ws pg ps"
    "rc_deleted_points s'' = rc_deleted_points s' @ qs" "int (length qs) \<le> m" "orphan_points ws pg qs"
    using assms(1,2) by (auto simp: deletes_within_def)
  then show ?thesis using assms(3) unfolding deletes_within_def
    by (intro exI [of _ "ps @ qs"]) (auto simp: orphan_points_def)
qed

lemma delete_source_eq:
  "delete_qdrant_orphan_source st ws src limit s =
     (case qc_count st (rc_deleted_points s) ws src of
        Inl e \<Rightarrow> (Inl e, s)
      | Inr n \<Rightarrow>
          if min n limit = 0 then (Inr 0, s)
          else case qc_scroll st (rc_deleted_points s) ws src (min n limit) of
                 Inl e \<Rightarrow> (Inl e, s)
               | Inr ids \<Rightarrow>
                   if ids = [] then (Inr 0, s)
                   else case qc_delete st ids of
                          Inl e \<Rightarrow> (Inl e, s)
                        | Inr u \<Rightarrow> (Inr (int (length ids)),
                            s\<lparr>rc_deleted_points := rc_deleted_points s @ map (\<lambda>i. (ws, src, i)) ids\<rparr>))"
  by (cases "qc_count st (rc_deleted_points s) ws src")
    (simp_all add: delete_qdrant_orphan_source_def act_defs Let_def split: sum.split)

lemma delete_one_source:
  assumes "scroll_bounded st" and "src \<notin> set pg" and "0 < limit"
    and "delete_qdrant_orphan_source st ws src limit s = (r, s')"
  shows "deletes_within ws pg limit s s' \<and>
    (\<forall>d. r = Inr d \<longrightarrow> deletes_within ws pg d s s' \<and> 0 \<le> d \<and> d \<le> limit)"
proof -
  consider (none) "s' = s" "\<forall>d. r = Inr d \<longrightarrow> d = 0"
    | (some) n ids where "qc_scroll st (rc_deleted_points s) ws src (min n limit) = Inr ids" "r = Inr (int (length ids))"
        "s' = s\<lparr>rc_deleted_points := rc_deleted_points s @ map (\<lambda>i. (ws, src, i)) ids\<rparr>"
  proof (cases "s' = s \<and> (\<forall>d. r = Inr d \<longrightarrow> d = 0)")
    case False
    obtain n where n: "qc_count st (rc_deleted_points s) ws src = Inr n" "min n limit \<noteq> 0"
      using assms(4) False unfolding delete_source_eq by (cases "qc_count st (rc_deleted_points s) ws src") (force split: if_splits)+
    obtain ids where ids: "qc_scroll st (rc_deleted_points s) ws src (min n limit) = Inr ids" "ids \<noteq> []"
      using assms(4) False n unfolding delete_source_eq
      by (cases "qc_scroll st (rc_deleted_points s) ws src (min n limit)") (force split: if_splits)+
    obtain u where "qc_delete st ids = Inr u"
      using assms(4) False n ids unfolding delete_source_eq by (cases "qc_delete st ids") force+
    then show thesis using that(2) [OF ids(1)] assms(4) n ids unfolding delete_source_eq by simp
  qed (rule that(1); simp)
  then show ?thesis
  proof cases
    case none
    then show ?thesis using assms(3) by (auto intro: deletes_within_refl)
  next
    case some
    have len: "int (length ids) \<le> limit"
      using assms(1) [unfolded scroll_bounded_def, rule_format, OF some(1)] assms(3) by simp
    have "deletes_within ws pg k s s'" if "int (length ids) \<le> k" for k
      using that some(3) assms(2) unfolding deletes_within_def
      by (intro exI [of _ "map (\<lambda>i. (ws, src, i)) ids"]) (auto simp: orphan_points_def list_all_iff)
    then show ?thesis using some(2) len by auto
  qed
qed

lemma delete_orphans_within:
  assumes "scroll_bounded st" and "\<forall>x \<in> set srcs. case try_parse_uuid x of None \<Rightarrow> True | Some u \<Rightarrow> u \<notin> set pg"
    and "0 \<le> budget"
  shows "deletes_within ws pg budget s (snd (delete_orphans st ws srcs budget n s))"
  using assms(2,3)
proof (induction srcs arbitrary: budget n s)
  case Nil
  then show ?case by (simp add: ret_def deletes_within_refl)
next
  case (Cons x srcs)
  show ?case
  proof (cases "try_parse_uuid x")
    case None
    then show ?thesis using Cons by (simp add: ret_def deletes_within_refl)
  next
    case (Some src)
    have src: "src \<notin> set pg" using Cons.prems Some by simp
    show ?thesis
    proof (cases "budget \<le> 0")
      case True
      then show ?thesis using Cons.prems by (simp add: ret_def deletes_within_refl)
    next
      case False
      obtain r s1 where d: "delete_qdrant_orphan_source st ws src budget s = (r, s1)" by fastforce
      note one = delete_one_source [OF assms(1) src _ d]
      show ?thesis
      proof (cases r)
        case (Inl e)
        then show ?thesis using one False Some d by (simp add: bind_act_def)
      next
        case (Inr k)
        then have k: "deletes_within ws pg k s s1" "0 \<le> k" "k \<le> budget" using one False by auto
        have "deletes_within ws pg (budget - k) s1 (snd (delete_orphans st ws srcs (budget - k) (n + k) s1))"
          using Cons k by simp
        then have "deletes_within ws pg budget s (snd (delete_orphans st ws srcs (budget - k) (n + k) s1))"
          by (rule deletes_within_trans [OF k(1)]) simp
        then show ?thesis using False Some d Inr by (simp add: bind_act_def)
      qed
    qed
  qed
qed

lemma orphan_sources_absent:
  "\<forall>x \<in> set (orphan_sources pg counts). case try_parse_uuid x of None \<Rightarrow> True | Some u \<Rightarrow> u \<notin> set pg"
  by (auto simp: orphan_sources_def)

text \<open>
  One workspace's orphan check deletes at most \<open>reconcile_orphan_delete_limit\<close>
  chunks, all of that workspace, none of a source with a live document, also when a
  deletion fails midway.
\<close>

theorem orphan_deletes_bounded:
  assumes "scroll_bounded st"
  shows "\<exists>ps. rc_deleted_points (snd (check_qdrant_orphans (reconcile_conf secs limit cap) st ws
        (load_active_source_ids ws s) s)) = rc_deleted_points s @ ps
    \<and> int (length ps) \<le> max limit 1
    \<and> list_all (\<lambda>(w, src, _). w = ws \<and> src \<notin> set (load_active_source_ids ws s)) ps"
proof -
  let ?cf = "reconcile_conf secs limit cap" and ?pg = "load_active_source_ids ws s"
  have "deletes_within ws ?pg (max limit 1) s (snd (check_qdrant_orphans ?cf st ws ?pg s))"
  proof (cases "vs_count_by_source st ws")
    case (Inl e)
    then show ?thesis by (simp add: check_qdrant_orphans_def act_defs deletes_within_refl)
  next
    case (Inr counts)
    have "deletes_within ws ?pg (max limit 1) s
        (snd (delete_orphans st ws (orphan_sources ?pg counts) (max limit 1) 0 s))"
      by (rule delete_orphans_within [OF assms orphan_sources_absent]) simp
    then show ?thesis
      using Inr by (auto simp: check_qdrant_orphans_def act_defs Let_def reconcile_conf_def split: prod.splits sum.splits)
  qed
  then show ?thesis by (simp add: deletes_within_def orphan_points_def)
qed

theorem orphan_deletes_bounded_witness:
  "\<exists>ps. rc_deleted_points (snd (check_qdrant_orphans (reconcile_conf 3600 2 1000)
       (sample_stores\<lparr>vs_count_by_source := (\<lambda>_. Inr [(uuid_str 77, 3)])\<rparr>) 1 (load_active_source_ids 1 sample_pg) sample_pg)) = ps
     \<and> length ps \<le> 2"
proof -
  let ?st = "sample_stores\<lparr>vs_count_by_source := (\<lambda>_. Inr [(uuid_str 77, 3)])\<rparr>"
  have "scroll_bounded ?st" by (simp add: scroll_bounded_def sample_stores_def)
  from orphan_deletes_bounded [OF this, of 3600 2 1000 1 sample_pg]
  show ?thesis by (simp add: sample_pg_def)
qed

subsection \<open>Payloads\<close>

text \<open>
  The payload of a re-emitted entity validates as an entity event, and the event
  carries the row's identity, fields, version and hash and the backfill flag.
\<close>

theorem entity_reemit_validates:
  "event_payload pyd \<lparr>ob_id = i, ob_event_type = ne_event_type (entity_event ws ent),
      ob_payload = ne_payload (entity_event ws ent), ob_entity_id = ne_entity_id (entity_event ws ent),
      ob_created_at = t, ob_processed = False, ob_processed_at = None\<rparr>
   = Inr (Some (''outbox.entity.upsert'', PEntity (entity_backfill_event ent (Some ws))))"
  by (simp add: event_payload_def entity_event_def entity_drift_payload_def entity_model_validate_def
      entity_backfill_event_def req_str_def opt_str_def dict_metadata_def dict_version_def dict_backfill_def
      split: option.split)

lemma edge_reemit_undecodable:
  "undecodable pyd \<lparr>ob_id = i, ob_event_type = ne_event_type (edge_event ws g),
      ob_payload = ne_payload (edge_event ws g), ob_entity_id = e, ob_created_at = t,
      ob_processed = False, ob_processed_at = pt\<rparr>"
  by (simp add: undecodable_def event_payload_def edge_event_def edge_drift_payload_def edge_model_validate_def
      req_str_def opt_str_def)

lemma parse_all_bad: "k \<in> set ks \<Longrightarrow> uuid_parse k = Inl x \<Longrightarrow> \<exists>e. parse_all ks = Inl e"
proof (induction ks)
  case (Cons a ks)
  then show ?case by (cases "uuid_parse a") auto
qed simp

text \<open>
  One chunk whose source identifier is not a UUID stops the whole run: in a first
  workspace that has live documents the run raises before any check, so no workspace is
  reconciled, on this tick and on every later one while the chunk is there.
\<close>

theorem malformed_chunk_source_aborts_run:
  assumes "rc_workspaces s = w # rest" and "load_active_source_ids w s \<noteq> []"
    and "vs_count_by_source st w = Inr counts" and "(k, n) \<in> set counts" and "0 < n" and "uuid_parse k = Inl x"
  shows "\<exists>e. run_once cf st s = (Inl e, s\<lparr>rc_reemit_cursor := 0\<rparr>)"
proof -
  have "k \<in> set (map fst (filter (\<lambda>(_, n). 0 < n) counts))"
    using assms(4,5) by force
  then obtain e where e: "parse_all (map fst (filter (\<lambda>(_, n). 0 < n) counts)) = Inl e"
    using parse_all_bad [OF _ assms(6)] by blast
  have live: "load_active_source_ids w (s\<lparr>rc_reemit_cursor := 0\<rparr>) = load_active_source_ids w s"
    by (simp add: load_active_source_ids_def tenant_sources_def)
  have "reconcile_workspace cf st w (s\<lparr>rc_reemit_cursor := 0\<rparr>) = (Inl e, s\<lparr>rc_reemit_cursor := 0\<rparr>)"
    using assms(2,3) e live
    by (simp add: reconcile_workspace_def check_pg_missing_qdrant_def get_act_def bind_act_def of_res_def)
  then show ?thesis
    using assms(1) by (simp add: run_once_def then_act_def bind_act_def upd_def get_act_def)
qed

theorem malformed_chunk_source_aborts_run_witness:
  "\<exists>e. run_once (reconcile_conf 3600 200 1000)
      (sample_stores\<lparr>vs_count_by_source := (\<lambda>_. Inr [(''seed'', 4)])\<rparr>) (sample_pg\<lparr>rc_documents := [(10, False)]\<rparr>)
    = (Inl e, sample_pg\<lparr>rc_documents := [(10, False)], rc_reemit_cursor := 0\<rparr>)"
  by (rule malformed_chunk_source_aborts_run [of _ 1 "[2]" _ "[(''seed'', 4)]" "''seed''" 4
        "ValueError ''badly formed hexadecimal UUID string''"])
    (simp_all add: sample_pg_def sample_stores_def load_active_source_ids_def tenant_sources_def uuid_parse_def
      replace_empty_def strip_by_def)

end
