(* ===== verification/Admission.thy ===== *)
theory Admission
  imports PyText
begin

text \<open>
  The \<^verbatim>\<open>admission\<close> package and \<^verbatim>\<open>rest/rate_limit.py\<close>: lanes derived from token scopes,
  the in-process token bucket, the stub of a shared backend, the controller that fails
  closed when its backend is lost, and the REST dependency that turns its outcome into
  an answer. Numbers of seconds and tokens are rationals; an infinite waiting time is
  \<open>None\<close>.
\<close>

section \<open>Lanes\<close>

definition INCIDENT_LANE :: string where "INCIDENT_LANE = ''incident''"

definition BACKGROUND_LANE :: string where "BACKGROUND_LANE = ''background''"

definition resolve_admission_lane :: "string list \<Rightarrow> string" where
  "resolve_admission_lane scopes =
     (if \<exists>s \<in> set scopes. s \<in> {''incidents:write'', ''admin''} then INCIDENT_LANE else BACKGROUND_LANE)"

section \<open>Backends\<close>

record admission_decision =
  ad_allowed :: bool
  ad_retry_after :: "rat option"

record backend_health =
  bh_healthy :: bool
  bh_detail :: "string option"

type_synonym buckets = "(string \<times> string, rat \<times> rat) dict"

definition pl_try_admit ::
  "rat \<Rightarrow> string \<Rightarrow> string \<Rightarrow> int \<Rightarrow> rat \<Rightarrow> buckets \<Rightarrow> admission_decision res \<times> buckets" where
  "pl_try_admit now lane key capacity refill b =
     (let cap = rat_of_int capacity; bk = (lane, key)
      in case dict_get b bk of
           None \<Rightarrow> (Inr \<lparr>ad_allowed = True, ad_retry_after = Some 0\<rparr>, dict_set b bk (cap - 1, now))
         | Some (tokens0, last_refill) \<Rightarrow>
             let tokens = min cap (tokens0 + (now - last_refill) * refill)
             in if 1 \<le> tokens
                then (Inr \<lparr>ad_allowed = True, ad_retry_after = Some 0\<rparr>, dict_set b bk (tokens - 1, now))
                else (Inr \<lparr>ad_allowed = False,
                           ad_retry_after = (if 0 < refill then Some ((1 - tokens) / refill) else None)\<rparr>,
                      dict_set b bk (tokens, now)))"

definition pl_health :: "buckets \<Rightarrow> backend_health res" where
  "pl_health b = Inr \<lparr>bh_healthy = True,
     bh_detail = Some ''process-local (in-memory, not shared across replicas)''\<rparr>"

definition pl_reset :: "string \<Rightarrow> string \<Rightarrow> buckets \<Rightarrow> buckets" where
  "pl_reset lane key b = dict_pop b (lane, key)"

definition pl_clear :: "buckets \<Rightarrow> buckets" where
  "pl_clear b = []"

definition sh_try_admit ::
  "string \<Rightarrow> rat \<Rightarrow> string \<Rightarrow> string \<Rightarrow> int \<Rightarrow> rat \<Rightarrow> buckets \<Rightarrow> admission_decision res \<times> buckets" where
  "sh_try_admit identity now lane key capacity refill b = (Inl (BackendError identity), b)"

definition sh_health :: "string \<Rightarrow> buckets \<Rightarrow> backend_health res" where
  "sh_health identity b = Inr \<lparr>bh_healthy = False, bh_detail = Some (''unimplemented:'' @ identity)\<rparr>"

section \<open>The controller\<close>

datatype admission_state = StateNormal | StateBackendLost

datatype admission_reason =
    LaneExhausted
  | BackgroundSuspended
  | NoProvableAuthority
  | IncidentReserve

record admission_outcome =
  ao_allowed :: bool
  ao_state :: admission_state
  ao_reason :: "admission_reason option"
  ao_retry_after :: "rat option"

definition null_lease :: "string \<Rightarrow> int \<Rightarrow> bool" where
  "null_lease key capacity = False"

definition degrade :: "(string \<Rightarrow> int \<Rightarrow> bool) \<Rightarrow> int \<Rightarrow> string \<Rightarrow> string \<Rightarrow> admission_outcome" where
  "degrade lease reserve lane key =
     (if lane = BACKGROUND_LANE
      then \<lparr>ao_allowed = False, ao_state = StateBackendLost, ao_reason = Some BackgroundSuspended, ao_retry_after = Some 0\<rparr>
      else if lease key reserve
      then \<lparr>ao_allowed = True, ao_state = StateBackendLost, ao_reason = Some IncidentReserve, ao_retry_after = Some 0\<rparr>
      else \<lparr>ao_allowed = False, ao_state = StateBackendLost, ao_reason = Some NoProvableAuthority, ao_retry_after = Some 0\<rparr>)"

definition safe_health :: "('s \<Rightarrow> backend_health res) \<Rightarrow> 's \<Rightarrow> backend_health" where
  "safe_health health s =
     (case health s of Inl _ \<Rightarrow> \<lparr>bh_healthy = False, bh_detail = Some ''health_check_failed''\<rparr> | Inr h \<Rightarrow> h)"

definition controller_evaluate ::
  "(rat \<Rightarrow> string \<Rightarrow> string \<Rightarrow> int \<Rightarrow> rat \<Rightarrow> 's \<Rightarrow> admission_decision res \<times> 's) \<Rightarrow> ('s \<Rightarrow> backend_health res)
     \<Rightarrow> (string \<Rightarrow> int \<Rightarrow> bool) \<Rightarrow> int \<Rightarrow> rat \<Rightarrow> string \<Rightarrow> string \<Rightarrow> int \<Rightarrow> rat \<Rightarrow> 's \<Rightarrow> admission_outcome \<times> 's" where
  "controller_evaluate try_admit health lease reserve now lane key capacity refill s =
     (if \<not> bh_healthy (safe_health health s) then (degrade lease reserve lane key, s)
      else case try_admit now lane key capacity refill s of
             (Inl _, s') \<Rightarrow> (degrade lease reserve lane key, s')
           | (Inr d, s') \<Rightarrow>
               (\<lparr>ao_allowed = ad_allowed d, ao_state = StateNormal,
                 ao_reason = (if ad_allowed d then None else Some LaneExhausted),
                 ao_retry_after = ad_retry_after d\<rparr>, s'))"

section \<open>The REST dependency\<close>

record settings =
  se_rate_limit_rpm :: int
  se_admission_backend :: string
  se_backend_identity :: "string option"
  se_incident_budget :: "int option"
  se_background_budget :: "int option"
  se_reserve_fraction :: "rat option"

definition lane_capacity_and_bucket :: "settings option \<Rightarrow> string \<Rightarrow> int \<times> string" where
  "lane_capacity_and_bucket cfg lane =
     (case cfg of
        None \<Rightarrow> (60, ''default'')
      | Some s \<Rightarrow>
          (case (if lane \<noteq> BACKGROUND_LANE then se_incident_budget s else se_background_budget s) of
             Some budget \<Rightarrow> (budget, lane)
           | None \<Rightarrow> (se_rate_limit_rpm s, ''default'')))"

definition check_rate_limit :: "rat \<Rightarrow> string \<Rightarrow> int \<Rightarrow> buckets \<Rightarrow> (bool \<times> rat option) res \<times> buckets" where
  "check_rate_limit now token_id rpm b =
     (case pl_try_admit now ''default'' token_id rpm (rat_of_int rpm / 60) b of
        (Inl e, b') \<Rightarrow> (Inl e, b')
      | (Inr d, b') \<Rightarrow> (Inr (ad_allowed d, ad_retry_after d), b'))"

datatype controller = DefaultController | SharedController string int

record rl_state =
  rl_buckets :: buckets
  rl_cache :: "(string \<times> string \<times> rat \<times> int, controller) dict"

definition trunc_rat :: "rat \<Rightarrow> int" where
  "trunc_rat x = (if x < 0 then - \<lfloor>- x\<rfloor> else \<lfloor>x\<rfloor>)"

definition truthy :: "string option \<Rightarrow> string \<Rightarrow> string" where
  "truthy v dflt = (case v of None \<Rightarrow> dflt | Some t \<Rightarrow> if t = [] then dflt else t)"

definition controller_for :: "settings option \<Rightarrow> rl_state \<Rightarrow> controller \<times> rl_state" where
  "controller_for cfg st =
     (case cfg of
        None \<Rightarrow> (DefaultController, st)
      | Some s \<Rightarrow>
          if se_admission_backend s = ''disabled'' then (DefaultController, st)
          else
            let mode = se_admission_backend s;
                identity = truthy (se_backend_identity s) mode;
                fraction = (case se_reserve_fraction s of None \<Rightarrow> 0 | Some f \<Rightarrow> f);
                budget = (case se_incident_budget s of None \<Rightarrow> 0 | Some b \<Rightarrow> b);
                key = (mode, identity, fraction, budget)
            in case dict_get (rl_cache st) key of
                 Some c \<Rightarrow> (c, st)
               | None \<Rightarrow>
                   let c = SharedController identity (trunc_rat (rat_of_int budget * fraction))
                   in (c, st\<lparr>rl_cache := dict_set (rl_cache st) key c\<rparr>))"

definition run_controller ::
  "controller \<Rightarrow> rat \<Rightarrow> string \<Rightarrow> string \<Rightarrow> int \<Rightarrow> rat \<Rightarrow> buckets \<Rightarrow> admission_outcome \<times> buckets" where
  "run_controller c now lane key capacity refill b =
     (case c of
        DefaultController \<Rightarrow>
          controller_evaluate pl_try_admit pl_health null_lease 0 now lane key capacity refill b
      | SharedController identity reserve \<Rightarrow>
          controller_evaluate (sh_try_admit identity) (sh_health identity) null_lease reserve now lane key capacity refill b)"

datatype rl_answer =
    Admitted
  | TooManyRequests int
  | ServiceUnavailable "admission_reason option"
  | Crashed py_exn

definition rate_limit_dependency ::
  "settings option \<Rightarrow> rat \<Rightarrow> uuid \<Rightarrow> string list \<Rightarrow> rl_state \<Rightarrow> rl_answer \<times> rl_state" where
  "rate_limit_dependency cfg now token scopes st =
     (let lane = resolve_admission_lane scopes;
          (capacity, bucket_lane) = lane_capacity_and_bucket cfg lane;
          (c, st1) = controller_for cfg st;
          (outcome, b) = run_controller c now bucket_lane (uuid_str token) capacity (rat_of_int capacity / 60) (rl_buckets st1);
          st2 = st1\<lparr>rl_buckets := b\<rparr>
      in if ao_allowed outcome then (Admitted, st2)
         else if ao_state outcome = StateBackendLost then (ServiceUnavailable (ao_reason outcome), st2)
         else case ao_retry_after outcome of
                None \<Rightarrow> (Crashed OverflowError, st2)
              | Some r \<Rightarrow> (TooManyRequests (trunc_rat r + 1), st2))"

definition admission_error_code :: "admission_outcome \<Rightarrow> string" where
  "admission_error_code outcome =
     (if ao_state outcome = StateBackendLost then ''admission_backend_unavailable'' else ''rate_limited'')"

section \<open>The backend interface\<close>

text \<open>
  What the controller relies on: an attempt for one lane and key leaves what the backend
  knows of every other lane and key alone, and a backend that raises has not admitted.
\<close>

locale admission_backend =
  fixes try_admit :: "rat \<Rightarrow> string \<Rightarrow> string \<Rightarrow> int \<Rightarrow> rat \<Rightarrow> 's \<Rightarrow> admission_decision res \<times> 's"
    and health :: "'s \<Rightarrow> backend_health res"
    and view :: "'s \<Rightarrow> string \<times> string \<Rightarrow> 'v"
  assumes isolated: "x \<noteq> (lane, key) \<Longrightarrow> view (snd (try_admit now lane key c r s)) x = view s x"
    and unavailable: "fst (try_admit now lane key c r s) = Inl e \<Longrightarrow> snd (try_admit now lane key c r s) = s"
    and local: "view s (lane, key) = view s' (lane, key) \<Longrightarrow>
      fst (try_admit now lane key c r s) = fst (try_admit now lane key c r s')"
begin

lemma evaluate_isolated:
  "x \<noteq> (lane, key) \<Longrightarrow>
     view (snd (controller_evaluate try_admit health lease reserve now lane key c r s)) x = view s x"
  using isolated [of x lane key now c r s]
  by (auto simp: controller_evaluate_def split: prod.splits sum.splits)

lemma background_closed:
  assumes "\<not> bh_healthy (safe_health health s) \<or> \<not> is_ok (fst (try_admit now BACKGROUND_LANE key c r s))"
  shows "controller_evaluate try_admit health lease reserve now BACKGROUND_LANE key c r s =
    (\<lparr>ao_allowed = False, ao_state = StateBackendLost, ao_reason = Some BackgroundSuspended, ao_retry_after = Some 0\<rparr>, s)"
proof (cases "bh_healthy (safe_health health s)")
  case True
  then obtain e where e: "fst (try_admit now BACKGROUND_LANE key c r s) = Inl e"
    using assms not_ok_Inl by blast
  then show ?thesis
    using True unavailable [OF e] by (cases "try_admit now BACKGROUND_LANE key c r s")
      (simp add: controller_evaluate_def degrade_def)
qed (simp add: controller_evaluate_def degrade_def)

end

interpretation process_local: admission_backend pl_try_admit pl_health map_of
  by unfold_locales (auto simp: pl_try_admit_def Let_def split: option.splits if_splits)

interpretation shared: admission_backend "sh_try_admit identity" "sh_health identity" map_of for identity
  by unfold_locales (auto simp: sh_try_admit_def)

section \<open>The token bucket\<close>

record admit_request =
  rq_now :: rat
  rq_lane :: string
  rq_key :: string
  rq_capacity :: int
  rq_refill :: rat

definition admit_one :: "admit_request \<Rightarrow> buckets \<Rightarrow> admission_decision res \<times> buckets" where
  "admit_one q b = pl_try_admit (rq_now q) (rq_lane q) (rq_key q) (rq_capacity q) (rq_refill q) b"

fun count_admitted :: "string \<times> string \<Rightarrow> admit_request list \<Rightarrow> buckets \<Rightarrow> nat" where
  "count_admitted x [] b = 0"
| "count_admitted x (q # qs) b =
     (case admit_one q b of
        (r, b') \<Rightarrow> (if (rq_lane q, rq_key q) = x \<and> r = Inr \<lparr>ad_allowed = True, ad_retry_after = Some 0\<rparr> then 1 else 0)
                  + count_admitted x qs b')"

definition uses_bucket :: "string \<times> string \<Rightarrow> int \<Rightarrow> rat \<Rightarrow> admit_request \<Rightarrow> bool" where
  "uses_bucket x c r q \<longleftrightarrow> ((rq_lane q, rq_key q) = x \<longrightarrow> rq_capacity q = c \<and> rq_refill q = r)"

text \<open>How many requests of one bucket may still be admitted until \<open>t1\<close>.\<close>

definition budget_until :: "int \<Rightarrow> rat \<Rightarrow> rat \<Rightarrow> rat \<Rightarrow> (rat \<times> rat) option \<Rightarrow> rat" where
  "budget_until c r now t1 bucket =
     (case bucket of
        None \<Rightarrow> rat_of_int c + r * (t1 - now)
      | Some (tokens, refilled) \<Rightarrow> tokens + r * (t1 - refilled))"

definition bucket_ok :: "rat \<Rightarrow> (rat \<times> rat) option \<Rightarrow> bool" where
  "bucket_ok now bucket = (case bucket of None \<Rightarrow> True | Some (tokens, refilled) \<Rightarrow> 0 \<le> tokens \<and> refilled \<le> now)"

lemma budget_until_nonneg:
  assumes "0 \<le> r" and "1 \<le> c" and "bucket_ok now bucket" and "now \<le> t1"
  shows "0 \<le> budget_until c r now t1 bucket"
  using assms by (auto simp: budget_until_def bucket_ok_def split: option.splits intro!: add_nonneg_nonneg mult_nonneg_nonneg)

lemma admit_same_bucket:
  assumes "1 \<le> c" and "0 \<le> r" and "bucket_ok (rq_now q) (map_of b x)" and "(rq_lane q, rq_key q) = x"
    and "rq_capacity q = c" and "rq_refill q = r" and "admit_one q b = (d, b')"
  shows "bucket_ok (rq_now q) (map_of b' x)"
    and "(if d = Inr \<lparr>ad_allowed = True, ad_retry_after = Some 0\<rparr> then 1 else 0) + budget_until c r (rq_now q) t1 (map_of b' x)
      \<le> budget_until c r (rq_now q) t1 (map_of b x)"
proof -
  have nn: "0 \<le> (rq_now q - l) * r" if "l \<le> rq_now q" for l using that assms(2) by simp
  show "bucket_ok (rq_now q) (map_of b' x)"
    using assms nn by (auto simp: admit_one_def pl_try_admit_def bucket_ok_def Let_def split: option.splits if_splits)
  have lin: "min (of_int c) (t + (rq_now q - l) * r) + r * (t1 - rq_now q) \<le> t + r * (t1 - l)" for t l
  proof -
    have "min (of_int c) (t + (rq_now q - l) * r) \<le> t + (rq_now q - l) * r" by simp
    then show ?thesis by (simp add: algebra_simps)
  qed
  show "(if d = Inr \<lparr>ad_allowed = True, ad_retry_after = Some 0\<rparr> then 1 else 0) + budget_until c r (rq_now q) t1 (map_of b' x)
      \<le> budget_until c r (rq_now q) t1 (map_of b x)"
  proof (cases "map_of b x")
    case None
    then show ?thesis using assms by (auto simp: admit_one_def pl_try_admit_def budget_until_def)
  next
    case (Some p)
    obtain t l where p: "p = (t, l)" by force
    show ?thesis
      using assms Some p lin [of t l]
      by (auto simp: admit_one_def pl_try_admit_def budget_until_def Let_def split: if_splits)
  qed
qed

lemma count_admitted_budget:
  assumes "1 \<le> c" and "0 \<le> r" and "list_all (uses_bucket x c r) qs"
    and "sorted (now # map rq_now qs)" and "\<forall>q \<in> set qs. rq_now q \<le> t1" and "now \<le> t1" and "bucket_ok now (map_of b x)"
  shows "of_nat (count_admitted x qs b) \<le> budget_until c r now t1 (map_of b x)"
  using assms(3-)
proof (induction qs arbitrary: b now)
  case Nil
  then show ?case using budget_until_nonneg [OF assms(2,1)] by simp
next
  case (Cons q qs)
  obtain d b' where a: "admit_one q b = (d, b')" by fastforce
  have q: "now \<le> rq_now q" "rq_now q \<le> t1" using Cons.prems by auto
  have ok: "bucket_ok (rq_now q) (map_of b x)"
    using Cons.prems(5) q by (auto simp: bucket_ok_def split: option.splits)
  have le: "budget_until c r (rq_now q) t1 (map_of b x) \<le> budget_until c r now t1 (map_of b x)"
    using q assms(2) by (auto simp: budget_until_def split: option.splits intro!: mult_left_mono)
  show ?case
  proof (cases "(rq_lane q, rq_key q) = x")
    case True
    then have cr: "rq_capacity q = c" "rq_refill q = r" using Cons.prems(1) by (auto simp: uses_bucket_def)
    note step = admit_same_bucket [OF assms(1,2) ok True cr a]
    have "of_nat (count_admitted x qs b') \<le> budget_until c r (rq_now q) t1 (map_of b' x)"
      using Cons.IH [of "rq_now q" b'] Cons.prems q step(1) by simp
    then show ?thesis using step(2) [of t1] le True a by (simp split: if_splits)
  next
    case False
    then have "map_of b' x = map_of b x"
      using process_local.isolated [of x "rq_lane q" "rq_key q" "rq_now q" "rq_capacity q" "rq_refill q" b] a
      by (simp add: admit_one_def)
    then have "of_nat (count_admitted x qs b') \<le> budget_until c r (rq_now q) t1 (map_of b x)"
      using Cons.IH [of "rq_now q" b'] Cons.prems q ok by simp
    then show ?thesis using le False a by simp
  qed
qed

section \<open>Properties\<close>

text \<open>
  Claim C16: Whatever other traffic is interleaved, one bucket of capacity \<open>c\<close> and refill
  rate \<open>r\<close> admits at most \<open>c + r * (t1 - t0)\<close> of the requests that arrive between \<open>t0\<close>
  and \<open>t1\<close>, starting from no bucket.
\<close>

theorem token_bucket_bound:
  assumes "1 \<le> c" and "0 \<le> r" and "list_all (uses_bucket x c r) qs" and "sorted (t0 # map rq_now qs)"
    and "list_all (\<lambda>q. rq_now q \<le> t1) qs" and "t0 \<le> t1"
  shows "of_nat (count_admitted x qs []) \<le> rat_of_int c + r * (t1 - t0)"
proof -
  have "of_nat (count_admitted x qs []) \<le> budget_until c r t0 t1 (map_of [] x)"
    using assms by (intro count_admitted_budget) (auto simp: bucket_ok_def list_all_iff)
  then show ?thesis by (simp add: budget_until_def)
qed

definition sample_request :: "rat \<Rightarrow> string \<Rightarrow> admit_request" where
  "sample_request t k = \<lparr>rq_now = t, rq_lane = ''incident'', rq_key = k, rq_capacity = 2, rq_refill = 1 / 30\<rparr>"

theorem token_bucket_bound_witness:
  "rat_of_nat (count_admitted (''incident'', ''a'')
      [sample_request 0 ''a'', sample_request 1 ''b'', sample_request 2 ''a'', sample_request 3 ''a''] []) \<le> 2 + 1 / 30 * (3 - 0)"
  using token_bucket_bound [of 2 "1 / 30" "(''incident'', ''a'')"
      "[sample_request 0 ''a'', sample_request 1 ''b'', sample_request 2 ''a'', sample_request 3 ''a'']" 0 3]
  by (simp add: sample_request_def uses_bucket_def)

text \<open>
  The waiting time of a rejection is exact: on the bucket as the rejection left it,
  a request is admitted if and only if it comes at least that much later.
\<close>

theorem retry_after_is_exact:
  assumes "1 \<le> c" and "0 < r" and "pl_try_admit now lane key c r b = (Inr d, b')" and "\<not> ad_allowed d"
    and "ad_retry_after d = Some w" and "now \<le> t"
  shows "(\<exists>d' b''. pl_try_admit t lane key c r b' = (Inr d', b'') \<and> ad_allowed d') \<longleftrightarrow> w \<le> t - now"
proof -
  obtain t0 l where row: "map_of b (lane, key) = Some (t0, l)"
    using assms(3,4) by (auto simp: pl_try_admit_def Let_def split: option.splits)
  define k where "k = min (of_int c) (t0 + (now - l) * r)"
  have k: "k < 1" and w: "w = (1 - k) / r" and b': "map_of b' (lane, key) = Some (k, now)"
    using assms(2-5) row by (auto simp: pl_try_admit_def k_def Let_def split: if_splits)
  have "(\<exists>d' b''. pl_try_admit t lane key c r b' = (Inr d', b'') \<and> ad_allowed d') \<longleftrightarrow> 1 \<le> min (of_int c) (k + (t - now) * r)"
    using b' by (auto simp: pl_try_admit_def Let_def)
  also have "\<dots> \<longleftrightarrow> 1 - k \<le> (t - now) * r" using assms(1) by auto
  also have "\<dots> \<longleftrightarrow> w \<le> t - now" using assms(2) by (simp add: w pos_divide_le_eq)
  finally show ?thesis .
qed

theorem retry_after_is_exact_witness:
  "\<exists>d b'. pl_try_admit 0 ''incident'' ''a'' 2 (1 / 30) [((''incident'', ''a''), (1 / 2, 0))] = (Inr d, b')
     \<and> ad_retry_after d = Some 15
     \<and> ((\<exists>d' b''. pl_try_admit 15 ''incident'' ''a'' 2 (1 / 30) b' = (Inr d', b'') \<and> ad_allowed d') = True)"
proof -
  obtain d b' where a: "pl_try_admit 0 ''incident'' ''a'' 2 (1 / 30) [((''incident'', ''a''), (1 / 2, 0))] = (Inr d, b')"
    by (simp add: pl_try_admit_def Let_def)
  then have d: "\<not> ad_allowed d" "ad_retry_after d = Some 15"
    by (auto simp: pl_try_admit_def Let_def)
  show ?thesis using retry_after_is_exact [OF _ _ a d, of 15] a d by simp
qed

subsection \<open>Runs of the dependency\<close>

record rl_request =
  lq_settings :: "settings option"
  lq_now :: rat
  lq_token :: uuid
  lq_scopes :: "string list"

definition rl_step :: "rl_request \<Rightarrow> rl_state \<Rightarrow> rl_state" where
  "rl_step q st = snd (rate_limit_dependency (lq_settings q) (lq_now q) (lq_token q) (lq_scopes q) st)"

definition rl_init :: rl_state where
  "rl_init = \<lparr>rl_buckets = [], rl_cache = []\<rparr>"

definition is_shared :: "controller \<Rightarrow> bool" where
  "is_shared c = (case c of DefaultController \<Rightarrow> False | SharedController _ _ \<Rightarrow> True)"

definition cache_ok :: "rl_state \<Rightarrow> bool" where
  "cache_ok st \<longleftrightarrow> (\<forall>k c. map_of (rl_cache st) k = Some c \<longrightarrow> is_shared c)"

lemma controller_for_cache: "cache_ok st \<Longrightarrow> cache_ok (snd (controller_for cfg st))"
  by (auto simp: controller_for_def cache_ok_def is_shared_def Let_def split: option.splits if_splits)

lemma rate_limit_cache: "rl_cache (snd (rate_limit_dependency cfg now token scopes st)) = rl_cache (snd (controller_for cfg st))"
  by (auto simp: rate_limit_dependency_def Let_def split: prod.splits option.splits)

lemma rl_step_cache_ok: "cache_ok st \<Longrightarrow> cache_ok (rl_step q st)"
  using controller_for_cache [of st "lq_settings q"] by (simp add: cache_ok_def rl_step_def rate_limit_cache)

interpretation rate_limit: invariant_of rl_step cache_ok
  by unfold_locales (rule rl_step_cache_ok)

lemma shared_controller_closed:
  assumes "is_shared c"
  shows "\<exists>o1. run_controller c now lane key capacity refill b = (o1, b)
    \<and> \<not> ao_allowed o1 \<and> ao_state o1 = StateBackendLost"
  using assms
  by (cases c) (auto simp: run_controller_def is_shared_def controller_evaluate_def safe_health_def sh_health_def
      degrade_def null_lease_def)

text \<open>
  After any history of requests, a request under settings that select a shared
  backend is answered 503, whatever its scopes and budgets, and touches no process-local
  bucket: there is no fallback to the in-process limiter.
\<close>

theorem shared_backend_fails_closed:
  assumes "run rl_step rl_init history = st" and "se_admission_backend s \<noteq> ''disabled''"
  shows "\<exists>reason. fst (rate_limit_dependency (Some s) now token scopes st) = ServiceUnavailable reason
    \<and> rl_buckets (snd (rate_limit_dependency (Some s) now token scopes st)) = rl_buckets st"
proof -
  have ok: "cache_ok st"
    using rate_limit.run_inv [of rl_init history] assms(1) by (simp add: cache_ok_def rl_init_def)
  obtain c st1 where c: "controller_for (Some s) st = (c, st1)" by fastforce
  have shared: "is_shared c" and b: "rl_buckets st1 = rl_buckets st"
    using c ok assms(2)
    by (auto simp: controller_for_def cache_ok_def is_shared_def Let_def split: option.splits simp del: split_paired_All)
  obtain capacity lane where l: "lane_capacity_and_bucket (Some s) (resolve_admission_lane scopes) = (capacity, lane)" by fastforce
  obtain o1 where "run_controller c now lane (uuid_str token) capacity (rat_of_int capacity / 60) (rl_buckets st1) = (o1, rl_buckets st1)"
    "\<not> ao_allowed o1" "ao_state o1 = StateBackendLost"
    using shared_controller_closed [OF shared] by blast
  then show ?thesis using c l b by (simp add: rate_limit_dependency_def)
qed

definition shared_settings :: settings where
  "shared_settings = \<lparr>se_rate_limit_rpm = 60, se_admission_backend = ''shared-redis-lease'',
     se_backend_identity = Some ''redis'', se_incident_budget = Some 10, se_background_budget = Some 5,
     se_reserve_fraction = Some (1 / 2)\<rparr>"

theorem shared_backend_fails_closed_witness:
  "\<exists>reason. fst (rate_limit_dependency (Some shared_settings) 3 7 [''admin'']
     (run rl_step rl_init [\<lparr>lq_settings = None, lq_now = 0, lq_token = 7, lq_scopes = []\<rparr>])) = ServiceUnavailable reason"
  using shared_backend_fails_closed [OF refl, of shared_settings 3 7 "[''admin'']"
      "[\<lparr>lq_settings = None, lq_now = 0, lq_token = 7, lq_scopes = []\<rparr>]"]
  by (auto simp: shared_settings_def)

definition two_lanes :: "settings \<Rightarrow> bool" where
  "two_lanes s \<longleftrightarrow> se_admission_backend s = ''disabled'' \<and> se_incident_budget s \<noteq> None \<and> se_background_budget s \<noteq> None"

definition incident_request :: "rl_request \<Rightarrow> bool" where
  "incident_request q \<longleftrightarrow> resolve_admission_lane (lq_scopes q) = INCIDENT_LANE"

lemma lanes_distinct [simp]: "INCIDENT_LANE \<noteq> BACKGROUND_LANE" "BACKGROUND_LANE \<noteq> INCIDENT_LANE"
  by (simp_all add: INCIDENT_LANE_def BACKGROUND_LANE_def)

lemma pl_total: obtains d b' where "pl_try_admit now lane key c r b = (Inr d, b')"
proof -
  have "\<exists>d b'. pl_try_admit now lane key c r b = (Inr d, b')"
    by (cases "map_of b (lane, key)") (auto simp: pl_try_admit_def Let_def)
  then show thesis using that by blast
qed

lemma pl_local:
  assumes "map_of b (lane, key) = map_of b' (lane, key)"
  shows "map_of (snd (pl_try_admit now lane key c r b)) (lane, key) = map_of (snd (pl_try_admit now lane key c r b')) (lane, key)"
proof (cases "map_of b (lane, key)")
  case None
  then show ?thesis using assms [symmetric] by (simp add: pl_try_admit_def)
next
  case (Some p)
  then show ?thesis using assms [symmetric] by (cases p) (simp add: pl_try_admit_def Let_def)
qed

definition answer_of :: "admission_decision \<Rightarrow> rl_answer" where
  "answer_of d =
     (if ad_allowed d then Admitted
      else case ad_retry_after d of None \<Rightarrow> Crashed OverflowError | Some w \<Rightarrow> TooManyRequests (trunc_rat w + 1))"

lemma two_lanes_step:
  assumes "two_lanes s" and "capacity = fst (lane_capacity_and_bucket (Some s) (resolve_admission_lane scopes))"
    and "pl_try_admit now (resolve_admission_lane scopes) (uuid_str token) capacity (rat_of_int capacity / 60) (rl_buckets st) = (Inr d, b)"
  shows "rate_limit_dependency (Some s) now token scopes st = (answer_of d, st\<lparr>rl_buckets := b\<rparr>)"
proof -
  have c: "controller_for (Some s) st = (DefaultController, st)"
    using assms(1) by (simp add: controller_for_def two_lanes_def)
  have l: "lane_capacity_and_bucket (Some s) (resolve_admission_lane scopes) = (capacity, resolve_admission_lane scopes)"
    using assms(1,2) by (auto simp: lane_capacity_and_bucket_def two_lanes_def split: option.splits)
  show ?thesis
    using assms(3) c l
    by (simp add: rate_limit_dependency_def run_controller_def controller_evaluate_def safe_health_def pl_health_def
        answer_of_def split: option.splits)
qed

definition same_lane :: "string \<Rightarrow> rl_state \<Rightarrow> rl_state \<Rightarrow> bool" where
  "same_lane lane st st' \<longleftrightarrow> (\<forall>k. map_of (rl_buckets st) (lane, k) = map_of (rl_buckets st') (lane, k))"

lemma same_lane_request:
  assumes "two_lanes s" and "same_lane (resolve_admission_lane scopes) st st'"
  shows "fst (rate_limit_dependency (Some s) now token scopes st) = fst (rate_limit_dependency (Some s) now token scopes st')
    \<and> same_lane (resolve_admission_lane scopes) (snd (rate_limit_dependency (Some s) now token scopes st))
        (snd (rate_limit_dependency (Some s) now token scopes st'))"
proof -
  let ?lane = "resolve_admission_lane scopes"
  define c where "c = fst (lane_capacity_and_bucket (Some s) ?lane)"
  obtain d b where d: "pl_try_admit now ?lane (uuid_str token) c (rat_of_int c / 60) (rl_buckets st) = (Inr d, b)"
    by (rule pl_total)
  obtain d' b' where d': "pl_try_admit now ?lane (uuid_str token) c (rat_of_int c / 60) (rl_buckets st') = (Inr d', b')"
    by (rule pl_total)
  have row: "map_of (rl_buckets st) (?lane, uuid_str token) = map_of (rl_buckets st') (?lane, uuid_str token)"
    using assms(2) by (simp add: same_lane_def)
  have "d = d' \<and> map_of b (?lane, uuid_str token) = map_of b' (?lane, uuid_str token)"
    using pl_local [OF row, of now c "rat_of_int c / 60"] process_local.local [OF row, of now c "rat_of_int c / 60"] d d'
    by simp
  moreover have "map_of b (?lane, k) = map_of b' (?lane, k)" if "k \<noteq> uuid_str token" for k
    using process_local.isolated [of "(?lane, k)" ?lane "uuid_str token" now c "rat_of_int c / 60" "rl_buckets st"]
      process_local.isolated [of "(?lane, k)" ?lane "uuid_str token" now c "rat_of_int c / 60" "rl_buckets st'"] that d d' assms(2)
    by (simp add: same_lane_def)
  ultimately show ?thesis
    using two_lanes_step [OF assms(1) c_def d] two_lanes_step [OF assms(1) c_def d']
    by (simp add: same_lane_def) metis
qed

lemma other_lane_request:
  assumes "two_lanes s" and "lane \<noteq> resolve_admission_lane scopes"
  shows "same_lane lane (snd (rate_limit_dependency (Some s) now token scopes st)) st"
proof -
  define c where "c = fst (lane_capacity_and_bucket (Some s) (resolve_admission_lane scopes))"
  obtain d b where d: "pl_try_admit now (resolve_admission_lane scopes) (uuid_str token) c (rat_of_int c / 60) (rl_buckets st) = (Inr d, b)"
    by (rule pl_total)
  have "map_of b (lane, k) = map_of (rl_buckets st) (lane, k)" for k
    using process_local.isolated [of "(lane, k)" "resolve_admission_lane scopes" "uuid_str token" now c "rat_of_int c / 60" "rl_buckets st"]
      assms(2) d by simp
  then show ?thesis using two_lanes_step [OF assms(1) c_def d] by (simp add: same_lane_def)
qed

lemma incident_run:
  assumes "two_lanes s" and "list_all (\<lambda>q. lq_settings q = Some s) qs" and "same_lane INCIDENT_LANE st st'"
  shows "same_lane INCIDENT_LANE (run rl_step st qs) (run rl_step st' (filter incident_request qs))"
  using assms(2,3)
proof (induction qs arbitrary: st st')
  case (Cons q qs)
  have s: "lq_settings q = Some s" and rest: "list_all (\<lambda>q. lq_settings q = Some s) qs" using Cons.prems(1) by auto
  show ?case
  proof (cases "incident_request q")
    case True
    then have lane: "resolve_admission_lane (lq_scopes q) = INCIDENT_LANE" by (simp add: incident_request_def)
    have "same_lane INCIDENT_LANE (rl_step q st) (rl_step q st')"
      using same_lane_request [OF assms(1), of "lq_scopes q" st st'] Cons.prems(2) lane s by (simp add: rl_step_def)
    then show ?thesis using Cons.IH [OF rest] True by simp
  next
    case False
    then have "same_lane INCIDENT_LANE (rl_step q st) st"
      using other_lane_request [OF assms(1), of INCIDENT_LANE "lq_scopes q"] s by (auto simp: rl_step_def incident_request_def)
    then have "same_lane INCIDENT_LANE (rl_step q st) st'" using Cons.prems(2) by (simp add: same_lane_def)
    then show ?thesis using Cons.IH [OF rest] False by simp
  qed
qed simp

text \<open>
  With both lane budgets configured, background traffic cannot delay an incident
  request: its answer after any history is the answer after the incident requests of that
  history alone.
\<close>

theorem background_cannot_starve_incident:
  assumes "two_lanes s" and "list_all (\<lambda>q. lq_settings q = Some s) history"
    and "resolve_admission_lane scopes = INCIDENT_LANE"
  shows "fst (rate_limit_dependency (Some s) now token scopes (run rl_step rl_init history))
    = fst (rate_limit_dependency (Some s) now token scopes (run rl_step rl_init (filter incident_request history)))"
proof -
  have "same_lane INCIDENT_LANE (run rl_step rl_init history) (run rl_step rl_init (filter incident_request history))"
    by (rule incident_run [OF assms(1,2)]) (simp add: same_lane_def)
  then show ?thesis using same_lane_request [OF assms(1), of scopes] assms(3) by simp
qed

theorem background_cannot_starve_incident_witness:
  "fst (rate_limit_dependency (Some (shared_settings\<lparr>se_admission_backend := ''disabled''\<rparr>)) 3 7 [''admin'']
      (run rl_step rl_init (replicate 9 \<lparr>lq_settings = Some (shared_settings\<lparr>se_admission_backend := ''disabled''\<rparr>),
         lq_now = 0, lq_token = 7, lq_scopes = []\<rparr>))) = Admitted"
proof -
  let ?s = "shared_settings\<lparr>se_admission_backend := ''disabled''\<rparr>"
  let ?h = "replicate 9 \<lparr>lq_settings = Some ?s, lq_now = 0, lq_token = 7, lq_scopes = []\<rparr>"
  have two: "two_lanes ?s" by (simp add: two_lanes_def shared_settings_def)
  have lane: "resolve_admission_lane [''admin''] = INCIDENT_LANE" by (simp add: resolve_admission_lane_def)
  have none: "filter incident_request ?h = []"
    by (simp add: incident_request_def resolve_admission_lane_def)
  have "fst (rate_limit_dependency (Some ?s) 3 7 [''admin''] rl_init) = Admitted"
    by (simp add: rate_limit_dependency_def lane lane_capacity_and_bucket_def shared_settings_def controller_for_def
        run_controller_def controller_evaluate_def safe_health_def pl_health_def pl_try_admit_def rl_init_def)
  then show ?thesis
    using background_cannot_starve_incident [OF two _ lane, of ?h 3 7] none by (simp add: list_all_iff)
qed

end
