(* ===== verification/Auth.thy ===== *)
theory Auth
  imports PyText
begin

text \<open>
  API tokens: scopes and their hierarchy (core \<^verbatim>\<open>auth/scopes.py\<close>), the token row and its
  constraints (core \<^verbatim>\<open>db/models.py\<close>), minting, rotation and revocation (core
  \<^verbatim>\<open>auth/tokens.py\<close>), the request dependencies that resolve a credential (core
  \<^verbatim>\<open>auth/middleware.py\<close>), the workspace guard (core \<^verbatim>\<open>auth/workspace.py\<close>) and the endpoints
  that compose them (server \<^verbatim>\<open>routes/tokens.py\<close>, \<^verbatim>\<open>rest/admin_session.py\<close>).

  Times are microseconds. A \<^verbatim>\<open>datetime\<close> is naive or aware; an aware one is its instant, and
  the database holds instants. Argon2 is the parameter \<open>password_hasher\<close>: hashing takes the
  salt it draws, verifying has the outcomes the package documents. How the database driver
  stores a naive \<^verbatim>\<open>datetime\<close> is the parameter \<open>drv\<close>. Random values and identifiers are
  drawn by the caller. The rows of the table stand in the order in which a scan returns
  them, and statements against the database succeed unless a constraint is violated.
\<close>

section \<open>Scopes\<close>

datatype scope =
    Scope_search
  | Scope_sources_read
  | Scope_sources_write
  | Scope_stats_read
  | Scope_otel_write
  | Scope_incidents_write
  | Scope_operator_read
  | Scope_admin

definition scope_str :: "scope \<Rightarrow> string" where
  "scope_str s = (case s of
      Scope_search \<Rightarrow> ''search''
    | Scope_sources_read \<Rightarrow> ''sources:read''
    | Scope_sources_write \<Rightarrow> ''sources:write''
    | Scope_stats_read \<Rightarrow> ''stats:read''
    | Scope_otel_write \<Rightarrow> ''otel:write''
    | Scope_incidents_write \<Rightarrow> ''incidents:write''
    | Scope_operator_read \<Rightarrow> ''operator:read''
    | Scope_admin \<Rightarrow> ''admin'')"

definition all_scopes :: "scope list" where
  "all_scopes = [Scope_search, Scope_sources_read, Scope_sources_write, Scope_stats_read,
     Scope_otel_write, Scope_incidents_write, Scope_operator_read, Scope_admin]"

definition SCOPE_HIERARCHY :: "scope \<Rightarrow> scope set" where
  "SCOPE_HIERARCHY s = (case s of
      Scope_admin \<Rightarrow> {Scope_search, Scope_sources_read, Scope_sources_write, Scope_stats_read,
                      Scope_otel_write, Scope_incidents_write, Scope_operator_read, Scope_admin}
    | Scope_sources_write \<Rightarrow> {Scope_sources_write}
    | Scope_sources_read \<Rightarrow> {Scope_sources_read}
    | Scope_stats_read \<Rightarrow> {Scope_stats_read}
    | Scope_otel_write \<Rightarrow> {Scope_otel_write}
    | Scope_incidents_write \<Rightarrow> {Scope_incidents_write}
    | Scope_operator_read \<Rightarrow> {Scope_operator_read}
    | Scope_search \<Rightarrow> {Scope_search})"

definition expand_scopes :: "scope set \<Rightarrow> scope set" where
  "expand_scopes granted = \<Union> (SCOPE_HIERARCHY ` granted)"

definition check_scopes :: "scope set \<Rightarrow> scope set \<Rightarrow> bool" where
  "check_scopes required granted \<longleftrightarrow> required \<subseteq> expand_scopes granted"

text \<open>\<^verbatim>\<open>{Scope(s) for s in token.scopes if s in Scope.__members__.values()}\<close>\<close>

definition granted_scopes :: "string list \<Rightarrow> scope set" where
  "granted_scopes ss = set (filter (\<lambda>sc. scope_str sc \<in> set ss) all_scopes)"

section \<open>Token rows\<close>

datatype py_datetime = Naive int | Aware int

definition aware_utc :: "py_datetime \<Rightarrow> int" where
  "aware_utc d = (case d of Naive t \<Rightarrow> t | Aware t \<Rightarrow> t)"

record api_token =
  tk_id :: uuid
  tk_name :: string
  tk_hashed_token :: string
  tk_prefix :: string
  tk_scopes :: "string list"
  tk_profile_id :: "string option"
  tk_rotated_from :: "uuid option"
  tk_workspace :: "uuid option"
  tk_created_at :: "int option"
  tk_expires_at :: "int option"
  tk_last_used_at :: "int option"
  tk_is_active :: bool

text \<open>\<open>workspaces\<close> maps a workspace to the \<^verbatim>\<open>synthetic_profile\<close> entry of its settings.\<close>

record auth_db =
  api_tokens :: "api_token list"
  workspaces :: "(uuid, string option) dict"

text \<open>
  \<^verbatim>\<open>session.add\<close>, \<^verbatim>\<open>flush\<close> and \<^verbatim>\<open>refresh\<close>: the primary key, the unique index on
  \<^verbatim>\<open>rotated_from_id\<close> and the two foreign keys are checked, and an absent \<^verbatim>\<open>created_at\<close> is
  the server's \<^verbatim>\<open>now()\<close>.
\<close>

definition db_insert :: "int \<Rightarrow> api_token \<Rightarrow> (auth_db, api_token) act" where
  "db_insert now t = (\<lambda>db.
     let row = t\<lparr>tk_created_at := Some (case tk_created_at t of None \<Rightarrow> now | Some c \<Rightarrow> c)\<rparr>;
         rows = api_tokens db in
     if tk_id t \<in> tk_id ` set rows
        \<or> (case tk_rotated_from t of None \<Rightarrow> False
           | Some p \<Rightarrow> Some p \<in> tk_rotated_from ` set rows \<or> p \<notin> tk_id ` set rows)
        \<or> (case tk_workspace t of None \<Rightarrow> False | Some w \<Rightarrow> \<not> dict_has (workspaces db) w)
     then (Inl (BackendError ''IntegrityError''), db)
     else (Inr row, db\<lparr>api_tokens := rows @ [row]\<rparr>))"

definition db_get :: "uuid \<Rightarrow> auth_db \<Rightarrow> api_token option" where
  "db_get i db = find (\<lambda>t. tk_id t = i) (api_tokens db)"

definition db_update :: "uuid \<Rightarrow> (api_token \<Rightarrow> api_token) \<Rightarrow> auth_db \<Rightarrow> auth_db" where
  "db_update i f db =
     db\<lparr>api_tokens := map (\<lambda>t. if tk_id t = i then f t else t) (api_tokens db)\<rparr>"

text \<open>\<^verbatim>\<open>async with factory() as db\<close>: an exception rolls the session back.\<close>

definition in_session :: "('s, 'a) act \<Rightarrow> ('s, 'a) act" where
  "in_session m = (\<lambda>s. case m s of (Inl e, _) \<Rightarrow> (Inl e, s) | (Inr x, s') \<Rightarrow> (Inr x, s'))"

section \<open>Hashing and minting\<close>

datatype verify_outcome = Verified | VerifyMismatchError | VerificationError | InvalidHashError

record password_hasher =
  ph_hash :: "string \<Rightarrow> string \<Rightarrow> string"
  ph_verify :: "string \<Rightarrow> string \<Rightarrow> verify_outcome"

text \<open>
  \<^verbatim>\<open>verify_token\<close> catches the two verification errors; \<^verbatim>\<open>InvalidHashError\<close> is a
  \<^verbatim>\<open>ValueError\<close> and goes through.
\<close>

definition verify_token :: "password_hasher \<Rightarrow> string \<Rightarrow> string \<Rightarrow> bool res" where
  "verify_token ph plaintext hashed =
     (case ph_verify ph hashed plaintext of
        Verified \<Rightarrow> Inr True
      | VerifyMismatchError \<Rightarrow> Inr False
      | VerificationError \<Rightarrow> Inr False
      | InvalidHashError \<Rightarrow> Inl (ValueError ''invalid hash''))"

definition hash_token :: "password_hasher \<Rightarrow> string \<Rightarrow> string \<Rightarrow> string" where
  "hash_token ph salt plaintext = ph_hash ph salt plaintext"

definition MCP_READ_PROFILE_ID :: string where
  "MCP_READ_PROFILE_ID = ''omniscience-mcp-read-v1''"

definition MCP_READ_MAX_LIFETIME :: int where
  "MCP_READ_MAX_LIFETIME = 30 * 24 * 3600 * 1000000"

definition MCP_READ_ROTATION_OVERLAP :: int where
  "MCP_READ_ROTATION_OVERLAP = 24 * 3600 * 1000000"

text \<open>What a mint draws at random: row identifier, token identifier, secret part and salt.\<close>

record mint_supply =
  ms_id :: uuid
  ms_uuid4 :: uuid
  ms_random :: string
  ms_salt :: string

definition generate_token :: "string \<Rightarrow> mint_supply \<Rightarrow> string \<times> string" where
  "generate_token env ms =
     (let env_tag = map lower_char (take 3 env);
          plaintext = ''sk_'' @ env_tag @ ''_'' @ uuid_hex (ms_uuid4 ms) @ ''_'' @ ms_random ms
      in (plaintext, take 8 plaintext))"

definition validate_mcp_read_token :: "int \<Rightarrow> api_token \<Rightarrow> uuid res" where
  "validate_mcp_read_token now t =
     (if tk_profile_id t \<noteq> Some MCP_READ_PROFILE_ID
      then Inl (McpReadTokenValidationError ''legacy_token'')
      else if tk_scopes t \<noteq> [''search'']
      then Inl (McpReadTokenValidationError ''exact_search_scope_required'')
      else case tk_workspace t of
        None \<Rightarrow> Inl (McpReadTokenValidationError ''workspace_required'')
      | Some w \<Rightarrow>
          if \<not> tk_is_active t then Inl (McpReadTokenValidationError ''token_revoked'')
          else case tk_expires_at t of
            None \<Rightarrow> Inl (McpReadTokenValidationError ''expiry_required'')
          | Some e \<Rightarrow>
              if e \<le> now then Inl (McpReadTokenValidationError ''token_expired'')
              else case tk_created_at t of
                None \<Rightarrow> Inl (McpReadTokenValidationError ''creation_provenance_required'')
              | Some c \<Rightarrow>
                  if e > c + MCP_READ_MAX_LIFETIME
                  then Inl (McpReadTokenValidationError ''expiry_exceeds_30_days'')
                  else Inr w)"

definition rotation_overlap_expiry :: "int \<Rightarrow> int \<Rightarrow> int" where
  "rotation_overlap_expiry now current_expiry = min current_expiry (now + MCP_READ_ROTATION_OVERLAP)"

definition create_api_token ::
  "password_hasher \<Rightarrow> mint_supply \<Rightarrow> string \<Rightarrow> string list \<Rightarrow> int option \<Rightarrow> uuid option \<Rightarrow> int
   \<Rightarrow> (auth_db, api_token \<times> string) act" where
  "create_api_token ph ms name scopes expires_at workspace now =
     (let (plaintext, prefix) = generate_token ''development'' ms in
      bind_act (db_insert now
        \<lparr>tk_id = ms_id ms, tk_name = name, tk_hashed_token = hash_token ph (ms_salt ms) plaintext,
         tk_prefix = prefix, tk_scopes = scopes, tk_profile_id = None, tk_rotated_from = None,
         tk_workspace = workspace, tk_created_at = None, tk_expires_at = expires_at,
         tk_last_used_at = None, tk_is_active = True\<rparr>)
      (\<lambda>row. ret (row, plaintext)))"

definition create_mcp_read_token ::
  "password_hasher \<Rightarrow> mint_supply \<Rightarrow> string \<Rightarrow> uuid \<Rightarrow> string \<Rightarrow> py_datetime option \<Rightarrow> uuid option \<Rightarrow> int
   \<Rightarrow> (auth_db, api_token \<times> string) act" where
  "create_mcp_read_token ph ms name workspace env expires_at rotated_from now =
     (let expiry = (case expires_at of None \<Rightarrow> now + MCP_READ_MAX_LIFETIME | Some d \<Rightarrow> aware_utc d) in
      if expiry \<le> now then raise_exn (ValueError ''expiry_must_be_future'')
      else if expiry > now + MCP_READ_MAX_LIFETIME then raise_exn (ValueError ''expiry_exceeds_30_days'')
      else
        (let (plaintext, prefix) = generate_token env ms in
         bind_act (db_insert now
           \<lparr>tk_id = ms_id ms, tk_name = name, tk_hashed_token = hash_token ph (ms_salt ms) plaintext,
            tk_prefix = prefix, tk_scopes = [''search''], tk_profile_id = Some MCP_READ_PROFILE_ID,
            tk_rotated_from = rotated_from, tk_workspace = Some workspace, tk_created_at = Some now,
            tk_expires_at = Some expiry, tk_last_used_at = None, tk_is_active = True\<rparr>)
         (\<lambda>row. ret (row, plaintext))))"

record rotation =
  ro_token :: api_token
  ro_plaintext :: string
  ro_old_prefix :: string
  ro_old_expires_at :: int
  ro_overlap_seconds :: int

definition rotate_mcp_read_token ::
  "password_hasher \<Rightarrow> mint_supply \<Rightarrow> uuid \<Rightarrow> string \<Rightarrow> int \<Rightarrow> (auth_db, rotation) act" where
  "rotate_mcp_read_token ph ms token_id env now =
     get_act (db_get token_id) (\<lambda>found. case found of
       None \<Rightarrow> raise_exn (LookupError ''token_not_found'')
     | Some old \<Rightarrow>
         bind_act (of_res (validate_mcp_read_token now old)) (\<lambda>workspace.
         get_act (\<lambda>db. Some token_id \<in> tk_rotated_from ` set (api_tokens db)) (\<lambda>successor.
         if successor then raise_exn (McpReadTokenValidationError ''token_already_rotated'')
         else case tk_expires_at old of
           None \<Rightarrow> raise_exn (ValueError ''AssertionError'')
         | Some current \<Rightarrow>
             (let e = rotation_overlap_expiry now current in
              then_act
                (upd (db_update token_id
                   (\<lambda>t. t\<lparr>tk_expires_at := map_option (rotation_overlap_expiry now) (tk_expires_at t)\<rparr>)))
              (bind_act
                (create_mcp_read_token ph ms (tk_name old @ '' (rotated)'') workspace env None (Some token_id) now)
                (\<lambda>(row, plaintext). ret
                  \<lparr>ro_token = row, ro_plaintext = plaintext, ro_old_prefix = tk_prefix old,
                   ro_old_expires_at = e, ro_overlap_seconds = max 0 ((e - now) div 1000000)\<rparr>))))))"

definition revoke_mcp_read_token :: "uuid \<Rightarrow> (auth_db, string \<times> uuid) act" where
  "revoke_mcp_read_token token_id =
     get_act (db_get token_id) (\<lambda>found. case found of
       None \<Rightarrow> raise_exn (LookupError ''token_not_found'')
     | Some t \<Rightarrow>
         if tk_profile_id t \<noteq> Some MCP_READ_PROFILE_ID
         then raise_exn (McpReadTokenValidationError ''legacy_token'')
         else case tk_workspace t of
           None \<Rightarrow> raise_exn (McpReadTokenValidationError ''workspace_required'')
         | Some w \<Rightarrow>
             then_act (upd (db_update token_id (\<lambda>t. t\<lparr>tk_is_active := False\<rparr>)))
             (ret (tk_prefix t, w)))"

definition delete_api_token :: "uuid \<Rightarrow> (auth_db, unit) act" where
  "delete_api_token token_id =
     get_act (db_get token_id) (\<lambda>found. case found of
       None \<Rightarrow> ret ()
     | Some t \<Rightarrow> upd (db_update token_id (\<lambda>t. t\<lparr>tk_is_active := False\<rparr>)))"

definition get_workspace_id :: "api_token \<Rightarrow> uuid res" where
  "get_workspace_id t =
     (case tk_workspace t of
        None \<Rightarrow> Inl (PermissionError ''forbidden:workspace_required'')
      | Some w \<Rightarrow> Inr w)"

section \<open>Resolving a credential\<close>

record app_settings =
  as_environment :: string
  as_local_observe_enabled :: bool

record app_state =
  ap_has_db :: bool
  ap_settings :: "app_settings option"

text \<open>
  A request: the bearer credential as the framework extracts it, cookies, headers with
  lower-case names, the URL scheme, and the clock at the time the credential is resolved.
\<close>

record http_request =
  rq_method :: string
  rq_bearer :: "string option"
  rq_cookies :: "(string, string) dict"
  rq_headers :: "(string, string) dict"
  rq_scheme :: string
  rq_now :: int

definition PREFIX_LEN :: nat where "PREFIX_LEN = 8"
definition SESSION_COOKIE :: string where "SESSION_COOKIE = ''omniscience_admin_session''"
definition CSRF_COOKIE :: string where "CSRF_COOKIE = ''csrf_token''"
definition CSRF_HEADER :: string where "CSRF_HEADER = ''x-csrf-token''"
definition MUTATING_METHODS :: "string list" where
  "MUTATING_METHODS = [''POST'', ''PUT'', ''PATCH'', ''DELETE'']"

definition AUTH_ERROR :: py_exn where "AUTH_ERROR = HTTPException 401 ''unauthorized''"
definition CSRF_ERROR :: py_exn where "CSRF_ERROR = HTTPException 403 ''csrf_invalid''"
definition SCOPE_ERROR :: py_exn where "SCOPE_ERROR = HTTPException 403 ''forbidden''"

fun first_verified :: "password_hasher \<Rightarrow> int \<Rightarrow> string \<Rightarrow> api_token list \<Rightarrow> api_token option res" where
  "first_verified ph now plaintext [] = Inr None"
| "first_verified ph now plaintext (c # cs) =
     bind_res (verify_token ph plaintext (tk_hashed_token c)) (\<lambda>ok.
       if \<not> ok then first_verified ph now plaintext cs
       else if (case tk_expires_at c of None \<Rightarrow> False | Some e \<Rightarrow> e < now) then Inr None
       else Inr (Some c))"

definition lookup_token :: "password_hasher \<Rightarrow> int \<Rightarrow> string \<Rightarrow> auth_db \<Rightarrow> api_token option res" where
  "lookup_token ph now plaintext db =
     (if length plaintext < PREFIX_LEN then Inr None
      else first_verified ph now plaintext
        (filter (\<lambda>t. tk_prefix t = take PREFIX_LEN plaintext \<and> tk_is_active t) (api_tokens db)))"

definition update_last_used :: "int \<Rightarrow> api_token \<Rightarrow> (auth_db, unit) act" where
  "update_last_used now t = upd (db_update (tk_id t) (\<lambda>r. r\<lparr>tk_last_used_at := Some now\<rparr>))"

definition verify_csrf :: "http_request \<Rightarrow> unit res" where
  "verify_csrf rq =
     (if rq_method rq \<notin> set MUTATING_METHODS then Inr ()
      else
        (let cookie_val = dict_getd (rq_cookies rq) CSRF_COOKIE [];
             header_val = dict_getd (rq_headers rq) CSRF_HEADER [] in
         if cookie_val = [] \<or> header_val = [] then Inl CSRF_ERROR
         else if utf8_encode cookie_val \<noteq> utf8_encode header_val then Inl CSRF_ERROR
         else Inr ()))"

definition extract_plaintext :: "http_request \<Rightarrow> string option \<times> bool" where
  "extract_plaintext rq =
     (case rq_bearer rq of
        Some c \<Rightarrow> if c \<noteq> [] then (Some c, True)
                  else (case dict_get (rq_cookies rq) SESSION_COOKIE of
                          Some v \<Rightarrow> if v \<noteq> [] then (Some v, False) else (None, False)
                        | None \<Rightarrow> (None, False))
      | None \<Rightarrow> (case dict_get (rq_cookies rq) SESSION_COOKIE of
                   Some v \<Rightarrow> if v \<noteq> [] then (Some v, False) else (None, False)
                 | None \<Rightarrow> (None, False)))"

text \<open>The part that both token dependencies share: resolve, stamp, commit.\<close>

definition resolve_plaintext ::
  "password_hasher \<Rightarrow> app_state \<Rightarrow> http_request \<Rightarrow> string \<Rightarrow> bool \<Rightarrow> (auth_db, api_token) act" where
  "resolve_plaintext ph app rq plaintext is_bearer =
     then_act (of_res (if is_bearer then Inr () else verify_csrf rq))
     (if \<not> ap_has_db app then raise_exn AUTH_ERROR
      else in_session
        (get_act (lookup_token ph (rq_now rq) plaintext) (\<lambda>r.
         bind_act (of_res r) (\<lambda>found. case found of
           None \<Rightarrow> raise_exn AUTH_ERROR
         | Some t \<Rightarrow>
             then_act (update_last_used (rq_now rq) t)
             (ret (t\<lparr>tk_last_used_at := Some (rq_now rq)\<rparr>))))))"

definition get_current_token :: "password_hasher \<Rightarrow> app_state \<Rightarrow> http_request \<Rightarrow> (auth_db, api_token) act" where
  "get_current_token ph app rq =
     (case extract_plaintext rq of
        (None, _) \<Rightarrow> raise_exn AUTH_ERROR
      | (Some plaintext, is_bearer) \<Rightarrow> resolve_plaintext ph app rq plaintext is_bearer)"

definition get_optional_current_token ::
  "password_hasher \<Rightarrow> app_state \<Rightarrow> http_request \<Rightarrow> (auth_db, api_token option) act" where
  "get_optional_current_token ph app rq =
     (case extract_plaintext rq of
        (None, _) \<Rightarrow> ret None
      | (Some plaintext, is_bearer) \<Rightarrow>
          bind_act (resolve_plaintext ph app rq plaintext is_bearer) (\<lambda>t. ret (Some t)))"

definition require_scope ::
  "scope set \<Rightarrow> password_hasher \<Rightarrow> app_state \<Rightarrow> http_request \<Rightarrow> (auth_db, api_token) act" where
  "require_scope required ph app rq =
     bind_act (get_current_token ph app rq) (\<lambda>t.
       if check_scopes required (granted_scopes (tk_scopes t)) then ret t else raise_exn SCOPE_ERROR)"

section \<open>Token endpoints\<close>

definition PROFILE_ID :: string where "PROFILE_ID = ''management-local-observe-v1''"
definition BROKER_SCOPE :: string where "BROKER_SCOPE = ''local-observe:mint-read''"
definition BROKER_MAX_SECONDS :: int where "BROKER_MAX_SECONDS = 900"

text \<open>
  The identifiers are \<^verbatim>\<open>uuid5(NAMESPACE_URL, "urn:omniscience:management-local-observe-v1:...")\<close>
  of \<^verbatim>\<open>broker\<close>, \<^verbatim>\<open>alpha\<close> and \<^verbatim>\<open>beta\<close>.
\<close>

definition BROKER_ID :: uuid where
  "BROKER_ID = 0x1e27ec99e8b357fba4b4cc505edc79d3"

definition WORKSPACES :: "(string, uuid) dict" where
  "WORKSPACES = [(''alpha'', 0xa34f080283215c7c8a6bdea95391faf5), (''beta'', 0xbeac9cbbb8e152da9fe75c5e591825f5)]"

record token_create_request =
  tc_name :: string
  tc_scopes :: "string list"
  tc_expires_at :: "py_datetime option"
  tc_workspace :: "uuid option"

record mcp_token_create_request =
  mc_name :: string
  mc_workspace :: uuid
  mc_expires_at :: "py_datetime option"

definition get_env :: "app_state \<Rightarrow> string" where
  "get_env app = (case ap_settings app of Some s \<Rightarrow> as_environment s | None \<Rightarrow> ''development'')"

definition local_observe :: "app_state \<Rightarrow> bool" where
  "local_observe app = (case ap_settings app of Some s \<Rightarrow> as_local_observe_enabled s | None \<Rightarrow> False)"

definition require_db :: "app_state \<Rightarrow> ('s, unit) act" where
  "require_db app = (if ap_has_db app then ret () else raise_exn (HTTPException 503 ''Database not available''))"

text \<open>The authorization part of \<^verbatim>\<open>create_token\<close>: bootstrap on an empty table, else an admin.\<close>

definition create_token_guard :: "api_token option \<Rightarrow> string list \<Rightarrow> auth_db \<Rightarrow> unit res" where
  "create_token_guard current scopes db =
     (case current of
        None \<Rightarrow>
          if api_tokens db \<noteq> [] then Inl (HTTPException 401 ''Admin token required'')
          else if scopes \<noteq> [''admin''] then Inl (HTTPException 403 ''Bootstrap requires exact admin scope'')
          else Inr ()
      | Some t \<Rightarrow>
          if check_scopes {Scope_admin} (granted_scopes (tk_scopes t)) then Inr ()
          else Inl (HTTPException 403 ''Admin token required''))"

definition create_token ::
  "password_hasher \<Rightarrow> (int \<Rightarrow> int) \<Rightarrow> app_state \<Rightarrow> token_create_request \<Rightarrow> mint_supply \<Rightarrow> int
   \<Rightarrow> api_token option \<Rightarrow> (auth_db, api_token \<times> string) act" where
  "create_token ph drv app payload ms now current =
     then_act (require_db app)
     (if current = None \<and> local_observe app then raise_exn (HTTPException 401 ''Admin token required'')
      else in_session
        (get_act (create_token_guard current (tc_scopes payload)) (\<lambda>g.
         then_act (of_res g)
         (let (plaintext, prefix) = generate_token (get_env app) ms in
          bind_act (db_insert now
            \<lparr>tk_id = ms_id ms, tk_name = tc_name payload,
             tk_hashed_token = hash_token ph (ms_salt ms) plaintext, tk_prefix = prefix,
             tk_scopes = tc_scopes payload, tk_profile_id = None, tk_rotated_from = None,
             tk_workspace = tc_workspace payload, tk_created_at = None,
             tk_expires_at = map_option (\<lambda>d. case d of Naive t \<Rightarrow> drv t | Aware t \<Rightarrow> t) (tc_expires_at payload),
             tk_last_used_at = None, tk_is_active = True\<rparr>)
          (\<lambda>row. ret (row, plaintext))))))"

definition is_local_broker :: "app_state \<Rightarrow> api_token \<Rightarrow> bool" where
  "is_local_broker app actor \<longleftrightarrow>
     get_env app = ''development'' \<and> local_observe app \<and> tk_id actor = BROKER_ID
     \<and> tk_scopes actor = [BROKER_SCOPE] \<and> tk_workspace actor = None"

definition broker_guard :: "mcp_token_create_request \<Rightarrow> int \<Rightarrow> unit res" where
  "broker_guard payload now =
     (if mc_workspace payload \<notin> snd ` set WORKSPACES
      then Inl (HTTPException 403 ''Local Observe workspace required'')
      else case mc_expires_at payload of
        Some (Aware e) \<Rightarrow>
          if e > now + BROKER_MAX_SECONDS * 1000000
          then Inl (HTTPException 422 ''Local Observe token expiry must be bounded'') else Inr ()
      | _ \<Rightarrow> Inl (HTTPException 422 ''Local Observe token expiry must be bounded''))"

definition create_mcp_read_profile_token ::
  "password_hasher \<Rightarrow> app_state \<Rightarrow> mcp_token_create_request \<Rightarrow> mint_supply \<Rightarrow> int
   \<Rightarrow> api_token \<Rightarrow> (auth_db, api_token \<times> string) act" where
  "create_mcp_read_profile_token ph app payload ms now actor =
     (if \<not> is_local_broker app actor \<and> ''admin'' \<notin> set (tk_scopes actor) then raise_exn SCOPE_ERROR
      else
        then_act (of_res (if is_local_broker app actor then broker_guard payload now else Inr ()))
        (then_act (require_db app)
        (in_session
          (get_act (\<lambda>db. \<not> is_local_broker app actor
                         \<or> dict_get (workspaces db) (mc_workspace payload) = Some (Some PROFILE_ID)) (\<lambda>ok.
           if \<not> ok then raise_exn (HTTPException 403 ''Local Observe workspace required'')
           else try_act
             (create_mcp_read_token ph ms (mc_name payload) (mc_workspace payload) (get_env app)
                (mc_expires_at payload) None now)
             (\<lambda>e. raise_exn (case e of ValueError m \<Rightarrow> HTTPException 422 m | x \<Rightarrow> x)))))))"

definition profile_error :: "py_exn \<Rightarrow> py_exn" where
  "profile_error e = (case e of
      LookupError _ \<Rightarrow> HTTPException 404 ''Token not found''
    | McpReadTokenValidationError m \<Rightarrow> HTTPException 422 m
    | x \<Rightarrow> x)"

definition rotate_mcp_read_profile_token ::
  "password_hasher \<Rightarrow> app_state \<Rightarrow> uuid \<Rightarrow> mint_supply \<Rightarrow> int \<Rightarrow> (auth_db, api_token \<times> string) act" where
  "rotate_mcp_read_profile_token ph app token_id ms now =
     then_act (require_db app)
     (in_session
       (bind_act
         (try_act (rotate_mcp_read_token ph ms token_id (get_env app) now) (\<lambda>e. raise_exn (profile_error e)))
         (\<lambda>ro. ret (ro_token ro, ro_plaintext ro))))"

definition revoke_mcp_read_profile_token :: "app_state \<Rightarrow> uuid \<Rightarrow> (auth_db, unit) act" where
  "revoke_mcp_read_profile_token app token_id =
     then_act (require_db app)
     (in_session
       (bind_act (try_act (revoke_mcp_read_token token_id) (\<lambda>e. raise_exn (profile_error e)))
         (\<lambda>_. ret ())))"

definition list_tokens :: "app_state \<Rightarrow> (auth_db, api_token list) act" where
  "list_tokens app =
     then_act (require_db app) (in_session (get_act (\<lambda>db. filter tk_is_active (api_tokens db)) ret))"

definition delete_token :: "app_state \<Rightarrow> uuid \<Rightarrow> (auth_db, unit) act" where
  "delete_token app token_id =
     then_act (require_db app)
     (in_session
       (get_act (db_get token_id) (\<lambda>found. case found of
          None \<Rightarrow> raise_exn (HTTPException 404 ''Token not found'')
        | Some t \<Rightarrow>
            if tk_profile_id t = Some MCP_READ_PROFILE_ID
            then raise_exn (HTTPException 409 ''Use the admin-authenticated MCP profile revoke endpoint'')
            else delete_api_token token_id)))"

section \<open>Admin sessions\<close>

record set_cookie =
  ck_name :: string
  ck_value :: string
  ck_httponly :: bool
  ck_secure :: bool
  ck_max_age :: int

definition COOKIE_MAX_AGE :: int where "COOKIE_MAX_AGE = 86400 * 7"

definition is_secure :: "app_state \<Rightarrow> http_request \<Rightarrow> bool" where
  "is_secure app rq \<longleftrightarrow>
     (case ap_settings app of
        Some s \<Rightarrow> map lower_char (as_environment s) \<notin> {''development'', ''dev'', ''test''}
      | None \<Rightarrow> False) \<or> rq_scheme rq = ''https''"

definition set_session_cookies :: "string \<Rightarrow> string \<Rightarrow> bool \<Rightarrow> set_cookie list" where
  "set_session_cookies plaintext csrf secure =
     [\<lparr>ck_name = SESSION_COOKIE, ck_value = plaintext, ck_httponly = True, ck_secure = secure,
       ck_max_age = COOKIE_MAX_AGE\<rparr>,
      \<lparr>ck_name = CSRF_COOKIE, ck_value = csrf, ck_httponly = False, ck_secure = secure,
       ck_max_age = COOKIE_MAX_AGE\<rparr>]"

definition clear_session_cookies :: "bool \<Rightarrow> set_cookie list" where
  "clear_session_cookies secure =
     map (\<lambda>n. \<lparr>ck_name = n, ck_value = [], ck_httponly = (n = SESSION_COOKIE), ck_secure = secure,
               ck_max_age = 0\<rparr>) [SESSION_COOKIE, CSRF_COOKIE]"

text \<open>\<open>csrf\<close> is the drawn \<^verbatim>\<open>secrets.token_urlsafe(32)\<close>.\<close>

definition create_session ::
  "password_hasher \<Rightarrow> app_state \<Rightarrow> http_request \<Rightarrow> string \<Rightarrow> string \<Rightarrow> auth_db \<Rightarrow> set_cookie list res" where
  "create_session ph app rq token csrf db =
     (if strip_by is_space token = [] then Inl (HTTPException 422 ''token must not be empty'')
      else if \<not> ap_has_db app then Inl (HTTPException 503 ''Database not available'')
      else bind_res (lookup_token ph (rq_now rq) token db) (\<lambda>found. case found of
        None \<Rightarrow> Inl (HTTPException 401 ''Token invalid or expired'')
      | Some t \<Rightarrow>
          if \<not> check_scopes {Scope_admin} (granted_scopes (tk_scopes t))
          then Inl (HTTPException 403 ''Token lacks admin scope'')
          else Inr (set_session_cookies token csrf (is_secure app rq))))"

definition delete_session :: "app_state \<Rightarrow> http_request \<Rightarrow> set_cookie list" where
  "delete_session app rq = clear_session_cookies (is_secure app rq)"

text \<open>What a browser does with the cookies of a response.\<close>

definition store_cookies :: "set_cookie list \<Rightarrow> (string, string) dict \<Rightarrow> (string, string) dict" where
  "store_cookies cs jar =
     fold (\<lambda>c jar. if ck_max_age c \<le> 0 then dict_pop jar (ck_name c) else dict_set jar (ck_name c) (ck_value c)) cs jar"

section \<open>Runs of the token service\<close>

datatype auth_op =
    CreateToken http_request token_create_request mint_supply int
  | CreateMcpToken http_request mcp_token_create_request mint_supply int
  | RotateMcpToken http_request uuid mint_supply int
  | RevokeMcpToken http_request uuid
  | ListTokens http_request
  | DeleteToken http_request uuid
  | OtherEndpoint http_request "scope list"

text \<open>The environment of a run: the hasher, the driver and the application state.\<close>

record auth_env =
  ae_ph :: password_hasher
  ae_drv :: "int \<Rightarrow> int"
  ae_app :: app_state

definition admin_dep :: "auth_env \<Rightarrow> http_request \<Rightarrow> (auth_db, api_token) act" where
  "admin_dep env rq = require_scope {Scope_admin} (ae_ph env) (ae_app env) rq"

definition auth_handler :: "auth_env \<Rightarrow> auth_op \<Rightarrow> (auth_db, unit) act" where
  "auth_handler env op = (case op of
      CreateToken rq payload ms now \<Rightarrow>
        bind_act (get_optional_current_token (ae_ph env) (ae_app env) rq) (\<lambda>cur.
        bind_act (create_token (ae_ph env) (ae_drv env) (ae_app env) payload ms now cur) (\<lambda>_. ret ()))
    | CreateMcpToken rq payload ms now \<Rightarrow>
        bind_act (get_current_token (ae_ph env) (ae_app env) rq) (\<lambda>actor.
        bind_act (create_mcp_read_profile_token (ae_ph env) (ae_app env) payload ms now actor) (\<lambda>_. ret ()))
    | RotateMcpToken rq i ms now \<Rightarrow>
        then_act (admin_dep env rq)
        (bind_act (rotate_mcp_read_profile_token (ae_ph env) (ae_app env) i ms now) (\<lambda>_. ret ()))
    | RevokeMcpToken rq i \<Rightarrow>
        then_act (admin_dep env rq) (revoke_mcp_read_profile_token (ae_app env) i)
    | ListTokens rq \<Rightarrow> then_act (admin_dep env rq) (bind_act (list_tokens (ae_app env)) (\<lambda>_. ret ()))
    | DeleteToken rq i \<Rightarrow> then_act (admin_dep env rq) (delete_token (ae_app env) i)
    | OtherEndpoint rq scopes \<Rightarrow>
        bind_act (require_scope (set scopes) (ae_ph env) (ae_app env) rq) (\<lambda>_. ret ()))"

definition auth_step :: "auth_env \<Rightarrow> auth_op \<Rightarrow> auth_db \<Rightarrow> auth_db" where
  "auth_step env op db = snd (auth_handler env op db)"

section \<open>Lemmas: scopes\<close>

lemma mem_expand_scopes: "s \<in> expand_scopes g \<longleftrightarrow> Scope_admin \<in> g \<or> s \<in> g"
proof -
  have "s \<in> SCOPE_HIERARCHY g' \<longleftrightarrow> g' = Scope_admin \<or> g' = s" for g'
    by (cases g'; cases s) (simp_all add: SCOPE_HIERARCHY_def)
  then show ?thesis by (auto simp: expand_scopes_def)
qed

lemma mem_granted_scopes: "s \<in> granted_scopes ss \<longleftrightarrow> scope_str s \<in> set ss"
  by (cases s) (simp_all add: granted_scopes_def all_scopes_def)

lemma check_scopes_iff: "check_scopes r g \<longleftrightarrow> Scope_admin \<in> g \<or> r \<subseteq> g"
  by (auto simp: check_scopes_def mem_expand_scopes)

lemma check_admin [simp]: "check_scopes {Scope_admin} (granted_scopes ss) \<longleftrightarrow> ''admin'' \<in> set ss"
  by (simp add: check_scopes_iff mem_granted_scopes scope_str_def)

section \<open>Lemmas: what the table keeps\<close>

text \<open>
  \<open>mcp_conforms\<close> is what every row of the read profile satisfies, \<open>auth_inv\<close> the
  invariant of the table, \<open>token_le t' t\<close> says that \<open>t'\<close> is a later version of the row
  \<open>t\<close>, and \<open>db_le db db'\<close> that \<open>db'\<close> has later versions of all rows of \<open>db\<close>, in order.
\<close>

definition mcp_conforms :: "api_token \<Rightarrow> bool" where
  "mcp_conforms t \<longleftrightarrow> tk_profile_id t = Some MCP_READ_PROFILE_ID \<longrightarrow>
     tk_scopes t = [''search''] \<and> tk_workspace t \<noteq> None \<and>
     (case (tk_created_at t, tk_expires_at t) of
        (Some c, Some e) \<Rightarrow> e \<le> c + MCP_READ_MAX_LIFETIME
      | _ \<Rightarrow> False)"

definition auth_inv :: "auth_db \<Rightarrow> bool" where
  "auth_inv db \<longleftrightarrow> distinct (map tk_id (api_tokens db))
     \<and> distinct (List.map_filter tk_rotated_from (api_tokens db)) \<and> list_all mcp_conforms (api_tokens db)"

definition token_le :: "api_token \<Rightarrow> api_token \<Rightarrow> bool" where
  "token_le t' t \<longleftrightarrow> tk_id t' = tk_id t \<and> tk_hashed_token t' = tk_hashed_token t
     \<and> tk_prefix t' = tk_prefix t \<and> tk_scopes t' = tk_scopes t \<and> tk_profile_id t' = tk_profile_id t
     \<and> tk_rotated_from t' = tk_rotated_from t \<and> tk_workspace t' = tk_workspace t
     \<and> tk_created_at t' = tk_created_at t \<and> (tk_is_active t' \<longrightarrow> tk_is_active t)
     \<and> (case (tk_expires_at t', tk_expires_at t) of
          (Some e', Some e) \<Rightarrow> e' \<le> e | (None, None) \<Rightarrow> True | _ \<Rightarrow> False)"

definition db_le :: "auth_db \<Rightarrow> auth_db \<Rightarrow> bool" where
  "db_le db db' \<longleftrightarrow> workspaces db' = workspaces db \<and> (\<exists>rs ns. api_tokens db' = rs @ ns
     \<and> list_all2 token_le rs (api_tokens db))"

text \<open>All rows of \<open>db'\<close> that \<open>db\<close> has not got satisfy \<open>P\<close>.\<close>

definition only_new :: "(api_token \<Rightarrow> bool) \<Rightarrow> auth_db \<Rightarrow> auth_db \<Rightarrow> bool" where
  "only_new P db db' \<longleftrightarrow> (\<forall>t \<in> set (api_tokens db'). tk_id t \<notin> tk_id ` set (api_tokens db) \<longrightarrow> P t)"

lemma token_le_refl [simp]: "token_le t t"
  by (simp add: token_le_def split: option.splits)

lemma token_le_trans: "token_le t'' t' \<Longrightarrow> token_le t' t \<Longrightarrow> token_le t'' t"
  by (auto simp: token_le_def split: option.splits)

lemma token_le_updates [simp]:
  "token_le (t\<lparr>tk_last_used_at := u\<rparr>) t"
  "token_le (t\<lparr>tk_is_active := False\<rparr>) t"
  "token_le (t\<lparr>tk_expires_at := map_option (rotation_overlap_expiry now) (tk_expires_at t)\<rparr>) t"
  by (auto simp: token_le_def rotation_overlap_expiry_def split: option.splits)

lemma token_le_conforms: "token_le t' t \<Longrightarrow> mcp_conforms t \<Longrightarrow> mcp_conforms t'"
  by (auto simp: token_le_def mcp_conforms_def split: option.splits)

lemma list_all2_token_le_refl [simp]: "list_all2 token_le ts ts"
  by (simp add: list_all2_same)

lemma db_le_refl [simp]: "db_le db db"
  unfolding db_le_def by (metis append_Nil2 list_all2_token_le_refl)

lemma list_all2_map_update:
  assumes "\<And>t. token_le (f t) t" and "list_all2 token_le rs ts"
  shows "list_all2 token_le (map (\<lambda>t. if tk_id t = i then f t else t) rs) ts"
proof -
  have "token_le (if tk_id t = i then f t else t) u" if "token_le t u" for t u
    using that token_le_trans [OF assms(1) that] by simp
  with assms(2) show ?thesis unfolding list_all2_map1 by (rule list_all2_mono)
qed

text \<open>The three relations as invariants of the handler calculus.\<close>

lemma db_update_inv:
  assumes "\<And>t. token_le (f t) t" and "auth_inv db"
  shows "auth_inv (db_update i f db)"
proof -
  let ?g = "\<lambda>t. if tk_id t = i then f t else t"
  have g: "token_le (?g t) t" for t using assms(1) by simp
  have i: "tk_id (?g t) = tk_id t" and r: "tk_rotated_from (?g t) = tk_rotated_from t" for t
    using g [of t] unfolding token_le_def by blast+
  have "map tk_id (map ?g ts) = map tk_id ts" for ts by (simp only: map_map comp_def i)
  moreover have "List.map_filter tk_rotated_from (map ?g ts) = List.map_filter tk_rotated_from ts" for ts
    by (induction ts) (simp_all only: list.map map_filter_simps r)
  moreover have "list_all mcp_conforms ts \<Longrightarrow> list_all mcp_conforms (map ?g ts)" for ts
    using token_le_conforms [OF g] by (induction ts) simp_all
  ultimately show ?thesis using assms(2) by (simp add: auth_inv_def db_update_def del: map_map)
qed

lemma db_update_le:
  assumes "\<And>t. token_le (f t) t" and "db_le db s"
  shows "db_le db (db_update i f s)"
proof -
  obtain rs ns where s: "api_tokens s = rs @ ns" "list_all2 token_le rs (api_tokens db)"
    and w: "workspaces s = workspaces db"
    using assms(2) unfolding db_le_def by blast
  show ?thesis
    unfolding db_le_def using w s(1) list_all2_map_update [OF assms(1) s(2)]
    by (auto simp: db_update_def)
qed

lemma db_update_only_new:
  "(\<And>t. token_le (f t) t) \<Longrightarrow> (\<And>t. P t \<Longrightarrow> P (f t)) \<Longrightarrow> only_new P db s \<Longrightarrow> only_new P db (db_update i f s)"
  by (auto simp: only_new_def db_update_def token_le_def)

definition tracks :: "(api_token \<Rightarrow> bool) \<Rightarrow> auth_db \<Rightarrow> auth_db \<Rightarrow> bool" where
  "tracks P db s \<longleftrightarrow> auth_inv s \<and> db_le db s \<and> only_new P db s"

definition stable :: "(api_token \<Rightarrow> bool) \<Rightarrow> bool" where
  "stable P \<longleftrightarrow> (\<forall>t t'. token_le t' t \<longrightarrow> P t \<longrightarrow> P t')"

lemma tracks_refl: "auth_inv db \<Longrightarrow> tracks P db db"
  by (simp add: tracks_def only_new_def)

lemma tracks_update:
  assumes "\<And>t. token_le (f t) t" and "stable P" and "tracks P db s"
  shows "tracks P db (db_update i f s)"
  using assms db_update_inv [of f s i] db_update_le [of f db s i] db_update_only_new [of f P db s i]
  by (auto simp: tracks_def stable_def)

definition stored :: "int \<Rightarrow> api_token \<Rightarrow> api_token" where
  "stored now t = t\<lparr>tk_created_at := Some (case tk_created_at t of None \<Rightarrow> now | Some c \<Rightarrow> c)\<rparr>"

lemma set_map_filter: "y \<in> set (List.map_filter f xs) \<longleftrightarrow> Some y \<in> f ` set xs"
  by (induction xs) (auto simp: map_filter_simps image_iff split: option.splits)

lemma db_insert_cases:
  assumes "db_insert now t s = (r, s')"
  shows "(\<exists>e. r = Inl e \<and> s' = s)
    \<or> (r = Inr (stored now t) \<and> s' = s\<lparr>api_tokens := api_tokens s @ [stored now t]\<rparr>
       \<and> tk_id t \<notin> tk_id ` set (api_tokens s)
       \<and> (tk_rotated_from t = None \<or> tk_rotated_from t \<notin> tk_rotated_from ` set (api_tokens s)))"
  using assms by (auto simp: db_insert_def Let_def stored_def split: if_splits option.splits)

lemma auth_inv_append:
  assumes "auth_inv s" and "tk_id t \<notin> tk_id ` set (api_tokens s)"
    and "tk_rotated_from t = None \<or> tk_rotated_from t \<notin> tk_rotated_from ` set (api_tokens s)"
    and "mcp_conforms t"
  shows "auth_inv (s\<lparr>api_tokens := api_tokens s @ [t]\<rparr>)"
proof -
  have "List.map_filter tk_rotated_from (api_tokens s @ [t]) = List.map_filter tk_rotated_from (api_tokens s)
      @ (case tk_rotated_from t of None \<Rightarrow> [] | Some p \<Rightarrow> [p])"
    by (simp add: map_filter_def split: option.splits)
  then have "distinct (List.map_filter tk_rotated_from (api_tokens s @ [t]))"
    using assms(1,3) by (auto simp: auth_inv_def set_map_filter split: option.splits)
  then show ?thesis using assms by (simp add: auth_inv_def)
qed

lemma db_le_append: "db_le db s \<Longrightarrow> db_le db (s\<lparr>api_tokens := api_tokens s @ ts\<rparr>)"
  unfolding db_le_def by simp (metis append.assoc)

lemma keeps_insert [keeps_intros]:
  assumes "mcp_conforms (stored now t)" and "P (stored now t)"
  shows "keeps (tracks P db) (db_insert now t)"
  unfolding keeps_def
proof (intro allI impI)
  fix s assume s: "tracks P db s"
  obtain r s' where r: "db_insert now t s = (r, s')" by force
  have i: "tk_id (stored now t) = tk_id t" "tk_rotated_from (stored now t) = tk_rotated_from t"
    by (simp_all add: stored_def)
  from db_insert_cases [OF r] s assms auth_inv_append [of s "stored now t"] i
  show "tracks P db (snd (db_insert now t s))"
    unfolding r by (auto simp: tracks_def only_new_def intro: db_le_append)
qed

lemma keeps_db_update [keeps_intros]:
  "stable P \<Longrightarrow> (\<And>t. token_le (f t) t) \<Longrightarrow> keeps (tracks P db) (upd (db_update i f))"
  by (rule keeps_upd) (rule tracks_update)

lemma keeps_in_session [keeps_intros]: "keeps I m \<Longrightarrow> keeps I (in_session m)"
  by (simp add: keeps_def in_session_def split: prod.splits sum.splits) (metis snd_conv)

lemma keeps_case_prod [keeps_intros]:
  "(\<And>x y. keeps I (f x y)) \<Longrightarrow> keeps I (case p of (x, y) \<Rightarrow> f x y)"
  by (cases p) simp

section \<open>Lemmas: the operations keep the table\<close>

lemma keeps_create_api_token [keeps_intros]:
  assumes "\<And>t. tk_profile_id t = None \<Longrightarrow> tk_scopes t = scopes \<Longrightarrow> P t"
  shows "keeps (tracks P db) (create_api_token ph ms name scopes expires_at workspace now)"
  unfolding create_api_token_def Let_def
  by (intro keeps_intros) (auto simp: mcp_conforms_def stored_def assms)

text \<open>What the rows minted for the read profile look like.\<close>

definition mcp_minted :: "int \<Rightarrow> api_token \<Rightarrow> bool" where
  "mcp_minted expiry t \<longleftrightarrow> tk_profile_id t = Some MCP_READ_PROFILE_ID \<and> tk_scopes t = [''search'']
     \<and> (case tk_expires_at t of None \<Rightarrow> False | Some e \<Rightarrow> e \<le> expiry)"

lemma stable_mcp_minted [simp]: "stable (mcp_minted e)"
  by (auto simp: stable_def mcp_minted_def token_le_def split: option.splits)

lemma stable_True [simp]: "stable (\<lambda>_. True)"
  by (simp add: stable_def)

definition mcp_expiry :: "py_datetime option \<Rightarrow> int \<Rightarrow> int" where
  "mcp_expiry expires_at now =
     (case expires_at of None \<Rightarrow> now + MCP_READ_MAX_LIFETIME | Some d \<Rightarrow> aware_utc d)"

lemma keeps_create_mcp_read_token [keeps_intros]:
  assumes "\<And>t. mcp_minted (mcp_expiry expires_at now) t \<Longrightarrow> P t"
  shows "keeps (tracks P db) (create_mcp_read_token ph ms name w env expires_at rf now)"
  unfolding create_mcp_read_token_def Let_def mcp_expiry_def [symmetric]
  by (intro keeps_intros assms) (auto simp: mcp_conforms_def stored_def mcp_minted_def)

lemma keeps_rotate [keeps_intros]:
  assumes "stable P" and "\<And>t. mcp_minted (now + MCP_READ_MAX_LIFETIME) t \<Longrightarrow> P t"
  shows "keeps (tracks P db) (rotate_mcp_read_token ph ms i env now)"
  unfolding rotate_mcp_read_token_def Let_def
  by (intro keeps_intros assms(1) token_le_updates assms(2)) (simp add: mcp_expiry_def)

lemma keeps_revoke [keeps_intros]: "stable P \<Longrightarrow> keeps (tracks P db) (revoke_mcp_read_token i)"
  unfolding revoke_mcp_read_token_def by (intro keeps_intros token_le_updates)

lemma keeps_delete [keeps_intros]: "stable P \<Longrightarrow> keeps (tracks P db) (delete_api_token i)"
  unfolding delete_api_token_def by (intro keeps_intros token_le_updates)

lemma keeps_resolve [keeps_intros]:
  "stable P \<Longrightarrow> keeps (tracks P db) (resolve_plaintext ph app rq p b)"
  unfolding resolve_plaintext_def update_last_used_def by (intro keeps_intros token_le_updates)

lemma keeps_get_current_token [keeps_intros]:
  "stable P \<Longrightarrow> keeps (tracks P db) (get_current_token ph app rq)"
  unfolding get_current_token_def by (intro keeps_intros)

lemma keeps_get_optional [keeps_intros]:
  "stable P \<Longrightarrow> keeps (tracks P db) (get_optional_current_token ph app rq)"
  unfolding get_optional_current_token_def by (intro keeps_intros)

lemma keeps_require_scope [keeps_intros]:
  "stable P \<Longrightarrow> keeps (tracks P db) (require_scope sc ph app rq)"
  unfolding require_scope_def by (intro keeps_intros)

lemma keeps_create_token:
  assumes "\<And>t. tk_profile_id t = None \<Longrightarrow> tk_scopes t = tc_scopes payload \<Longrightarrow> P t"
  shows "keeps (tracks P db) (create_token ph drv app payload ms now cur)"
  unfolding create_token_def require_db_def Let_def
  by (intro keeps_intros) (auto simp: mcp_conforms_def stored_def assms)

lemma keeps_create_profile:
  assumes "\<And>t. mcp_minted (mcp_expiry (mc_expires_at payload) now) t \<Longrightarrow> P t"
  shows "keeps (tracks P db) (create_mcp_read_profile_token ph app payload ms now actor)"
  unfolding create_mcp_read_profile_token_def require_db_def by (intro keeps_intros assms)

lemma keeps_rotate_profile:
  assumes "stable P" and "\<And>t. mcp_minted (now + MCP_READ_MAX_LIFETIME) t \<Longrightarrow> P t"
  shows "keeps (tracks P db) (rotate_mcp_read_profile_token ph app i ms now)"
  unfolding rotate_mcp_read_profile_token_def require_db_def by (intro keeps_intros assms)

lemma keeps_revoke_profile: "stable P \<Longrightarrow> keeps (tracks P db) (revoke_mcp_read_profile_token app i)"
  unfolding revoke_mcp_read_profile_token_def require_db_def by (intro keeps_intros)

lemma keeps_list_tokens: "keeps (tracks P db) (list_tokens app)"
  unfolding list_tokens_def require_db_def by (intro keeps_intros)

lemma keeps_delete_token: "stable P \<Longrightarrow> keeps (tracks P db) (delete_token app i)"
  unfolding delete_token_def require_db_def by (intro keeps_intros)

lemmas keeps_endpoints =
  keeps_create_token keeps_create_profile keeps_rotate_profile keeps_revoke_profile keeps_list_tokens
  keeps_delete_token

lemma keeps_auth_handler: "keeps (tracks (\<lambda>_. True) db) (auth_handler env op)"
  unfolding auth_handler_def admin_dep_def
  by (cases op) (auto intro!: keeps_intros keeps_endpoints)

lemma auth_step_tracks: "auth_inv db \<Longrightarrow> tracks (\<lambda>_. True) db (auth_step env op db)"
  unfolding auth_step_def using keeps_auth_handler [of db env op] tracks_refl by (auto simp: keeps_def)

interpretation auth_service: invariant_of "auth_step env" auth_inv for env
  using auth_step_tracks by unfold_locales (simp add: tracks_def)

lemma db_le_trans: "db_le a b \<Longrightarrow> db_le b c \<Longrightarrow> db_le a c"
proof -
  assume ab: "db_le a b" and bc: "db_le b c"
  obtain rs ns where b: "api_tokens b = rs @ ns" "list_all2 token_le rs (api_tokens a)"
    using ab unfolding db_le_def by blast
  obtain us vs where c: "api_tokens c = us @ vs" "list_all2 token_le us (rs @ ns)"
    using bc b(1) unfolding db_le_def by auto
  obtain u1 u2 where u: "us = u1 @ u2" "list_all2 token_le u1 rs"
    using c(2) by (auto simp: list_all2_append2)
  have "list_all2 token_le u1 (api_tokens a)"
    using list_all2_trans [OF token_le_trans u(2) b(2)] by simp
  then show "db_le a c" using ab bc c(1) u(1) unfolding db_le_def by auto
qed

lemma run_le: "auth_inv db \<Longrightarrow> db_le db (run (auth_step env) db ops)"
proof (induction ops arbitrary: db)
  case Nil
  then show ?case by simp
next
  case (Cons op ops)
  have "tracks (\<lambda>_. True) db (auth_step env op db)" using auth_step_tracks Cons.prems .
  then show ?case using Cons.IH [of "auth_step env op db"] by (auto simp: tracks_def intro: db_le_trans)
qed

lemma list_all2_mem: "list_all2 R xs ys \<Longrightarrow> x \<in> set xs \<Longrightarrow> \<exists>y \<in> set ys. R x y"
  by (induction rule: list_all2_induct) auto

lemma list_all2_mem2: "list_all2 R xs ys \<Longrightarrow> y \<in> set ys \<Longrightarrow> \<exists>x \<in> set xs. R x y"
  by (induction rule: list_all2_induct) auto

lemma db_le_later:
  assumes "db_le db s" and "t \<in> set (api_tokens db)"
  shows "\<exists>t' \<in> set (api_tokens s). token_le t' t"
  using assms list_all2_mem2 unfolding db_le_def by (metis UnI1 set_append)

lemma same_id: "auth_inv s \<Longrightarrow> t \<in> set (api_tokens s) \<Longrightarrow> t' \<in> set (api_tokens s) \<Longrightarrow> tk_id t = tk_id t' \<Longrightarrow> t = t'"
  by (auto simp: auth_inv_def distinct_map dest: inj_onD)

section \<open>Lemmas: resolving a credential\<close>

definition unexpired :: "int \<Rightarrow> api_token \<Rightarrow> bool" where
  "unexpired now t \<longleftrightarrow> (case tk_expires_at t of None \<Rightarrow> True | Some e \<Rightarrow> now \<le> e)"

text \<open>The request carries a credential of the row, and a cookie credential passes the CSRF check.\<close>

definition holds_credential :: "password_hasher \<Rightarrow> http_request \<Rightarrow> api_token \<Rightarrow> bool" where
  "holds_credential ph rq t \<longleftrightarrow> tk_is_active t \<and> unexpired (rq_now rq) t \<and>
     (case extract_plaintext rq of
        (None, _) \<Rightarrow> False
      | (Some p, is_bearer) \<Rightarrow> ph_verify ph (tk_hashed_token t) p = Verified
          \<and> tk_prefix t = take PREFIX_LEN p \<and> (is_bearer \<or> verify_csrf rq = Inr ()))"

lemma verify_token_Inr: "verify_token ph p h = Inr b \<Longrightarrow> b \<longleftrightarrow> ph_verify ph h p = Verified"
  by (auto simp: verify_token_def split: verify_outcome.splits)

lemma first_verified_Some:
  "first_verified ph now p cs = Inr (Some t) \<Longrightarrow>
     t \<in> set cs \<and> ph_verify ph (tk_hashed_token t) p = Verified \<and> unexpired now t"
  by (induction cs)
    (auto simp: bind_res_eq_Inr unexpired_def dest: verify_token_Inr split: if_splits option.splits)

lemma lookup_token_Some:
  assumes "lookup_token ph now p db = Inr (Some t)"
  shows "t \<in> set (api_tokens db) \<and> tk_is_active t \<and> tk_prefix t = take PREFIX_LEN p
    \<and> ph_verify ph (tk_hashed_token t) p = Verified \<and> unexpired now t"
  using assms first_verified_Some [of ph now p _ t] by (force simp: lookup_token_def split: if_splits)

lemma resolve_plaintext_ok:
  assumes "resolve_plaintext ph app rq p b db = (Inr a, s)"
  shows "\<exists>t. lookup_token ph (rq_now rq) p db = Inr (Some t) \<and> (b \<or> verify_csrf rq = Inr ())
    \<and> a = t\<lparr>tk_last_used_at := Some (rq_now rq)\<rparr>"
  using assms
  by (auto simp: resolve_plaintext_def act_defs in_session_def update_last_used_def
      split: if_splits sum.splits option.splits prod.splits)

lemma get_current_token_ok:
  assumes "get_current_token ph app rq db = (Inr a, s)"
  shows "\<exists>t \<in> set (api_tokens db). holds_credential ph rq t \<and> a = t\<lparr>tk_last_used_at := Some (rq_now rq)\<rparr>"
proof -
  obtain p b where x: "extract_plaintext rq = (Some p, b)" and r: "resolve_plaintext ph app rq p b db = (Inr a, s)"
    using assms by (auto simp: get_current_token_def act_defs split: prod.splits option.splits)
  show ?thesis
    using resolve_plaintext_ok [OF r] lookup_token_Some [of ph "rq_now rq" p db] x
    by (auto simp: holds_credential_def)
qed

lemma get_optional_ok:
  assumes "get_optional_current_token ph app rq db = (Inr (Some a), s)"
  shows "get_current_token ph app rq db = (Inr a, s)"
  using assms
  by (auto simp: get_optional_current_token_def get_current_token_def act_defs
      split: prod.splits option.splits sum.splits)

lemma require_scope_ok:
  assumes "require_scope sc ph app rq db = (Inr a, s)"
  shows "get_current_token ph app rq db = (Inr a, s)" and "check_scopes sc (granted_scopes (tk_scopes a))"
  using assms by (auto simp: require_scope_def act_defs split: prod.splits sum.splits if_splits)

lemma bind_act_cases:
  assumes "bind_act m f s = (r, s')"
  obtains e where "m s = (Inl e, s')" and "r = Inl e"
  | x s1 where "m s = (Inr x, s1)" and "f x s1 = (r, s')"
  using assms by (auto simp: bind_act_def split: prod.splits sum.splits)

section \<open>Who may mint\<close>

fun op_request :: "auth_op \<Rightarrow> http_request" where
  "op_request (CreateToken rq _ _ _) = rq"
| "op_request (CreateMcpToken rq _ _ _) = rq"
| "op_request (RotateMcpToken rq _ _ _) = rq"
| "op_request (RevokeMcpToken rq _) = rq"
| "op_request (ListTokens rq) = rq"
| "op_request (DeleteToken rq _) = rq"
| "op_request (OtherEndpoint rq _) = rq"

fun op_now :: "auth_op \<Rightarrow> int" where
  "op_now (CreateToken _ _ _ now) = now"
| "op_now (CreateMcpToken _ _ _ now) = now"
| "op_now (RotateMcpToken _ _ _ now) = now"
| "op_now op = rq_now (op_request op)"

text \<open>
  \<open>may_mint env op t actor\<close>: the request carries a live credential of \<open>actor\<close>, who is an
  admin, or is the local broker and \<open>t\<close> is a read-profile token of at most 15 minutes.
\<close>

definition may_mint :: "auth_env \<Rightarrow> auth_op \<Rightarrow> api_token \<Rightarrow> api_token \<Rightarrow> bool" where
  "may_mint env op t actor \<longleftrightarrow> holds_credential (ae_ph env) (op_request op) actor \<and>
     (''admin'' \<in> set (tk_scopes actor)
      \<or> (is_local_broker (ae_app env) actor \<and> mcp_minted (op_now op + BROKER_MAX_SECONDS * 1000000) t))"

definition authorised :: "auth_env \<Rightarrow> auth_op \<Rightarrow> auth_db \<Rightarrow> api_token \<Rightarrow> bool" where
  "authorised env op db t \<longleftrightarrow> list_ex (may_mint env op t) (api_tokens db)"

lemma stable_authorised [simp]: "stable (authorised env op db)"
proof -
  have "mcp_minted e t' \<longrightarrow> mcp_minted e t''" if "token_le t'' t'" for e t' t''
    using that stable_mcp_minted [of e] by (auto simp: stable_def)
  then show ?thesis unfolding stable_def authorised_def may_mint_def by (auto simp: list_ex_iff)
qed

lemma authorisedI:
  assumes "get_current_token (ae_ph env) (ae_app env) (op_request op) db = (Inr a, s)"
    and "''admin'' \<in> set (tk_scopes a)
      \<or> (is_local_broker (ae_app env) a \<and> mcp_minted (op_now op + BROKER_MAX_SECONDS * 1000000) t)"
  shows "authorised env op db t"
proof -
  obtain u where u: "u \<in> set (api_tokens db)" "holds_credential (ae_ph env) (op_request op) u"
    "a = u\<lparr>tk_last_used_at := Some (rq_now (op_request op))\<rparr>"
    using get_current_token_ok [OF assms(1)] by blast
  have "may_mint env op t u" using u(2) assms(2) unfolding u(3) may_mint_def is_local_broker_def by simp
  then show ?thesis using u(1) by (auto simp: authorised_def list_ex_iff)
qed

lemma mcp_minted_mono: "mcp_minted e t \<Longrightarrow> e \<le> e' \<Longrightarrow> mcp_minted e' t"
  by (auto simp: mcp_minted_def split: option.splits)

lemma create_token_denied:
  "create_token_guard cur (tc_scopes payload) s = Inl e \<Longrightarrow>
     snd (create_token ph drv app payload ms now cur s) = s"
  by (simp add: create_token_def require_db_def act_defs in_session_def)

lemma create_profile_denied:
  assumes "\<not> is_local_broker app a \<and> ''admin'' \<notin> set (tk_scopes a)
    \<or> is_local_broker app a \<and> broker_guard payload now = Inl e"
  shows "snd (create_mcp_read_profile_token ph app payload ms now a s) = s"
  using assms by (auto simp: create_mcp_read_profile_token_def act_defs)

lemma broker_guard_ok: "broker_guard payload now = Inr () \<Longrightarrow>
    mcp_expiry (mc_expires_at payload) now' \<le> now + BROKER_MAX_SECONDS * 1000000"
  by (auto simp: broker_guard_def mcp_expiry_def aware_utc_def split: if_splits option.splits py_datetime.splits)

lemma bind_dep:
  assumes "keeps I m" and "I s" and "\<And>a s1. m s = (Inr a, s1) \<Longrightarrow> I s1 \<Longrightarrow> I (snd (f a s1))"
  shows "I (snd (bind_act m f s))"
proof -
  obtain r s1 where m: "m s = (r, s1)" by force
  then have "I s1" using assms(1,2) keepsD by metis
  then show ?thesis using m assms(3) [of _ s1] by (cases r) (auto simp: bind_act_def)
qed

lemma snd_bind_ret: "snd (bind_act m (\<lambda>_. ret x) s) = snd (m s)"
  by (auto simp: act_defs split: prod.splits sum.splits)

lemma keeps_apply: "keeps (tracks P db) m \<Longrightarrow> tracks P db s \<Longrightarrow> tracks P db (snd (m s))"
  by (simp add: keeps_def)

text \<open>An endpoint behind the admin dependency.\<close>

lemma admin_dep_tracks:
  assumes inv: "auth_inv db" and rq: "op_request op = rq"
    and k: "(\<And>t. authorised env op db t) \<Longrightarrow> keeps (tracks (authorised env op db) db) m"
  shows "tracks (authorised env op db) db (snd (then_act (admin_dep env rq) m db))"
  unfolding then_act_def
proof (rule bind_dep)
  show "keeps (tracks (authorised env op db) db) (admin_dep env rq)"
    unfolding admin_dep_def by (intro keeps_intros stable_authorised)
  show "tracks (authorised env op db) db db" using inv by (rule tracks_refl)
next
  fix a s1
  assume a: "admin_dep env rq db = (Inr a, s1)" and s1: "tracks (authorised env op db) db s1"
  have "authorised env op db t" for t
    using require_scope_ok [of "{Scope_admin}" "ae_ph env" "ae_app env" rq db a s1] a rq
    by (intro authorisedI) (auto simp: admin_dep_def)
  then show "tracks (authorised env op db) db (snd (m s1))" by (rule keeps_apply [OF k s1])
qed

lemma create_token_tracks:
  assumes inv: "auth_inv db" and ne: "api_tokens db \<noteq> []" and op: "op = CreateToken rq payload ms now"
  shows "tracks (authorised env op db) db (auth_step env op db)"
proof -
  let ?P = "authorised env op db" and ?ph = "ae_ph env" and ?app = "ae_app env"
  let ?create = "create_token ?ph (ae_drv env) ?app payload ms now"
  have "tracks ?P db (snd (bind_act (get_optional_current_token ?ph ?app rq)
      (\<lambda>cur. bind_act (?create cur) (\<lambda>_. ret ())) db))"
  proof (rule bind_dep)
    show "keeps (tracks ?P db) (get_optional_current_token ?ph ?app rq)"
      by (intro keeps_intros stable_authorised)
    show "tracks ?P db db" using inv by (rule tracks_refl)
  next
    fix cur s1
    assume g: "get_optional_current_token ?ph ?app rq db = (Inr cur, s1)" and s1: "tracks ?P db s1"
    have "api_tokens s1 \<noteq> []" using s1 ne by (auto simp: tracks_def db_le_def list_all2_Cons2)
    then have "tracks ?P db (snd (?create cur s1))"
    proof (cases "create_token_guard cur (tc_scopes payload) s1")
      case (Inl e)
      then show ?thesis using s1 by (simp add: create_token_denied)
    next
      case (Inr u)
      then obtain a where "cur = Some a" "''admin'' \<in> set (tk_scopes a)"
        using \<open>api_tokens s1 \<noteq> []\<close> by (auto simp: create_token_guard_def split: option.splits if_splits)
      then have "?P t" for t using g get_optional_ok op by (intro authorisedI) auto
      then show ?thesis by (intro keeps_apply [OF keeps_create_token] s1)
    qed
    then show "tracks ?P db (snd (bind_act (?create cur) (\<lambda>_. ret ()) s1))" by (simp add: snd_bind_ret)
  qed
  then show ?thesis by (simp add: auth_step_def auth_handler_def op)
qed

lemma create_profile_tracks:
  assumes inv: "auth_inv db" and op: "op = CreateMcpToken rq payload ms now"
  shows "tracks (authorised env op db) db (auth_step env op db)"
proof -
  let ?P = "authorised env op db" and ?ph = "ae_ph env" and ?app = "ae_app env"
  let ?create = "create_mcp_read_profile_token ?ph ?app payload ms now"
  have "tracks ?P db (snd (bind_act (get_current_token ?ph ?app rq)
      (\<lambda>a. bind_act (?create a) (\<lambda>_. ret ())) db))"
  proof (rule bind_dep)
    show "keeps (tracks ?P db) (get_current_token ?ph ?app rq)" by (intro keeps_intros stable_authorised)
    show "tracks ?P db db" using inv by (rule tracks_refl)
  next
    fix a s1
    assume g: "get_current_token ?ph ?app rq db = (Inr a, s1)" and s1: "tracks ?P db s1"
    have "snd (?create a s1) = s1 \<or> (\<forall>t. mcp_minted (mcp_expiry (mc_expires_at payload) now) t \<longrightarrow> ?P t)"
    proof (cases "\<not> is_local_broker ?app a \<and> ''admin'' \<notin> set (tk_scopes a) \<or>
        is_local_broker ?app a \<and> broker_guard payload now \<noteq> Inr ()")
      case True
      then show ?thesis by (cases "broker_guard payload now") (auto intro!: create_profile_denied)
    next
      case False
      then show ?thesis
        using g op broker_guard_ok [of payload now now] mcp_minted_mono
        by (auto intro!: authorisedI)
    qed
    then have "tracks ?P db (snd (?create a s1))"
      using s1 keeps_apply [OF keeps_create_profile s1] by auto
    then show "tracks ?P db (snd (bind_act (?create a) (\<lambda>_. ret ()) s1))" by (simp add: snd_bind_ret)
  qed
  then show ?thesis by (simp add: auth_step_def auth_handler_def op)
qed

lemma auth_step_authorised:
  assumes "auth_inv db" and "api_tokens db \<noteq> []"
  shows "tracks (authorised env op db) db (auth_step env op db)"
proof (cases op)
  case (CreateToken rq payload ms now)
  then show ?thesis using create_token_tracks assms by blast
next
  case (CreateMcpToken rq payload ms now)
  then show ?thesis using create_profile_tracks assms by blast
next
  case (OtherEndpoint rq sc)
  show ?thesis
    unfolding auth_step_def auth_handler_def OtherEndpoint auth_op.case
    by (intro keeps_apply tracks_refl assms(1) keeps_intros stable_authorised)
qed (simp_all add: auth_step_def auth_handler_def,
     (rule admin_dep_tracks [OF assms(1)], simp, intro keeps_intros keeps_endpoints stable_authorised, simp?)+)

section \<open>The token service as a whole\<close>

lemma auth_inv_empty: "api_tokens db = [] \<Longrightarrow> auth_inv db"
  by (simp add: auth_inv_def map_filter_simps)

lemma auth_inv_reachable: "api_tokens db = [] \<Longrightarrow> auth_inv (run (auth_step env) db ops)"
  using auth_service.run_inv auth_inv_empty by blast

text \<open>A hasher that satisfies the documented behaviour, and a deployment with two workspaces.\<close>

definition sample_hasher :: password_hasher where
  "sample_hasher = \<lparr>ph_hash = (\<lambda>salt p. salt @ p),
     ph_verify = (\<lambda>h p. if h = [] then InvalidHashError else if h = p then Verified else VerifyMismatchError)\<rparr>"

definition auth_sample :: auth_env where
  "auth_sample = \<lparr>ae_ph = sample_hasher, ae_drv = (\<lambda>t. t),
     ae_app = \<lparr>ap_has_db = True, ap_settings = None\<rparr>\<rparr>"

definition sample_db :: auth_db where
  "sample_db = \<lparr>api_tokens = [], workspaces = [(7, None)]\<rparr>"

definition sample_supply :: "uuid \<Rightarrow> string \<Rightarrow> mint_supply" where
  "sample_supply i r = \<lparr>ms_id = i, ms_uuid4 = 0, ms_random = r, ms_salt = []\<rparr>"

definition sample_secret :: "string \<Rightarrow> string" where
  "sample_secret r = ''sk_dev_'' @ uuid_hex 0 @ ''_'' @ r"

definition bearer_request :: "string \<Rightarrow> string option \<Rightarrow> int \<Rightarrow> http_request" where
  "bearer_request m bearer now =
     \<lparr>rq_method = m, rq_bearer = bearer, rq_cookies = [], rq_headers = [], rq_scheme = ''https'', rq_now = now\<rparr>"

definition sample_admin :: "auth_op list" where
  "sample_admin = [CreateToken (bearer_request ''POST'' None 0)
     \<lparr>tc_name = ''root'', tc_scopes = [''admin''], tc_expires_at = None, tc_workspace = None\<rparr> (sample_supply 1 ''a'') 0]"

definition sample_mcp :: "auth_op" where
  "sample_mcp = CreateMcpToken (bearer_request ''POST'' (Some (sample_secret ''a'')) 5)
     \<lparr>mc_name = ''agent'', mc_workspace = 7, mc_expires_at = None\<rparr> (sample_supply 2 ''b'') 6"

lemmas sample_defs = auth_sample_def sample_db_def sample_admin_def sample_mcp_def sample_hasher_def

lemma length_uuid_hex [simp]: "length (uuid_hex u) = 32"
proof -
  have "length (hex_fixed n v) = n" for n v by (induction n v rule: hex_fixed.induct) auto
  then show ?thesis by (simp add: uuid_hex_def)
qed

lemma sample_generate [simp]:
  "generate_token ''development'' (sample_supply i r) = (sample_secret r, take 8 (sample_secret r))"
  by (simp add: generate_token_def sample_supply_def sample_secret_def lower_char_def Let_def)

lemma sample_secret_simps [simp]:
  "sample_secret r = sample_secret r' \<longleftrightarrow> r = r'" "sample_secret r \<noteq> []" "\<not> length (sample_secret r) < 8"
  "take 8 (sample_secret r) = take 8 (sample_secret r') \<longleftrightarrow> True"
  by (simp_all add: sample_secret_def)

lemma sample_supply_simps [simp]:
  "ms_id (sample_supply i r) = i" "ms_salt (sample_supply i r) = []"
  by (simp_all add: sample_supply_def)

lemma sample_extract [simp]:
  "c \<noteq> [] \<Longrightarrow> extract_plaintext (bearer_request m (Some c) now) = (Some c, True)"
  "extract_plaintext (bearer_request m None now) = (None, False)"
  "rq_now (bearer_request m b now) = now"
  by (simp_all add: extract_plaintext_def bearer_request_def)

lemmas auth_eval = auth_step_def auth_handler_def get_optional_current_token_def get_current_token_def
  resolve_plaintext_def in_session_def lookup_token_def PREFIX_LEN_def verify_token_def update_last_used_def
  db_update_def db_get_def db_insert_def hash_token_def require_db_def local_observe_def get_env_def
  admin_dep_def require_scope_def act_defs Let_def

definition sample_root :: api_token where
  "sample_root = \<lparr>tk_id = 1, tk_name = ''root'', tk_hashed_token = sample_secret ''a'',
     tk_prefix = take 8 (sample_secret ''a''), tk_scopes = [''admin''], tk_profile_id = None,
     tk_rotated_from = None, tk_workspace = None, tk_created_at = Some 0, tk_expires_at = None,
     tk_last_used_at = None, tk_is_active = True\<rparr>"

lemma sample_bootstrap: "run (auth_step auth_sample) sample_db sample_admin = sample_db\<lparr>api_tokens := [sample_root]\<rparr>"
  by (simp add: sample_defs auth_eval create_token_def create_token_guard_def sample_root_def)

definition sample_agent :: api_token where
  "sample_agent = \<lparr>tk_id = 2, tk_name = ''agent'', tk_hashed_token = sample_secret ''b'',
     tk_prefix = take 8 (sample_secret ''b''), tk_scopes = [''search''], tk_profile_id = Some MCP_READ_PROFILE_ID,
     tk_rotated_from = None, tk_workspace = Some 7, tk_created_at = Some 6,
     tk_expires_at = Some (6 + MCP_READ_MAX_LIFETIME), tk_last_used_at = None, tk_is_active = True\<rparr>"

lemma sample_mint: "auth_step auth_sample sample_mcp (sample_db\<lparr>api_tokens := [sample_root]\<rparr>) =
    sample_db\<lparr>api_tokens := [sample_root\<lparr>tk_last_used_at := Some 5\<rparr>, sample_agent]\<rparr>"
  by (simp add: sample_defs auth_eval create_mcp_read_profile_token_def is_local_broker_def
      create_mcp_read_token_def sample_root_def sample_agent_def MCP_READ_MAX_LIFETIME_def dict_has_def)

text \<open>
  Claim C12: Nobody mints without authority. In every state of the service that some sequence
  of requests reaches from an empty table, a request that adds a token to a table that is not
  empty carries a live credential (verified, active, not expired, with a matching CSRF header
  when it is a cookie on a mutating request) of an admin token of that table, or of the local
  broker, who only gets read-profile tokens that end within 15 minutes.
\<close>

theorem new_tokens_need_authority:
  assumes "api_tokens db\<^sub>0 = []" and "db = run (auth_step env) db\<^sub>0 ops" and "api_tokens db \<noteq> []"
    and "t \<in> set (api_tokens (auth_step env op db))" and "tk_id t \<notin> tk_id ` set (api_tokens db)"
  shows "list_ex (may_mint env op t) (api_tokens db)"
proof -
  have "auth_inv db" using assms(1,2) auth_inv_reachable by blast
  then have "tracks (authorised env op db) db (auth_step env op db)" using assms(3) by (rule auth_step_authorised)
  then show ?thesis using assms(4,5) by (auto simp: tracks_def only_new_def authorised_def)
qed

theorem new_tokens_need_authority_witness:
  "list_ex (may_mint auth_sample sample_mcp sample_agent)
     (api_tokens (run (auth_step auth_sample) sample_db sample_admin))"
  by (rule new_tokens_need_authority [of sample_db _ auth_sample sample_admin sample_agent sample_mcp, OF _ refl])
    (simp_all add: sample_bootstrap sample_mint, simp_all add: sample_db_def sample_root_def sample_agent_def)

text \<open>How often a sequence of requests adds a token although the request has no credential.\<close>

fun unauthenticated_mints :: "auth_env \<Rightarrow> auth_db \<Rightarrow> auth_op list \<Rightarrow> nat" where
  "unauthenticated_mints env db [] = 0"
| "unauthenticated_mints env db (op # ops) =
     (if fst (extract_plaintext (op_request op)) = None
         \<and> length (api_tokens (auth_step env op db)) \<noteq> length (api_tokens db) then 1 else 0)
     + unauthenticated_mints env (auth_step env op db) ops"

lemma no_credential:
  assumes "fst (extract_plaintext rq) = None"
  shows "get_current_token ph app rq db = (Inl AUTH_ERROR, db)"
    and "get_optional_current_token ph app rq db = (Inr None, db)"
  using assms by (auto simp: get_current_token_def get_optional_current_token_def act_defs split: prod.splits)

lemma no_credential_step:
  assumes "fst (extract_plaintext (op_request op)) = None" and "api_tokens db \<noteq> []"
  shows "auth_step env op db = db"
proof (cases op)
  case (CreateToken rq payload ms now)
  have "create_token_guard None (tc_scopes payload) db = Inl (HTTPException 401 ''Admin token required'')"
    using assms(2) by (simp add: create_token_guard_def)
  moreover have "auth_step env op db =
      snd (create_token (ae_ph env) (ae_drv env) (ae_app env) payload ms now None db)"
    using assms(1) CreateToken no_credential(2) [of rq]
    by (simp add: auth_step_def auth_handler_def bind_act_def [of "get_optional_current_token _ _ _"] snd_bind_ret)
  ultimately show ?thesis by (simp add: create_token_denied)
qed (use assms(1) no_credential(1) [of _ _ _ db] in
    \<open>simp_all add: auth_step_def auth_handler_def admin_dep_def require_scope_def bind_act_def then_act_def\<close>)

lemma auth_step_grows: "auth_inv db \<Longrightarrow> length (api_tokens db) \<le> length (api_tokens (auth_step env op db))"
  using auth_step_tracks [of db env op] list_all2_lengthD by (fastforce simp: tracks_def db_le_def)

lemma unauthenticated_mints_nonempty:
  "auth_inv db \<Longrightarrow> api_tokens db \<noteq> [] \<Longrightarrow> unauthenticated_mints env db ops = 0"
proof (induction ops arbitrary: db)
  case Nil
  then show ?case by simp
next
  case (Cons op ops)
  have "api_tokens (auth_step env op db) \<noteq> []"
    using auth_step_grows [OF Cons.prems(1), of env op] Cons.prems(2) by auto
  then have "unauthenticated_mints env (auth_step env op db) ops = 0"
    using Cons.IH Cons.prems(1) auth_service.step_inv by blast
  then show ?case
    using no_credential_step [OF _ Cons.prems(2), of op env]
    by (cases "fst (extract_plaintext (op_request op)) = None") simp_all
qed

text \<open>
  Requests without a credential mint at most one token, ever: from an empty table,
  every sequence of requests has at most one of them that adds a token, and none if the
  sequence starts on a table of the service that already has tokens.
\<close>

theorem bootstrap_opens_once:
  assumes "api_tokens db\<^sub>0 = []" and "db = run (auth_step env) db\<^sub>0 ops"
  shows "unauthenticated_mints env db ops' \<le> (if api_tokens db = [] then 1 else 0)"
proof -
  have inv: "auth_inv db" using assms auth_inv_reachable by blast
  have "unauthenticated_mints env db ops' \<le> 1" if "auth_inv db" for db
    using that
  proof (induction ops' arbitrary: db)
    case Nil
    then show ?case by simp
  next
    case (Cons op ops)
    then show ?case
      using auth_service.step_inv [OF Cons.prems, of env op] auth_step_grows [OF Cons.prems, of env op]
        unauthenticated_mints_nonempty [of "auth_step env op db" env ops]
      by (cases "api_tokens (auth_step env op db) = []") auto
  qed
  then show ?thesis using inv unauthenticated_mints_nonempty [OF inv] by auto
qed

theorem bootstrap_opens_once_witness:
  "unauthenticated_mints auth_sample (run (auth_step auth_sample) sample_db []) sample_admin \<le> 1 \<and>
   unauthenticated_mints auth_sample (run (auth_step auth_sample) sample_db sample_admin) sample_admin = 0"
proof -
  have e: "api_tokens sample_db = []" by (simp add: sample_db_def)
  show ?thesis
    using bootstrap_opens_once [OF e refl, of auth_sample "[]" sample_admin]
      bootstrap_opens_once [OF e refl, of auth_sample sample_admin sample_admin]
    by (simp add: sample_bootstrap e)
qed

lemma mem_db_update:
  assumes "t \<in> set (api_tokens s)" and "tk_id t = i"
  shows "f t \<in> set (api_tokens (db_update i f s))"
  using imageI [OF assms(1), of "\<lambda>t. if tk_id t = i then f t else t"] assms(2) by (simp add: db_update_def)

lemma db_get_Some: "db_get i s = Some t \<Longrightarrow> t \<in> set (api_tokens s) \<and> tk_id t = i"
  by (auto simp: db_get_def find_Some_iff)

lemma deactivated:
  assumes "db_get i s = Some t"
  shows "\<exists>t \<in> set (api_tokens (db_update i (\<lambda>t. t\<lparr>tk_is_active := False\<rparr>) s)). tk_id t = i \<and> \<not> tk_is_active t"
proof (rule bexI)
  show "t\<lparr>tk_is_active := False\<rparr> \<in> set (api_tokens (db_update i (\<lambda>t. t\<lparr>tk_is_active := False\<rparr>) s))"
    using mem_db_update [of t s i "\<lambda>t. t\<lparr>tk_is_active := False\<rparr>"] db_get_Some [OF assms] by blast
qed (use db_get_Some [OF assms] in simp)

lemma revoke_ok:
  "revoke_mcp_read_profile_token app i s = (Inr (), s') \<Longrightarrow>
     \<exists>t. db_get i s = Some t \<and> s' = db_update i (\<lambda>t. t\<lparr>tk_is_active := False\<rparr>) s"
  by (auto simp: revoke_mcp_read_profile_token_def revoke_mcp_read_token_def require_db_def in_session_def
      act_defs split: sum.splits option.splits if_splits)

lemma delete_ok:
  "delete_token app i s = (Inr (), s') \<Longrightarrow>
     \<exists>t. db_get i s = Some t \<and> s' = db_update i (\<lambda>t. t\<lparr>tk_is_active := False\<rparr>) s"
  by (auto simp: delete_token_def delete_api_token_def require_db_def in_session_def
      act_defs split: sum.splits option.splits if_splits)

lemma revoke_sets_inactive:
  assumes "auth_handler env op db = (Inr (), db')" and "op = RevokeMcpToken rq i \<or> op = DeleteToken rq i"
  shows "\<exists>t \<in> set (api_tokens db'). tk_id t = i \<and> \<not> tk_is_active t"
  using assms(2)
proof
  assume "op = RevokeMcpToken rq i"
  then have "bind_act (admin_dep env rq) (\<lambda>_. revoke_mcp_read_profile_token (ae_app env) i) db = (Inr (), db')"
    using assms(1) by (simp add: auth_handler_def then_act_def)
  then show ?thesis by (elim bind_act_cases) (auto dest!: revoke_ok deactivated)
next
  assume "op = DeleteToken rq i"
  then have "bind_act (admin_dep env rq) (\<lambda>_. delete_token (ae_app env) i) db = (Inr (), db')"
    using assms(1) by (simp add: auth_handler_def then_act_def)
  then show ?thesis by (elim bind_act_cases) (auto dest!: delete_ok deactivated)
qed

text \<open>
  Claim C13: Revocation is final. After the revoke or the delete endpoint answered success for
  a token, no credential resolves to that token again, whatever requests follow.
\<close>

theorem revocation_is_final:
  assumes "api_tokens db\<^sub>0 = []" and "db = run (auth_step env) db\<^sub>0 ops"
    and "auth_handler env op db = (Inr (), db')" and "op = RevokeMcpToken rq i \<or> op = DeleteToken rq i"
    and "get_current_token ph app rq' (run (auth_step env) db' ops') = (Inr a, s)"
  shows "tk_id a \<noteq> i"
proof
  assume a: "tk_id a = i"
  let ?s = "run (auth_step env) db' ops'"
  have inv: "auth_inv db" using assms(1,2) auth_inv_reachable by blast
  have inv': "auth_inv db'" using auth_service.step_inv [OF inv, of env op] assms(3) by (simp add: auth_step_def)
  obtain t where t: "t \<in> set (api_tokens db')" "tk_id t = i" "\<not> tk_is_active t"
    using revoke_sets_inactive [OF assms(3,4)] by blast
  obtain t' where t': "t' \<in> set (api_tokens ?s)" "token_le t' t" using db_le_later [OF run_le [OF inv'] t(1)] by blast
  obtain u where u: "u \<in> set (api_tokens ?s)" "tk_is_active u" "tk_id u = tk_id a"
    using get_current_token_ok [OF assms(5)] by (auto simp: holds_credential_def)
  have "u = t'" using same_id [of ?s u t'] auth_service.run_inv [OF inv'] u t' t(2) a by (simp add: token_le_def)
  then show False using u(2) t(3) t'(2) by (simp add: token_le_def)
qed

lemma sample_revoke:
  "auth_handler auth_sample (RevokeMcpToken (bearer_request ''DELETE'' (Some (sample_secret ''a'')) 8) 2)
     (sample_db\<lparr>api_tokens := [sample_root\<lparr>tk_last_used_at := Some 5\<rparr>, sample_agent]\<rparr>) =
   (Inr (), sample_db\<lparr>api_tokens := [sample_root\<lparr>tk_last_used_at := Some 8\<rparr>, sample_agent\<lparr>tk_is_active := False\<rparr>]\<rparr>)"
  by (simp add: sample_defs auth_eval revoke_mcp_read_profile_token_def revoke_mcp_read_token_def
      sample_root_def sample_agent_def MCP_READ_PROFILE_ID_def)

lemma sample_run: "run (auth_step auth_sample) sample_db (sample_admin @ [sample_mcp]) =
    sample_db\<lparr>api_tokens := [sample_root\<lparr>tk_last_used_at := Some 5\<rparr>, sample_agent]\<rparr>"
  by (simp add: run_append sample_bootstrap sample_mint)

theorem revocation_is_final_witness:
  "\<exists>a s. get_current_token sample_hasher \<lparr>ap_has_db = True, ap_settings = None\<rparr>
      (bearer_request ''GET'' (Some (sample_secret ''a'')) 9)
      (run (auth_step auth_sample) (sample_db\<lparr>api_tokens := [sample_root\<lparr>tk_last_used_at := Some 8\<rparr>,
         sample_agent\<lparr>tk_is_active := False\<rparr>]\<rparr>) []) = (Inr a, s) \<and> tk_id a \<noteq> 2"
  (is "\<exists>a s. ?g = (Inr a, s) \<and> _")
proof -
  obtain a s where g: "?g = (Inr a, s)"
    by (simp add: sample_defs auth_eval sample_root_def)
  have "api_tokens sample_db = []" by (simp add: sample_db_def)
  then have "tk_id a \<noteq> 2"
    using revocation_is_final [of sample_db _ auth_sample "sample_admin @ [sample_mcp]", OF _ sample_run [symmetric]
      sample_revoke _ g] by blast
  then show ?thesis using g by blast
qed

section \<open>The read profile\<close>

lemma conforms_validates:
  assumes "mcp_conforms t" and "tk_profile_id t = Some MCP_READ_PROFILE_ID" and "tk_is_active t"
    and "\<forall>e. tk_expires_at t = Some e \<longrightarrow> now < e"
  shows "\<exists>w. tk_workspace t = Some w \<and> validate_mcp_read_token now t = Inr w"
  using assms by (auto simp: mcp_conforms_def validate_mcp_read_token_def split: option.splits)

text \<open>
  The read profile is kept. In every reachable state, a token of the profile
  \<^verbatim>\<open>omniscience-mcp-read-v1\<close> that a request resolves to passes the validation of the profile
  (exact scope, workspace, active, finite expiry within 30 days of its creation) at the time of
  the request, except in the one instant in which it expires, where the lookup still
  accepts it and the validation does not.
\<close>

theorem profile_tokens_validate:
  assumes "api_tokens db\<^sub>0 = []"
    and "get_current_token ph app rq (run (auth_step env) db\<^sub>0 ops) = (Inr a, s)"
    and "tk_profile_id a = Some MCP_READ_PROFILE_ID"
  shows "if tk_expires_at a = Some (rq_now rq)
    then validate_mcp_read_token (rq_now rq) a = Inl (McpReadTokenValidationError ''token_expired'')
    else \<exists>w. tk_workspace a = Some w \<and> validate_mcp_read_token (rq_now rq) a = Inr w"
proof -
  obtain t where t: "t \<in> set (api_tokens (run (auth_step env) db\<^sub>0 ops))" "holds_credential ph rq t"
    and a: "a = t\<lparr>tk_last_used_at := Some (rq_now rq)\<rparr>"
    using get_current_token_ok [OF assms(2)] by blast
  have t': "mcp_conforms a" "tk_is_active a" "unexpired (rq_now rq) a"
    using auth_inv_reachable [OF assms(1), of env ops] t
    by (auto simp: a auth_inv_def list_all_iff mcp_conforms_def holds_credential_def unexpired_def)
  show ?thesis
  proof (cases "tk_expires_at a = Some (rq_now rq)")
    case True
    then show ?thesis using t' assms(3) by (auto simp: mcp_conforms_def validate_mcp_read_token_def)
  next
    case False
    then have "\<forall>e. tk_expires_at a = Some e \<longrightarrow> rq_now rq < e" using t'(3) by (auto simp: unexpired_def)
    then show ?thesis using conforms_validates [OF t'(1) assms(3) t'(2)] False by simp
  qed
qed

lemma sample_agent_resolves:
  "get_current_token sample_hasher \<lparr>ap_has_db = True, ap_settings = None\<rparr>
     (bearer_request ''GET'' (Some (sample_secret ''b'')) 9)
     (run (auth_step auth_sample) sample_db (sample_admin @ [sample_mcp])) =
   (Inr (sample_agent\<lparr>tk_last_used_at := Some 9\<rparr>),
    sample_db\<lparr>api_tokens := [sample_root\<lparr>tk_last_used_at := Some 5\<rparr>, sample_agent\<lparr>tk_last_used_at := Some 9\<rparr>]\<rparr>)"
  unfolding sample_run
  by (simp add: sample_defs auth_eval sample_root_def sample_agent_def MCP_READ_MAX_LIFETIME_def)

theorem profile_tokens_validate_witness:
  "validate_mcp_read_token 9 (sample_agent\<lparr>tk_last_used_at := Some 9\<rparr>) = Inr 7"
proof -
  have "api_tokens sample_db = []" by (simp add: sample_db_def)
  then show ?thesis
    using profile_tokens_validate [OF _ sample_agent_resolves]
    by (simp add: sample_agent_def MCP_READ_MAX_LIFETIME_def)
qed

lemma create_mcp_ok:
  assumes "create_mcp_read_token ph ms name w env expires_at rf now s = (Inr (row, p), s')"
  shows "s' = s\<lparr>api_tokens := api_tokens s @ [row]\<rparr> \<and> tk_rotated_from row = rf \<and> tk_workspace row = Some w
    \<and> validate_mcp_read_token now row = Inr w"
  using assms
  by (auto simp: create_mcp_read_token_def act_defs Let_def db_insert_def validate_mcp_read_token_def
      split: if_splits prod.splits sum.splits option.splits)

lemma rotate_ok:
  assumes "rotate_mcp_read_token ph ms i env now db = (Inr ro, db')"
  obtains old w e where "db_get i db = Some old" and "validate_mcp_read_token now old = Inr w"
    and "tk_expires_at old = Some e" and "Some i \<notin> tk_rotated_from ` set (api_tokens db)"
    and "create_mcp_read_token ph ms (tk_name old @ '' (rotated)'') w env None (Some i) now
      (db_update i (\<lambda>t. t\<lparr>tk_expires_at := map_option (rotation_overlap_expiry now) (tk_expires_at t)\<rparr>) db)
      = (Inr (ro_token ro, ro_plaintext ro), db')"
    and "ro_old_expires_at ro = rotation_overlap_expiry now e"
  using assms
  by (auto simp: rotate_mcp_read_token_def act_defs Let_def split: option.splits if_splits prod.splits sum.splits)

lemma rotate_again:
  fixes s :: auth_db
  assumes "Some i \<in> tk_rotated_from ` set (api_tokens s)"
  shows "\<not> is_ok (fst (rotate_mcp_read_token ph ms i env now s))"
proof
  assume "is_ok (fst (rotate_mcp_read_token ph ms i env now s))"
  then obtain ro s' where "rotate_mcp_read_token ph ms i env now s = (Inr ro, s')"
    by (metis is_ok_iff prod.collapse)
  then show False by (rule rotate_ok) (use assms in blast)
qed

text \<open>
  Rotation hands a read token over once. After a successful rotation of a token of a
  reachable state, the old row expires at the earlier of its old expiry and 24 hours from now,
  the answer names that time, the new token validates at once for the same workspace and is in
  the table, and no further rotation of the same token succeeds, whatever requests follow.
\<close>

theorem rotation_hands_over:
  assumes "api_tokens db\<^sub>0 = []" and "db = run (auth_step env) db\<^sub>0 ops"
    and "rotate_mcp_read_token ph ms i e now db = (Inr ro, db')"
  shows "(\<exists>w old old'. old \<in> set (api_tokens db) \<and> validate_mcp_read_token now old = Inr w
      \<and> validate_mcp_read_token now (ro_token ro) = Inr w \<and> ro_token ro \<in> set (api_tokens db')
      \<and> old' \<in> set (api_tokens db') \<and> tk_id old = i \<and> tk_id old' = i
      \<and> tk_expires_at old' = Some (ro_old_expires_at ro)
      \<and> ro_old_expires_at ro = min (the (tk_expires_at old)) (now + MCP_READ_ROTATION_OVERLAP))
    \<and> \<not> is_ok (fst (rotate_mcp_read_token ph' ms' i e' now' (run (auth_step env) db' ops')))"
proof (intro conjI)
  let ?f = "\<lambda>t. t\<lparr>tk_expires_at := map_option (rotation_overlap_expiry now) (tk_expires_at t)\<rparr>"
  obtain old w x where o: "db_get i db = Some old" "validate_mcp_read_token now old = Inr w" "tk_expires_at old = Some x"
      and c: "create_mcp_read_token ph ms (tk_name old @ '' (rotated)'') w e None (Some i) now (db_update i ?f db)
        = (Inr (ro_token ro, ro_plaintext ro), db')"
      and x: "ro_old_expires_at ro = rotation_overlap_expiry now x"
    using assms(3) by (rule rotate_ok)
  note c' = create_mcp_ok [OF c] and o' = db_get_Some [OF o(1)]
  have "?f old \<in> set (api_tokens db')" using mem_db_update [of old db i ?f] o' c' by simp
  then show "\<exists>w old old'. old \<in> set (api_tokens db) \<and> validate_mcp_read_token now old = Inr w
      \<and> validate_mcp_read_token now (ro_token ro) = Inr w \<and> ro_token ro \<in> set (api_tokens db')
      \<and> old' \<in> set (api_tokens db') \<and> tk_id old = i \<and> tk_id old' = i
      \<and> tk_expires_at old' = Some (ro_old_expires_at ro)
      \<and> ro_old_expires_at ro = min (the (tk_expires_at old)) (now + MCP_READ_ROTATION_OVERLAP)"
    using o o' c' x by (intro exI [of _ w] exI [of _ old] exI [of _ "?f old"])
      (simp add: rotation_overlap_expiry_def)
  have inv: "auth_inv db'"
    using keeps_rotate [OF stable_True TrueI, of db ph ms i e now] auth_inv_reachable [OF assms(1), of env ops]
      assms(2,3) tracks_refl [of db "\<lambda>_. True"] by (auto simp: keeps_def tracks_def)
  have r: "ro_token ro \<in> set (api_tokens db')" "tk_rotated_from (ro_token ro) = Some i" using c' by auto
  show "\<not> is_ok (fst (rotate_mcp_read_token ph' ms' i e' now' (run (auth_step env) db' ops')))"
  proof (rule rotate_again)
    show "Some i \<in> tk_rotated_from ` set (api_tokens (run (auth_step env) db' ops'))"
      using db_le_later [OF run_le [OF inv, of env ops'] r(1)] r(2) by (force simp: token_le_def)
  qed
qed

theorem rotation_hands_over_witness:
  "\<exists>ro db'. rotate_mcp_read_token sample_hasher (sample_supply 3 ''c'') 2 ''development'' 10
      (run (auth_step auth_sample) sample_db (sample_admin @ [sample_mcp])) = (Inr ro, db')
    \<and> ro_old_expires_at ro = 10 + MCP_READ_ROTATION_OVERLAP
    \<and> \<not> is_ok (fst (rotate_mcp_read_token sample_hasher (sample_supply 4 ''d'') 2 ''development'' 11
        (run (auth_step auth_sample) db' [])))"
  (is "\<exists>ro db'. ?r = (Inr ro, db') \<and> _")
proof -
  obtain ro db' where r: "?r = (Inr ro, db')"
    unfolding sample_run
    by (simp add: rotate_mcp_read_token_def validate_mcp_read_token_def create_mcp_read_token_def
        auth_eval sample_defs sample_root_def sample_agent_def MCP_READ_MAX_LIFETIME_def dict_has_def)
  have e: "api_tokens sample_db = []" by (simp add: sample_db_def)
  note w = rotation_hands_over [OF e refl r]
  have "t = sample_agent" if "t \<in> set (api_tokens (run (auth_step auth_sample) sample_db (sample_admin @ [sample_mcp])))"
    "tk_id t = 2" for t
    using that unfolding sample_run by (auto simp: sample_root_def)
  then have "ro_old_expires_at ro = min (the (tk_expires_at sample_agent)) (10 + MCP_READ_ROTATION_OVERLAP)"
    using w [THEN conjunct1] by metis
  then have "ro_old_expires_at ro = 10 + MCP_READ_ROTATION_OVERLAP"
    by (simp add: sample_agent_def MCP_READ_MAX_LIFETIME_def MCP_READ_ROTATION_OVERLAP_def)
  then show ?thesis using r w [THEN conjunct2] by blast
qed

section \<open>Credentials work\<close>

lemma first_verified_skip:
  "list_all (\<lambda>c. ph_verify ph (tk_hashed_token c) p \<in> {VerifyMismatchError, VerificationError}) cs \<Longrightarrow>
     first_verified ph now p (cs @ ds) = first_verified ph now p ds"
  by (induction cs) (auto simp: verify_token_def)

lemma length_generated: "8 \<le> length (fst (generate_token env ms))"
  by (simp add: generate_token_def Let_def)

text \<open>
  A minted token works. If the token endpoint answers with a secret, a bearer
  request with that secret resolves to the new row at every later time up to its expiry,
  provided that the hasher accepts a plaintext for its own hash (as Argon2 documents) and that no
  active row of the same eight-character prefix claims the secret or has a malformed hash.
\<close>

theorem minted_token_authenticates:
  assumes "create_token ph drv app payload ms now cur db = (Inr (row, secret), db')"
    and "\<And>salt p. ph_verify ph (ph_hash ph salt p) p = Verified"
    and "list_all (\<lambda>t. ph_verify ph (tk_hashed_token t) secret \<in> {VerifyMismatchError, VerificationError})
      (filter (\<lambda>t. tk_prefix t = take 8 secret \<and> tk_is_active t) (api_tokens db))"
    and "rq_bearer rq = Some secret" and "unexpired (rq_now rq) row"
  shows "fst (get_current_token ph app rq db') = Inr (row\<lparr>tk_last_used_at := Some (rq_now rq)\<rparr>)"
proof -
  have ok: "ap_has_db app" "secret = fst (generate_token (get_env app) ms)" "tk_prefix row = take 8 secret"
    "tk_hashed_token row = ph_hash ph (ms_salt ms) secret" "tk_is_active row"
    "api_tokens db' = api_tokens db @ [row]"
    using assms(1)
    by (auto simp: create_token_def require_db_def act_defs in_session_def db_insert_def Let_def hash_token_def
        generate_token_def split: if_splits sum.splits prod.splits)
  have len: "8 \<le> length secret" using ok(2) length_generated by simp
  have "lookup_token ph (rq_now rq) secret db' = Inr (Some row)"
    using len ok assms(2,3,5)
    by (simp add: lookup_token_def PREFIX_LEN_def first_verified_skip verify_token_def unexpired_def
        split: option.splits)
  moreover have "extract_plaintext rq = (Some secret, True)"
    using assms(4) len by (auto simp: extract_plaintext_def)
  ultimately show ?thesis
    using ok(1)
    by (simp add: get_current_token_def resolve_plaintext_def act_defs in_session_def update_last_used_def)
qed

theorem minted_token_authenticates_witness:
  "fst (get_current_token (sample_hasher\<lparr>ph_hash := (\<lambda>_ p. ''$'' @ p),
      ph_verify := (\<lambda>h p. if h = ''$'' @ p then Verified else VerifyMismatchError)\<rparr>)
     \<lparr>ap_has_db = True, ap_settings = None\<rparr> (bearer_request ''GET'' (Some (sample_secret ''a'')) 9)
     (sample_db\<lparr>api_tokens := [sample_root\<lparr>tk_hashed_token := ''$'' @ sample_secret ''a''\<rparr>]\<rparr>))
   = Inr (sample_root\<lparr>tk_hashed_token := ''$'' @ sample_secret ''a'', tk_last_used_at := Some 9\<rparr>)"
proof -
  let ?ph = "sample_hasher\<lparr>ph_hash := (\<lambda>_ p. ''$'' @ p),
      ph_verify := (\<lambda>h p. if h = ''$'' @ p then Verified else VerifyMismatchError)\<rparr>"
  have m: "create_token ?ph (\<lambda>t. t) \<lparr>ap_has_db = True, ap_settings = None\<rparr>
     \<lparr>tc_name = ''root'', tc_scopes = [''admin''], tc_expires_at = None, tc_workspace = None\<rparr> (sample_supply 1 ''a'') 0
     None sample_db = (Inr (sample_root\<lparr>tk_hashed_token := ''$'' @ sample_secret ''a''\<rparr>, sample_secret ''a''),
       sample_db\<lparr>api_tokens := [sample_root\<lparr>tk_hashed_token := ''$'' @ sample_secret ''a''\<rparr>]\<rparr>)"
    by (simp add: create_token_def create_token_guard_def auth_eval sample_defs sample_root_def)
  show ?thesis
    using minted_token_authenticates [OF m, of "bearer_request ''GET'' (Some (sample_secret ''a'')) 9"]
    by (simp add: sample_db_def bearer_request_def unexpired_def sample_root_def)
qed

text \<open>
  An admin session works and needs its CSRF header. The cookies of a successful
  session request, sent back by the browser, resolve to the same token as the secret itself,
  for reads and, with the CSRF value as header, for writes; a write with any other header value is
  rejected with 403 and leaves the table as it is.
\<close>

theorem session_roundtrip:
  assumes "create_session ph app rq secret csrf db = Inr cookies" and "csrf \<noteq> []"
    and "rq_cookies rq' = store_cookies cookies jar" and "rq_bearer rq' = None"
  shows "if rq_method rq' \<notin> set MUTATING_METHODS \<or> dict_get (rq_headers rq') CSRF_HEADER = Some csrf
    then get_current_token ph app rq' db = get_current_token ph app (rq'\<lparr>rq_bearer := Some secret\<rparr>) db
    else get_current_token ph app rq' db = (Inl CSRF_ERROR, db)"
proof -
  have s: "cookies = set_session_cookies secret csrf (is_secure app rq)" and ne: "secret \<noteq> []"
    using assms(1) by (auto simp: create_session_def bind_res_eq_Inr strip_by_def split: if_splits option.splits)
  have jar: "dict_get (rq_cookies rq') SESSION_COOKIE = Some secret" "dict_get (rq_cookies rq') CSRF_COOKIE = Some csrf"
    unfolding assms(3) s by (simp_all add: store_cookies_def set_session_cookies_def COOKIE_MAX_AGE_def
        SESSION_COOKIE_def CSRF_COOKIE_def)
  have inj: "utf8_encode a = utf8_encode b \<longleftrightarrow> a = b" for a b by (metis sum.inject(2) utf8_roundtrip)
  have "verify_csrf rq' = (if rq_method rq' \<notin> set MUTATING_METHODS
      \<or> dict_get (rq_headers rq') CSRF_HEADER = Some csrf then Inr () else Inl CSRF_ERROR)"
    using assms(2) by (auto simp: verify_csrf_def Let_def jar inj dict_getd_def split: option.splits)
  moreover have "extract_plaintext rq' = (Some secret, False)"
    "extract_plaintext (rq'\<lparr>rq_bearer := Some secret\<rparr>) = (Some secret, True)"
    using jar(1) ne assms(4) by (simp_all add: extract_plaintext_def)
  ultimately show ?thesis
    by (simp add: get_current_token_def resolve_plaintext_def act_defs)
qed

definition browser_request :: "string \<Rightarrow> (string, string) dict \<Rightarrow> (string, string) dict \<Rightarrow> http_request" where
  "browser_request m cookies headers =
     \<lparr>rq_method = m, rq_bearer = None, rq_cookies = cookies, rq_headers = headers, rq_scheme = ''https'', rq_now = 9\<rparr>"

theorem session_roundtrip_witness:
  "\<exists>cookies. create_session sample_hasher (ae_app auth_sample) (bearer_request ''POST'' None 7) (sample_secret ''a'') ''x''
      (sample_db\<lparr>api_tokens := [sample_root]\<rparr>) = Inr cookies
    \<and> get_current_token sample_hasher (ae_app auth_sample) (browser_request ''DELETE'' (store_cookies cookies []) [])
        (sample_db\<lparr>api_tokens := [sample_root]\<rparr>) = (Inl CSRF_ERROR, sample_db\<lparr>api_tokens := [sample_root]\<rparr>)"
  (is "\<exists>cookies. ?c = Inr cookies \<and> _")
proof -
  have "strip_by is_space (sample_secret ''a'') \<noteq> []"
    by (simp add: strip_by_def sample_secret_def is_space_def)
  then obtain cookies where c: "?c = Inr cookies"
    by (simp add: create_session_def auth_eval sample_defs sample_root_def)
  show ?thesis
    using c session_roundtrip [OF c, of "browser_request ''DELETE'' (store_cookies cookies []) []" "[]"]
    by (simp add: browser_request_def MUTATING_METHODS_def)
qed

text \<open>
  One malformed hash locks out a whole prefix. If an active row of the table has a hash
  that the hasher cannot parse, every lookup of a secret with the same eight-character prefix
  raises instead of reaching the rows behind it; with the prefixes \<^verbatim>\<open>sk_dev_\<close> plus one
  hexadecimal digit this concerns every sixteenth token of an environment.
\<close>

theorem malformed_hash_locks_prefix:
  assumes "api_tokens db = ts @ bad # us" and "tk_is_active bad" and "tk_prefix bad = take 8 secret"
    and "8 \<le> length secret" and "ph_verify ph (tk_hashed_token bad) secret = InvalidHashError"
    and "list_all (\<lambda>t. ph_verify ph (tk_hashed_token t) secret \<noteq> Verified) ts"
  shows "\<not> is_ok (lookup_token ph now secret db)"
proof -
  have "\<not> is_ok (first_verified ph now secret (filter P ts @ bad # vs))" for P vs
    using assms(5,6) by (induction ts) (auto simp: verify_token_def split: verify_outcome.splits)
  then show ?thesis using assms(1-4) by (simp add: lookup_token_def PREFIX_LEN_def)
qed

theorem malformed_hash_locks_prefix_witness:
  "\<not> is_ok (lookup_token sample_hasher 9 (sample_secret ''b'')
      (sample_db\<lparr>api_tokens := [sample_root\<lparr>tk_hashed_token := []\<rparr>, sample_agent]\<rparr>))"
  by (rule malformed_hash_locks_prefix [of _ "[]" "sample_root\<lparr>tk_hashed_token := []\<rparr>" "[sample_agent]"])
    (simp_all add: sample_root_def sample_hasher_def, simp add: sample_secret_def)

end
