(* ===== verification/QdrantFilters.thy ===== *)
theory QdrantFilters
  imports PyJson
begin

text \<open>
  The filter builder of the vector store adapter
  (\<^verbatim>\<open>packages/index/.../stores/qdrant_filters.py\<close>) and the interface of the Qdrant service that
  the adapter calls. The service is not part of the repository: its operations are the fields
  of \<open>engine\<close>, over an abstract collection, and \<open>engine_ok\<close> states what its documentation promises
  of them. A payload holds the values the adapter writes; an ISO timestamp is the instant it
  denotes, in microseconds.
\<close>

section \<open>Payloads, points and filters\<close>

datatype pval = VNull | VBool bool | VInt int | VStr string | VTime int | VMap "(string, json) dict"

type_synonym qpayload = "(string, pval) dict"

record sparse_vector =
  sv_indices :: "nat list"
  sv_values :: "rat list"

record qpoint =
  qp_id :: uuid
  qp_dense :: "rat list"
  qp_sparse :: "sparse_vector option"
  qp_payload :: qpayload

record scored_point =
  sp_id :: uuid
  sp_score :: real
  sp_payload :: "qpayload option"

datatype qcond =
    MatchValue string pval
  | MatchAny string "string list"
  | IsNull string
  | TimeLte string int
  | TimeLt string int
  | TimeGt string int
  | HasId "uuid list"
  | Should "qcond list"

record qfilter =
  qf_must :: "qcond list"
  qf_must_not :: "qcond list"

text \<open>
  A field of a payload; a key with a dot names a member of a nested object. A condition on a
  field that is absent fails, \<open>IsNull\<close> included.
\<close>

definition payload_field :: "qpayload \<Rightarrow> string \<Rightarrow> pval option" where
  "payload_field p key =
     (case dict_get p key of
        Some v \<Rightarrow> Some v
      | None \<Rightarrow>
          (case dropWhile (\<lambda>c. c \<noteq> CHR ''.'') key of
             [] \<Rightarrow> None
           | _ # rest \<Rightarrow>
               (case dict_get p (takeWhile (\<lambda>c. c \<noteq> CHR ''.'') key) of
                  Some (VMap m) \<Rightarrow>
                    (case dict_get m rest of
                       Some (JStr s) \<Rightarrow> Some (VStr s)
                     | Some (JInt i) \<Rightarrow> Some (VInt i)
                     | Some (JBool b) \<Rightarrow> Some (VBool b)
                     | Some JNull \<Rightarrow> Some VNull
                     | Some (JObj o') \<Rightarrow> Some (VMap o')
                     | _ \<Rightarrow> None)
                | _ \<Rightarrow> None)))"

fun cond_holds :: "qcond \<Rightarrow> uuid \<Rightarrow> qpayload \<Rightarrow> bool" where
  "cond_holds (MatchValue k v) i p \<longleftrightarrow> payload_field p k = Some v"
| "cond_holds (MatchAny k vs) i p \<longleftrightarrow> (\<exists>s \<in> set vs. payload_field p k = Some (VStr s))"
| "cond_holds (IsNull k) i p \<longleftrightarrow> payload_field p k = Some VNull"
| "cond_holds (TimeLte k t) i p \<longleftrightarrow> (case payload_field p k of Some (VTime u) \<Rightarrow> u \<le> t | _ \<Rightarrow> False)"
| "cond_holds (TimeLt k t) i p \<longleftrightarrow> (case payload_field p k of Some (VTime u) \<Rightarrow> u < t | _ \<Rightarrow> False)"
| "cond_holds (TimeGt k t) i p \<longleftrightarrow> (case payload_field p k of Some (VTime u) \<Rightarrow> u > t | _ \<Rightarrow> False)"
| "cond_holds (HasId ids) i p \<longleftrightarrow> i \<in> set ids"
| "cond_holds (Should cs) i p \<longleftrightarrow> list_ex (\<lambda>c. cond_holds c i p) cs"

definition filter_holds :: "qfilter \<Rightarrow> qpoint \<Rightarrow> bool" where
  "filter_holds f x \<longleftrightarrow>
     list_all (\<lambda>c. cond_holds c (qp_id x) (qp_payload x)) (qf_must f)
     \<and> \<not> list_ex (\<lambda>c. cond_holds c (qp_id x) (qp_payload x)) (qf_must_not f)"

section \<open>The service\<close>

datatype selector = ByFilter qfilter | ByIds "uuid list"

datatype qquery = QDense "rat list" | QSparse sparse_vector

record 'q engine =
  en_retrieve :: "uuid \<Rightarrow> 'q \<Rightarrow> qpoint option res"
  en_scroll :: "qfilter \<Rightarrow> nat \<Rightarrow> uuid option \<Rightarrow> 'q \<Rightarrow> (qpoint list \<times> uuid option) res"
  en_count :: "qfilter \<Rightarrow> 'q \<Rightarrow> nat res"
  en_upsert :: "qpoint list \<Rightarrow> 'q \<Rightarrow> 'q res"
  en_set_payload :: "selector \<Rightarrow> qpayload \<Rightarrow> 'q \<Rightarrow> 'q res"
  en_delete :: "selector \<Rightarrow> 'q \<Rightarrow> 'q res"
  en_query :: "qquery \<Rightarrow> qfilter \<Rightarrow> int \<Rightarrow> 'q \<Rightarrow> scored_point list res"

definition selects :: "selector \<Rightarrow> qpoint \<Rightarrow> bool" where
  "selects sel x \<longleftrightarrow> (case sel of ByFilter f \<Rightarrow> filter_holds f x | ByIds ids \<Rightarrow> qp_id x \<in> set ids)"

text \<open>A point replaces the point of its id; a collection is listed by id.\<close>

fun put_point :: "qpoint \<Rightarrow> qpoint list \<Rightarrow> qpoint list" where
  "put_point x [] = [x]"
| "put_point x (y # ys) =
     (if qp_id x = qp_id y then x # ys
      else if qp_id x < qp_id y then x # y # ys
      else y # put_point x ys)"

definition merge_payload :: "qpayload \<Rightarrow> qpoint \<Rightarrow> qpoint" where
  "merge_payload kvs x = x\<lparr>qp_payload := foldl (\<lambda>p (k, v). dict_set p k v) (qp_payload x) kvs\<rparr>"

definition page_of :: "nat \<Rightarrow> uuid option \<Rightarrow> qpoint list \<Rightarrow> qpoint list \<times> uuid option" where
  "page_of n offset xs =
     (let ys = (case offset of None \<Rightarrow> xs | Some i \<Rightarrow> dropWhile (\<lambda>x. qp_id x < i) xs)
      in (take n ys, if length ys \<le> n then None else Some (qp_id (ys ! n))))"

text \<open>
  The promises, for a view \<open>pts\<close> of a collection as its points in the order of their ids: a call
  that answers answers these, and a call may also fail.
\<close>

definition engine_ok :: "'q engine \<Rightarrow> ('q \<Rightarrow> qpoint list) \<Rightarrow> bool" where
  "engine_ok en pts \<longleftrightarrow>
     (\<forall>c. sorted_wrt (\<lambda>x y. qp_id x < qp_id y) (pts c))
   \<and> (\<forall>i c r. en_retrieve en i c = Inr r \<longrightarrow> r = find (\<lambda>x. qp_id x = i) (pts c))
   \<and> (\<forall>f n off c r. en_scroll en f n off c = Inr r \<longrightarrow> r = page_of n off (filter (filter_holds f) (pts c)))
   \<and> (\<forall>f c r. en_count en f c = Inr r \<longrightarrow> r = length (filter (filter_holds f) (pts c)))
   \<and> (\<forall>xs c c'. en_upsert en xs c = Inr c' \<longrightarrow> pts c' = fold put_point xs (pts c))
   \<and> (\<forall>sel kvs c c'. en_set_payload en sel kvs c = Inr c' \<longrightarrow>
        pts c' = map (\<lambda>x. if selects sel x then merge_payload kvs x else x) (pts c))
   \<and> (\<forall>sel c c'. en_delete en sel c = Inr c' \<longrightarrow> pts c' = filter (\<lambda>x. \<not> selects sel x) (pts c))
   \<and> (\<forall>q f n c r. en_query en q f n c = Inr r \<longrightarrow>
        int (length r) \<le> max 0 n \<and> distinct (map sp_id r)
        \<and> list_all (\<lambda>s. \<exists>x \<in> set (pts c). filter_holds f x \<and> qp_id x = sp_id s \<and> sp_payload s = Some (qp_payload x)) r)"

text \<open>The service when every call answers.\<close>

definition engine_up :: "'q engine \<Rightarrow> bool" where
  "engine_up en \<longleftrightarrow>
     (\<forall>i c. is_ok (en_retrieve en i c)) \<and> (\<forall>f n off c. is_ok (en_scroll en f n off c))
   \<and> (\<forall>f c. is_ok (en_count en f c)) \<and> (\<forall>xs c. is_ok (en_upsert en xs c))
   \<and> (\<forall>sel kvs c. is_ok (en_set_payload en sel kvs c)) \<and> (\<forall>sel c. is_ok (en_delete en sel c))
   \<and> (\<forall>q f n c. is_ok (en_query en q f n c))"

section \<open>The builder\<close>

record filter_builder =
  fb_workspace_id :: uuid
  fb_source_ids :: "uuid list"
  fb_document_ids :: "uuid list"
  fb_external_id :: "string option"
  fb_exclude_tombstoned :: bool
  fb_current_only :: bool
  fb_as_of :: "int option"
  fb_metadata_filters :: "(string \<times> string) list"
  fb_checkpoint :: bool
  fb_chunker_strategy :: "string option"

definition new_builder :: "uuid \<Rightarrow> filter_builder" where
  "new_builder ws = \<lparr>fb_workspace_id = ws, fb_source_ids = [], fb_document_ids = [], fb_external_id = None,
     fb_exclude_tombstoned = False, fb_current_only = False, fb_as_of = None, fb_metadata_filters = [],
     fb_checkpoint = False, fb_chunker_strategy = None\<rparr>"

definition with_source_ids :: "uuid list \<Rightarrow> filter_builder \<Rightarrow> filter_builder" where
  "with_source_ids ids b = b\<lparr>fb_source_ids := ids\<rparr>"

definition with_document_ids :: "uuid list \<Rightarrow> filter_builder \<Rightarrow> filter_builder" where
  "with_document_ids ids b = b\<lparr>fb_document_ids := ids\<rparr>"

definition with_external_id :: "string \<Rightarrow> filter_builder \<Rightarrow> filter_builder" where
  "with_external_id e b = b\<lparr>fb_external_id := Some e\<rparr>"

definition exclude_tombstoned :: "filter_builder \<Rightarrow> filter_builder" where
  "exclude_tombstoned b = b\<lparr>fb_exclude_tombstoned := True\<rparr>"

definition with_current_only :: "filter_builder \<Rightarrow> filter_builder" where
  "with_current_only b = b\<lparr>fb_current_only := True\<rparr>"

definition with_as_of :: "int option \<Rightarrow> filter_builder \<Rightarrow> filter_builder" where
  "with_as_of t b = b\<lparr>fb_as_of := t\<rparr>"

definition with_metadata_filter :: "string \<Rightarrow> string \<Rightarrow> filter_builder \<Rightarrow> filter_builder" where
  "with_metadata_filter k v b = b\<lparr>fb_metadata_filters := fb_metadata_filters b @ [(k, v)]\<rparr>"

definition with_checkpoint :: "filter_builder \<Rightarrow> filter_builder" where
  "with_checkpoint b = b\<lparr>fb_checkpoint := True\<rparr>"

definition with_chunker_strategy :: "string \<Rightarrow> filter_builder \<Rightarrow> filter_builder" where
  "with_chunker_strategy s b = b\<lparr>fb_chunker_strategy := Some s\<rparr>"

definition as_of_must_clauses :: "int \<Rightarrow> qcond list" where
  "as_of_must_clauses t = [TimeLte ''valid_from'' t, Should [TimeGt ''valid_to'' t, IsNull ''valid_to'']]"

definition build :: "filter_builder \<Rightarrow> qfilter" where
  "build b =
     \<lparr>qf_must =
        [MatchValue ''workspace_id'' (VStr (uuid_str (fb_workspace_id b)))]
        @ (if fb_source_ids b \<noteq> [] then [MatchAny ''source_id'' (map uuid_str (fb_source_ids b))] else [])
        @ (if fb_document_ids b \<noteq> [] then [MatchAny ''document_id'' (map uuid_str (fb_document_ids b))] else [])
        @ (case fb_external_id b of None \<Rightarrow> [] | Some e \<Rightarrow> [MatchValue ''external_id'' (VStr e)])
        @ (if fb_exclude_tombstoned b then [IsNull ''tombstoned_at''] else [])
        @ (if fb_current_only b then [IsNull ''valid_to''] else [])
        @ (case fb_as_of b of None \<Rightarrow> [] | Some t \<Rightarrow> as_of_must_clauses t)
        @ map (\<lambda>(k, v). MatchValue k (VStr v)) (fb_metadata_filters b)
        @ (if fb_checkpoint b then [MatchValue ''is_checkpoint'' (VBool True)] else [])
        @ (case fb_chunker_strategy b of None \<Rightarrow> [] | Some s \<Rightarrow> [MatchValue ''chunker_strategy'' (VStr s)]),
      qf_must_not = []\<rparr>"

section \<open>One-shot filters\<close>

definition workspace_clause :: "uuid \<Rightarrow> qcond" where
  "workspace_clause ws = MatchValue ''workspace_id'' (VStr (uuid_str ws))"

definition build_as_of_filter :: "uuid \<Rightarrow> int \<Rightarrow> uuid list \<Rightarrow> qfilter" where
  "build_as_of_filter ws t source_ids =
     (let b = with_as_of (Some t) (new_builder ws)
      in build (if source_ids \<noteq> [] then with_source_ids source_ids b else b))"

definition build_enumerate_filter :: "uuid \<Rightarrow> string \<Rightarrow> string \<Rightarrow> uuid option \<Rightarrow> qfilter" where
  "build_enumerate_filter ws key val source_id =
     (let b = with_metadata_filter key val (with_current_only (exclude_tombstoned (new_builder ws)))
      in build (case source_id of None \<Rightarrow> b | Some s \<Rightarrow> with_source_ids [s] b))"

definition build_retention_eligible_filter :: "uuid \<Rightarrow> int \<Rightarrow> qfilter" where
  "build_retention_eligible_filter ws cutoff =
     \<lparr>qf_must = [workspace_clause ws, TimeLt ''recorded_at'' cutoff], qf_must_not = []\<rparr>"

definition build_warm_tier_filter :: "uuid \<Rightarrow> qfilter" where
  "build_warm_tier_filter ws =
     \<lparr>qf_must = [workspace_clause ws, MatchValue ''tier'' (VStr ''warm'')], qf_must_not = []\<rparr>"

definition build_warm_archive_filter :: "uuid \<Rightarrow> string \<Rightarrow> qfilter" where
  "build_warm_archive_filter ws snapshot_date =
     \<lparr>qf_must = [workspace_clause ws, MatchValue ''tier'' (VStr ''warm''),
        MatchValue ''snapshot_date'' (VStr snapshot_date)], qf_must_not = []\<rparr>"

definition build_end_date_chunks_filter :: "uuid \<Rightarrow> uuid \<Rightarrow> string list \<Rightarrow> qfilter" where
  "build_end_date_chunks_filter ws source_id exclude =
     \<lparr>qf_must = [workspace_clause ws, MatchValue ''source_id'' (VStr (uuid_str source_id)), IsNull ''valid_to''],
      qf_must_not = (if exclude \<noteq> [] then [MatchAny ''external_id'' exclude] else [])\<rparr>"

definition build_tombstone_sweep_filter :: "int \<Rightarrow> qfilter" where
  "build_tombstone_sweep_filter cutoff = \<lparr>qf_must = [TimeLt ''tombstoned_at'' cutoff], qf_must_not = []\<rparr>"

definition build_point_ids_filter :: "uuid \<Rightarrow> uuid list \<Rightarrow> qfilter" where
  "build_point_ids_filter ws ids = \<lparr>qf_must = [workspace_clause ws, HasId ids], qf_must_not = []\<rparr>"

section \<open>Lemmas\<close>

lemma payload_field_top [simp]: "dict_get p k = Some v \<Longrightarrow> payload_field p k = Some v"
  by (simp add: payload_field_def)

text \<open>A key without a dot is looked up at the top level only.\<close>

lemma payload_field_plain:
  assumes "CHR ''.'' \<notin> set k"
  shows "payload_field p k = dict_get p k"
proof -
  have d: "dropWhile (\<lambda>c. c \<noteq> CHR ''.'') k = []" using assms by (auto simp: dropWhile_eq_Nil_conv)
  show ?thesis unfolding payload_field_def d by (simp split: option.split)
qed

lemma plain_keys [simp]:
  "payload_field p ''workspace_id'' = dict_get p ''workspace_id''"
  "payload_field p ''source_id'' = dict_get p ''source_id''"
  "payload_field p ''document_id'' = dict_get p ''document_id''"
  "payload_field p ''external_id'' = dict_get p ''external_id''"
  "payload_field p ''tombstoned_at'' = dict_get p ''tombstoned_at''"
  "payload_field p ''valid_from'' = dict_get p ''valid_from''"
  "payload_field p ''valid_to'' = dict_get p ''valid_to''"
  "payload_field p ''recorded_at'' = dict_get p ''recorded_at''"
  "payload_field p ''tier'' = dict_get p ''tier''"
  "payload_field p ''snapshot_date'' = dict_get p ''snapshot_date''"
  "payload_field p ''is_checkpoint'' = dict_get p ''is_checkpoint''"
  "payload_field p ''chunker_strategy'' = dict_get p ''chunker_strategy''"
  by (simp_all add: payload_field_plain)

definition in_workspace :: "uuid \<Rightarrow> qpoint \<Rightarrow> bool" where
  "in_workspace ws x \<longleftrightarrow> dict_get (qp_payload x) ''workspace_id'' = Some (VStr (uuid_str ws))"

lemma build_in_workspace: "filter_holds (build b) x \<Longrightarrow> in_workspace (fb_workspace_id b) x"
  by (simp add: filter_holds_def build_def in_workspace_def)

lemma builder_workspace [simp]:
  "fb_workspace_id (new_builder ws) = ws"
  "fb_workspace_id (with_source_ids ids b) = fb_workspace_id b"
  "fb_workspace_id (with_document_ids ids b) = fb_workspace_id b"
  "fb_workspace_id (with_external_id e b) = fb_workspace_id b"
  "fb_workspace_id (exclude_tombstoned b) = fb_workspace_id b"
  "fb_workspace_id (with_current_only b) = fb_workspace_id b"
  "fb_workspace_id (with_as_of t b) = fb_workspace_id b"
  "fb_workspace_id (with_metadata_filter k v b) = fb_workspace_id b"
  "fb_workspace_id (with_checkpoint b) = fb_workspace_id b"
  "fb_workspace_id (with_chunker_strategy s b) = fb_workspace_id b"
  by (simp_all add: new_builder_def with_source_ids_def with_document_ids_def with_external_id_def
      exclude_tombstoned_def with_current_only_def with_as_of_def with_metadata_filter_def
      with_checkpoint_def with_chunker_strategy_def)

lemmas builder_defs = new_builder_def with_source_ids_def with_document_ids_def with_external_id_def
  exclude_tombstoned_def with_current_only_def with_as_of_def with_metadata_filter_def
  with_checkpoint_def with_chunker_strategy_def

end
