(* ===== verification/Convergence.thy ===== *)
theory Convergence
  imports PyText
begin

text \<open>
  The read-side reconciler (\<^verbatim>\<open>packages/retrieval/.../reconciler.py\<close>): per-source watermarks
  over the three stores, and the loop that waits until the derived stores have caught up with
  Postgres. Source identifiers are the strings the code uses as dictionary keys. The three
  reads are results: a store that raises counts as a store that knows no source.
\<close>

section \<open>Snapshots\<close>

record doc_row =
  dr_source_id :: uuid
  dr_doc_version :: "int option"

text \<open>
  \<^verbatim>\<open>SELECT source_id, max(doc_version) ... WHERE tenant_id = :w GROUP BY source_id\<close>:
  \<^verbatim>\<open>NULL\<close> versions do not take part in the maximum, and a group of only \<^verbatim>\<open>NULL\<close>s counts as 0.
\<close>

fun max_opt :: "int option list \<Rightarrow> int option" where
  "max_opt [] = None"
| "max_opt (None # vs) = max_opt vs"
| "max_opt (Some v # vs) = (case max_opt vs of None \<Rightarrow> Some v | Some m \<Rightarrow> Some (max v m))"

record pg_tables =
  pt_documents :: "doc_row list"
  pt_source_tenants :: "(uuid, uuid option) dict"

definition snapshot_pg_watermark :: "uuid \<Rightarrow> pg_tables res \<Rightarrow> (string, int) dict" where
  "snapshot_pg_watermark ws r =
     (case r of
        Inl _ \<Rightarrow> []
      | Inr t \<Rightarrow>
          (let rows = filter (\<lambda>d. dict_get (pt_source_tenants t) (dr_source_id d) = Some (Some ws)) (pt_documents t)
           in map (\<lambda>s. (uuid_str s,
                case max_opt (map dr_doc_version (filter (\<lambda>d. dr_source_id d = s) rows)) of
                  None \<Rightarrow> 0 | Some v \<Rightarrow> v))
              (remdups (map dr_source_id rows))))"

text \<open>The payload of a checkpoint point; \<^verbatim>\<open>None\<close> when Qdrant returned no payload.\<close>

record qdrant_checkpoint =
  qc_source_id :: string
  qc_version :: "int option"

definition SCROLL_LIMIT :: nat where "SCROLL_LIMIT = 10000"

definition dict_of :: "('k \<times> 'v) list \<Rightarrow> ('k, 'v) dict" where
  "dict_of kvs = fold (\<lambda>(k, v) d. dict_set d k v) kvs []"

definition get_qdrant_checkpoints :: "qdrant_checkpoint option list res \<Rightarrow> (string, int) dict" where
  "get_qdrant_checkpoints r =
     (case r of
        Inl _ \<Rightarrow> []
      | Inr records \<Rightarrow>
          dict_of (map (\<lambda>c. (qc_source_id c, case qc_version c of None \<Rightarrow> 0 | Some v \<Rightarrow> v))
                     (List.map_filter id (take SCROLL_LIMIT records))))"

definition get_neo4j_checkpoints :: "(string \<times> int) list res \<Rightarrow> (string, int) dict" where
  "get_neo4j_checkpoints r = (case r of Inl _ \<Rightarrow> [] | Inr rows \<Rightarrow> dict_of rows)"

section \<open>The check\<close>

record convergence =
  cv_converged :: bool
  cv_degraded :: "string list"
  cv_staleness :: "rat option"
  cv_min_watermark :: "int option"
  cv_per_source :: "(string, int) dict"

text \<open>The state of the loop over the source identifiers.\<close>

record lag_state =
  lg_qdrant_lagging :: bool
  lg_neo4j_lagging :: bool
  lg_max_lag :: rat
  lg_all_versions :: "int list"
  lg_per_source :: "(string, int) dict"

definition compare_source ::
  "(string, int) dict \<Rightarrow> (string, int) dict \<Rightarrow> (string, int) dict \<Rightarrow> string \<Rightarrow> lag_state \<Rightarrow> lag_state" where
  "compare_source pg q n s st =
     (let pv = dict_getd pg s 0; qv = dict_getd q s 0; nv = dict_getd n s 0;
          st1 = st\<lparr>lg_per_source := dict_set (lg_per_source st) s (min (min pv qv) nv)\<rparr>
      in if pv > 0
         then
           (let st2 = st1\<lparr>lg_all_versions := lg_all_versions st1 @ [pv, qv, nv]\<rparr>;
                st3 = (if qv < pv
                       then st2\<lparr>lg_qdrant_lagging := True, lg_max_lag := max (lg_max_lag st2) (of_int (pv - qv))\<rparr>
                       else st2)
            in if nv < pv
               then st3\<lparr>lg_neo4j_lagging := True, lg_max_lag := max (lg_max_lag st3) (of_int (pv - nv))\<rparr>
               else st3)
         else st1)"

definition lag_init :: lag_state where
  "lag_init = \<lparr>lg_qdrant_lagging = False, lg_neo4j_lagging = False, lg_max_lag = 0, lg_all_versions = [],
     lg_per_source = []\<rparr>"

definition source_union ::
  "(string, int) dict \<Rightarrow> (string, int) dict \<Rightarrow> (string, int) dict \<Rightarrow> string list" where
  "source_union pg q n = remdups (dict_keys pg @ dict_keys q @ dict_keys n)"

definition min_list_opt :: "int list \<Rightarrow> int option" where
  "min_list_opt vs = (if vs = [] then None else Some (fold min (tl vs) (hd vs)))"

definition check_convergence ::
  "(string, int) dict \<Rightarrow> (string, int) dict \<Rightarrow> (string, int) dict \<Rightarrow> convergence" where
  "check_convergence pg q n =
     (let ids = source_union pg q n in
      if ids = []
      then \<lparr>cv_converged = True, cv_degraded = [], cv_staleness = None, cv_min_watermark = None, cv_per_source = []\<rparr>
      else
        (let st = fold (compare_source pg q n) ids lag_init;
             degraded = (if lg_qdrant_lagging st then [''qdrant''] else [])
                      @ (if lg_neo4j_lagging st then [''neo4j''] else []);
             wm = min_list_opt (lg_all_versions st)
         in if degraded \<noteq> []
            then \<lparr>cv_converged = False, cv_degraded = degraded, cv_staleness = Some (lg_max_lag st),
                  cv_min_watermark = wm, cv_per_source = lg_per_source st\<rparr>
            else \<lparr>cv_converged = True, cv_degraded = [], cv_staleness = None, cv_min_watermark = wm,
                  cv_per_source = lg_per_source st\<rparr>))"

section \<open>Waiting\<close>

record wait_result =
  wr_degraded :: "string list"
  wr_staleness :: "rat option"
  wr_min_watermark :: "int option"
  wr_per_source :: "(string, int) dict"

text \<open>
  The loop: \<open>check i\<close> is the outcome of the \<open>i\<close>-th check and \<open>elapsed i\<close> the time since the start
  when it is done. \<open>None\<close> is a loop that never ends.
\<close>

partial_function (option) wait_from ::
  "(nat \<Rightarrow> convergence) \<Rightarrow> (nat \<Rightarrow> rat) \<Rightarrow> rat \<Rightarrow> nat \<Rightarrow> wait_result option" where
  "wait_from check elapsed timeout i =
     (let c = check i in
      if cv_converged c
      then Some \<lparr>wr_degraded = [], wr_staleness = None, wr_min_watermark = cv_min_watermark c,
                 wr_per_source = cv_per_source c\<rparr>
      else if elapsed i > timeout
      then Some \<lparr>wr_degraded = cv_degraded c, wr_staleness = cv_staleness c,
                 wr_min_watermark = cv_min_watermark c, wr_per_source = cv_per_source c\<rparr>
      else wait_from check elapsed timeout (Suc i))"

definition wait_for_convergence :: "(nat \<Rightarrow> convergence) \<Rightarrow> (nat \<Rightarrow> rat) \<Rightarrow> rat \<Rightarrow> wait_result option" where
  "wait_for_convergence check elapsed timeout = wait_from check elapsed timeout 0"

section \<open>Lemmas\<close>

definition lagging :: "(string, int) dict \<Rightarrow> (string, int) dict \<Rightarrow> string \<Rightarrow> bool" where
  "lagging pg st s \<longleftrightarrow> dict_getd pg s 0 > 0 \<and> dict_getd st s 0 < dict_getd pg s 0"

definition floor_of :: "(string, int) dict \<Rightarrow> (string, int) dict \<Rightarrow> (string, int) dict \<Rightarrow> string \<Rightarrow> int" where
  "floor_of pg q n s = min (min (dict_getd pg s 0) (dict_getd q s 0)) (dict_getd n s 0)"

lemma compare_source_simps [simp]:
  "lg_qdrant_lagging (compare_source pg q n s st) \<longleftrightarrow> lg_qdrant_lagging st \<or> lagging pg q s"
  "lg_neo4j_lagging (compare_source pg q n s st) \<longleftrightarrow> lg_neo4j_lagging st \<or> lagging pg n s"
  "lg_per_source (compare_source pg q n s st) = dict_set (lg_per_source st) s (floor_of pg q n s)"
  by (simp_all add: compare_source_def Let_def lagging_def floor_of_def)

lemma fold_compare:
  "lg_qdrant_lagging (fold (compare_source pg q n) ids st) \<longleftrightarrow> lg_qdrant_lagging st \<or> (\<exists>s \<in> set ids. lagging pg q s)"
  "lg_neo4j_lagging (fold (compare_source pg q n) ids st) \<longleftrightarrow> lg_neo4j_lagging st \<or> (\<exists>s \<in> set ids. lagging pg n s)"
  "dict_get (lg_per_source (fold (compare_source pg q n) ids st)) s =
     (if s \<in> set ids then Some (floor_of pg q n s) else dict_get (lg_per_source st) s)"
  by (induction ids arbitrary: st) auto

lemma mem_source_union: "s \<in> set (source_union pg q n) \<longleftrightarrow> dict_has pg s \<or> dict_has q s \<or> dict_has n s"
  by (auto simp: source_union_def dict_keys_def dict_has_def)

lemma lagging_known: "lagging pg st s \<Longrightarrow> dict_has pg s"
  by (auto simp: lagging_def dict_getd_def dict_has_iff split: option.splits)

lemma check_per_source:
  "dict_get (cv_per_source (check_convergence pg q n)) s =
     (if dict_has pg s \<or> dict_has q s \<or> dict_has n s then Some (floor_of pg q n s) else None)"
proof (cases "source_union pg q n = []")
  case True
  then have "\<not> (dict_has pg s \<or> dict_has q s \<or> dict_has n s)" using mem_source_union [of s pg q n] by simp
  then show ?thesis using True by (simp add: check_convergence_def)
next
  case False
  then show ?thesis
    by (simp add: check_convergence_def Let_def fold_compare mem_source_union lag_init_def)
qed

lemma check_degraded:
  "cv_degraded (check_convergence pg q n) =
     (if \<exists>s. lagging pg q s then [''qdrant''] else []) @ (if \<exists>s. lagging pg n s then [''neo4j''] else [])"
  "cv_converged (check_convergence pg q n) \<longleftrightarrow> (\<nexists>s. lagging pg q s \<or> lagging pg n s)"
proof -
  have l: "(\<exists>s \<in> set (source_union pg q n). lagging pg st s) \<longleftrightarrow> (\<exists>s. lagging pg st s)" for st
    using lagging_known mem_source_union by blast
  have e: "source_union pg q n = [] \<Longrightarrow> \<not> lagging pg st s" for st s
    using lagging_known [of pg st s] mem_source_union [of s pg q n] by auto
  show "cv_degraded (check_convergence pg q n) =
     (if \<exists>s. lagging pg q s then [''qdrant''] else []) @ (if \<exists>s. lagging pg n s then [''neo4j''] else [])"
    "cv_converged (check_convergence pg q n) \<longleftrightarrow> (\<nexists>s. lagging pg q s \<or> lagging pg n s)"
    using e by (auto simp: check_convergence_def Let_def fold_compare lag_init_def l)
qed

section \<open>Properties\<close>

text \<open>
  Claim C19: The watermark map is complete and exact. Every source that Postgres, Qdrant or Neo4j
  knows has an explicit entry, the least of its three versions with 0 for a store that does not
  know it, and no other source has one; the check reports convergence exactly if no store is
  behind Postgres on any source, and names exactly the stores that are.
\<close>

theorem watermark_is_exact:
  "dict_get (cv_per_source (check_convergence pg q n)) s =
     (if dict_has pg s \<or> dict_has q s \<or> dict_has n s
      then Some (min (min (dict_getd pg s 0) (dict_getd q s 0)) (dict_getd n s 0)) else None)
   \<and> (cv_converged (check_convergence pg q n) \<longleftrightarrow> (\<nexists>s. lagging pg q s \<or> lagging pg n s))
   \<and> cv_degraded (check_convergence pg q n) =
     (if \<exists>s. lagging pg q s then [''qdrant''] else []) @ (if \<exists>s. lagging pg n s then [''neo4j''] else [])"
  by (simp only: check_per_source check_degraded floor_of_def simp_thms)

definition stopped_at :: "convergence \<Rightarrow> wait_result" where
  "stopped_at c = \<lparr>wr_degraded = (if cv_converged c then [] else cv_degraded c),
     wr_staleness = (if cv_converged c then None else cv_staleness c),
     wr_min_watermark = cv_min_watermark c, wr_per_source = cv_per_source c\<rparr>"

lemma wait_from_stop:
  "cv_converged (check i) \<or> timeout < elapsed i \<Longrightarrow>
     wait_from check elapsed timeout i = Some (stopped_at (check i))"
  by (subst wait_from.simps) (auto simp: Let_def stopped_at_def)

lemma wait_from_next:
  "\<not> (cv_converged (check i) \<or> timeout < elapsed i) \<Longrightarrow>
     wait_from check elapsed timeout i = wait_from check elapsed timeout (Suc i)"
  by (subst wait_from.simps) (simp add: Let_def)

lemma wait_from_returns:
  assumes "\<And>i. of_nat i / 2 \<le> elapsed i" and "2 * timeout < of_nat (i + k)"
  shows "\<exists>j. j \<le> i + k \<and> wait_from check elapsed timeout i = Some (stopped_at (check j))
    \<and> (cv_converged (check j) \<or> timeout < elapsed j)
    \<and> list_all (\<lambda>m. \<not> (cv_converged (check m) \<or> timeout < elapsed m)) [i..<j]"
  using assms(2)
proof (induction k arbitrary: i)
  case 0
  have "timeout < elapsed i" using assms(1) [of i] 0 by simp
  then show ?case using wait_from_stop by (intro exI [of _ i]) simp
next
  case (Suc k)
  show ?case
  proof (cases "cv_converged (check i) \<or> timeout < elapsed i")
    case True
    then show ?thesis using wait_from_stop by (intro exI [of _ i]) simp
  next
    case False
    have "2 * timeout < of_nat (Suc i + k)" using Suc.prems by simp
    from Suc.IH [OF this] obtain j where j: "j \<le> i + Suc k" "wait_from check elapsed timeout (Suc i) = Some (stopped_at (check j))"
        "cv_converged (check j) \<or> timeout < elapsed j"
        "list_all (\<lambda>m. \<not> (cv_converged (check m) \<or> timeout < elapsed m)) [Suc i..<j]" by auto
    moreover have "list_all (\<lambda>m. \<not> (cv_converged (check m) \<or> timeout < elapsed m)) [i..<j]"
      using j(4) False by (cases "i < j") (simp_all add: upt_conv_Cons)
    ultimately show ?thesis using wait_from_next [of check i] False by auto
  qed
qed

text \<open>
  Claim C20: The wait ends at the first check that ends it. With half a second of sleep between
  checks, the loop returns after at most \<open>2 * timeout + 1\<close> further checks, at the first check that
  has converged or is past the timeout, with the watermarks of that check, and with no degraded store
  exactly if it had converged.
\<close>

theorem wait_terminates:
  assumes "\<And>i. of_nat i / 2 \<le> elapsed i" and "0 \<le> timeout"
  shows "\<exists>j r. of_nat j \<le> 2 * timeout + 1
    \<and> wait_for_convergence (\<lambda>i. check_convergence (pg i) (q i) (n i)) elapsed timeout = Some r
    \<and> wr_per_source r = cv_per_source (check_convergence (pg j) (q j) (n j))
    \<and> (wr_degraded r = [] \<longleftrightarrow> cv_converged (check_convergence (pg j) (q j) (n j)))
    \<and> (wr_degraded r = [] \<or> timeout < elapsed j)
    \<and> list_all (\<lambda>i. \<not> (cv_converged (check_convergence (pg i) (q i) (n i)) \<or> timeout < elapsed i)) [0..<j]"
proof -
  define k where "k = nat (\<lfloor>2 * timeout\<rfloor> + 1)"
  have k: "of_nat k = of_int (\<lfloor>2 * timeout\<rfloor> + 1)" unfolding k_def using assms(2) by (simp add: of_nat_nat)
  have lt: "2 * timeout < of_nat k" and le: "of_nat k \<le> 2 * timeout + 1"
    unfolding k using floor_correct [of "2 * timeout"] by simp_all
  let ?c = "\<lambda>i. check_convergence (pg i) (q i) (n i)"
  obtain j where j: "j \<le> k" "wait_from ?c elapsed timeout 0 = Some (stopped_at (?c j))"
      "cv_converged (?c j) \<or> timeout < elapsed j"
      "list_all (\<lambda>i. \<not> (cv_converged (?c i) \<or> timeout < elapsed i)) [0..<j]"
    using wait_from_returns [OF assms(1), of timeout 0 k ?c] lt by auto
  have "cv_degraded (?c j) = [] \<Longrightarrow> cv_converged (?c j)" by (auto simp: check_degraded split: if_splits)
  moreover have "of_nat j \<le> 2 * timeout + 1" using j(1) le by (meson of_nat_mono order_trans)
  ultimately show ?thesis
    using j by (intro exI [of _ j] exI [of _ "stopped_at (?c j)"]) (auto simp: wait_for_convergence_def stopped_at_def)
qed

theorem wait_terminates_witness:
  "\<exists>r. wait_for_convergence (\<lambda>i. check_convergence [(''s'', 3)] [(''s'', int i)] [(''s'', 3)]) (\<lambda>i. of_nat i) 1 = Some r"
  using wait_terminates [of "\<lambda>i. of_nat i" 1 "\<lambda>_. [(''s'', 3)]" "\<lambda>i. [(''s'', int i)]" "\<lambda>_. [(''s'', 3)]"]
  by auto

text \<open>
  A Postgres outage is reported as convergence. If the watermark query raises, the check
  says that all stores have converged and names no degraded store, whatever Qdrant and Neo4j
  hold, while every watermark is at most 0, so that every versioned hit is dropped downstream.
\<close>

theorem postgres_outage_looks_converged:
  "cv_converged (check_convergence (snapshot_pg_watermark ws (Inl e)) q n)
   \<and> cv_degraded (check_convergence (snapshot_pg_watermark ws (Inl e)) q n) = []
   \<and> list_all (\<lambda>s. dict_getd (cv_per_source (check_convergence (snapshot_pg_watermark ws (Inl e)) q n)) s 0 \<le> 0) sources"
proof -
  have "floor_of [] q n s \<le> 0" for s by (simp add: floor_of_def dict_getd_def [of "[]"] min.coboundedI1)
  then show ?thesis
    by (simp add: snapshot_pg_watermark_def check_degraded lagging_def list_all_iff dict_getd_def [of "cv_per_source _"]
        check_per_source) (simp add: dict_getd_def)
qed

end
