(* ===== verification/Scoring.thy ===== *)
theory Scoring
  imports PyText
begin

text \<open>
  Confidence and impact of retrieved evidence (\<^verbatim>\<open>packages/retrieval/.../probabilistic_scoring.py\<close>).
  A \<^verbatim>\<open>float\<close> is a real here, because the formulas use the exponential function; the only
  floating-point effect kept is the \<^verbatim>\<open>OverflowError\<close> of \<^verbatim>\<open>math.exp\<close>. Times are instants in
  microseconds (the code reads a naive time as UTC). The fitted isotonic map, which the code
  loads from a file, is the argument \<open>fitted\<close>.
\<close>

section \<open>Constants\<close>

definition SOURCE_RELIABILITY :: "(string \<times> real) list" where
  "SOURCE_RELIABILITY =
    [(''git'', 0.95), (''k8s'', 0.95), (''k8s_operator'', 0.95), (''otel'', 0.90), (''fs'', 0.85),
     (''terraform'', 0.90), (''aws'', 0.90), (''confluence'', 0.75), (''jira'', 0.75), (''slack'', 0.60),
     (''grafana'', 0.65), (''alerts'', 0.70)]"

definition DEFAULT_RELIABILITY :: real where "DEFAULT_RELIABILITY = 0.70"
definition LAMBDA_TIME_DECAY :: real where "LAMBDA_TIME_DECAY = 0.01"
definition GAMMA_CONF_DEPTH :: real where "GAMMA_CONF_DEPTH = 0.15"
definition MU_IMPACT_DEPTH :: real where "MU_IMPACT_DEPTH = 0.25"
definition ALPHA_CENTRALITY :: real where "ALPHA_CENTRALITY = 0.15"
definition DEFAULT_SUPPORT_SIZE :: int where "DEFAULT_SUPPORT_SIZE = 30"

section \<open>Factors\<close>

text \<open>\<^verbatim>\<open>pat in s\<close>\<close>

definition py_in :: "string \<Rightarrow> string \<Rightarrow> bool" where
  "py_in pat s \<longleftrightarrow> list_ex (\<lambda>i. take (length pat) (drop i s) = pat) [0..<Suc (length s)]"

definition calculate_watermark_age :: "int option \<Rightarrow> int option \<Rightarrow> int \<Rightarrow> real" where
  "calculate_watermark_age valid_from as_of now =
     (case valid_from of
        None \<Rightarrow> 0
      | Some v \<Rightarrow>
          (let anchor_time = (case as_of of None \<Rightarrow> now | Some a \<Rightarrow> a) in
           if v > anchor_time then 0 else real_of_int (anchor_time - v) / 1000000 / 86400))"

definition calculate_time_decay :: "int option \<Rightarrow> int option \<Rightarrow> int \<Rightarrow> real" where
  "calculate_time_decay valid_from as_of now =
     (case valid_from of
        None \<Rightarrow> 1
      | Some _ \<Rightarrow>
          (let delta_days = calculate_watermark_age valid_from as_of now in
           if delta_days \<le> 0 then 1 else exp (- LAMBDA_TIME_DECAY * delta_days)))"

definition calculate_source_reliability :: "string option \<Rightarrow> real" where
  "calculate_source_reliability source =
     (case source of
        None \<Rightarrow> DEFAULT_RELIABILITY
      | Some s \<Rightarrow>
          if s = [] then DEFAULT_RELIABILITY
          else case find (\<lambda>(src_type, _). py_in src_type (map lower_char s)) SOURCE_RELIABILITY of
                 Some (_, reliability) \<Rightarrow> reliability
               | None \<Rightarrow> DEFAULT_RELIABILITY)"

section \<open>Calibration\<close>

text \<open>\<^verbatim>\<open>math.exp\<close> raises above the logarithm of the largest double.\<close>

definition math_exp :: "real \<Rightarrow> real option" where
  "math_exp x = (if x > 709.782712893384 then None else Some (exp x))"

definition clamp01 :: "real \<Rightarrow> real" where
  "clamp01 x = max 0 (min 1 x)"

definition calibrate_platt :: "real \<Rightarrow> real \<Rightarrow> real \<Rightarrow> real" where
  "calibrate_platt score a b =
     (let x = a * score + b;
          calibrated = (case math_exp x of Some y \<Rightarrow> 1 / (1 + y) | None \<Rightarrow> (if x > 0 then 0 else 1))
      in clamp01 calibrated)"

abbreviation platt_default :: "real \<Rightarrow> real" where
  "platt_default score \<equiv> calibrate_platt score (-2) (1 / 2)"

text \<open>The loop over the segments; a score in no segment is returned as it is.\<close>

fun iso_segments :: "real list \<Rightarrow> real list \<Rightarrow> real \<Rightarrow> real" where
  "iso_segments (t # t' # ts) (v # v' # vs) score =
     (if t \<le> score \<and> score \<le> t'
      then (if t' = t then v else v + (score - t) * (v' - v) / (t' - t))
      else iso_segments (t' # ts) (v' # vs) score)"
| "iso_segments _ _ score = score"

definition iso_map :: "real list \<Rightarrow> real list \<Rightarrow> real \<Rightarrow> real" where
  "iso_map thresholds values score =
     (if score \<le> hd thresholds then hd values
      else if score \<ge> last thresholds then last values
      else iso_segments thresholds values score)"

definition default_thresholds :: "real list" where "default_thresholds = [0, 0.2, 0.4, 0.6, 0.8, 1]"
definition default_values :: "real list" where "default_values = [0, 0.15, 0.35, 0.60, 0.85, 1]"

definition calibrate_isotonic ::
  "(real list \<times> real list) option \<Rightarrow> real \<Rightarrow> (real list \<times> real list) option \<Rightarrow> int option \<Rightarrow> int \<Rightarrow> real res" where
  "calibrate_isotonic fitted score given support_size min_support =
     (let (thresholds, values) = (case given of
            Some tv \<Rightarrow> tv
          | None \<Rightarrow> (case fitted of Some tv \<Rightarrow> tv | None \<Rightarrow> (default_thresholds, default_values)))
      in if length thresholds \<noteq> length values
         then Inl (ValueError ''thresholds and values must have the same length'')
         else if thresholds = [] then Inl IndexError
         else
           (let iso_score = iso_map thresholds values score in
            case support_size of
              None \<Rightarrow> Inr iso_score
            | Some n \<Rightarrow>
                if n < min_support
                then (if min_support = 0 then Inl ZeroDivisionError
                      else let alpha = real_of_int n / real_of_int min_support
                      in Inr (alpha * iso_score + (1 - alpha) * platt_default score))
                else Inr iso_score))"

section \<open>Confidence and impact\<close>

definition topo_decay :: "real \<Rightarrow> int \<Rightarrow> real" where
  "topo_decay rate depth = exp (- rate * real_of_int (max (depth - 1) 0))"

definition raw_confidence :: "string option \<Rightarrow> int option \<Rightarrow> int \<Rightarrow> int option \<Rightarrow> int \<Rightarrow> bool \<Rightarrow> real" where
  "raw_confidence source valid_from depth as_of now is_parked =
     (let c = calculate_source_reliability source * calculate_time_decay valid_from as_of now
            * topo_decay GAMMA_CONF_DEPTH depth
      in clamp01 (if is_parked then c * 0.1 else c))"

definition calculate_probabilistic_confidence ::
  "(real list \<times> real list) option \<Rightarrow> string option \<Rightarrow> int option \<Rightarrow> int \<Rightarrow> int option \<Rightarrow> int \<Rightarrow> string \<Rightarrow> string
   \<Rightarrow> bool \<Rightarrow> real res" where
  "calculate_probabilistic_confidence fitted source valid_from depth as_of now score_type calibration_method is_parked =
     (let raw = raw_confidence source valid_from depth as_of now is_parked in
      if score_type = ''raw'' then Inr raw
      else if score_type = ''heuristic'' then Inr (clamp01 (raw * 0.9))
      else if score_type = ''calibrated''
      then (if calibration_method = ''platt'' then Inr (platt_default raw)
            else if calibration_method = ''isotonic'' then calibrate_isotonic fitted raw None None 30
            else Inr (platt_default raw))
      else Inr raw)"

definition calculate_probabilistic_impact ::
  "string option \<Rightarrow> int option \<Rightarrow> int \<Rightarrow> real \<Rightarrow> int option \<Rightarrow> int \<Rightarrow> real" where
  "calculate_probabilistic_impact source valid_from depth centrality as_of now =
     (let centrality_val = max 0 centrality;
          i_topo = (if centrality_val > 0 then 1 - exp (- ALPHA_CENTRALITY * centrality_val) else 0.5)
      in clamp01 (i_topo * topo_decay MU_IMPACT_DEPTH depth * calculate_source_reliability source
                    * calculate_time_decay valid_from as_of now))"

text \<open>What the incident score reads of an alert, a pull request and a resource node.\<close>

record evidence_node =
  en_source :: "string option"
  en_valid_from :: "int option"
  en_depth :: int
  en_is_parked :: bool

definition temporally_matched :: "int option \<Rightarrow> int option \<Rightarrow> bool" where
  "temporally_matched alert_time pr_time =
     (case (alert_time, pr_time) of
        (Some a, Some p) \<Rightarrow> p \<le> a \<and> real_of_int (a - p) / 1000000 \<le> 86400
      | _ \<Rightarrow> False)"

definition calculate_probabilistic_incident_confidence ::
  "(real list \<times> real list) option \<Rightarrow> evidence_node \<Rightarrow> evidence_node option \<Rightarrow> evidence_node option
   \<Rightarrow> int option \<Rightarrow> int \<Rightarrow> int option \<Rightarrow> int \<Rightarrow> (real \<times> bool) res" where
  "calculate_probabilistic_incident_confidence fitted alert responsible_pr target_resource as_of now support_size min_support =
     (let alert_rel = calculate_source_reliability (en_source alert);
          alert_decay = calculate_time_decay (en_valid_from alert) as_of now;
          (confidence, any_parked) = (case responsible_pr of
            Some pr \<Rightarrow>
              (let base_p = (if temporally_matched (en_valid_from alert) (en_valid_from pr) then 0.95 else 0.65)
               in (base_p * alert_rel * calculate_source_reliability (en_source pr) * alert_decay
                     * calculate_time_decay (en_valid_from pr) as_of now,
                   en_is_parked alert \<or> en_is_parked pr))
          | None \<Rightarrow>
              (case target_resource of
                 Some res \<Rightarrow>
                   (0.45 * alert_rel * calculate_source_reliability (en_source res) * alert_decay
                      * calculate_time_decay (en_valid_from res) as_of now * topo_decay GAMMA_CONF_DEPTH (en_depth res),
                    en_is_parked alert \<or> en_is_parked res)
               | None \<Rightarrow> (0.15 * alert_rel * alert_decay, en_is_parked alert)));
          raw = clamp01 (if any_parked then confidence * 0.1 else confidence)
      in bind_res (calibrate_isotonic fitted raw None support_size min_support) (\<lambda>calibrated.
           Inr (calibrated,
                any_parked \<or> (case support_size of None \<Rightarrow> False | Some n \<Rightarrow> n < min_support))))"

section \<open>Lemmas\<close>

lemma clamp01_bounds [simp]: "0 \<le> clamp01 x" "clamp01 x \<le> 1"
  by (simp_all add: clamp01_def)

lemma clamp01_id: "0 \<le> x \<Longrightarrow> x \<le> 1 \<Longrightarrow> clamp01 x = x"
  by (simp add: clamp01_def)

text \<open>An interpolated value lies between the ends of its segment and grows with the score.\<close>

definition interp :: "real \<Rightarrow> real \<Rightarrow> real \<Rightarrow> real \<Rightarrow> real \<Rightarrow> real" where
  "interp t t' v v' s = (if t' = t then v else v + (s - t) * (v' - v) / (t' - t))"

lemma interp_mono:
  assumes "t \<le> s" and "s \<le> s'" and "s' \<le> t'" and "v \<le> v'"
  shows "v \<le> interp t t' v v' s" and "interp t t' v v' s \<le> interp t t' v v' s'" and "interp t t' v v' s' \<le> v'"
proof -
  have "(s - t) * (v' - v) / (t' - t) \<le> (s' - t) * (v' - v) / (t' - t)"
    using assms by (intro divide_right_mono mult_right_mono) auto
  moreover have "0 \<le> (s - t) * (v' - v) / (t' - t)" using assms by simp
  moreover have "(s' - t) * (v' - v) / (t' - t) \<le> v' - v" if "t' \<noteq> t"
    using that assms mult_right_mono [of "s' - t" "t' - t" "v' - v"]
    by (simp add: divide_le_eq mult.commute)
  ultimately show "v \<le> interp t t' v v' s" "interp t t' v v' s \<le> interp t t' v v' s'" "interp t t' v v' s' \<le> v'"
    using assms by (auto simp: interp_def)
qed

lemma iso_segments_interp:
  "iso_segments (t # t' # ts) (v # v' # vs) s =
     (if t \<le> s \<and> s \<le> t' then interp t t' v v' s else iso_segments (t' # ts) (v' # vs) s)"
  by (simp add: interp_def)

declare iso_segments.simps(1) [simp del]

lemma iso_segments_bounds:
  assumes "2 \<le> length ts" and "length ts = length vs" and "sorted ts" and "sorted vs"
    and "hd ts \<le> s" and "s \<le> last ts"
  shows "hd vs \<le> iso_segments ts vs s \<and> iso_segments ts vs s \<le> last vs"
  using assms
proof (induction ts vs s rule: iso_segments.induct)
  case (1 t t' ts v v' vs s)
  have last: "v' \<le> last (v' # vs)" using "1.prems"(4) by (cases vs) auto
  show ?case
  proof (cases "t \<le> s \<and> s \<le> t'")
    case True
    then show ?thesis
      using interp_mono [of t s s t' v v'] "1.prems"(4) last by (simp add: iso_segments_interp)
  next
    case False
    then have "t' \<le> s" and "ts \<noteq> []" using "1.prems"(5,6) by auto
    then show ?thesis
      using "1.IH" [OF False] "1.prems" False by (cases ts) (auto simp: iso_segments_interp)
  qed
qed auto

lemma iso_segments_mono:
  assumes "2 \<le> length ts" and "length ts = length vs" and "sorted ts" and "sorted vs"
    and "hd ts \<le> s" and "s \<le> s'" and "s' \<le> last ts"
  shows "iso_segments ts vs s \<le> iso_segments ts vs s'"
  using assms
proof (induction ts vs s rule: iso_segments.induct)
  case (1 t t' ts v v' vs s)
  show ?case
  proof (cases "t \<le> s \<and> s \<le> t'")
    case True
    show ?thesis
    proof (cases "s' \<le> t'")
      case True
      then show ?thesis
        using interp_mono [of t s s' t' v v'] "1.prems" by (simp add: iso_segments_interp)
    next
      case False
      then have "ts \<noteq> []" using "1.prems" by auto
      then have "v' \<le> iso_segments (t' # ts) (v' # vs) s'"
        using iso_segments_bounds [of "t' # ts" "v' # vs" s'] "1.prems" False by (cases ts) auto
      then show ?thesis
        using True False interp_mono(3) [of t s s t' v v'] "1.prems" by (simp add: iso_segments_interp)
    qed
  next
    case False
    then have s: "t' \<le> s" "\<not> s' \<le> t'" and "ts \<noteq> []" using "1.prems" by auto
    then show ?thesis
      using "1.IH" [OF False] "1.prems" False by (cases ts) (auto simp: iso_segments_interp)
  qed
qed auto

definition iso_ok :: "real list \<Rightarrow> real list \<Rightarrow> bool" where
  "iso_ok ts vs \<longleftrightarrow> length ts = length vs \<and> ts \<noteq> [] \<and> sorted ts \<and> sorted vs"

lemma hd_le_last: "sorted xs \<Longrightarrow> xs \<noteq> [] \<Longrightarrow> hd xs \<le> last (xs :: real list)"
  by (cases xs) auto

lemma inside_two: "ts \<noteq> [] \<Longrightarrow> hd ts < last ts \<Longrightarrow> 2 \<le> length (ts :: real list)"
  by (cases ts rule: remdups_adj.cases) auto

lemma iso_map_bounds:
  assumes "iso_ok ts vs"
  shows "hd vs \<le> iso_map ts vs s \<and> iso_map ts vs s \<le> last vs"
proof (cases "s \<le> hd ts \<or> last ts \<le> s")
  case True
  have "vs \<noteq> []" using assms by (auto simp: iso_ok_def)
  then show ?thesis using True assms hd_le_last [of vs] by (auto simp: iso_map_def iso_ok_def)
next
  case False
  then have "2 \<le> length ts" using assms by (intro inside_two) (auto simp: iso_ok_def)
  then show ?thesis
    using False assms iso_segments_bounds [of ts vs s] by (auto simp: iso_map_def iso_ok_def)
qed

lemma iso_map_mono:
  assumes "iso_ok ts vs" and "s \<le> s'"
  shows "iso_map ts vs s \<le> iso_map ts vs s'"
proof (cases "s \<le> hd ts \<or> last ts \<le> s'")
  case True
  then show ?thesis
  proof
    assume "s \<le> hd ts"
    then have "iso_map ts vs s = hd vs" by (simp add: iso_map_def)
    then show ?thesis using iso_map_bounds [OF assms(1), of s'] by simp
  next
    assume l: "last ts \<le> s'"
    show ?thesis
    proof (cases "s' \<le> hd ts")
      case True
      then show ?thesis using assms(2) by (simp add: iso_map_def)
    next
      case False
      then have "iso_map ts vs s' = last vs" using l by (simp add: iso_map_def)
      then show ?thesis using iso_map_bounds [OF assms(1), of s] by simp
    qed
  qed
next
  case False
  then have "2 \<le> length ts" using assms by (intro inside_two) (auto simp: iso_ok_def)
  then show ?thesis
    using False assms iso_segments_mono [of ts vs s s'] by (auto simp: iso_map_def iso_ok_def)
qed

lemma reliability_bounds: "0.6 \<le> calculate_source_reliability src" "calculate_source_reliability src \<le> 0.95"
  by (auto simp: calculate_source_reliability_def SOURCE_RELIABILITY_def DEFAULT_RELIABILITY_def split: option.splits)

lemma decay_bounds: "0 < calculate_time_decay v a now" "calculate_time_decay v a now \<le> 1"
  by (auto simp: calculate_time_decay_def Let_def LAMBDA_TIME_DECAY_def split: option.splits)

lemma topo_bounds: "0 < topo_decay r d" "0 \<le> r \<Longrightarrow> topo_decay r d \<le> 1"
  by (simp_all add: topo_decay_def)

lemma exp_half: "exp (1 / 2 :: real) < 2"
proof -
  have "exp (1 / 2 :: real) * exp (1 / 2) = exp 1" by (simp flip: exp_add)
  moreover have "exp 1 \<le> (3 :: real)" by (rule exp_le)
  ultimately show ?thesis using mult_mono [of 2 "exp (1 / 2 :: real)" 2 "exp (1 / 2 :: real)"] by force
qed

lemma platt_formula: "0 \<le> s \<Longrightarrow> s \<le> 1 \<Longrightarrow> platt_default s = 1 / (1 + exp (1 / 2 - 2 * s))"
  by (simp add: calibrate_platt_def math_exp_def clamp01_def Let_def add_pos_pos)

lemma platt_mono: "0 \<le> s \<Longrightarrow> s \<le> s' \<Longrightarrow> s' \<le> 1 \<Longrightarrow> platt_default s \<le> platt_default s'"
  by (auto simp: platt_formula intro!: divide_left_mono add_pos_pos mult_pos_pos)

text \<open>
  The isotonic calibration is a calibration. For thresholds and values that are sorted
  and of equal length, the calibrated score never decreases when the raw score increases, stays
  within the first and the last value, and is the value of a threshold at that threshold's ends.
\<close>

theorem isotonic_calibration:
  assumes "iso_ok ts vs" and "s \<le> s'"
  shows "\<exists>x y. calibrate_isotonic fitted s (Some (ts, vs)) None m = Inr x
    \<and> calibrate_isotonic fitted s' (Some (ts, vs)) None m = Inr y \<and> hd vs \<le> x \<and> x \<le> y \<and> y \<le> last vs
    \<and> calibrate_isotonic fitted (hd ts) (Some (ts, vs)) None m = Inr (hd vs)"
  using assms iso_map_bounds [OF assms(1)] iso_map_mono [OF assms]
  by (simp add: calibrate_isotonic_def iso_ok_def) (simp add: iso_map_def)

theorem isotonic_calibration_witness:
  "\<exists>x y. calibrate_isotonic None 0.3 (Some (default_thresholds, default_values)) None 30 = Inr x
    \<and> calibrate_isotonic None 0.7 (Some (default_thresholds, default_values)) None 30 = Inr y \<and> x \<le> y"
proof -
  have "iso_ok default_thresholds default_values"
    by (simp add: iso_ok_def default_thresholds_def default_values_def)
  then show ?thesis
    using isotonic_calibration [of default_thresholds default_values "0.3" "0.7" None 30] by auto
qed

text \<open>
  Calibrated confidence has a high floor. The default calibration maps every confidence,
  whatever its source, age and depth and even for a parked entity, into the interval from 1/3 to
  9/10, and preserves order; so the tenfold penalty for parked evidence can never take a
  reported confidence below one third.
\<close>

theorem calibrated_confidence_floor:
  "\<exists>c. calculate_probabilistic_confidence fitted source valid_from depth as_of now ''calibrated'' ''platt'' is_parked
       = Inr c \<and> 1 / 3 < c \<and> c < 9 / 10
     \<and> calculate_probabilistic_confidence fitted source valid_from depth as_of now ''calibrated'' ''platt'' True
       = Inr (platt_default (raw_confidence source valid_from depth as_of now True))
     \<and> platt_default (raw_confidence source valid_from depth as_of now True) \<le> c"
proof -
  let ?r = "\<lambda>p. raw_confidence source valid_from depth as_of now p"
  let ?c = "calculate_source_reliability source * calculate_time_decay valid_from as_of now * topo_decay GAMMA_CONF_DEPTH depth"
  have c0: "0 \<le> ?c"
    using reliability_bounds(1) [of source] decay_bounds(1) [of valid_from as_of now] topo_bounds(1)
    by (intro mult_nonneg_nonneg) (auto intro: less_imp_le)
  have unit: "0 \<le> ?r p" "?r p \<le> 1" for p by (simp_all add: raw_confidence_def Let_def)
  have le: "?r True \<le> ?r p" for p using c0 by (cases p) (simp_all add: raw_confidence_def Let_def clamp01_def)
  have lo: "1 / 3 < platt_default (?r p)" for p
  proof -
    have "exp (1 / 2 - 2 * ?r p) \<le> exp (1 / 2)" using unit by simp
    then have "1 + exp (1 / 2 - 2 * ?r p) < 3" using exp_half by linarith
    then show ?thesis using unit by (simp add: platt_formula field_simps add_pos_pos)
  qed
  have hi: "platt_default (?r p) < 9 / 10" for p
  proof -
    have "1 / 9 < (1 / 6 :: real)" by simp
    also have "\<dots> \<le> exp (1 / 2 - 2 * 1 :: real)"
    proof -
      have "exp (3 / 2 :: real) = exp 1 * exp (1 / 2)" by (simp flip: exp_add)
      also have "\<dots> \<le> 3 * exp (1 / 2)" using exp_le by simp
      also have "\<dots> \<le> 6" using exp_half by simp
      finally have "exp (3 / 2 :: real) \<le> 6" .
      then show ?thesis by (simp add: exp_minus field_simps)
    qed
    also have "\<dots> \<le> exp (1 / 2 - 2 * ?r p)" using unit [of p] by simp
    finally show ?thesis using unit by (simp add: platt_formula field_simps add_pos_pos)
  qed
  show ?thesis
    using lo [of is_parked] hi [of is_parked] platt_mono [OF unit(1) le unit(2)]
    by (simp add: calculate_probabilistic_confidence_def Let_def)
qed

end
