(* ===== verification/GraphRag.thy ===== *)
theory GraphRag
  imports Convergence Scoring PyJson
begin

text \<open>
  The retrieval entry point (\<^verbatim>\<open>packages/retrieval/.../graph_rag.py\<close>): anchor stage over the graph
  store, vector stage, merge stage, epoch pinning against the watermarks of \<open>Convergence\<close>, and
  the validation of entities and hits in Postgres. The two stores and the legacy service are
  arguments; metrics, logging and durations are left out, except that the filters return the
  reasons with which they count a drop. Fields of the result models that the composer
  carries along unchanged are left out of the records.
\<close>

section \<open>Models\<close>

record entity_node =
  nv_id :: uuid
  nv_name :: string
  nv_kind :: string
  nv_source :: string
  nv_depth :: int
  nv_edge_type :: "string option"
  nv_is_parked :: bool
  nv_recorded_at :: "int option"
  nv_version :: "int option"

record graph_edge =
  ge_from :: string
  ge_to :: string
  ge_type :: string

record graph_result =
  gr_seed :: entity_node
  gr_related :: "entity_node list"
  gr_edges :: "graph_edge list"

record search_request =
  sr_query :: string
  sr_top_k :: int
  sr_sources :: "string list option"
  sr_types :: "string list option"
  sr_max_age_seconds :: "int option"
  sr_filters :: "(string, json) dict option"
  sr_include_tombstoned :: bool
  sr_retrieval_strategy :: string
  sr_as_of :: "int option"
  sr_cursor :: "string option"

record search_hit =
  sh_chunk_id :: uuid
  sh_document_id :: uuid
  sh_score :: real
  sh_text :: string
  sh_source_id :: uuid
  sh_source_type :: string
  sh_indexed_at :: int
  sh_source_instance :: "string option"
  sh_confidence :: "real option"
  sh_score_type :: "string option"
  sh_impact :: "real option"
  sh_applied_version :: "int option"

record query_stats =
  qs_total_matches :: int
  qs_vector_matches :: int
  qs_text_matches :: int

record search_result =
  rs_hits :: "search_hit list"
  rs_query_stats :: query_stats
  rs_effective_as_of :: "int option"
  rs_degraded_response :: "string option"
  rs_min_applied_version :: "int option"
  rs_degraded_subsystems :: "string list"
  rs_staleness :: "rat option"
  rs_pinned_watermark :: "int option"
  rs_next_cursor :: "string option"

definition MAX_ANCHOR_DEPTH :: int where "MAX_ANCHOR_DEPTH = 2"
definition CANDIDATE_EXPANSION_FACTOR :: int where "CANDIDATE_EXPANSION_FACTOR = 3"
definition MAX_ANCHOR_CANDIDATES :: nat where "MAX_ANCHOR_CANDIDATES = 32"
definition MERGE_ALPHA :: real where "MERGE_ALPHA = 0.25"
definition GRAPH_AFFINITY_BASE :: real where "GRAPH_AFFINITY_BASE = 1"
definition ANCHOR_FILTER_KEY :: string where "ANCHOR_FILTER_KEY = ''graphrag_anchor''"
definition DEGRADED_PRE_HISTORY :: string where "DEGRADED_PRE_HISTORY = ''as_of_before_recorded_history''"
definition GRAPHRAG_BUDGET_CHARS :: nat where "GRAPHRAG_BUDGET_CHARS = 24000"

section \<open>Epoch pinning\<close>

datatype drop_reason = Unmapped | Lag | ColdZero

definition hit_drop :: "(string, int) dict \<Rightarrow> bool \<Rightarrow> search_hit \<Rightarrow> drop_reason option" where
  "hit_drop wms strict h =
     (case dict_get wms (uuid_str (sh_source_id h)) of
        None \<Rightarrow> (case sh_applied_version h of
                   None \<Rightarrow> None
                 | Some _ \<Rightarrow> if strict then Some Unmapped else None)
      | Some wm \<Rightarrow> (case sh_applied_version h of
                      None \<Rightarrow> None
                    | Some v \<Rightarrow> if v \<le> wm then None else if wm = 0 then Some ColdZero else Some Lag))"

definition apply_watermark_filter ::
  "search_hit list \<Rightarrow> (string, int) dict option \<Rightarrow> bool \<Rightarrow> search_hit list \<times> drop_reason list" where
  "apply_watermark_filter hits wms strict =
     (case wms of
        None \<Rightarrow> (hits, [])
      | Some m \<Rightarrow> (filter (\<lambda>h. hit_drop m strict h = None) hits, List.map_filter (hit_drop m strict) hits))"

definition node_drop :: "(string, int) dict \<Rightarrow> bool \<Rightarrow> entity_node \<Rightarrow> drop_reason option" where
  "node_drop wms strict n =
     (case dict_get wms (nv_source n) of
        Some wm \<Rightarrow> (case nv_version n of
                      None \<Rightarrow> None
                    | Some v \<Rightarrow> if v > wm then (if wm = 0 then Some ColdZero else Some Lag) else None)
      | None \<Rightarrow> if strict \<and> wms \<noteq> [] then Some Unmapped else None)"

text \<open>The undirected adjacency of the surviving edges.\<close>

definition neighbours :: "graph_edge list \<Rightarrow> string \<Rightarrow> string list" where
  "neighbours es x =
     concat (map (\<lambda>e. (if ge_from e = x then [ge_to e] else []) @ (if ge_to e = x then [ge_from e] else [])) es)"

text \<open>
  One round of the search over the frontier: the new names, each once, in the order in which the
  loop meets them.
\<close>

fun expand :: "graph_edge list \<Rightarrow> string list \<Rightarrow> string list \<Rightarrow> string list" where
  "expand es reachable [] = []"
| "expand es reachable (x # xs) =
     (let new = remdups (filter (\<lambda>y. y \<notin> set reachable) (neighbours es x))
      in new @ expand es (reachable @ new) xs)"

definition names_of :: "graph_edge list \<Rightarrow> string set" where
  "names_of es = ge_from ` set es \<union> ge_to ` set es"

definition undirected :: "graph_edge list \<Rightarrow> (string \<times> string) set" where
  "undirected es = (\<lambda>e. (ge_from e, ge_to e)) ` set es \<union> (\<lambda>e. (ge_to e, ge_from e)) ` set es"

lemma undirected_simps [simp]:
  "undirected [] = {}"
  "undirected (e # es) = {(ge_from e, ge_to e), (ge_to e, ge_from e)} \<union> undirected es"
  by (auto simp: undirected_def)

lemma mem_if_single: "y \<in> set (if P then [z] else []) \<longleftrightarrow> P \<and> y = z"
  by auto

lemma set_neighbours: "y \<in> set (neighbours es x) \<longleftrightarrow> (x, y) \<in> undirected es"
proof (induction es)
  case Nil
  show ?case by (simp add: neighbours_def)
next
  case (Cons e es)
  have "y \<in> set (neighbours (e # es) x) \<longleftrightarrow>
      (ge_from e = x \<and> y = ge_to e) \<or> (ge_to e = x \<and> y = ge_from e) \<or> y \<in> set (neighbours es x)"
    unfolding neighbours_def list.map concat.simps set_append Un_iff mem_if_single by blast
  then show ?case unfolding Cons.IH undirected_simps by blast
qed

lemma undirected_names: "(x, y) \<in> undirected es \<Longrightarrow> x \<in> names_of es \<and> y \<in> names_of es"
  by (induction es) (auto simp: names_of_def)

lemma expand_fresh: "set (expand es r xs) \<inter> set r = {}"
  by (induction es r xs rule: expand.induct) (auto simp: Let_def)

lemma expand_names: "set (expand es r xs) \<subseteq> names_of es"
  by (induction es r xs rule: expand.induct) (auto simp: Let_def set_neighbours dest: undirected_names)

lemma expand_hd_not: "expand es r xs = y # ys \<Longrightarrow> y \<notin> set r"
  using expand_fresh [of es r xs] by auto

function bfs :: "graph_edge list \<Rightarrow> string list \<Rightarrow> string list \<Rightarrow> string list" where
  "bfs es reachable frontier =
     (if frontier = [] then reachable
      else let next_frontier = expand es reachable frontier
           in bfs es (reachable @ next_frontier) next_frontier)"
  by pat_completeness auto

termination
proof (relation "measures [\<lambda>(es, r, f). card (names_of es - set r), \<lambda>(es, r, f). length f]", goal_cases)
  case 1
  show ?case by simp
next
  case (2 es r f n)
  have fin: "finite (names_of es)" by (simp add: names_of_def)
  show ?case
  proof (cases "n = []")
    case True
    then show ?thesis using 2 by simp
  next
    case False
    have "set n \<subseteq> names_of es - set r" using 2(2) expand_names [of es r f] expand_fresh [of es r f] by auto
    then have "card (names_of es - set (r @ n)) < card (names_of es - set r)"
      using False fin by (intro psubset_card_mono psubsetI) (auto simp: neq_Nil_conv)
    then show ?thesis by simp
  qed
qed

declare bfs.simps [simp del]

definition recompute_reachability :: "graph_result \<Rightarrow> graph_result" where
  "recompute_reachability g =
     (if gr_related g = [] \<and> gr_edges g = [] then g
      else let reachable = bfs (gr_edges g) [nv_name (gr_seed g)] [nv_name (gr_seed g)]
           in g\<lparr>gr_related := filter (\<lambda>n. nv_name n \<in> set reachable) (gr_related g)\<rparr>)"

definition seed_ahead :: "(string, int) dict \<Rightarrow> entity_node \<Rightarrow> bool" where
  "seed_ahead wms seed =
     (case (dict_get wms (nv_source seed), nv_version seed) of
        (Some wm, Some v) \<Rightarrow> v > wm
      | _ \<Rightarrow> False)"

definition apply_graph_watermark_filter ::
  "graph_result \<Rightarrow> (string, int) dict \<Rightarrow> bool \<Rightarrow> (graph_result \<times> bool) \<times> drop_reason list" where
  "apply_graph_watermark_filter g wms strict =
     (if seed_ahead wms (gr_seed g) then ((g, True), [])
      else
        (let kept = filter (\<lambda>n. node_drop wms strict n = None) (gr_related g);
             dropped = filter (\<lambda>n. node_drop wms strict n \<noteq> None) (gr_related g);
             excluded = map nv_name dropped;
             reasons = List.map_filter (node_drop wms strict) (gr_related g);
             g1 = g\<lparr>gr_related := kept\<rparr>
         in if excluded = [] then ((g1, False), reasons)
            else ((recompute_reachability
                     (g1\<lparr>gr_edges := filter (\<lambda>e. ge_from e \<notin> set excluded \<and> ge_to e \<notin> set excluded) (gr_edges g1)\<rparr>),
                   False), reasons)))"

section \<open>Anchor stage\<close>

definition extract_anchor :: "search_request \<Rightarrow> string" where
  "extract_anchor rq =
     (case sr_filters rq of
        None \<Rightarrow> []
      | Some fs \<Rightarrow> (case dict_get fs ANCHOR_FILTER_KEY of
                      Some (JStr raw) \<Rightarrow> strip_by is_space raw
                    | _ \<Rightarrow> []))"

record anchor_stage =
  an_source_ids :: "string list"
  an_depths :: "int list"
  an_centralities :: "(string, real) dict"
  an_name :: string
  an_hit :: bool
  an_requested :: bool
  an_parked :: "bool list"

definition anchor_absent :: anchor_stage where
  "anchor_absent = \<lparr>an_source_ids = [], an_depths = [], an_centralities = [], an_name = [], an_hit = False,
     an_requested = False, an_parked = []\<rparr>"

definition anchor_miss :: "string \<Rightarrow> anchor_stage" where
  "anchor_miss name = \<lparr>an_source_ids = [], an_depths = [], an_centralities = [], an_name = name, an_hit = False,
     an_requested = True, an_parked = []\<rparr>"

definition degree :: "graph_edge list \<Rightarrow> string \<Rightarrow> nat" where
  "degree es x = length (filter (\<lambda>e. ge_from e = x) es) + length (filter (\<lambda>e. ge_to e = x) es)"

text \<open>The loop that collects the sources of the ranked nodes, until the cap is reached.\<close>

record candidates =
  ca_ids :: "string list"
  ca_depths :: "int list"
  ca_parked :: "bool list"
  ca_kept :: "string list"

fun collect_loop :: "entity_node list \<Rightarrow> candidates \<Rightarrow> candidates" where
  "collect_loop [] c = c"
| "collect_loop (n # ns) c =
     (if nv_source n \<in> set (ca_ids c)
      then collect_loop ns (c\<lparr>ca_kept := ca_kept c @ [nv_name n]\<rparr>)
      else
        (let c' = \<lparr>ca_ids = ca_ids c @ [nv_source n], ca_depths = ca_depths c @ [nv_depth n],
                   ca_parked = ca_parked c @ [nv_is_parked n], ca_kept = ca_kept c @ [nv_name n]\<rparr>
         in if MAX_ANCHOR_CANDIDATES \<le> length (ca_ids c') then c' else collect_loop ns c'))"

definition source_centralities :: "graph_edge list \<Rightarrow> entity_node list \<Rightarrow> entity_node \<Rightarrow> (string, real) dict" where
  "source_centralities es nodes seed =
     fold (\<lambda>n d. dict_set d (nv_source n) (max (dict_getd d (nv_source n) 0) (real (degree es (nv_name n)))))
       (nodes @ [seed]) []"

text \<open>
  \<^verbatim>\<open>sorted(related, key=lambda n: (-degree, depth))\<close>: by depth first and then, keeping that
  order among equals, by falling degree.
\<close>

definition rank_nodes :: "graph_edge list \<Rightarrow> entity_node list \<Rightarrow> entity_node list" where
  "rank_nodes es ns = order_by (\<lambda>n. - int (degree es (nv_name n))) (order_by nv_depth ns)"

definition collect_candidates :: "graph_result \<Rightarrow> candidates \<times> (string, real) dict \<times> graph_result" where
  "collect_candidates g =
     (let seed = gr_seed g;
          ranked = rank_nodes (gr_edges g) (gr_related g);
          c = collect_loop ranked \<lparr>ca_ids = [nv_source seed], ca_depths = [0], ca_parked = [nv_is_parked seed],
                                   ca_kept = [nv_name seed]\<rparr>
      in (c, source_centralities (gr_edges g) ranked seed,
          g\<lparr>gr_related := filter (\<lambda>n. nv_name n \<in> set (ca_kept c)) ranked,
            gr_edges := filter (\<lambda>e. ge_from e \<in> set (ca_kept c) \<and> ge_to e \<in> set (ca_kept c)) (gr_edges g)\<rparr>))"

text \<open>The rows of Postgres that the validation queries join.\<close>

record db_source =
  bs_id :: uuid
  bs_tenant :: "uuid option"
  bs_active :: bool

record db_document =
  bd_id :: uuid
  bd_source_id :: uuid
  bd_tombstoned :: bool

record db_chunk =
  bc_id :: uuid
  bc_document_id :: uuid

record db_entity =
  be_name :: string
  be_source_id :: uuid
  be_chunk_id :: "uuid option"

record rag_tables =
  rt_sources :: "db_source list"
  rt_documents :: "db_document list"
  rt_chunks :: "db_chunk list"
  rt_entities :: "db_entity list"

definition live_source :: "rag_tables \<Rightarrow> uuid \<Rightarrow> uuid \<Rightarrow> bool" where
  "live_source t ws s = list_ex (\<lambda>r. bs_id r = s \<and> bs_tenant r = Some ws \<and> bs_active r) (rt_sources t)"

text \<open>The documents that the two outer joins attach to an entity: none means \<^verbatim>\<open>NULL\<close>.\<close>

definition entity_documents :: "rag_tables \<Rightarrow> db_entity \<Rightarrow> db_document list" where
  "entity_documents t e =
     concat (map (\<lambda>c. filter (\<lambda>d. bd_id d = bc_document_id c) (rt_documents t))
       (filter (\<lambda>c. be_chunk_id e = Some (bc_id c)) (rt_chunks t)))"

definition live_entity :: "rag_tables \<Rightarrow> uuid \<Rightarrow> db_entity \<Rightarrow> bool" where
  "live_entity t ws e \<longleftrightarrow> live_source t ws (be_source_id e)
     \<and> (entity_documents t e = [] \<or> list_ex (\<lambda>d. \<not> bd_tombstoned d) (entity_documents t e))"

definition validate_entities :: "rag_tables option \<Rightarrow> uuid \<Rightarrow> string list \<Rightarrow> string list" where
  "validate_entities tabs ws names =
     (case tabs of
        None \<Rightarrow> names
      | Some t \<Rightarrow> map be_name (filter (\<lambda>e. be_name e \<in> set names \<and> live_entity t ws e) (rt_entities t)))"

definition live_chunk :: "rag_tables \<Rightarrow> uuid \<Rightarrow> uuid \<Rightarrow> bool" where
  "live_chunk t ws i =
     list_ex (\<lambda>c. bc_id c = i \<and>
       list_ex (\<lambda>d. bd_id d = bc_document_id c \<and> \<not> bd_tombstoned d \<and> live_source t ws (bd_source_id d)) (rt_documents t))
       (rt_chunks t)"

definition validate_hits :: "rag_tables option \<Rightarrow> uuid \<Rightarrow> search_hit list \<Rightarrow> search_hit list" where
  "validate_hits tabs ws hits =
     (case tabs of None \<Rightarrow> hits | Some t \<Rightarrow> filter (\<lambda>h. live_chunk t ws (sh_chunk_id h)) hits)"

text \<open>What the composer is built from.\<close>

record rag_env =
  rg_active :: bool
  rg_strict_epoch :: bool
  rg_traverse :: "uuid \<Rightarrow> int option \<Rightarrow> string \<Rightarrow> int \<Rightarrow> graph_result res"
  rg_vector :: "uuid \<Rightarrow> int option \<Rightarrow> search_request \<Rightarrow> search_result res"
  rg_legacy :: "search_request \<Rightarrow> search_result res"
  rg_tables :: "rag_tables option"
  rg_parked :: "(uuid \<Rightarrow> bool) option"
  rg_now :: int

definition stamp_parked :: "(uuid \<Rightarrow> bool) option \<Rightarrow> graph_result \<Rightarrow> graph_result" where
  "stamp_parked f g =
     (case f of
        None \<Rightarrow> g
      | Some p \<Rightarrow>
          g\<lparr>gr_seed := (gr_seed g)\<lparr>nv_is_parked := p (nv_id (gr_seed g))\<rparr>,
            gr_related := map (\<lambda>n. n\<lparr>nv_is_parked := p (nv_id n)\<rparr>) (gr_related g)\<rparr>)"

definition anchor_of_graph :: "rag_env \<Rightarrow> uuid \<Rightarrow> string \<Rightarrow> graph_result \<Rightarrow> anchor_stage" where
  "anchor_of_graph env ws name g =
     (let valid = validate_entities (rg_tables env) ws (nv_name (gr_seed g) # map nv_name (gr_related g)) in
      if nv_name (gr_seed g) \<notin> set valid then anchor_miss name
      else
        (let g1 = g\<lparr>gr_related := filter (\<lambda>n. nv_name n \<in> set valid) (gr_related g)\<rparr>;
             (c, cs, _) = collect_candidates (stamp_parked (rg_parked env) g1)
         in \<lparr>an_source_ids = ca_ids c, an_depths = ca_depths c, an_centralities = cs, an_name = name,
             an_hit = True, an_requested = True, an_parked = ca_parked c\<rparr>))"

definition run_anchor_stage ::
  "rag_env \<Rightarrow> search_request \<Rightarrow> uuid \<Rightarrow> int option \<Rightarrow> (string, int) dict option \<Rightarrow> anchor_stage res" where
  "run_anchor_stage env rq ws as_of wms =
     (let name = extract_anchor rq in
      if name = [] then Inr anchor_absent
      else case rg_traverse env ws as_of name MAX_ANCHOR_DEPTH of
        Inl (ValueError _) \<Rightarrow> Inr (anchor_miss name)
      | Inl e \<Rightarrow> Inl e
      | Inr g \<Rightarrow>
          (case wms of
             Some m \<Rightarrow>
               if m = [] then Inr (anchor_of_graph env ws name g)
               else (case apply_graph_watermark_filter g m (rg_strict_epoch env) of
                       ((g', seed_excluded), _) \<Rightarrow>
                         if seed_excluded then Inr (anchor_miss name) else Inr (anchor_of_graph env ws name g'))
           | None \<Rightarrow> Inr (anchor_of_graph env ws name g)))"

section \<open>Vector stage\<close>

definition strip_anchor_filter :: "(string, json) dict option \<Rightarrow> (string, json) dict option" where
  "strip_anchor_filter filters =
     (case filters of
        None \<Rightarrow> None
      | Some fs \<Rightarrow>
          if fs = [] \<or> \<not> dict_has fs ANCHOR_FILTER_KEY then Some fs
          else (let cleaned = filter (\<lambda>(k, _). k \<noteq> ANCHOR_FILTER_KEY) fs
                in if cleaned = [] then None else Some cleaned))"

definition widen_request :: "search_request \<Rightarrow> anchor_stage \<Rightarrow> search_request" where
  "widen_request rq anchor =
     rq\<lparr>sr_top_k := sr_top_k rq * CANDIDATE_EXPANSION_FACTOR,
        sr_sources := (if an_source_ids anchor \<noteq> [] then Some (an_source_ids anchor) else sr_sources rq),
        sr_filters := strip_anchor_filter (sr_filters rq),
        sr_retrieval_strategy := sr_retrieval_strategy rq\<rparr>"

definition run_vector_stage ::
  "rag_env \<Rightarrow> search_request \<Rightarrow> uuid \<Rightarrow> anchor_stage \<Rightarrow> int option \<Rightarrow> search_result res" where
  "run_vector_stage env rq ws anchor as_of = rg_vector env ws as_of (widen_request rq anchor)"

section \<open>Merge stage\<close>

definition affinity :: "int \<Rightarrow> real" where
  "affinity depth = GRAPH_AFFINITY_BASE / 2 ^ nat (max 1 depth - 1)"

definition build_affinity_map :: "anchor_stage \<Rightarrow> (string, real) dict" where
  "build_affinity_map anchor =
     dict_of (map (\<lambda>(s, d). (s, affinity d)) (zip (an_source_ids anchor) (an_depths anchor)))"

definition linear_blend :: "real \<Rightarrow> real \<Rightarrow> real" where
  "linear_blend vector_score graph_affinity = (1 - MERGE_ALPHA) * vector_score + MERGE_ALPHA * graph_affinity"

fun dedupe_chunks :: "uuid list \<Rightarrow> search_hit list \<Rightarrow> search_hit list" where
  "dedupe_chunks seen [] = []"
| "dedupe_chunks seen (h # hs) =
     (if sh_chunk_id h \<in> set seen then dedupe_chunks seen hs
      else h # dedupe_chunks (sh_chunk_id h # seen) hs)"

text \<open>The score columns of one row; the platt calibration that the code selects never raises.\<close>

definition score_hit :: "anchor_stage \<Rightarrow> int option \<Rightarrow> int \<Rightarrow> search_hit \<Rightarrow> search_hit" where
  "score_hit anchor as_of now h =
     (let src = uuid_str (sh_source_id h);
          depths = dict_of (zip (an_source_ids anchor) (an_depths anchor));
          parkeds = dict_of (zip (an_source_ids anchor) (an_parked anchor));
          depth = dict_getd depths src 3
      in h\<lparr>sh_score := linear_blend (sh_score h) (dict_getd (build_affinity_map anchor) src 0),
           sh_confidence := (case calculate_probabilistic_confidence None (Some (sh_source_type h)) (Some (sh_indexed_at h))
                               depth as_of now ''calibrated'' ''platt'' (dict_getd parkeds src False) of
                               Inr c \<Rightarrow> Some c | Inl _ \<Rightarrow> None),
           sh_score_type := Some ''calibrated'',
           sh_impact := Some (calculate_probabilistic_impact (Some (sh_source_type h)) (Some (sh_indexed_at h)) depth
                          (dict_getd (an_centralities anchor) src 0) as_of now)\<rparr>)"

definition ranking :: "anchor_stage \<Rightarrow> int option \<Rightarrow> int \<Rightarrow> search_hit list \<Rightarrow> search_hit list" where
  "ranking anchor as_of now hits =
     order_by (\<lambda>h. - sh_score h) (map (score_hit anchor as_of now) (dedupe_chunks [] hits))"

text \<open>\<^verbatim>\<open>int(s)\<close> for a decimal string: blanks around, a sign, single underscores between digits.\<close>

fun grouped_digits :: "string \<Rightarrow> bool" where
  "grouped_digits [] = False"
| "grouped_digits [c] = is_dec c"
| "grouped_digits (c # d # cs) =
     (is_dec c \<and> (if d = CHR ''_'' then grouped_digits cs else grouped_digits (d # cs)))"

definition py_int :: "string \<Rightarrow> int option" where
  "py_int s =
     (let t = strip_by is_space s;
          neg = (t \<noteq> [] \<and> hd t = CHR ''-'');
          u = (if t \<noteq> [] \<and> (hd t = CHR ''-'' \<or> hd t = CHR ''+'') then tl t else t)
      in if grouped_digits u
         then Some ((if neg then - 1 else 1) * int (dec_value (filter (\<lambda>c. c \<noteq> CHR ''_'') u)))
         else None)"

definition start_index :: "string option \<Rightarrow> int" where
  "start_index cursor =
     (case cursor of
        None \<Rightarrow> 0
      | Some c \<Rightarrow> if c = [] then 0 else (case py_int c of None \<Rightarrow> 0 | Some i \<Rightarrow> i))"

text \<open>\<^verbatim>\<open>xs[i:]\<close>\<close>

definition slice_from :: "int \<Rightarrow> 'a list \<Rightarrow> 'a list" where
  "slice_from i xs = drop (nat (if i < 0 then max 0 (int (length xs) + i) else i)) xs"

fun page_loop :: "int \<Rightarrow> int \<Rightarrow> nat \<Rightarrow> search_hit list \<Rightarrow> search_hit list \<Rightarrow> search_hit list \<times> int option" where
  "page_loop start top_k budget page [] = (page, None)"
| "page_loop start top_k budget page (h # hs) =
     (if top_k \<le> int (length page) then (page, Some (start + int (length page)))
      else if GRAPHRAG_BUDGET_CHARS < budget + length (sh_text h) \<and> 0 < length page
      then (page, Some (start + int (length page)))
      else page_loop start top_k (budget + length (sh_text h)) (page @ [h]) hs)"

definition run_merge_stage ::
  "rag_env \<Rightarrow> search_request \<Rightarrow> search_result \<Rightarrow> anchor_stage \<Rightarrow> int option \<Rightarrow> (string, int) dict option \<Rightarrow> search_result" where
  "run_merge_stage env rq vr anchor as_of wms =
     (let filtered = fst (apply_watermark_filter (rs_hits vr) wms (rg_strict_epoch env));
          start = start_index (sr_cursor rq);
          (page, next_cursor) =
            page_loop start (sr_top_k rq) 0 [] (slice_from start (ranking anchor as_of (rg_now env) filtered))
      in \<lparr>rs_hits = page, rs_query_stats = rs_query_stats vr, rs_effective_as_of = None, rs_degraded_response = None,
          rs_min_applied_version = min_list_opt (List.map_filter sh_applied_version page),
          rs_degraded_subsystems = [], rs_staleness = None, rs_pinned_watermark = None,
          rs_next_cursor = map_option int_str next_cursor\<rparr>)"

section \<open>The composed search\<close>

definition stamp_envelope ::
  "int \<Rightarrow> search_result \<Rightarrow> int option \<Rightarrow> bool \<Rightarrow> string list \<Rightarrow> rat option \<Rightarrow> int option \<Rightarrow> search_result" where
  "stamp_envelope now r as_of degraded degraded_subsystems staleness min_watermark =
     (let r1 = r\<lparr>rs_effective_as_of := Some (case as_of of Some a \<Rightarrow> a | None \<Rightarrow> now),
                 rs_degraded_response := (if degraded then Some DEGRADED_PRE_HISTORY else None),
                 rs_pinned_watermark := min_watermark\<rparr>
      in if degraded_subsystems \<noteq> []
         then r1\<lparr>rs_degraded_subsystems := degraded_subsystems, rs_staleness := staleness\<rparr> else r1)"

text \<open>\<open>wait\<close> is the outcome of the reconciler, \<open>None\<close> when none is wired.\<close>

definition search ::
  "rag_env \<Rightarrow> wait_result option \<Rightarrow> search_request \<Rightarrow> uuid \<Rightarrow> int option \<Rightarrow> search_result res" where
  "search env wait rq ws as_of =
     (let effective = (case as_of of Some a \<Rightarrow> Some a | None \<Rightarrow> sr_as_of rq) in
      if \<not> rg_active env
      then bind_res (rg_legacy env rq) (\<lambda>r. Inr (stamp_envelope (rg_now env) r effective False [] None None))
      else
        (let wms = map_option wr_per_source wait in
         bind_res (run_anchor_stage env rq ws effective wms) (\<lambda>anchor.
         bind_res (run_vector_stage env rq ws anchor effective) (\<lambda>vr.
           let merged = run_merge_stage env rq vr anchor effective wms;
               merged' = merged\<lparr>rs_hits := validate_hits (rg_tables env) ws (rs_hits merged)\<rparr>;
               degraded = (effective \<noteq> None \<and> an_requested anchor \<and> \<not> an_hit anchor \<and> rs_hits merged' = [])
           in Inr (stamp_envelope (rg_now env) merged' effective degraded
                (case wait of None \<Rightarrow> [] | Some w \<Rightarrow> wr_degraded w)
                (case wait of None \<Rightarrow> None | Some w \<Rightarrow> wr_staleness w)
                (case wait of None \<Rightarrow> None | Some w \<Rightarrow> wr_min_watermark w))))))"

section \<open>Lemmas: reachability\<close>

lemma expand_covers: "x \<in> set xs \<Longrightarrow> (x, y) \<in> undirected es \<Longrightarrow> y \<in> set r \<or> y \<in> set (expand es r xs)"
proof (induction es r xs rule: expand.induct)
  case (1 es r)
  then show ?case by simp
next
  case (2 es r z zs)
  let ?new = "remdups (filter (\<lambda>y. y \<notin> set r) (neighbours es z))"
  have eq: "expand es r (z # zs) = ?new @ expand es (r @ ?new) zs" by (simp add: Let_def)
  show ?case
  proof (cases "x = z")
    case True
    then show ?thesis using 2(3) unfolding eq by (simp del: expand.simps add: set_neighbours)
  next
    case False
    then have "y \<in> set (r @ ?new) \<or> y \<in> set (expand es (r @ ?new) zs)" using 2(1) [OF refl] 2(2,3) by simp
    then show ?thesis unfolding eq by (simp only: set_append Un_iff) blast
  qed
qed

lemma expand_sound: "y \<in> set (expand es r xs) \<Longrightarrow> \<exists>x \<in> set xs. (x, y) \<in> undirected es"
  by (induction es r xs rule: expand.induct) (auto simp: Let_def set_neighbours)

lemma bfs_closed:
  assumes "set f \<subseteq> set r" and "\<And>x y. x \<in> set r - set f \<Longrightarrow> (x, y) \<in> undirected es \<Longrightarrow> y \<in> set r"
  shows "set r \<subseteq> set (bfs es r f) \<and> (\<forall>x \<in> set (bfs es r f). \<forall>y. (x, y) \<in> undirected es \<longrightarrow> y \<in> set (bfs es r f))"
  using assms
proof (induction es r f rule: bfs.induct)
  case (1 es r f)
  show ?case
  proof (cases "f = []")
    case True
    then show ?thesis using "1.prems"(2) by (subst (1 2 3) bfs.simps) auto
  next
    case False
    let ?n = "expand es r f"
    have step: "bfs es r f = bfs es (r @ ?n) ?n" using False by (subst bfs.simps) (simp add: Let_def)
    have cl: "y \<in> set (r @ ?n)" if "x \<in> set (r @ ?n) - set ?n" and "(x, y) \<in> undirected es" for x y
      using that "1.prems" expand_covers [of x f y es r] by (cases "x \<in> set f") auto
    show ?thesis unfolding step using "1.IH" [OF False refl] cl by auto
  qed
qed

lemma bfs_sound: "\<forall>x \<in> set r. (s, x) \<in> (undirected es)\<^sup>* \<Longrightarrow> set f \<subseteq> set r \<Longrightarrow> y \<in> set (bfs es r f) \<Longrightarrow> (s, y) \<in> (undirected es)\<^sup>*"
proof (induction es r f rule: bfs.induct)
  case (1 es r f)
  show ?case
  proof (cases "f = []")
    case True
    then show ?thesis using 1 by (simp add: bfs.simps)
  next
    case False
    let ?n = "expand es r f"
    have "(s, x) \<in> (undirected es)\<^sup>*" if "x \<in> set ?n" for x
      using expand_sound [OF that] "1.prems"(1,2) by (meson rtrancl.rtrancl_into_rtrancl subsetD)
    then have "\<forall>x \<in> set (r @ ?n). (s, x) \<in> (undirected es)\<^sup>*" using "1.prems"(1) by auto
    moreover have "y \<in> set (bfs es (r @ ?n) ?n)"
      using "1.prems"(3) False by (subst (asm) bfs.simps) (simp add: Let_def)
    ultimately show ?thesis using "1.IH" [OF False refl] by auto
  qed
qed

lemma bfs_reachable: "y \<in> set (bfs es [s] [s]) \<longleftrightarrow> (s, y) \<in> (undirected es)\<^sup>*"
proof
  assume "y \<in> set (bfs es [s] [s])"
  then show "(s, y) \<in> (undirected es)\<^sup>*" by (rule bfs_sound [rotated 2]) simp_all
next
  have c: "s \<in> set (bfs es [s] [s])" "\<And>x y. x \<in> set (bfs es [s] [s]) \<Longrightarrow> (x, y) \<in> undirected es \<Longrightarrow> y \<in> set (bfs es [s] [s])"
    using bfs_closed [of "[s]" "[s]" es] by auto
  assume "(s, y) \<in> (undirected es)\<^sup>*"
  then show "y \<in> set (bfs es [s] [s])" by induction (auto intro: c)
qed

lemma recompute_related:
  "gr_related (recompute_reachability g) =
     filter (\<lambda>n. (nv_name (gr_seed g), nv_name n) \<in> (undirected (gr_edges g))\<^sup>*) (gr_related g)"
  by (simp add: recompute_reachability_def Let_def bfs_reachable)

lemma recompute_seed [simp]: "gr_seed (recompute_reachability g) = gr_seed g"
  by (simp add: recompute_reachability_def Let_def)

lemma node_kept:
  "node_drop wms strict n = None \<longleftrightarrow>
     (case dict_get wms (nv_source n) of
        None \<Rightarrow> \<not> (strict \<and> wms \<noteq> [])
      | Some wm \<Rightarrow> (case nv_version n of None \<Rightarrow> True | Some v \<Rightarrow> v \<le> wm))"
  by (auto simp: node_drop_def split: option.splits)

lemma recompute_pruned:
  "recompute_reachability (g\<lparr>gr_related := k, gr_edges := es\<rparr>) =
     g\<lparr>gr_related := filter (\<lambda>n. (nv_name (gr_seed g), nv_name n) \<in> (undirected es)\<^sup>*) k, gr_edges := es\<rparr>"
  using recompute_related [of "g\<lparr>gr_related := k, gr_edges := es\<rparr>"] by (simp add: recompute_reachability_def Let_def)

lemma graph_filter_spec:
  "fst (apply_graph_watermark_filter g wms strict) =
     (let kept = filter (\<lambda>n. node_drop wms strict n = None) (gr_related g);
          gone = nv_name ` set (filter (\<lambda>n. node_drop wms strict n \<noteq> None) (gr_related g));
          edges = filter (\<lambda>e. ge_from e \<notin> gone \<and> ge_to e \<notin> gone) (gr_edges g) in
      if seed_ahead wms (gr_seed g) then (g, True)
      else if kept = gr_related g then (g, False)
      else (g\<lparr>gr_related := filter (\<lambda>n. (nv_name (gr_seed g), nv_name n) \<in> (undirected edges)\<^sup>*) kept,
              gr_edges := edges\<rparr>, False))"
proof -
  have "filter (\<lambda>n. node_drop wms strict n = None) (gr_related g) = gr_related g
      \<longleftrightarrow> filter (\<lambda>n. node_drop wms strict n \<noteq> None) (gr_related g) = []"
    by (auto simp: filter_empty_conv filter_id_conv)
  then show ?thesis by (auto simp: apply_graph_watermark_filter_def Let_def recompute_pruned filter_empty_conv)
qed

text \<open>
  Claim C18: The graph view is pinned exactly. A graph whose anchor has a version above the watermark
  of its source is passed on whole and reported as such. Otherwise a related node is excluded exactly
  if its version is above the watermark of its source, or, in strict mode with a non-empty map, if the
  map does not know its source. When nothing is excluded the graph is unchanged; else the related
  nodes are those not excluded that are still connected to the anchor, in either direction, by
  edges that touch no excluded node, and those edges are the edges. The breadth-first search that
  decides this terminates.
\<close>

theorem graph_filter_exact:
  "fst (apply_graph_watermark_filter g wms strict) =
     (let visible = (\<lambda>n. case dict_get wms (nv_source n) of
                      None \<Rightarrow> \<not> (strict \<and> wms \<noteq> [])
                    | Some wm \<Rightarrow> (case nv_version n of None \<Rightarrow> True | Some v \<Rightarrow> v \<le> wm));
          kept = filter visible (gr_related g);
          gone = nv_name ` set (filter (\<lambda>n. \<not> visible n) (gr_related g));
          edges = filter (\<lambda>e. ge_from e \<notin> gone \<and> ge_to e \<notin> gone) (gr_edges g) in
      if (case (dict_get wms (nv_source (gr_seed g)), nv_version (gr_seed g)) of
            (Some wm, Some v) \<Rightarrow> wm < v | _ \<Rightarrow> False) then (g, True)
      else if kept = gr_related g then (g, False)
      else (g\<lparr>gr_related := filter (\<lambda>n. (nv_name (gr_seed g), nv_name n) \<in> (undirected edges)\<^sup>*) kept,
              gr_edges := edges\<rparr>, False))"
  unfolding graph_filter_spec node_kept seed_ahead_def Let_def ..

section \<open>Lemmas: merging\<close>

lemma set_dedupe: "h \<in> set (dedupe_chunks seen hs) \<Longrightarrow> h \<in> set hs"
  by (induction seen hs rule: dedupe_chunks.induct) (auto split: if_splits)

lemma score_hit_simps [simp]:
  "sh_chunk_id (score_hit a t now h) = sh_chunk_id h"
  "sh_source_id (score_hit a t now h) = sh_source_id h"
  "sh_applied_version (score_hit a t now h) = sh_applied_version h"
  "sh_text (score_hit a t now h) = sh_text h"
  by (simp_all add: score_hit_def Let_def)

lemma mem_ranking:
  assumes "h \<in> set (ranking a t now hits)"
  shows "\<exists>h' \<in> set hits. sh_chunk_id h = sh_chunk_id h' \<and> sh_source_id h = sh_source_id h'
    \<and> sh_applied_version h = sh_applied_version h'"
  using assms set_dedupe by (fastforce simp: ranking_def)

definition chars :: "search_hit list \<Rightarrow> nat" where
  "chars hs = sum_list (map (\<lambda>h. length (sh_text h)) hs)"

lemma chars_simps [simp]: "chars [] = 0" "chars (h # hs) = length (sh_text h) + chars hs"
  by (simp_all add: chars_def)

lemma page_loop_block:
  assumes "page_loop start k b page hs = (page', nxt)"
  shows "\<exists>m. page' = page @ take m hs \<and> m \<le> length hs
    \<and> nxt = (if m < length hs then Some (start + int (length page')) else None)
    \<and> (int (length page) \<le> k \<longrightarrow> int (length page') \<le> k)
    \<and> (page = [] \<and> 0 < k \<and> hs \<noteq> [] \<longrightarrow> 0 < m)
    \<and> (b + chars (take m hs) \<le> GRAPHRAG_BUDGET_CHARS \<or> m = 0 \<or> (page = [] \<and> m = 1))"
  using assms
proof (induction start k b page hs rule: page_loop.induct)
  case (1 start k b page)
  then show ?case by auto
next
  case (2 start k b page h hs)
  show ?case
  proof (cases "k \<le> int (length page) \<or> GRAPHRAG_BUDGET_CHARS < b + length (sh_text h) \<and> 0 < length page")
    case True
    then have "page' = page" "nxt = Some (start + int (length page))" using 2(2) by (auto split: if_splits)
    then show ?thesis using True by (intro exI [of _ 0]) auto
  next
    case False
    then have n: "\<not> k \<le> int (length page)" "\<not> (GRAPHRAG_BUDGET_CHARS < b + length (sh_text h) \<and> 0 < length page)"
      by auto
    then have p: "page_loop start k (b + length (sh_text h)) (page @ [h]) hs = (page', nxt)" using 2(2) by (auto split: if_splits)
    obtain m where m: "page' = (page @ [h]) @ take m hs" "m \<le> length hs"
      "nxt = (if m < length hs then Some (start + int (length page')) else None)"
      "int (length (page @ [h])) \<le> k \<longrightarrow> int (length page') \<le> k"
      "b + length (sh_text h) + chars (take m hs) \<le> GRAPHRAG_BUDGET_CHARS \<or> m = 0"
      using 2(1) [OF n p] by blast
    show ?thesis
    proof (intro exI [of _ "Suc m"] conjI)
      show "b + chars (take (Suc m) (h # hs)) \<le> GRAPHRAG_BUDGET_CHARS \<or> Suc m = 0 \<or> (page = [] \<and> Suc m = 1)"
        using m(5) n(2) by (cases "m = 0") auto
    qed (use m n in auto)
  qed
qed

lemma grouped_digits_dec: "list_all is_dec ds \<Longrightarrow> ds \<noteq> [] \<Longrightarrow> grouped_digits ds"
  by (induction ds rule: grouped_digits.induct) (auto simp: is_dec_def)

lemma py_int_str: "py_int (int_str (int n)) = Some (int n)"
proof -
  have d: "list_all is_dec (digits10 n)" by (rule digits10_dec)
  have ne: "digits10 n \<noteq> []" using digits10_nonempty by blast
  have sp: "c \<in> set (digits10 n) \<Longrightarrow> \<not> is_space c \<and> c \<noteq> CHR ''_'' \<and> c \<noteq> CHR ''-'' \<and> c \<noteq> CHR ''+''" for c
    using d by (auto simp: list_all_iff is_dec_def is_space_def)
  have "strip_by is_space (digits10 n) = digits10 n" using sp by (intro strip_by_absent) auto
  moreover have "hd (digits10 n) \<in> set (digits10 n)" using ne by simp
  moreover have "filter (\<lambda>c. c \<noteq> CHR ''_'') (digits10 n) = digits10 n" using sp by (simp add: filter_id_conv)
  ultimately show ?thesis
    using sp [of "hd (digits10 n)"] ne grouped_digits_dec [OF d ne]
    by (simp add: py_int_def int_str_def Let_def digits10_value)
qed

section \<open>Served evidence\<close>

lemma kept_hit_pinned:
  assumes "h \<in> set (fst (apply_watermark_filter hits (Some wms) strict))" and "sh_applied_version h = Some v"
  shows "case dict_get wms (uuid_str (sh_source_id h)) of None \<Rightarrow> \<not> strict | Some wm \<Rightarrow> v \<le> wm"
  using assms by (auto simp: apply_watermark_filter_def hit_drop_def split: option.splits if_splits)

lemma merge_hits:
  assumes "h \<in> set (rs_hits (run_merge_stage env rq vr anchor as_of wms))"
  shows "h \<in> set (ranking anchor as_of (rg_now env) (fst (apply_watermark_filter (rs_hits vr) wms (rg_strict_epoch env))))"
proof -
  let ?r = "ranking anchor as_of (rg_now env) (fst (apply_watermark_filter (rs_hits vr) wms (rg_strict_epoch env)))"
  let ?s = "start_index (sr_cursor rq)"
  obtain page nxt where p: "page_loop ?s (sr_top_k rq) 0 [] (slice_from ?s ?r) = (page, nxt)" by force
  then have "h \<in> set page" using assms by (simp add: run_merge_stage_def Let_def)
  then show ?thesis
    using page_loop_block [OF p] by (auto simp: slice_from_def dest: in_set_takeD in_set_dropD)
qed

lemma stamp_hits [simp]: "rs_hits (stamp_envelope now r a d ds st m) = rs_hits r"
  by (simp add: stamp_envelope_def Let_def)

lemma search_hits:
  assumes "search env wait rq ws as_of = Inr r" and "rg_active env" and "h \<in> set (rs_hits r)"
  shows "\<exists>anchor vr t. h \<in> set (validate_hits (rg_tables env) ws
    (rs_hits (run_merge_stage env rq vr anchor t (map_option wr_per_source wait))))"
  using assms by (auto simp: search_def Let_def bind_res_eq_Inr) blast

text \<open>
  Claim C17: Served evidence is pinned and live. With the reconciler wired, every hit of a composed
  search is a chunk of a document that is not tombstoned, of an active source of the caller's
  workspace. If the hit carries a version and its source is known to one of the stores, the version
  is at most what Postgres, Qdrant and Neo4j have each reached for that source in the snapshot of the
  reconciler; a versioned hit of a source that no store knows is served only when the composer is
  not strict. A hit without a version is not pinned.
\<close>

theorem served_evidence_is_pinned_and_live:
  assumes "search env (Some w) rq ws as_of = Inr r" and "rg_active env" and "rg_tables env = Some t"
    and "wr_per_source w = cv_per_source (check_convergence pg q n)" and "h \<in> set (rs_hits r)"
  shows "live_chunk t ws (sh_chunk_id h) \<and>
    (case sh_applied_version h of
       None \<Rightarrow> True
     | Some v \<Rightarrow>
         (let s = uuid_str (sh_source_id h) in
          if dict_has pg s \<or> dict_has q s \<or> dict_has n s
          then v \<le> dict_getd pg s 0 \<and> v \<le> dict_getd q s 0 \<and> v \<le> dict_getd n s 0
          else \<not> rg_strict_epoch env))"
proof -
  obtain anchor vr x where m: "h \<in> set (rs_hits (run_merge_stage env rq vr anchor x (Some (wr_per_source w))))"
    and live: "live_chunk t ws (sh_chunk_id h)"
    using search_hits [OF assms(1,2,5)] assms(3) by (auto simp: validate_hits_def)
  obtain h' where h': "h' \<in> set (fst (apply_watermark_filter (rs_hits vr) (Some (wr_per_source w)) (rg_strict_epoch env)))"
      "sh_source_id h = sh_source_id h'" "sh_applied_version h = sh_applied_version h'"
    using mem_ranking [OF merge_hits [OF m]] by auto
  have "case dict_get (wr_per_source w) (uuid_str (sh_source_id h)) of None \<Rightarrow> \<not> rg_strict_epoch env | Some wm \<Rightarrow> v \<le> wm"
    if "sh_applied_version h = Some v" for v
    using kept_hit_pinned [OF h'(1)] that h'(2,3) by simp
  then show ?thesis
    using live unfolding assms(4) check_per_source floor_of_def Let_def by (auto split: option.splits if_splits)
qed

text \<open>A composer over concrete stores, for one workspace with two sources.\<close>

definition demo_hit :: "uuid \<Rightarrow> uuid \<Rightarrow> int option \<Rightarrow> real \<Rightarrow> search_hit" where
  "demo_hit c s v sc =
     \<lparr>sh_chunk_id = c, sh_document_id = 1, sh_score = sc, sh_text = ''text'', sh_source_id = s, sh_source_type = ''git'',
      sh_indexed_at = 0, sh_source_instance = None, sh_confidence = None, sh_score_type = None, sh_impact = None,
      sh_applied_version = v\<rparr>"

definition demo_stats :: query_stats where
  "demo_stats = \<lparr>qs_total_matches = 2, qs_vector_matches = 2, qs_text_matches = 0\<rparr>"

definition demo_result :: "search_hit list \<Rightarrow> search_result" where
  "demo_result hs = \<lparr>rs_hits = hs, rs_query_stats = demo_stats, rs_effective_as_of = None, rs_degraded_response = None,
     rs_min_applied_version = None, rs_degraded_subsystems = [], rs_staleness = None, rs_pinned_watermark = None,
     rs_next_cursor = None\<rparr>"

definition demo_tables :: rag_tables where
  "demo_tables = \<lparr>rt_sources = [\<lparr>bs_id = 5, bs_tenant = Some 9, bs_active = True\<rparr>],
     rt_documents = [\<lparr>bd_id = 1, bd_source_id = 5, bd_tombstoned = False\<rparr>],
     rt_chunks = [\<lparr>bc_id = 2, bc_document_id = 1\<rparr>], rt_entities = []\<rparr>"

definition demo_env :: rag_env where
  "demo_env = \<lparr>rg_active = True, rg_strict_epoch = True, rg_traverse = (\<lambda>_ _ _ _. Inl (ValueError [])),
     rg_vector = (\<lambda>_ _ _. Inr (demo_result [demo_hit 2 5 (Some 3) 1, demo_hit 3 5 (Some 8) 1])),
     rg_legacy = (\<lambda>_. Inl TypeError), rg_tables = Some demo_tables, rg_parked = None, rg_now = 0\<rparr>"

definition demo_request :: search_request where
  "demo_request = \<lparr>sr_query = ''q'', sr_top_k = 10, sr_sources = None, sr_types = None, sr_max_age_seconds = None,
     sr_filters = None, sr_include_tombstoned = False, sr_retrieval_strategy = ''hybrid'', sr_as_of = None,
     sr_cursor = None\<rparr>"

definition demo_versions :: "int \<Rightarrow> (string, int) dict" where
  "demo_versions v = [(uuid_str 5, v)]"

definition demo_wait :: wait_result where
  "demo_wait = stopped_at (check_convergence (demo_versions 8) (demo_versions 8) (demo_versions 4))"

lemma demo_search:
  "\<exists>r h. search demo_env (Some demo_wait) demo_request 9 None = Inr r \<and> h \<in> set (rs_hits r)
     \<and> sh_chunk_id h = 2 \<and> sh_source_id h = 5 \<and> sh_applied_version h = Some 3"
proof -
  have wm: "dict_get (wr_per_source demo_wait) (uuid_str 5) = Some 4"
    by (simp add: demo_wait_def stopped_at_def check_per_source demo_versions_def dict_has_def floor_of_def dict_getd_def)
  have f: "fst (apply_watermark_filter [demo_hit 2 5 (Some 3) 1, demo_hit 3 5 (Some 8) 1]
      (Some (wr_per_source demo_wait)) True) = [demo_hit 2 5 (Some 3) 1]"
    by (simp add: apply_watermark_filter_def hit_drop_def demo_hit_def wm)
  let ?h = "score_hit anchor_absent None 0 (demo_hit 2 5 (Some 3) 1)"
  have "\<exists>r. search demo_env (Some demo_wait) demo_request 9 None = Inr r \<and> rs_hits r = [?h]"
    by (simp add: search_def demo_env_def demo_request_def run_anchor_stage_def extract_anchor_def run_vector_stage_def
        run_merge_stage_def demo_result_def f ranking_def start_index_def slice_from_def order_by_def
        validate_hits_def live_chunk_def live_source_def demo_tables_def Let_def)
      (simp add: demo_hit_def GRAPHRAG_BUDGET_CHARS_def)
  then show ?thesis by (force simp: demo_hit_def)
qed

theorem served_evidence_is_pinned_and_live_witness:
  "\<exists>r h. search demo_env (Some demo_wait) demo_request 9 None = Inr r \<and> h \<in> set (rs_hits r)
     \<and> sh_applied_version h = Some 3 \<and> live_chunk demo_tables 9 (sh_chunk_id h)
     \<and> 3 \<le> dict_getd (demo_versions 4) (uuid_str (sh_source_id h)) 0"
proof -
  obtain r h where r: "search demo_env (Some demo_wait) demo_request 9 None = Inr r" "h \<in> set (rs_hits r)"
    "sh_applied_version h = Some 3" using demo_search by blast
  have "wr_per_source demo_wait =
      cv_per_source (check_convergence (demo_versions 8) (demo_versions 8) (demo_versions 4))"
    by (simp add: demo_wait_def stopped_at_def)
  from served_evidence_is_pinned_and_live [OF r(1) _ _ this r(2), of demo_tables] r
  show ?thesis by (auto simp: demo_env_def Let_def split: if_splits)
qed

section \<open>Pages\<close>

text \<open>A client that follows the cursors: \<open>None\<close> if it does not come to an end within the fuel.\<close>

fun read_all ::
  "nat \<Rightarrow> rag_env \<Rightarrow> search_result \<Rightarrow> anchor_stage \<Rightarrow> int option \<Rightarrow> (string, int) dict option \<Rightarrow> search_request
   \<Rightarrow> search_hit list option" where
  "read_all 0 env vr anchor as_of wms rq = None"
| "read_all (Suc fuel) env vr anchor as_of wms rq =
     (let r = run_merge_stage env rq vr anchor as_of wms in
      case rs_next_cursor r of
        None \<Rightarrow> Some (rs_hits r)
      | Some c \<Rightarrow> map_option (\<lambda>hs. rs_hits r @ hs) (read_all fuel env vr anchor as_of wms (rq\<lparr>sr_cursor := Some c\<rparr>)))"

abbreviation full_ranking :: "rag_env \<Rightarrow> search_result \<Rightarrow> anchor_stage \<Rightarrow> int option \<Rightarrow> (string, int) dict option \<Rightarrow> search_hit list" where
  "full_ranking env vr anchor as_of wms \<equiv>
     ranking anchor as_of (rg_now env) (fst (apply_watermark_filter (rs_hits vr) wms (rg_strict_epoch env)))"

lemma merge_page:
  assumes "start_index (sr_cursor rq) = int k" and "1 \<le> sr_top_k rq"
  shows "\<exists>m. rs_hits (run_merge_stage env rq vr anchor as_of wms) = take m (drop k (full_ranking env vr anchor as_of wms))
    \<and> rs_next_cursor (run_merge_stage env rq vr anchor as_of wms) =
        (if k + m < length (full_ranking env vr anchor as_of wms) then Some (int_str (int (k + m))) else None)
    \<and> int m \<le> sr_top_k rq \<and> (k < length (full_ranking env vr anchor as_of wms) \<longrightarrow> 0 < m)
    \<and> (chars (take m (drop k (full_ranking env vr anchor as_of wms))) \<le> GRAPHRAG_BUDGET_CHARS \<or> m \<le> 1)"
proof -
  let ?r = "full_ranking env vr anchor as_of wms"
  obtain page nxt where p: "page_loop (int k) (sr_top_k rq) 0 [] (drop k ?r) = (page, nxt)" by force
  then obtain m where m: "page = take m (drop k ?r)" "m \<le> length (drop k ?r)"
    "nxt = (if m < length (drop k ?r) then Some (int k + int (length page)) else None)"
    "int (length page) \<le> sr_top_k rq" "drop k ?r \<noteq> [] \<longrightarrow> 0 < m"
    "chars (take m (drop k ?r)) \<le> GRAPHRAG_BUDGET_CHARS \<or> m = 0 \<or> m = 1"
    using page_loop_block [OF p] assms(2) by auto
  have "rs_hits (run_merge_stage env rq vr anchor as_of wms) = page"
    "rs_next_cursor (run_merge_stage env rq vr anchor as_of wms) = map_option int_str nxt"
    using p assms(1) by (simp_all add: run_merge_stage_def Let_def slice_from_def)
  then show ?thesis using m by (intro exI [of _ m]) auto
qed

lemma read_all_from:
  assumes "1 \<le> sr_top_k rq" and "start_index (sr_cursor rq) = int k"
    and "length (full_ranking env vr anchor as_of wms) \<le> k + fuel"
  shows "read_all (Suc fuel) env vr anchor as_of wms rq = Some (drop k (full_ranking env vr anchor as_of wms))"
  using assms
proof (induction fuel arbitrary: rq k)
  case 0
  obtain m where m: "rs_hits (run_merge_stage env rq vr anchor as_of wms) = take m (drop k (full_ranking env vr anchor as_of wms))"
    "rs_next_cursor (run_merge_stage env rq vr anchor as_of wms) =
        (if k + m < length (full_ranking env vr anchor as_of wms) then Some (int_str (int (k + m))) else None)"
    using merge_page [OF 0(2,1)] by blast
  then show ?case using 0(3) by (simp add: Let_def)
next
  case (Suc fuel)
  let ?r = "full_ranking env vr anchor as_of wms"
  obtain m where m: "rs_hits (run_merge_stage env rq vr anchor as_of wms) = take m (drop k ?r)"
    "rs_next_cursor (run_merge_stage env rq vr anchor as_of wms) =
        (if k + m < length ?r then Some (int_str (int (k + m))) else None)" "k < length ?r \<longrightarrow> 0 < m"
    using merge_page [OF Suc.prems(2,1)] by blast
  show ?case
  proof (cases "k + m < length ?r")
    case False
    then show ?thesis using m by (subst read_all.simps) (simp add: Let_def)
  next
    case True
    have "start_index (Some (int_str (int (k + m)))) = int (k + m)"
      using py_int_str [of "k + m"] by (auto simp: start_index_def py_int_def strip_by_def)
    moreover have "length ?r \<le> (k + m) + fuel" using Suc.prems(3) m(3) True by linarith
    ultimately have "read_all (Suc fuel) env vr anchor as_of wms (rq\<lparr>sr_cursor := Some (int_str (int (k + m)))\<rparr>)
        = Some (drop (k + m) ?r)"
      using Suc.IH [of "rq\<lparr>sr_cursor := Some (int_str (int (k + m)))\<rparr>" "k + m"] Suc.prems(1) by simp
    then have "read_all (Suc (Suc fuel)) env vr anchor as_of wms rq = Some (take m (drop k ?r) @ drop (k + m) ?r)"
      using m True by (subst read_all.simps) (simp add: Let_def)
    then show ?thesis by (metis add.commute append_take_drop_id drop_drop)
  qed
qed

text \<open>
  Claim C21: Following the cursors reads the ranking once. For a fixed vector result, a client that
  starts without a cursor and follows every \<^verbatim>\<open>next_cursor\<close> gets, after at most one page per
  hit plus one, all hits of the ranking in order, none skipped and none twice.
\<close>

theorem pages_cover_ranking:
  assumes "1 \<le> sr_top_k rq" and "sr_cursor rq = None"
  shows "read_all (Suc (length (full_ranking env vr anchor as_of wms))) env vr anchor as_of wms rq
    = Some (full_ranking env vr anchor as_of wms)"
proof -
  have "start_index (sr_cursor rq) = int 0" using assms(2) by (simp add: start_index_def)
  from read_all_from [OF assms(1) this, of anchor as_of env vr wms "length (full_ranking env vr anchor as_of wms)"]
  show ?thesis by simp
qed

theorem pages_cover_ranking_witness:
  "read_all (Suc (length (full_ranking demo_env (demo_result [demo_hit 2 5 None 1, demo_hit 3 5 None 2]) anchor_absent None None)))
     demo_env (demo_result [demo_hit 2 5 None 1, demo_hit 3 5 None 2]) anchor_absent None None (demo_request\<lparr>sr_top_k := 1\<rparr>)
   = Some (full_ranking demo_env (demo_result [demo_hit 2 5 None 1, demo_hit 3 5 None 2]) anchor_absent None None)"
  by (rule pages_cover_ranking) (simp_all add: demo_request_def)

section \<open>Candidates\<close>

definition cand_ok :: "candidates \<Rightarrow> bool" where
  "cand_ok c \<longleftrightarrow> ca_ids c \<noteq> [] \<and> distinct (ca_ids c) \<and> length (ca_depths c) = length (ca_ids c)
     \<and> length (ca_parked c) = length (ca_ids c)"

lemma collect_loop_ok:
  assumes "cand_ok c" and "length (ca_ids c) < MAX_ANCHOR_CANDIDATES"
  shows "cand_ok (collect_loop ns c) \<and> length (ca_ids (collect_loop ns c)) \<le> MAX_ANCHOR_CANDIDATES
    \<and> hd (ca_ids (collect_loop ns c)) = hd (ca_ids c)"
  using assms
proof (induction ns c rule: collect_loop.induct)
  case (1 c)
  then show ?case by simp
next
  case (2 n ns c)
  let ?c = "\<lparr>ca_ids = ca_ids c @ [nv_source n], ca_depths = ca_depths c @ [nv_depth n],
     ca_parked = ca_parked c @ [nv_is_parked n], ca_kept = ca_kept c @ [nv_name n]\<rparr>"
  show ?case
  proof (cases "nv_source n \<in> set (ca_ids c)")
    case True
    have "cand_ok (c\<lparr>ca_kept := ca_kept c @ [nv_name n]\<rparr>)" using 2(3) by (simp add: cand_ok_def)
    then show ?thesis using 2(1) [OF True] 2(4) True by simp
  next
    case False
    have ok: "cand_ok ?c" using 2(3) False by (auto simp: cand_ok_def)
    have hd: "hd (ca_ids c @ [nv_source n]) = hd (ca_ids c)" using 2(3) by (simp add: cand_ok_def)
    show ?thesis
    proof (cases "MAX_ANCHOR_CANDIDATES \<le> length (ca_ids ?c)")
      case True
      then have "collect_loop (n # ns) c = ?c" using False by (simp add: Let_def)
      then show ?thesis using ok hd 2(4) by simp
    next
      case le: False
      then have "collect_loop (n # ns) c = collect_loop ns ?c" using False by (simp add: Let_def)
      then show ?thesis using 2(2) [OF False refl le ok] le hd by simp
    qed
  qed
qed

lemma collect_candidates_ok:
  assumes "collect_candidates g = (c, cs, g')"
  shows "cand_ok c \<and> length (ca_ids c) \<le> MAX_ANCHOR_CANDIDATES \<and> hd (ca_ids c) = nv_source (gr_seed g)"
proof -
  let ?c0 = "\<lparr>ca_ids = [nv_source (gr_seed g)], ca_depths = [0], ca_parked = [nv_is_parked (gr_seed g)],
     ca_kept = [nv_name (gr_seed g)]\<rparr>"
  have "c = collect_loop (rank_nodes (gr_edges g) (gr_related g)) ?c0"
    using assms by (auto simp: collect_candidates_def Let_def)
  then show ?thesis
    using collect_loop_ok [of ?c0 "rank_nodes (gr_edges g) (gr_related g)"]
    by (simp add: cand_ok_def MAX_ANCHOR_CANDIDATES_def)
qed

lemma stamp_parked_source [simp]: "nv_source (gr_seed (stamp_parked f g)) = nv_source (gr_seed g)"
  by (simp add: stamp_parked_def split: option.splits)

lemma anchor_of_graph_ok:
  "let a = anchor_of_graph env ws name g in
     length (an_source_ids a) \<le> MAX_ANCHOR_CANDIDATES \<and> distinct (an_source_ids a)
     \<and> length (an_depths a) = length (an_source_ids a) \<and> length (an_parked a) = length (an_source_ids a)
     \<and> (an_hit a \<longleftrightarrow> an_source_ids a \<noteq> []) \<and> (an_hit a \<longrightarrow> hd (an_source_ids a) = nv_source (gr_seed g))"
proof -
  let ?v = "validate_entities (rg_tables env) ws (nv_name (gr_seed g) # map nv_name (gr_related g))"
  let ?g = "stamp_parked (rg_parked env) (g\<lparr>gr_related := filter (\<lambda>n. nv_name n \<in> set ?v) (gr_related g)\<rparr>)"
  obtain c cs g' where c: "collect_candidates ?g = (c, cs, g')" by (cases "collect_candidates ?g") auto
  show ?thesis
    using collect_candidates_ok [OF c]
    by (simp add: anchor_of_graph_def Let_def c anchor_miss_def cand_ok_def)
qed

lemma run_anchor_cases:
  assumes "run_anchor_stage env rq ws as_of wms = Inr a"
  shows "a = anchor_absent \<or> a = anchor_miss (extract_anchor rq)
    \<or> (\<exists>g. a = anchor_of_graph env ws (extract_anchor rq) g)"
  using assms by (auto simp: run_anchor_stage_def Let_def split: if_splits sum.splits py_exn.splits option.splits prod.splits)

text \<open>
  The anchor stage hands over a usable candidate list. Whatever the graph store returns,
  a completed anchor stage has at most 32 sources, each once, with one depth and one parked flag
  each (so that the strict zips of the merge stage cannot raise), and it has sources exactly if
  the anchor was hit.
\<close>

theorem anchor_candidates_bounded:
  assumes "run_anchor_stage env rq ws as_of wms = Inr a"
  shows "length (an_source_ids a) \<le> 32 \<and> distinct (an_source_ids a)
     \<and> length (an_depths a) = length (an_source_ids a) \<and> length (an_parked a) = length (an_source_ids a)
     \<and> (an_hit a \<longleftrightarrow> an_source_ids a \<noteq> [])"
  using run_anchor_cases [OF assms] anchor_of_graph_ok [of env ws "extract_anchor rq"]
  by (auto simp: anchor_absent_def anchor_miss_def Let_def MAX_ANCHOR_CANDIDATES_def)

definition demo_node :: "string \<Rightarrow> string \<Rightarrow> int \<Rightarrow> int option \<Rightarrow> entity_node" where
  "demo_node name src d v = \<lparr>nv_id = 0, nv_name = name, nv_kind = ''svc'', nv_source = src, nv_depth = d,
     nv_edge_type = None, nv_is_parked = False, nv_recorded_at = None, nv_version = v\<rparr>"

definition demo_graph :: graph_result where
  "demo_graph = \<lparr>gr_seed = demo_node ''a'' ''s1'' 0 (Some 9), gr_related = [demo_node ''b'' ''s2'' 1 (Some 1)],
     gr_edges = [\<lparr>ge_from = ''a'', ge_to = ''b'', ge_type = ''CALLS''\<rparr>]\<rparr>"

definition anchored_env :: rag_env where
  "anchored_env = demo_env\<lparr>rg_traverse := (\<lambda>_ _ _ _. Inr demo_graph), rg_tables := None\<rparr>"

definition anchored_request :: search_request where
  "anchored_request = demo_request\<lparr>sr_filters := Some [(''graphrag_anchor'', JStr ''a'')]\<rparr>"

lemma anchored_name: "extract_anchor anchored_request = ''a''"
  by (simp add: extract_anchor_def anchored_request_def ANCHOR_FILTER_KEY_def strip_by_def is_space_def)

theorem anchor_candidates_bounded_witness:
  "\<exists>a. run_anchor_stage anchored_env anchored_request 9 None None = Inr a \<and> length (an_source_ids a) \<le> 32"
proof -
  have "run_anchor_stage anchored_env anchored_request 9 None None = Inr (anchor_of_graph anchored_env 9 ''a'' demo_graph)"
    by (simp add: run_anchor_stage_def anchored_name Let_def anchored_env_def)
  from anchor_candidates_bounded [OF this] this show ?thesis by blast
qed

lemma filter_keeps_seed:
  assumes "\<not> seed_ahead m (gr_seed g)"
  shows "\<exists>g' rs. apply_graph_watermark_filter g m strict = ((g', False), rs) \<and> gr_seed g' = gr_seed g"
proof (cases "filter (\<lambda>n. node_drop m strict n \<noteq> None) (gr_related g) = []")
  case True
  then show ?thesis using assms by (simp add: apply_graph_watermark_filter_def Let_def)
next
  case False
  then show ?thesis using assms unfolding apply_graph_watermark_filter_def Let_def by simp
qed

text \<open>
  The anchor itself escapes the strict rule. In strict mode a related node of a source that
  the watermark map does not know is excluded, but an anchor of such a source is kept whatever
  its version, and its source becomes the first candidate, whose hits get the full graph bonus.
\<close>

theorem unmapped_anchor_is_kept:
  assumes "extract_anchor rq \<noteq> []" and "rg_traverse env ws as_of (extract_anchor rq) MAX_ANCHOR_DEPTH = Inr g"
    and "m \<noteq> []" and "dict_get m (nv_source (gr_seed g)) = None" and "rg_tables env = None"
  shows "\<exists>a. run_anchor_stage env rq ws as_of (Some m) = Inr a \<and> an_hit a
    \<and> hd (an_source_ids a) = nv_source (gr_seed g)"
proof -
  have s: "\<not> seed_ahead m (gr_seed g)" using assms(4) by (simp add: seed_ahead_def)
  obtain g' rs where f: "apply_graph_watermark_filter g m (rg_strict_epoch env) = ((g', False), rs)"
    and seed: "gr_seed g' = gr_seed g"
    using filter_keeps_seed [OF s] by blast
  let ?a = "anchor_of_graph env ws (extract_anchor rq) g'"
  have "run_anchor_stage env rq ws as_of (Some m) = Inr ?a"
    using assms(1-3) f by (simp add: run_anchor_stage_def Let_def)
  moreover have "an_hit ?a"
    using assms(5) by (simp add: anchor_of_graph_def validate_entities_def Let_def split: prod.splits)
  ultimately show ?thesis using anchor_of_graph_ok [of env ws "extract_anchor rq" g'] seed by (auto simp: Let_def)
qed

theorem unmapped_anchor_is_kept_witness:
  "\<exists>a. run_anchor_stage anchored_env anchored_request 9 None (Some [(''s2'', 5)]) = Inr a \<and> an_hit a
    \<and> hd (an_source_ids a) = ''s1''"
  using unmapped_anchor_is_kept [of anchored_request anchored_env 9 None demo_graph "[(''s2'', 5)]"]
  by (simp add: anchored_name anchored_env_def) (simp add: demo_graph_def demo_node_def)

end
