(* ===== verification/QdrantStore.thy ===== *)
theory QdrantStore
  imports QdrantFilters GraphRag
begin

text \<open>
  The vector store adapter (\<^verbatim>\<open>packages/index/.../stores/qdrant_store.py\<close>): document upserts with
  the per-source checkpoint and bitemporal end-dating, tombstones, retention and counts. The Qdrant service is the \<open>engine\<close> argument; clock, random
  and name-based UUIDs and the embedding model are fields of \<open>qenv\<close>. The searches are in
  \<open>QdrantSearch\<close>; bootstrap of the collection and metrics are left out.
\<close>

section \<open>Constants and records\<close>

definition RRF_K :: nat where "RRF_K = 60"
definition SPARSE_CANDIDATE_FACTOR :: int where "SPARSE_CANDIDATE_FACTOR = 2"
definition SPARSE_VOCAB_SIZE :: nat where "SPARSE_VOCAB_SIZE = 2 ^ 20"
definition SCROLL_PAGE :: nat where "SCROLL_PAGE = 256"
definition COUNT_PAGE :: nat where "COUNT_PAGE = 1000"

definition STOPWORDS :: "string list" where
  "STOPWORDS = [''a'', ''an'', ''the'', ''and'', ''or'', ''of'', ''in'', ''is'', ''it'', ''to'', ''be'', ''as'',
     ''at'', ''by'', ''for'', ''on'', ''with'', ''this'', ''that'', ''from'', ''was'', ''are'', ''has'', ''had'',
     ''not'', ''but'', ''have'']"

record qenv =
  qe_now :: int
  qe_fresh :: "nat \<Rightarrow> uuid"
  qe_uuid5 :: "string \<Rightarrow> uuid"
  qe_dim :: nat
  qe_embed :: "string \<Rightarrow> rat list list res"

text \<open>A \<^verbatim>\<open>ChunkPayload\<close>: every key may be missing.\<close>

record vchunk =
  vc_chunk_id :: "uuid option"
  vc_ord :: "int option"
  vc_text :: "string option"
  vc_embedding :: "rat list option"
  vc_symbol :: "string option"
  vc_metadata :: "(string, json) dict option"
  vc_embedding_model :: "string option"
  vc_embedding_provider :: "string option"
  vc_parser_version :: "string option"
  vc_chunker_strategy :: "string option"

record upsert_args =
  ua_source_id :: uuid
  ua_external_id :: string
  ua_uri :: string
  ua_title :: "string option"
  ua_content_hash :: string
  ua_metadata :: "(string, json) dict"
  ua_chunks :: "vchunk list"
  ua_run_id :: "uuid option"
  ua_version :: "int option"
  ua_epoch :: "int option"
  ua_forced_replay :: bool

datatype upsert_action = ActCreated | ActUpdated | ActUnchanged

record upsert_outcome =
  uo_action :: upsert_action
  uo_document_id :: uuid
  uo_chunks_written :: nat
  uo_doc_version :: int

record document_record =
  dc_document_id :: uuid
  dc_content_hash :: string
  dc_doc_version :: int
  dc_point_ids :: "uuid list"
  dc_tombstoned :: bool

section \<open>Sparse vectors\<close>

text \<open>\<^verbatim>\<open>zlib.crc32\<close>: the reflected polynomial 0xEDB88320, bit by bit.\<close>

definition crc_bit :: "32 word \<Rightarrow> 32 word" where
  "crc_bit c = (if bit c 0 then xor (drop_bit 1 c) 0xEDB88320 else drop_bit 1 c)"

definition crc_byte :: "32 word \<Rightarrow> char \<Rightarrow> 32 word" where
  "crc_byte c b = (crc_bit ^^ 8) (xor c (of_nat (ord b)))"

definition crc32 :: "string \<Rightarrow> 32 word" where
  "crc32 s = not (foldl crc_byte (not 0) s)"

definition is_token_char :: "char \<Rightarrow> bool" where
  "is_token_char c \<longleftrightarrow> (97 \<le> ord c \<and> ord c \<le> 122) \<or> (48 \<le> ord c \<and> ord c \<le> 57)"

text \<open>
  \<^verbatim>\<open>re.split(r"[^a-z0-9]+", s)\<close>, without the empty tokens at the two ends, which the length
  test drops.
\<close>

fun token_split :: "string \<Rightarrow> string \<Rightarrow> string list" where
  "token_split cur [] = [rev cur]"
| "token_split cur (c # cs) =
     (if is_token_char c then token_split (c # cur) cs else rev cur # token_split [] cs)"

definition sparse_terms :: "string \<Rightarrow> nat list" where
  "sparse_terms text =
     map (\<lambda>tok. unat (crc32 (utf8_encode tok)) mod SPARSE_VOCAB_SIZE)
       (filter (\<lambda>tok. 1 < length tok \<and> tok \<notin> set STOPWORDS) (token_split [] (map lower_char text)))"

definition tokenize_to_sparse :: "string \<Rightarrow> sparse_vector" where
  "tokenize_to_sparse text =
     (let terms = sparse_terms text;
          indices = sort (remdups terms);
          max_tf = Max (set (0 # map (count_list terms) indices))
      in if terms = [] then \<lparr>sv_indices = [], sv_values = []\<rparr>
         else \<lparr>sv_indices = indices, sv_values = map (\<lambda>i. of_nat (count_list terms i) / of_nat max_tf) indices\<rparr>)"

section \<open>Payloads\<close>

definition vstr_opt :: "string option \<Rightarrow> pval" where
  "vstr_opt s = (case s of None \<Rightarrow> VNull | Some x \<Rightarrow> VStr x)"

definition or_empty :: "string option \<Rightarrow> pval" where
  "or_empty s = VStr (case s of None \<Rightarrow> [] | Some x \<Rightarrow> x)"

definition extract_workspace_id :: "(string, json) dict \<Rightarrow> uuid res" where
  "extract_workspace_id metadata =
     (case dict_get metadata ''workspace_id'' of
        None \<Rightarrow> Inl (ValueError ''workspace_id'')
      | Some JNull \<Rightarrow> Inl (ValueError ''workspace_id'')
      | Some (JStr s) \<Rightarrow> uuid_parse s
      | Some _ \<Rightarrow> Inl TypeError)"

definition require_chunk_fields :: "vchunk \<Rightarrow> (string \<times> int \<times> rat list) res" where
  "require_chunk_fields ch =
     (case vc_ord ch of
        None \<Rightarrow> Inl (ValueError ''ord'')
      | Some n \<Rightarrow>
          (case vc_text ch of
             None \<Rightarrow> Inl (ValueError ''text'')
           | Some t \<Rightarrow>
               (case vc_embedding ch of
                  None \<Rightarrow> Inl (ValueError ''embedding'')
                | Some e \<Rightarrow> Inr (t, n, e))))"

definition build_chunk_payload ::
  "upsert_args \<Rightarrow> uuid \<Rightarrow> uuid \<Rightarrow> int \<Rightarrow> int \<Rightarrow> vchunk \<Rightarrow> string \<Rightarrow> int \<Rightarrow> qpayload" where
  "build_chunk_payload a ws document_id doc_version now ch text n =
     [(''workspace_id'', VStr (uuid_str ws)), (''source_id'', VStr (uuid_str (ua_source_id a))),
      (''document_id'', VStr (uuid_str document_id)), (''external_id'', VStr (ua_external_id a)),
      (''uri'', VStr (ua_uri a)), (''title'', vstr_opt (ua_title a)), (''content_hash'', VStr (ua_content_hash a)),
      (''doc_version'', VInt doc_version), (''ord'', VInt n), (''text'', VStr text), (''symbol'', vstr_opt (vc_symbol ch)),
      (''metadata'', VMap (case vc_metadata ch of None \<Rightarrow> [] | Some m \<Rightarrow> m)),
      (''embedding_model'', or_empty (vc_embedding_model ch)),
      (''embedding_provider'', or_empty (vc_embedding_provider ch)),
      (''parser_version'', or_empty (vc_parser_version ch)), (''chunker_strategy'', or_empty (vc_chunker_strategy ch)),
      (''ingestion_run_id'', vstr_opt (map_option uuid_str (ua_run_id a))), (''tombstoned_at'', VNull),
      (''recorded_at'', VTime now), (''valid_from'', VTime now), (''valid_to'', VNull),
      (''doc_metadata'', VMap (ua_metadata a))]"

definition chunk_to_point ::
  "qenv \<Rightarrow> upsert_args \<Rightarrow> uuid \<Rightarrow> uuid \<Rightarrow> int \<Rightarrow> nat \<Rightarrow> vchunk \<Rightarrow> qpoint res" where
  "chunk_to_point env a ws document_id doc_version i ch =
     bind_res (require_chunk_fields ch) (\<lambda>(text, n, embedding).
       let sparse = tokenize_to_sparse text in
       Inr \<lparr>qp_id = (case vc_chunk_id ch of Some u \<Rightarrow> u | None \<Rightarrow> qe_fresh env (Suc i)),
            qp_dense = embedding,
            qp_sparse = (if sv_indices sparse \<noteq> [] then Some sparse else None),
            qp_payload = build_chunk_payload a ws document_id doc_version (qe_now env) ch text n\<rparr>)"

fun chunks_to_points ::
  "qenv \<Rightarrow> upsert_args \<Rightarrow> uuid \<Rightarrow> uuid \<Rightarrow> int \<Rightarrow> nat \<Rightarrow> vchunk list \<Rightarrow> qpoint list res" where
  "chunks_to_points env a ws document_id doc_version i [] = Inr []"
| "chunks_to_points env a ws document_id doc_version i (ch # chs) =
     bind_res (chunk_to_point env a ws document_id doc_version i ch) (\<lambda>p.
     bind_res (chunks_to_points env a ws document_id doc_version (Suc i) chs) (\<lambda>ps. Inr (p # ps)))"

section \<open>Scrolling\<close>

text \<open>The loop of \<^verbatim>\<open>_scroll_all\<close>; \<open>None\<close> is a loop that never ends.\<close>

partial_function (option) scroll_from ::
  "'q engine \<Rightarrow> qfilter \<Rightarrow> nat \<Rightarrow> uuid option \<Rightarrow> qpoint list \<Rightarrow> 'q \<Rightarrow> qpoint list res option" where
  "scroll_from en f page off out c =
     (case en_scroll en f page off c of
        Inl e \<Rightarrow> Some (Inl e)
      | Inr r \<Rightarrow>
          (case snd r of
             None \<Rightarrow> Some (Inr (out @ fst r))
           | Some next \<Rightarrow> scroll_from en f page (Some next) (out @ fst r) c))"

definition scroll_all :: "'q engine \<Rightarrow> qfilter \<Rightarrow> ('q, qpoint list) prog" where
  "scroll_all en f = (\<lambda>c. map_option (\<lambda>r. (r, c)) (scroll_from en f SCROLL_PAGE None [] c))"

section \<open>Documents\<close>

text \<open>
  \<^verbatim>\<open>str\<close> and \<^verbatim>\<open>int\<close> of a payload value. The text of an instant or of an object, which no field
  that is read this way holds, is left empty.
\<close>

fun pval_str :: "pval \<Rightarrow> string" where
  "pval_str VNull = ''None''"
| "pval_str (VBool b) = (if b then ''True'' else ''False'')"
| "pval_str (VInt i) = int_str i"
| "pval_str (VStr s) = s"
| "pval_str (VTime _) = []"
| "pval_str (VMap _) = []"

fun pval_int :: "pval \<Rightarrow> int res" where
  "pval_int (VInt i) = Inr i"
| "pval_int (VBool b) = Inr (if b then 1 else 0)"
| "pval_int (VStr s) = (case py_int s of Some i \<Rightarrow> Inr i | None \<Rightarrow> Inl (ValueError s))"
| "pval_int _ = Inl TypeError"

definition record_from_points :: "qpoint list \<Rightarrow> document_record res" where
  "record_from_points points =
     (let p = qp_payload (hd points) in
      case dict_get p ''document_id'' of
        Some (VStr raw) \<Rightarrow>
          bind_res (uuid_parse raw) (\<lambda>doc_id.
          bind_res (case dict_get p ''doc_version'' of None \<Rightarrow> Inr 0 | Some v \<Rightarrow> pval_int v) (\<lambda>version.
            Inr \<lparr>dc_document_id = doc_id,
                 dc_content_hash = (case dict_get p ''content_hash'' of None \<Rightarrow> [] | Some v \<Rightarrow> pval_str v),
                 dc_doc_version = version, dc_point_ids = map qp_id points,
                 dc_tombstoned = (case dict_get p ''tombstoned_at'' of
                                    None \<Rightarrow> False | Some VNull \<Rightarrow> False | Some _ \<Rightarrow> True)\<rparr>))
      | _ \<Rightarrow> Inl (ValueError ''qdrant point missing document_id in payload''))"

definition document_filter :: "uuid \<Rightarrow> uuid \<Rightarrow> string \<Rightarrow> qfilter" where
  "document_filter ws source_id external_id =
     build (with_current_only (with_external_id external_id (with_source_ids [source_id] (new_builder ws))))"

definition find_document :: "'q engine \<Rightarrow> uuid \<Rightarrow> uuid \<Rightarrow> string \<Rightarrow> ('q, document_record option) prog" where
  "find_document en ws source_id external_id =
     bind_p (scroll_all en (document_filter ws source_id external_id)) (\<lambda>points.
       if points = [] then ret_p None
       else bind_p (res_p (record_from_points points)) (\<lambda>r. ret_p (Some r)))"

definition end_date_points :: "'q engine \<Rightarrow> uuid list \<Rightarrow> uuid \<Rightarrow> int \<Rightarrow> ('q, unit) prog" where
  "end_date_points en ids ws valid_to =
     (if ids = [] then ret_p ()
      else tell_p (en_set_payload en (ByFilter (build_point_ids_filter ws ids)) [(''valid_to'', VTime valid_to)]))"

definition delete_points :: "'q engine \<Rightarrow> uuid list \<Rightarrow> ('q, unit) prog" where
  "delete_points en ids = (if ids = [] then ret_p () else tell_p (en_delete en (ByIds ids)))"

section \<open>Upsert\<close>

definition checkpoint_id :: "qenv \<Rightarrow> uuid \<Rightarrow> uuid" where
  "checkpoint_id env source_id = qe_uuid5 env (''checkpoint_'' @ uuid_str source_id)"

definition checkpoint_point :: "qenv \<Rightarrow> upsert_args \<Rightarrow> uuid \<Rightarrow> int \<Rightarrow> qpoint" where
  "checkpoint_point env a ws version =
     \<lparr>qp_id = checkpoint_id env (ua_source_id a), qp_dense = replicate (qe_dim env) 0, qp_sparse = None,
      qp_payload = [(''is_checkpoint'', VBool True), (''source_id'', VStr (uuid_str (ua_source_id a))),
        (''version'', VInt version), (''epoch'', case ua_epoch a of None \<Rightarrow> VNull | Some e \<Rightarrow> VInt e),
        (''workspace_id'', VStr (uuid_str ws))]\<rparr>"

text \<open>The comparison of the stored checkpoint with the version of the call.\<close>

definition should_skip :: "upsert_args \<Rightarrow> int \<Rightarrow> qpayload \<Rightarrow> bool" where
  "should_skip a version p =
     (let older = (case dict_get p ''version'' of Some (VInt v) \<Rightarrow> version \<le> v | _ \<Rightarrow> False);
          epoch_ahead = (case (ua_epoch a, dict_get p ''epoch'') of (Some e, Some (VInt e')) \<Rightarrow> e' < e | _ \<Rightarrow> False)
      in if ua_forced_replay a then False else if epoch_ahead then False else older)"

definition write_document ::
  "'q engine \<Rightarrow> qenv \<Rightarrow> upsert_args \<Rightarrow> uuid \<Rightarrow> document_record option \<Rightarrow> ('q, upsert_outcome) prog" where
  "write_document en env a ws existing =
     (let document_id = (case existing of Some d \<Rightarrow> dc_document_id d | None \<Rightarrow> qe_fresh env 0);
          doc_version = (case existing of Some d \<Rightarrow> dc_doc_version d + 1 | None \<Rightarrow> 1)
      in
        then_p (case existing of
                  Some d \<Rightarrow> end_date_points en (dc_point_ids d) ws (qe_now env)
                | None \<Rightarrow> ret_p ())
       (bind_p (res_p (chunks_to_points env a ws document_id doc_version 0 (ua_chunks a))) (\<lambda>chunk_points.
          let points = chunk_points @ (case ua_version a of
                         Some v \<Rightarrow> [checkpoint_point env a ws v] | None \<Rightarrow> [])
          in then_p (if points \<noteq> [] then tell_p (en_upsert en points) else ret_p ())
               (ret_p \<lparr>uo_action = (case existing of Some _ \<Rightarrow> ActUpdated | None \<Rightarrow> ActCreated),
                       uo_document_id = document_id, uo_chunks_written = length (ua_chunks a),
                       uo_doc_version = doc_version\<rparr>))))"

definition upsert_if_new ::
  "'q engine \<Rightarrow> qenv \<Rightarrow> upsert_args \<Rightarrow> uuid \<Rightarrow> ('q, upsert_outcome) prog" where
  "upsert_if_new en env a ws =
     bind_p (find_document en ws (ua_source_id a) (ua_external_id a)) (\<lambda>existing.
       case existing of
         Some d \<Rightarrow>
           if dc_content_hash d = ua_content_hash a
           then ret_p \<lparr>uo_action = ActUnchanged, uo_document_id = dc_document_id d, uo_chunks_written = 0,
                       uo_doc_version = dc_doc_version d\<rparr>
           else write_document en env a ws existing
       | None \<Rightarrow> write_document en env a ws existing)"

definition upsert_chunks :: "'q engine \<Rightarrow> qenv \<Rightarrow> upsert_args \<Rightarrow> ('q, upsert_outcome) prog" where
  "upsert_chunks en env a =
     bind_p (res_p (extract_workspace_id (ua_metadata a))) (\<lambda>ws.
       case ua_version a of
         None \<Rightarrow> upsert_if_new en env a ws
       | Some version \<Rightarrow>
           bind_p (ask_p (en_retrieve en (checkpoint_id env (ua_source_id a)))) (\<lambda>found.
             case found of
               Some p \<Rightarrow>
                 if qp_payload p \<noteq> [] \<and> should_skip a version (qp_payload p)
                 then ret_p \<lparr>uo_action = ActUnchanged, uo_document_id = qe_fresh env 0, uo_chunks_written = 0,
                             uo_doc_version = 0\<rparr>
                 else upsert_if_new en env a ws
             | None \<Rightarrow> upsert_if_new en env a ws))"

section \<open>Deletion and retention\<close>

definition delete_by_document :: "'q engine \<Rightarrow> qenv \<Rightarrow> uuid \<Rightarrow> string \<Rightarrow> uuid option \<Rightarrow> ('q, bool) prog" where
  "delete_by_document en env source_id external_id workspace_id =
     (case workspace_id of
        None \<Rightarrow> raise_p (ValueError ''workspace_id'')
      | Some ws \<Rightarrow>
          bind_p (find_document en ws source_id external_id) (\<lambda>existing.
            case existing of
              None \<Rightarrow> ret_p False
            | Some d \<Rightarrow>
                if dc_tombstoned d then ret_p False
                else then_p (tell_p (en_set_payload en (ByIds (dc_point_ids d))
                                       [(''tombstoned_at'', VTime (qe_now env))]))
                       (ret_p True)))"

definition end_date_chunks ::
  "'q engine \<Rightarrow> qenv \<Rightarrow> uuid \<Rightarrow> uuid \<Rightarrow> int option \<Rightarrow> string list \<Rightarrow> ('q, nat) prog" where
  "end_date_chunks en env source_id ws snapshot_at exclude =
     (let f = build_end_date_chunks_filter ws source_id exclude in
      bind_p (ask_p (en_count en f)) (\<lambda>before.
        if before = 0 then ret_p 0
        else then_p (tell_p (en_set_payload en (ByFilter f)
                               [(''valid_to'', VTime (case snapshot_at of Some t \<Rightarrow> t | None \<Rightarrow> qe_now env))]))
               (ret_p before)))"

definition doc_ids :: "qpoint list \<Rightarrow> pval list" where
  "doc_ids ps = remdups (filter (\<lambda>v. v \<noteq> VNull) (List.map_filter (\<lambda>p. dict_get (qp_payload p) ''document_id'') ps))"

definition delete_tombstoned :: "'q engine \<Rightarrow> qenv \<Rightarrow> int \<Rightarrow> ('q, nat) prog" where
  "delete_tombstoned en env older_than =
     bind_p (scroll_all en (build_tombstone_sweep_filter (qe_now env - older_than))) (\<lambda>records.
       then_p (if records \<noteq> [] then tell_p (en_delete en (ByIds (map qp_id records))) else ret_p ())
         (ret_p (length (doc_ids records))))"

definition count_retention_eligible :: "'q engine \<Rightarrow> uuid \<Rightarrow> int \<Rightarrow> ('q, nat) prog" where
  "count_retention_eligible en ws cutoff = ask_p (en_count en (build_retention_eligible_filter ws cutoff))"

text \<open>The UTC calendar day of an instant is the argument \<open>day_of\<close>.\<close>

fun group_by_day :: "(int \<Rightarrow> string) \<Rightarrow> qpoint list \<Rightarrow> (string, uuid list) dict \<Rightarrow> (string, uuid list) dict" where
  "group_by_day day_of [] d = d"
| "group_by_day day_of (p # ps) d =
     group_by_day day_of ps
       (if dict_get (qp_payload p) ''tier'' = Some (VStr ''warm'') then d
        else case dict_get (qp_payload p) ''recorded_at'' of
               Some (VTime t) \<Rightarrow> dict_set d (day_of t) (dict_getd d (day_of t) [] @ [qp_id p])
             | _ \<Rightarrow> d)"

fun mark_days :: "'q engine \<Rightarrow> (string, uuid list) dict \<Rightarrow> nat \<Rightarrow> ('q, nat) prog" where
  "mark_days en [] marked = ret_p marked"
| "mark_days en ((day, ids) # rest) marked =
     (if ids = [] then mark_days en rest marked
      else then_p (tell_p (en_set_payload en (ByIds ids) [(''tier'', VStr ''warm''), (''snapshot_date'', VStr day)]))
             (mark_days en rest (marked + length ids)))"

definition mark_retention_warm :: "'q engine \<Rightarrow> (int \<Rightarrow> string) \<Rightarrow> uuid \<Rightarrow> int \<Rightarrow> ('q, nat) prog" where
  "mark_retention_warm en day_of ws cutoff =
     bind_p (scroll_all en (build_retention_eligible_filter ws cutoff)) (\<lambda>records.
       mark_days en (group_by_day day_of records []) 0)"

definition delete_retention_archive :: "'q engine \<Rightarrow> uuid \<Rightarrow> string \<Rightarrow> ('q, nat) prog" where
  "delete_retention_archive en ws snapshot_date =
     (let f = build_warm_archive_filter ws snapshot_date in
      bind_p (ask_p (en_count en f)) (\<lambda>before.
        if before = 0 then ret_p 0 else then_p (tell_p (en_delete en (ByFilter f))) (ret_p before)))"

definition count_chunks_by_tier :: "'q engine \<Rightarrow> uuid \<Rightarrow> ('q, nat \<times> nat) prog" where
  "count_chunks_by_tier en ws =
     bind_p (ask_p (en_count en (build (exclude_tombstoned (new_builder ws))))) (\<lambda>total.
     bind_p (ask_p (en_count en (build_warm_tier_filter ws))) (\<lambda>warm. ret_p (total - warm, warm)))"

section \<open>Counts\<close>

text \<open>The two temporal narrowers: the instant, or the open rows.\<close>

definition temporal :: "int option \<Rightarrow> filter_builder \<Rightarrow> filter_builder" where
  "temporal as_of b = (case as_of of Some t \<Rightarrow> with_as_of (Some t) b | None \<Rightarrow> with_current_only b)"

definition count_documents :: "'q engine \<Rightarrow> uuid \<Rightarrow> uuid option \<Rightarrow> int option \<Rightarrow> ('q, nat) prog" where
  "count_documents en source_id workspace_id as_of =
     (case workspace_id of
        None \<Rightarrow> raise_p (ValueError ''workspace_id'')
      | Some ws \<Rightarrow>
          bind_p (scroll_all en (build (temporal as_of (exclude_tombstoned (with_source_ids [source_id] (new_builder ws)))))) (\<lambda>records.
            ret_p (length (doc_ids records))))"

definition count_chunks :: "'q engine \<Rightarrow> uuid \<Rightarrow> uuid option \<Rightarrow> int option \<Rightarrow> ('q, nat) prog" where
  "count_chunks en ws source_id as_of =
     (let b = exclude_tombstoned (new_builder ws);
          b' = (case source_id of None \<Rightarrow> b | Some s \<Rightarrow> with_source_ids [s] b)
      in ask_p (en_count en (build (temporal as_of b'))))"

fun first_per_document :: "pval list \<Rightarrow> qpoint list \<Rightarrow> qpayload list" where
  "first_per_document seen [] = []"
| "first_per_document seen (p # ps) =
     (case dict_get (qp_payload p) ''document_id'' of
        None \<Rightarrow> first_per_document seen ps
      | Some d \<Rightarrow>
          if d = VNull \<or> d \<in> set seen then first_per_document seen ps
          else qp_payload p # first_per_document (d # seen) ps)"

definition enumerate_chunks :: "'q engine \<Rightarrow> uuid \<Rightarrow> string \<Rightarrow> string \<Rightarrow> uuid option \<Rightarrow> ('q, qpayload list) prog" where
  "enumerate_chunks en ws key val source_id =
     bind_p (scroll_all en (build_enumerate_filter ws (''metadata.'' @ key) val source_id)) (\<lambda>records.
       ret_p (first_per_document [] records))"

definition count_enumerate :: "'q engine \<Rightarrow> uuid \<Rightarrow> string \<Rightarrow> string \<Rightarrow> uuid option \<Rightarrow> ('q, nat) prog" where
  "count_enumerate en ws key val source_id =
     ask_p (en_count en (build_enumerate_filter ws (''metadata.'' @ key) val source_id))"

fun tally_sources :: "qpoint list \<Rightarrow> (string, nat) dict \<Rightarrow> (string, nat) dict" where
  "tally_sources [] d = d"
| "tally_sources (p # ps) d =
     tally_sources ps
       (case dict_get (qp_payload p) ''source_id'' of
          None \<Rightarrow> d
        | Some v \<Rightarrow> if v = VNull then d else dict_set d (pval_str v) (dict_getd d (pval_str v) 0 + 1))"

definition count_chunks_by_source :: "'q engine \<Rightarrow> uuid \<Rightarrow> int option \<Rightarrow> ('q, (string, nat) dict) prog" where
  "count_chunks_by_source en ws as_of = (\<lambda>c.
     map_option (\<lambda>r. (bind_res r (\<lambda>records. Inr (tally_sources records [])), c))
       (scroll_from en (build (temporal as_of (exclude_tombstoned (new_builder ws)))) COUNT_PAGE None [] c))"

text \<open>
  The versions and the hashes of the entity chunks that the reconciler compares. A failure of
  the read is re-raised as one \<^verbatim>\<open>RuntimeError\<close>.
\<close>

fun fold_entities :: "string \<Rightarrow> (pval \<Rightarrow> 'v res) \<Rightarrow> qpoint list \<Rightarrow> (uuid, 'v) dict \<Rightarrow> (uuid, 'v) dict res" where
  "fold_entities field conv [] d = Inr d"
| "fold_entities field conv (p # ps) d =
     (let ext = (case dict_get (qp_payload p) ''external_id'' of None \<Rightarrow> [] | Some v \<Rightarrow> pval_str v) in
      if take 7 ext \<noteq> ''entity:'' then fold_entities field conv ps d
      else case uuid_parse (drop 7 ext) of
             Inl _ \<Rightarrow> fold_entities field conv ps d
           | Inr e \<Rightarrow>
               (case dict_get (qp_payload p) field of
                  None \<Rightarrow> fold_entities field conv ps d
                | Some v \<Rightarrow>
                    if v = VNull then fold_entities field conv ps d
                    else bind_res (conv v) (\<lambda>x. fold_entities field conv ps (dict_set d e x))))"

definition entity_field :: "'q engine \<Rightarrow> string \<Rightarrow> (pval \<Rightarrow> 'v res) \<Rightarrow> uuid \<Rightarrow> ('q, (uuid, 'v) dict) prog" where
  "entity_field en field conv ws = (\<lambda>c.
     case bind_p (scroll_all en (build (with_chunker_strategy ''entity_outbox'' (new_builder ws))))
            (\<lambda>records. res_p (fold_entities field conv records [])) c of
       None \<Rightarrow> None
     | Some (Inl _, c') \<Rightarrow> Some (Inl (BackendError ''RuntimeError''), c')
     | Some (Inr d, c') \<Rightarrow> Some (Inr d, c'))"

definition qdrant_entity_versions :: "'q engine \<Rightarrow> uuid \<Rightarrow> ('q, (uuid, int) dict) prog" where
  "qdrant_entity_versions en ws = entity_field en ''doc_version'' pval_int ws"

definition qdrant_entity_content_hashes :: "'q engine \<Rightarrow> uuid \<Rightarrow> ('q, (uuid, string) dict) prog" where
  "qdrant_entity_content_hashes en ws = entity_field en ''content_hash'' (\<lambda>v. Inr (pval_str v)) ws"

section \<open>Lemmas: the service\<close>

abbreviation by_id :: "qpoint list \<Rightarrow> bool" where
  "by_id xs \<equiv> sorted_wrt (\<lambda>x y. qp_id x < qp_id y) xs"

lemma engine_view:
  assumes "engine_ok en pts"
  shows engine_by_id: "by_id (pts c)"
    and engine_retrieve: "en_retrieve en i c = Inr r \<Longrightarrow> r = find (\<lambda>x. qp_id x = i) (pts c)"
    and engine_scroll: "en_scroll en f n off c = Inr pg \<Longrightarrow> pg = page_of n off (filter (filter_holds f) (pts c))"
    and engine_count: "en_count en f c = Inr k \<Longrightarrow> k = length (filter (filter_holds f) (pts c))"
    and engine_upsert: "en_upsert en xs c = Inr c' \<Longrightarrow> pts c' = fold put_point xs (pts c)"
    and engine_set_payload: "en_set_payload en sel kvs c = Inr c' \<Longrightarrow>
      pts c' = map (\<lambda>x. if selects sel x then merge_payload kvs x else x) (pts c)"
    and engine_delete: "en_delete en sel c = Inr c' \<Longrightarrow> pts c' = filter (\<lambda>x. \<not> selects sel x) (pts c)"
  using assms unfolding engine_ok_def by (elim conjE, (simp (no_asm_simp) | blast)+)

lemma engine_query:
  assumes "engine_ok en pts" and "en_query en q f n c = Inr r"
  shows "int (length r) \<le> max 0 n" and "distinct (map sp_id r)"
    and "s \<in> set r \<Longrightarrow> \<exists>x \<in> set (pts c). filter_holds f x \<and> qp_id x = sp_id s \<and> sp_payload s = Some (qp_payload x)"
proof -
  have *: "int (length r) \<le> max 0 n \<and> distinct (map sp_id r)
        \<and> list_all (\<lambda>s. \<exists>x \<in> set (pts c). filter_holds f x \<and> qp_id x = sp_id s \<and> sp_payload s = Some (qp_payload x)) r"
    using assms unfolding engine_ok_def by blast
  show "int (length r) \<le> max 0 n" and "distinct (map sp_id r)" using * by blast+
  show "s \<in> set r \<Longrightarrow> \<exists>x \<in> set (pts c). filter_holds f x \<and> qp_id x = sp_id s \<and> sp_payload s = Some (qp_payload x)"
    using * by (simp add: list_all_iff)
qed

lemma engine_answers:
  assumes "engine_up en"
  shows up_retrieve: "\<exists>r. en_retrieve en i c = Inr r"
    and up_scroll: "\<exists>r. en_scroll en f n off c = Inr r"
    and up_count: "\<exists>r. en_count en f c = Inr r"
    and up_upsert: "\<exists>c'. en_upsert en xs c = Inr c'"
    and up_set_payload: "\<exists>c'. en_set_payload en sel kvs c = Inr c'"
    and up_delete: "\<exists>c'. en_delete en sel c = Inr c'"
    and up_query: "\<exists>r. en_query en q f k c = Inr r"
  using assms unfolding engine_up_def is_ok_iff by blast+

lemma by_id_inj: "by_id xs \<Longrightarrow> x \<in> set xs \<Longrightarrow> y \<in> set xs \<Longrightarrow> qp_id x = qp_id y \<Longrightarrow> x = y"
  by (induction xs) (auto dest: less_imp_neq)

lemma distinct_by_id: "by_id xs \<Longrightarrow> distinct (map qp_id xs)"
  by (induction xs) (auto dest: less_imp_neq)

lemma by_id_filter: "by_id xs \<Longrightarrow> by_id (filter P xs)"
  by (rule sorted_wrt_filter)

lemma set_put_point: "by_id xs \<Longrightarrow> set (put_point x xs) = insert x {y \<in> set xs. qp_id y \<noteq> qp_id x}"
proof (induction xs)
  case Nil
  then show ?case by simp
next
  case (Cons y ys)
  have y: "\<And>z. z \<in> set ys \<Longrightarrow> qp_id y < qp_id z" using Cons.prems by simp
  show ?case
  proof (cases "qp_id x = qp_id y")
    case True
    then show ?thesis using y by auto (metis less_irrefl)
  next
    case False
    show ?thesis
    proof (cases "qp_id x < qp_id y")
      case True
      then show ?thesis using y by auto (metis less_trans less_irrefl)
    next
      case False': False
      then show ?thesis using False Cons.IH Cons.prems by auto
    qed
  qed
qed

lemma by_id_put_point: "by_id xs \<Longrightarrow> by_id (put_point x xs)"
proof (induction xs)
  case Nil
  then show ?case by simp
next
  case (Cons y ys)
  then have ys: "by_id ys" and y: "\<forall>z \<in> set ys. qp_id y < qp_id z" by simp_all
  show ?case
  proof (cases "qp_id x < qp_id y \<or> qp_id x = qp_id y")
    case True
    then show ?thesis using ys y by (auto dest: less_trans)
  next
    case False
    then have "qp_id y < qp_id x" by (meson linorder_neqE)
    then show ?thesis using False Cons.IH [OF ys] ys y by (auto simp: set_put_point)
  qed
qed

lemma by_id_fold_put: "by_id xs \<Longrightarrow> by_id (fold put_point ys xs)"
  by (induction ys arbitrary: xs) (simp_all add: by_id_put_point)

lemma set_fold_put:
  "by_id xs \<Longrightarrow> distinct (map qp_id ys) \<Longrightarrow>
     set (fold put_point ys xs) = set ys \<union> {x \<in> set xs. qp_id x \<notin> qp_id ` set ys}"
proof (induction ys arbitrary: xs)
  case Nil
  then show ?case by simp
next
  case (Cons y ys)
  have "set (fold put_point ys (put_point y xs))
      = set ys \<union> {x \<in> set (put_point y xs). qp_id x \<notin> qp_id ` set ys}"
    using Cons by (simp add: by_id_put_point)
  then show ?case using Cons.prems by (auto simp: set_put_point)
qed

lemma find_by_id: "by_id xs \<Longrightarrow> find (\<lambda>x. qp_id x = i) xs = Some x \<longleftrightarrow> x \<in> set xs \<and> qp_id x = i"
  by (induction xs) (auto dest: less_imp_neq)

lemma find_by_id_None: "find (\<lambda>x. qp_id x = i) xs = None \<longleftrightarrow> (\<forall>x \<in> set xs. qp_id x \<noteq> i)"
  by (auto simp: find_None_iff)

section \<open>Lemmas: scrolling\<close>

lemma dropWhile_by_id:
  "by_id xs \<Longrightarrow> k < length xs \<Longrightarrow> dropWhile (\<lambda>x. qp_id x < qp_id (xs ! k)) xs = drop k xs"
proof (induction xs arbitrary: k)
  case Nil
  then show ?case by simp
next
  case (Cons x xs)
  then show ?case by (cases k) auto
qed

lemma page_next:
  assumes "by_id xs" and "k + n < length xs"
  shows "dropWhile (\<lambda>x. qp_id x < qp_id (drop k xs ! n)) xs = drop (k + n) xs"
  using dropWhile_by_id [OF assms] assms(2) by (simp add: add.commute)

lemma scroll_from_exact:
  assumes "engine_ok en pts" and "0 < n"
    and "xs = filter (filter_holds f) (pts c)"
    and "(case off of None \<Rightarrow> xs | Some i \<Rightarrow> dropWhile (\<lambda>x. qp_id x < i) xs) = drop k xs"
  shows "\<exists>r. scroll_from en f n off out c = Some r \<and> (is_ok r \<longrightarrow> r = Inr (out @ drop k xs))
    \<and> (engine_up en \<longrightarrow> is_ok r)"
  using assms(4)
proof (induction "length xs - k" arbitrary: k off out rule: less_induct)
  case less
  have sorted: "by_id xs" using engine_by_id [OF assms(1), of c] assms(3) by (simp add: by_id_filter)
  show ?case
  proof (cases "en_scroll en f n off c")
    case (Inl e)
    then have "\<not> engine_up en" using up_scroll [of en f n off c] by auto
    then show ?thesis using Inl by (subst scroll_from.simps) simp
  next
    case (Inr pg)
    then have pg: "pg = page_of n off xs" using engine_scroll [OF assms(1)] assms(3) by blast
    show ?thesis
    proof (cases "length xs - k \<le> n")
      case True
      then have "length (drop k xs) \<le> n" by simp
      then have "pg = (drop k xs, None)" using less.prems pg by (cases off) (simp_all add: page_of_def del: length_drop)
      then show ?thesis using Inr by (subst scroll_from.simps) simp
    next
      case False
      then have lt: "k + n < length xs" by simp
      let ?i = "qp_id (drop k xs ! n)"
      have p: "pg = (take n (drop k xs), Some ?i)"
        using less.prems pg False by (cases off) (simp_all add: page_of_def Let_def)
      have step: "scroll_from en f n off out c = scroll_from en f n (Some ?i) (out @ take n (drop k xs)) c"
        using Inr p by (subst scroll_from.simps) simp
      have out: "out @ take n (drop k xs) @ drop (k + n) xs = out @ drop k xs"
        by (metis add.commute append_take_drop_id drop_drop)
      have "length xs - (k + n) < length xs - k" using lt assms(2) by simp
      from less.hyps [OF this, of "Some ?i" "out @ take n (drop k xs)"] page_next [OF sorted lt]
      show ?thesis unfolding step using out by simp
    qed
  qed
qed

lemma scroll_all_up:
  assumes "engine_ok en pts" and "engine_up en"
  shows "scroll_all en f c = Some (Inr (filter (filter_holds f) (pts c)), c)"
  using scroll_from_exact [OF assms(1), of SCROLL_PAGE "filter (filter_holds f) (pts c)" f c None 0 "[]"] assms(2)
  by (auto simp: scroll_all_def SCROLL_PAGE_def)

text \<open>
  The scroll loop ends on every collection, whatever the number of pages, and when the
  service answers it returns every matching point exactly once, in the order of the ids; if a
  page fails it ends with that failure and changes nothing.
\<close>

theorem scroll_reads_everything:
  assumes "engine_ok en pts"
  shows "\<exists>r. scroll_all en f c = Some (r, c) \<and> (\<forall>xs. r = Inr xs \<longrightarrow> xs = filter (filter_holds f) (pts c) \<and> distinct (map qp_id xs))
    \<and> (engine_up en \<longrightarrow> is_ok r)"
proof -
  let ?xs = "filter (filter_holds f) (pts c)"
  obtain r where r: "scroll_from en f SCROLL_PAGE None [] c = Some r" "is_ok r \<longrightarrow> r = Inr ?xs" "engine_up en \<longrightarrow> is_ok r"
    using scroll_from_exact [OF assms, of SCROLL_PAGE ?xs f c None 0 "[]"] by (auto simp: SCROLL_PAGE_def)
  have "distinct (map qp_id ?xs)"
    using by_id_filter [OF engine_by_id [OF assms]] by (simp add: distinct_by_id)
  then show ?thesis using r by (auto simp: scroll_all_def)
qed

section \<open>Lemmas: payloads of points\<close>

lemma chunk_payload_fields [simp]:
  "dict_get (build_chunk_payload a ws d v now ch t n) ''workspace_id'' = Some (VStr (uuid_str ws))"
  "dict_get (build_chunk_payload a ws d v now ch t n) ''source_id'' = Some (VStr (uuid_str (ua_source_id a)))"
  "dict_get (build_chunk_payload a ws d v now ch t n) ''document_id'' = Some (VStr (uuid_str d))"
  "dict_get (build_chunk_payload a ws d v now ch t n) ''external_id'' = Some (VStr (ua_external_id a))"
  "dict_get (build_chunk_payload a ws d v now ch t n) ''content_hash'' = Some (VStr (ua_content_hash a))"
  "dict_get (build_chunk_payload a ws d v now ch t n) ''doc_version'' = Some (VInt v)"
  "dict_get (build_chunk_payload a ws d v now ch t n) ''text'' = Some (VStr t)"
  "dict_get (build_chunk_payload a ws d v now ch t n) ''ingestion_run_id'' = Some (vstr_opt (map_option uuid_str (ua_run_id a)))"
  "dict_get (build_chunk_payload a ws d v now ch t n) ''tombstoned_at'' = Some VNull"
  "dict_get (build_chunk_payload a ws d v now ch t n) ''recorded_at'' = Some (VTime now)"
  "dict_get (build_chunk_payload a ws d v now ch t n) ''valid_from'' = Some (VTime now)"
  "dict_get (build_chunk_payload a ws d v now ch t n) ''valid_to'' = Some VNull"
  "dict_get (build_chunk_payload a ws d v now ch t n) ''is_checkpoint'' = None"
  "dict_get (build_chunk_payload a ws d v now ch t n) ''version'' = None"
  by (simp_all add: build_chunk_payload_def)

lemma checkpoint_fields [simp]:
  "qp_id (checkpoint_point env a ws v) = checkpoint_id env (ua_source_id a)"
  "dict_get (qp_payload (checkpoint_point env a ws v)) ''is_checkpoint'' = Some (VBool True)"
  "dict_get (qp_payload (checkpoint_point env a ws v)) ''source_id'' = Some (VStr (uuid_str (ua_source_id a)))"
  "dict_get (qp_payload (checkpoint_point env a ws v)) ''version'' = Some (VInt v)"
  "dict_get (qp_payload (checkpoint_point env a ws v)) ''epoch'' = Some (case ua_epoch a of None \<Rightarrow> VNull | Some e \<Rightarrow> VInt e)"
  "dict_get (qp_payload (checkpoint_point env a ws v)) ''workspace_id'' = Some (VStr (uuid_str ws))"
  "dict_get (qp_payload (checkpoint_point env a ws v)) ''valid_to'' = None"
  "dict_get (qp_payload (checkpoint_point env a ws v)) ''valid_from'' = None"
  "dict_get (qp_payload (checkpoint_point env a ws v)) ''external_id'' = None"
  "dict_get (qp_payload (checkpoint_point env a ws v)) ''document_id'' = None"
  "dict_get (qp_payload (checkpoint_point env a ws v)) ''recorded_at'' = None"
  "qp_payload (checkpoint_point env a ws v) \<noteq> []"
  by (simp_all add: checkpoint_point_def)

lemma merge_payload_fields [simp]:
  "qp_id (merge_payload kvs x) = qp_id x"
  "dict_get (qp_payload (merge_payload [(k, v)] x)) k' = (if k' = k then Some v else dict_get (qp_payload x) k')"
  "dict_get (qp_payload (merge_payload [(k, v), (k2, v2)] x)) k' =
     (if k' = k2 then Some v2 else if k' = k then Some v else dict_get (qp_payload x) k')"
  by (simp_all add: merge_payload_def)

text \<open>The two kinds of points of a collection.\<close>

definition chunk_point :: "qpoint \<Rightarrow> bool" where
  "chunk_point x \<longleftrightarrow>
     (let g = dict_get (qp_payload x) in
      (\<exists>w. g ''workspace_id'' = Some (VStr (uuid_str w))) \<and> (\<exists>s. g ''source_id'' = Some (VStr (uuid_str s)))
    \<and> (\<exists>d. g ''document_id'' = Some (VStr (uuid_str d))) \<and> (\<exists>e. g ''external_id'' = Some (VStr e))
    \<and> (\<exists>h. g ''content_hash'' = Some (VStr h)) \<and> (\<exists>v. g ''doc_version'' = Some (VInt v))
    \<and> (\<exists>t. g ''text'' = Some (VStr t)) \<and> (\<exists>t. g ''recorded_at'' = Some (VTime t)) \<and> (\<exists>t. g ''valid_from'' = Some (VTime t))
    \<and> (g ''valid_to'' = Some VNull \<or> (\<exists>t. g ''valid_to'' = Some (VTime t)))
    \<and> (g ''tombstoned_at'' = Some VNull \<or> (\<exists>t. g ''tombstoned_at'' = Some (VTime t)))
    \<and> (g ''ingestion_run_id'' = Some VNull \<or> (\<exists>u. g ''ingestion_run_id'' = Some (VStr (uuid_str u)))))"

definition version_mark :: "qpoint \<Rightarrow> bool" where
  "version_mark x \<longleftrightarrow>
     (let g = dict_get (qp_payload x) in
      (\<exists>v. g ''version'' = Some (VInt v)) \<and> g ''valid_to'' = None \<and> g ''valid_from'' = None
    \<and> g ''external_id'' = None \<and> g ''document_id'' = None \<and> g ''recorded_at'' = None)"

definition current :: "qpoint \<Rightarrow> bool" where
  "current x \<longleftrightarrow> dict_get (qp_payload x) ''valid_to'' = Some VNull"

definition doc_key :: "qpoint \<Rightarrow> pval option \<times> pval option \<times> pval option" where
  "doc_key x = (let g = dict_get (qp_payload x) in (g ''workspace_id'', g ''source_id'', g ''external_id''))"

definition generation :: "qpoint \<Rightarrow> pval option \<times> pval option \<times> pval option" where
  "generation x = (let g = dict_get (qp_payload x) in (g ''document_id'', g ''content_hash'', g ''doc_version''))"

text \<open>
  The invariant of a collection: two kinds of points, and one generation of every document among
  its open points.
\<close>

definition collection_ok :: "qpoint list \<Rightarrow> bool" where
  "collection_ok xs \<longleftrightarrow>
     (\<forall>x \<in> set xs. chunk_point x \<or> version_mark x)
   \<and> (\<forall>x \<in> set xs. \<forall>y \<in> set xs. current x \<longrightarrow> current y \<longrightarrow> doc_key x = doc_key y \<longrightarrow> generation x = generation y)"

definition doc_key_of :: "uuid \<Rightarrow> uuid \<Rightarrow> string \<Rightarrow> pval option \<times> pval option \<times> pval option" where
  "doc_key_of ws src ext = (Some (VStr (uuid_str ws)), Some (VStr (uuid_str src)), Some (VStr ext))"

lemma document_filter_iff:
  "filter_holds (document_filter ws src ext) x \<longleftrightarrow> current x \<and> doc_key x = doc_key_of ws src ext"
  by (auto simp: document_filter_def filter_holds_def build_def builder_defs current_def doc_key_def doc_key_of_def Let_def)

lemma current_chunk: "chunk_point x \<or> version_mark x \<Longrightarrow> current x \<Longrightarrow> chunk_point x"
  by (auto simp: version_mark_def current_def Let_def)

lemma point_ids_filter_iff:
  "filter_holds (build_point_ids_filter ws ids) x \<longleftrightarrow> in_workspace ws x \<and> qp_id x \<in> set ids"
  by (simp add: filter_holds_def build_point_ids_filter_def workspace_clause_def in_workspace_def)

text \<open>The points an upsert makes.\<close>

lemma chunk_to_pointD:
  assumes "chunk_to_point env a ws d v i ch = Inr p"
  shows "\<exists>t n. qp_payload p = build_chunk_payload a ws d v (qe_now env) ch t n"
    and "qp_id p = (case vc_chunk_id ch of Some u \<Rightarrow> u | None \<Rightarrow> qe_fresh env (Suc i))"
proof -
  obtain t n e where "require_chunk_fields ch = Inr (t, n, e)"
    using assms by (auto simp: chunk_to_point_def bind_res_eq_Inr)
  then have p: "p = \<lparr>qp_id = (case vc_chunk_id ch of Some u \<Rightarrow> u | None \<Rightarrow> qe_fresh env (Suc i)), qp_dense = e,
      qp_sparse = (if sv_indices (tokenize_to_sparse t) \<noteq> [] then Some (tokenize_to_sparse t) else None),
      qp_payload = build_chunk_payload a ws d v (qe_now env) ch t n\<rparr>"
    using assms by (simp add: chunk_to_point_def Let_def)
  show "\<exists>t n. qp_payload p = build_chunk_payload a ws d v (qe_now env) ch t n"
    by (intro exI [of _ t] exI [of _ n]) (simp add: p)
  show "qp_id p = (case vc_chunk_id ch of Some u \<Rightarrow> u | None \<Rightarrow> qe_fresh env (Suc i))" by (simp add: p)
qed

lemma chunks_to_pointsD:
  "chunks_to_points env a ws d v i chs = Inr ps \<Longrightarrow> p \<in> set ps \<Longrightarrow>
     \<exists>ch t n. qp_payload p = build_chunk_payload a ws d v (qe_now env) ch t n"
proof (induction chs arbitrary: i ps)
  case Nil
  then show ?case by simp
next
  case (Cons ch chs)
  obtain q qs where q: "chunk_to_point env a ws d v i ch = Inr q" "chunks_to_points env a ws d v (Suc i) chs = Inr qs"
    and ps: "ps = q # qs"
    using Cons.prems(1) by (auto simp: bind_res_eq_Inr)
  show ?case
  proof (cases "p = q")
    case True
    then show ?thesis using chunk_to_pointD(1) [OF q(1)] by blast
  next
    case False
    then show ?thesis using Cons.IH [OF q(2)] Cons.prems(2) ps by simp
  qed
qed

lemma chunks_to_points_ids:
  "chunks_to_points env a ws d v i chs = Inr ps \<Longrightarrow> list_all (\<lambda>ch. vc_chunk_id ch \<noteq> None) chs \<Longrightarrow>
     map qp_id ps = map (\<lambda>ch. the (vc_chunk_id ch)) chs"
  by (induction chs arbitrary: i ps) (auto simp: bind_res_eq_Inr chunk_to_pointD(2))

lemma made_point:
  assumes "chunks_to_points env a ws d v i chs = Inr ps" and "p \<in> set ps"
  shows "chunk_point p" and "current p" and "doc_key p = doc_key_of ws (ua_source_id a) (ua_external_id a)"
    and "generation p = (Some (VStr (uuid_str d)), Some (VStr (ua_content_hash a)), Some (VInt v))"
    and "dict_get (qp_payload p) ''valid_from'' = Some (VTime (qe_now env))"
    and "dict_get (qp_payload p) ''tombstoned_at'' = Some VNull"
    and "in_workspace ws p"
proof -
  obtain ch t n where p: "qp_payload p = build_chunk_payload a ws d v (qe_now env) ch t n"
    using chunks_to_pointsD [OF assms] by blast
  show "chunk_point p" unfolding chunk_point_def Let_def p by (cases "ua_run_id a") (simp_all add: vstr_opt_def)
  show "current p" "dict_get (qp_payload p) ''valid_from'' = Some (VTime (qe_now env))"
    "dict_get (qp_payload p) ''tombstoned_at'' = Some VNull" "in_workspace ws p"
    by (simp_all add: current_def p in_workspace_def)
  show "doc_key p = doc_key_of ws (ua_source_id a) (ua_external_id a)"
    "generation p = (Some (VStr (uuid_str d)), Some (VStr (ua_content_hash a)), Some (VInt v))"
    by (simp_all add: doc_key_def doc_key_of_def generation_def Let_def p)
qed

lemma checkpoint_is_mark: "version_mark (checkpoint_point env a ws v)"
  by (simp add: version_mark_def Let_def)

lemma mark_not_current: "version_mark x \<Longrightarrow> \<not> current x"
  by (simp add: version_mark_def current_def Let_def)

section \<open>Lemmas: what the writes do to the collection\<close>

lemma scroll_all_cases:
  assumes "engine_ok en pts" and "scroll_all en f c = Some (r, c')"
  shows "c' = c" and "r = Inr xs \<Longrightarrow> xs = filter (filter_holds f) (pts c)"
  using scroll_from_exact [OF assms(1), of SCROLL_PAGE "filter (filter_holds f) (pts c)" f c None 0 "[]"] assms(2)
  by (auto simp: scroll_all_def SCROLL_PAGE_def)

definition open_points :: "uuid \<Rightarrow> uuid \<Rightarrow> string \<Rightarrow> qpoint list \<Rightarrow> qpoint list" where
  "open_points ws src ext xs = filter (filter_holds (document_filter ws src ext)) xs"

lemma find_document_cases:
  assumes "engine_ok en pts" and "find_document en ws src ext c = Some (r, c')"
  shows "c' = c"
    and "r = Inr None \<Longrightarrow> open_points ws src ext (pts c) = []"
    and "r = Inr (Some d) \<Longrightarrow> record_from_points (open_points ws src ext (pts c)) = Inr d
          \<and> open_points ws src ext (pts c) \<noteq> []"
proof -
  obtain r1 c1 where s: "scroll_all en (document_filter ws src ext) c = Some (r1, c1)"
    using assms(2) by (auto simp: find_document_def bind_p_def split: option.splits)
  note sc = scroll_all_cases [OF assms(1) s]
  show "c' = c" using assms(2) s sc(1)
    by (auto simp: find_document_def bind_p_def res_p_def ret_p_def split: sum.splits if_splits)
  show "r = Inr None \<Longrightarrow> open_points ws src ext (pts c) = []"
    using assms(2) s sc
    by (auto simp: find_document_def bind_p_def res_p_def ret_p_def open_points_def split: sum.splits if_splits)
  show "r = Inr (Some d) \<Longrightarrow> record_from_points (open_points ws src ext (pts c)) = Inr d
          \<and> open_points ws src ext (pts c) \<noteq> []"
    using assms(2) s sc
    by (auto simp: find_document_def bind_p_def res_p_def ret_p_def open_points_def split: sum.splits if_splits)
qed

lemma record_point_ids: "record_from_points ps = Inr d \<Longrightarrow> dc_point_ids d = map qp_id ps"
  by (auto simp: record_from_points_def Let_def bind_res_eq_Inr split: option.splits pval.splits)

definition end_dated :: "uuid list \<Rightarrow> uuid \<Rightarrow> int \<Rightarrow> qpoint list \<Rightarrow> qpoint list" where
  "end_dated ids ws t xs =
     map (\<lambda>x. if in_workspace ws x \<and> qp_id x \<in> set ids then merge_payload [(''valid_to'', VTime t)] x else x) xs"

lemma end_dated_Nil [simp]: "end_dated [] ws t xs = xs"
  by (simp add: end_dated_def)

lemma end_date_points_cases:
  assumes "engine_ok en pts" and "end_date_points en ids ws t c = Some (r, c')"
  shows "pts c' = pts c \<or> pts c' = end_dated ids ws t (pts c)"
    and "r = Inr u \<Longrightarrow> pts c' = end_dated ids ws t (pts c)"
    and "r = Inl e \<Longrightarrow> c' = c"
  using assms(2) engine_set_payload [OF assms(1)]
  by (auto simp: end_date_points_def ret_p_def tell_p_def end_dated_def selects_def point_ids_filter_iff
      split: if_splits sum.splits)

definition retired :: "document_record option \<Rightarrow> uuid \<Rightarrow> int \<Rightarrow> qpoint list \<Rightarrow> qpoint list" where
  "retired existing ws t xs = (case existing of None \<Rightarrow> xs | Some d \<Rightarrow> end_dated (dc_point_ids d) ws t xs)"

definition doc_id_for :: "qenv \<Rightarrow> document_record option \<Rightarrow> uuid" where
  "doc_id_for env existing = (case existing of Some d \<Rightarrow> dc_document_id d | None \<Rightarrow> qe_fresh env 0)"

definition version_for :: "document_record option \<Rightarrow> int" where
  "version_for existing = (case existing of Some d \<Rightarrow> dc_doc_version d + 1 | None \<Rightarrow> 1)"

definition made_points :: "qenv \<Rightarrow> upsert_args \<Rightarrow> uuid \<Rightarrow> document_record option \<Rightarrow> qpoint list res" where
  "made_points env a ws existing =
     bind_res (chunks_to_points env a ws (doc_id_for env existing) (version_for existing) 0 (ua_chunks a)) (\<lambda>ps.
       Inr (ps @ (case ua_version a of Some v \<Rightarrow> [checkpoint_point env a ws v] | None \<Rightarrow> [])))"

text \<open>The four ways in which a write can end.\<close>

lemma write_document_cases:
  assumes "engine_ok en pts" and "write_document en env a ws existing c = Some (r, c')"
  shows "pts c' = pts c \<and> \<not> is_ok r
    \<or> pts c' = retired existing ws (qe_now env) (pts c) \<and> \<not> is_ok r
    \<or> (\<exists>ps. made_points env a ws existing = Inr ps
         \<and> pts c' = fold put_point ps (retired existing ws (qe_now env) (pts c))
         \<and> r = Inr \<lparr>uo_action = (case existing of Some _ \<Rightarrow> ActUpdated | None \<Rightarrow> ActCreated),
                    uo_document_id = doc_id_for env existing, uo_chunks_written = length (ua_chunks a),
                    uo_doc_version = version_for existing\<rparr>)"
proof -
  let ?close = "case existing of Some d \<Rightarrow> end_date_points en (dc_point_ids d) ws (qe_now env) | None \<Rightarrow> ret_p ()"
  obtain r1 c1 where e: "?close c = Some (r1, c1)"
    using assms(2) by (auto simp: write_document_def then_p_def bind_p_def Let_def split: option.splits)
  have e1: "r1 = Inl x \<Longrightarrow> pts c1 = pts c" for x
    using e by (cases existing) (auto simp: ret_p_def dest: end_date_points_cases(3) [OF assms(1) _ refl])
  have e2: "r1 = Inr u \<Longrightarrow> pts c1 = retired existing ws (qe_now env) (pts c)" for u
    using e end_date_points_cases(2) [OF assms(1) _ refl] by (cases existing) (auto simp: ret_p_def retired_def)
  show ?thesis
  proof (cases r1)
    case (Inl x)
    then show ?thesis using assms(2) e e1 by (auto simp: write_document_def then_p_def bind_p_def Let_def)
  next
    case (Inr u)
    note c1 = e2 [OF Inr]
    show ?thesis
    proof (cases "chunks_to_points env a ws (doc_id_for env existing) (version_for existing) 0 (ua_chunks a)")
      case (Inl x)
      then have "r = Inl x \<and> c' = c1" using assms(2) e \<open>r1 = Inr u\<close>
        by (simp add: write_document_def then_p_def bind_p_def Let_def doc_id_for_def version_for_def res_p_def)
      then show ?thesis using c1 by simp
    next
      case (Inr cps)
      let ?ps = "cps @ (case ua_version a of Some v \<Rightarrow> [checkpoint_point env a ws v] | None \<Rightarrow> [])"
      have made: "made_points env a ws existing = Inr ?ps" using Inr by (simp add: made_points_def)
      have w: "then_p (if ?ps \<noteq> [] then tell_p (en_upsert en ?ps) else ret_p ())
          (ret_p \<lparr>uo_action = (case existing of Some _ \<Rightarrow> ActUpdated | None \<Rightarrow> ActCreated),
             uo_document_id = doc_id_for env existing, uo_chunks_written = length (ua_chunks a),
             uo_doc_version = version_for existing\<rparr>) c1 = Some (r, c')"
        using assms(2) e \<open>r1 = Inr u\<close> Inr unfolding write_document_def Let_def doc_id_for_def version_for_def
        by (simp add: then_p_def bind_p_def [of ?close])
      show ?thesis
      proof (cases "?ps = []")
        case True
        then show ?thesis using w made c1 by (auto simp: then_p_def bind_p_def ret_p_def)
      next
        case False
        show ?thesis
        proof (cases "en_upsert en ?ps c1")
          case (Inl x)
          then show ?thesis using w False c1 by (auto simp: then_p_def bind_p_def tell_p_def)
        next
          case (Inr c2)
          then show ?thesis using w False made c1 engine_upsert [OF assms(1) Inr]
            by (auto simp: then_p_def bind_p_def tell_p_def ret_p_def)
        qed
      qed
    qed
  qed
qed

section \<open>Lemmas: the invariant of the collection\<close>

lemma collection_ok_subset: "collection_ok xs \<Longrightarrow> set ys \<subseteq> set xs \<Longrightarrow> collection_ok ys"
  unfolding collection_ok_def by blast

lemma collection_okI:
  assumes "\<And>x. x \<in> set xs \<Longrightarrow> chunk_point x \<or> version_mark x"
    and "\<And>x y. x \<in> set xs \<Longrightarrow> y \<in> set xs \<Longrightarrow> current x \<Longrightarrow> current y \<Longrightarrow> doc_key x = doc_key y
      \<Longrightarrow> generation x = generation y"
  shows "collection_ok xs"
  using assms unfolding collection_ok_def by blast

lemma collection_okD:
  assumes "collection_ok xs"
  shows "x \<in> set xs \<Longrightarrow> chunk_point x \<or> version_mark x"
    and "x \<in> set xs \<Longrightarrow> y \<in> set xs \<Longrightarrow> current x \<Longrightarrow> current y \<Longrightarrow> doc_key x = doc_key y
      \<Longrightarrow> generation x = generation y"
  using assms unfolding collection_ok_def by blast+

lemma collection_ok_map:
  assumes "collection_ok xs"
    and "\<And>x. x \<in> set xs \<Longrightarrow> chunk_point (f x) \<or> version_mark (f x)"
    and "\<And>x. x \<in> set xs \<Longrightarrow> current (f x) \<Longrightarrow> current x \<and> doc_key (f x) = doc_key x \<and> generation (f x) = generation x"
  shows "collection_ok (map f xs)"
proof (rule collection_okI)
  show "chunk_point x \<or> version_mark x" if "x \<in> set (map f xs)" for x using that assms(2) by auto
  show "generation x = generation y"
    if xy: "x \<in> set (map f xs)" "y \<in> set (map f xs)" "current x" "current y" "doc_key x = doc_key y" for x y
  proof -
    obtain u v where "u \<in> set xs" "x = f u" "v \<in> set xs" "y = f v" using xy(1,2) by auto
    then show ?thesis using assms(3) [of u] assms(3) [of v] xy(3-5) collection_okD(2) [OF assms(1), of u v] by simp
  qed
qed

lemma merge_other_fields:
  assumes "k \<in> {''valid_to'', ''tombstoned_at'', ''tier'', ''snapshot_date''}"
  shows "doc_key (merge_payload [(k, v)] x) = doc_key x" and "generation (merge_payload [(k, v)] x) = generation x"
  using assms by (auto simp: doc_key_def generation_def Let_def)

lemma chunk_point_end: "chunk_point x \<Longrightarrow> chunk_point (merge_payload [(''valid_to'', VTime t)] x)"
  by (simp add: chunk_point_def Let_def)

lemma chunk_point_tombstone: "chunk_point x \<Longrightarrow> chunk_point (merge_payload [(''tombstoned_at'', VTime t)] x)"
  by (simp add: chunk_point_def Let_def)

lemma ended_not_current [simp]: "\<not> current (merge_payload [(''valid_to'', VTime t)] x)"
  by (simp add: current_def)

lemma current_tombstone [simp]: "current (merge_payload [(''tombstoned_at'', v)] x) = current x"
  by (simp add: current_def)

lemma collection_ok_end_dated:
  assumes "collection_ok xs" and "\<And>x. x \<in> set xs \<Longrightarrow> qp_id x \<in> set ids \<Longrightarrow> chunk_point x"
  shows "collection_ok (end_dated ids ws t xs)"
  unfolding end_dated_def
proof (rule collection_ok_map [OF assms(1)], goal_cases)
  case (1 x)
  then show ?case using assms(2) [OF 1] collection_okD(1) [OF assms(1) 1] by (simp add: chunk_point_end)
next
  case (2 x)
  then show ?case by (auto split: if_splits)
qed

lemma set_fold_put_subset: "set (fold put_point ps xs) \<subseteq> set ps \<union> set xs"
proof (induction ps arbitrary: xs)
  case Nil
  then show ?case by simp
next
  case (Cons p ps)
  have "set (put_point p xs) \<subseteq> insert p (set xs)" by (induction xs) auto
  then show ?case using Cons.IH [of "put_point p xs"] by auto
qed

lemma collection_ok_put:
  assumes "collection_ok xs" and "\<And>p. p \<in> set ps \<Longrightarrow> chunk_point p \<or> version_mark p"
    and "\<And>p. p \<in> set ps \<Longrightarrow> current p \<Longrightarrow> doc_key p = k \<and> generation p = g"
    and "\<And>x. x \<in> set xs \<Longrightarrow> current x \<Longrightarrow> doc_key x \<noteq> k"
  shows "collection_ok (fold put_point ps xs)"
proof (rule collection_ok_subset [OF _ set_fold_put_subset [of ps xs, folded set_append]], rule collection_okI)
  show "chunk_point x \<or> version_mark x" if "x \<in> set (ps @ xs)" for x
    using that assms(2) [of x] collection_okD(1) [OF assms(1), of x] by auto
  show "generation x = generation y"
    if "x \<in> set (ps @ xs)" "y \<in> set (ps @ xs)" "current x" "current y" "doc_key x = doc_key y" for x y
  proof (cases "x \<in> set ps"; cases "y \<in> set ps")
    assume "x \<in> set ps" "y \<in> set ps"
    then show ?thesis using assms(3) [of x] assms(3) [of y] that by simp
  next
    assume "x \<in> set ps" "y \<notin> set ps"
    then show ?thesis using assms(3) [of x] assms(4) [of y] that by simp
  next
    assume "x \<notin> set ps" "y \<in> set ps"
    then show ?thesis using assms(3) [of y] assms(4) [of x] that by simp
  next
    assume "x \<notin> set ps" "y \<notin> set ps"
    then show ?thesis using collection_okD(2) [OF assms(1), of x y] that by simp
  qed
qed

lemma open_point_iff:
  "x \<in> set (open_points ws src ext xs) \<longleftrightarrow> x \<in> set xs \<and> current x \<and> doc_key x = doc_key_of ws src ext"
  by (auto simp: open_points_def document_filter_iff)

lemma open_point_workspace: "doc_key x = doc_key_of ws src ext \<Longrightarrow> in_workspace ws x"
  by (simp add: doc_key_def doc_key_of_def in_workspace_def Let_def)

lemma open_points_chunk:
  assumes "collection_ok xs" and "by_id xs" and "x \<in> set xs" and "qp_id x \<in> qp_id ` set (open_points ws src ext xs)"
  shows "x \<in> set (open_points ws src ext xs)" and "chunk_point x"
proof -
  obtain y where y: "y \<in> set (open_points ws src ext xs)" "qp_id y = qp_id x" using assms(4) by auto
  then have "y = x" using by_id_inj [OF assms(2)] assms(3) by (auto simp: open_point_iff)
  then show x: "x \<in> set (open_points ws src ext xs)" using y by simp
  then show "chunk_point x" using assms(1,3) current_chunk by (auto simp: open_point_iff collection_ok_def)
qed

lemma collection_ok_retired:
  assumes "collection_ok xs" and "by_id xs"
    and "\<And>d. existing = Some d \<Longrightarrow> dc_point_ids d = map qp_id (open_points ws src ext xs)"
    and "existing = None \<Longrightarrow> open_points ws src ext xs = []"
  shows "collection_ok (retired existing ws t xs)"
    and "x \<in> set (retired existing ws t xs) \<Longrightarrow> current x \<Longrightarrow> doc_key x \<noteq> doc_key_of ws src ext"
proof -
  show "collection_ok (retired existing ws t xs)"
    using assms(1,3) open_points_chunk(2) [OF assms(1,2)]
    by (cases existing) (auto simp: retired_def intro!: collection_ok_end_dated)
  show "x \<in> set (retired existing ws t xs) \<Longrightarrow> current x \<Longrightarrow> doc_key x \<noteq> doc_key_of ws src ext"
  proof (cases existing)
    case None
    then show "x \<in> set (retired existing ws t xs) \<Longrightarrow> current x \<Longrightarrow> doc_key x \<noteq> doc_key_of ws src ext"
      using assms(4) open_point_iff [of x ws src ext xs] by (auto simp: retired_def)
  next
    case (Some d)
    assume x: "x \<in> set (retired existing ws t xs)" and cur: "current x"
    have "x \<in> set xs \<and> \<not> (in_workspace ws x \<and> qp_id x \<in> set (dc_point_ids d))"
      using x cur Some by (auto simp: retired_def end_dated_def split: if_splits)
    then show "doc_key x \<noteq> doc_key_of ws src ext"
      using assms(3) Some cur open_point_iff [of x ws src ext xs] open_point_workspace [of x ws src ext] by auto
  qed
qed

lemma made_points_facts:
  assumes "made_points env a ws existing = Inr ps" and "p \<in> set ps"
  shows "chunk_point p \<or> version_mark p"
    and "current p \<Longrightarrow> doc_key p = doc_key_of ws (ua_source_id a) (ua_external_id a)
      \<and> generation p = (Some (VStr (uuid_str (doc_id_for env existing))), Some (VStr (ua_content_hash a)),
          Some (VInt (version_for existing)))"
    and "in_workspace ws p"
proof -
  obtain cps where cps: "chunks_to_points env a ws (doc_id_for env existing) (version_for existing) 0 (ua_chunks a) = Inr cps"
    and ps: "ps = cps @ (case ua_version a of Some v \<Rightarrow> [checkpoint_point env a ws v] | None \<Rightarrow> [])"
    using assms(1) by (auto simp: made_points_def bind_res_eq_Inr)
  show "chunk_point p \<or> version_mark p"
    using assms(2) ps made_point(1) [OF cps] checkpoint_is_mark by (auto split: option.splits)
  show "in_workspace ws p"
    using assms(2) ps made_point(7) [OF cps] by (auto simp: in_workspace_def split: option.splits)
  show "current p \<Longrightarrow> doc_key p = doc_key_of ws (ua_source_id a) (ua_external_id a)
      \<and> generation p = (Some (VStr (uuid_str (doc_id_for env existing))), Some (VStr (ua_content_hash a)),
          Some (VInt (version_for existing)))"
    using assms(2) ps made_point(3,4) [OF cps] mark_not_current [OF checkpoint_is_mark] by (auto split: option.splits)
qed

definition found_in :: "document_record option \<Rightarrow> qpoint list \<Rightarrow> bool" where
  "found_in existing ps \<longleftrightarrow>
     (case existing of None \<Rightarrow> ps = [] | Some d \<Rightarrow> ps \<noteq> [] \<and> record_from_points ps = Inr d)"

lemma upsert_if_new_cases:
  assumes "engine_ok en pts" and "upsert_if_new en env a ws c = Some (r, c')"
  shows "c' = c \<and> (\<forall>x. r = Inr x \<longrightarrow> (\<exists>d. uo_action x = ActUnchanged
        \<and> found_in (Some d) (open_points ws (ua_source_id a) (ua_external_id a) (pts c)) \<and> dc_content_hash d = ua_content_hash a))
    \<or> (\<exists>existing. found_in existing (open_points ws (ua_source_id a) (ua_external_id a) (pts c))
         \<and> (\<forall>d. existing = Some d \<longrightarrow> dc_content_hash d \<noteq> ua_content_hash a)
         \<and> write_document en env a ws existing c = Some (r, c'))"
proof -
  obtain r1 c1 where f: "find_document en ws (ua_source_id a) (ua_external_id a) c = Some (r1, c1)"
    using assms(2) by (auto simp: upsert_if_new_def bind_p_def split: option.splits)
  note fd = find_document_cases [OF assms(1) f]
  show ?thesis
  proof (cases r1)
    case (Inl e)
    then show ?thesis using assms(2) f fd(1) by (auto simp: upsert_if_new_def bind_p_def)
  next
    case (Inr existing)
    then have found: "found_in existing (open_points ws (ua_source_id a) (ua_external_id a) (pts c))"
      using fd(2,3) by (cases existing) (auto simp: found_in_def)
    show ?thesis
    proof (cases existing)
      case None
      then have "write_document en env a ws None c = Some (r, c')"
        using assms(2) f fd(1) Inr by (simp add: upsert_if_new_def bind_p_def)
      then show ?thesis using found None by blast
    next
      case (Some d)
      show ?thesis
      proof (cases "dc_content_hash d = ua_content_hash a")
        case True
        then show ?thesis using assms(2) f fd(1) Inr Some found
          by (auto simp: upsert_if_new_def bind_p_def ret_p_def)
      next
        case False
        then have "write_document en env a ws (Some d) c = Some (r, c')"
          using assms(2) f fd(1) Inr Some by (simp add: upsert_if_new_def bind_p_def)
        then show ?thesis using found Some False by blast
      qed
    qed
  qed
qed

lemma upsert_chunks_cases:
  assumes "engine_ok en pts" and "upsert_chunks en env a c = Some (r, c')"
  shows "c' = c \<or> (\<exists>ws. extract_workspace_id (ua_metadata a) = Inr ws \<and> upsert_if_new en env a ws c = Some (r, c'))"
proof (cases "extract_workspace_id (ua_metadata a)")
  case (Inl e)
  then show ?thesis using assms(2) by (simp add: upsert_chunks_def raise_p_def)
next
  case (Inr ws)
  then show ?thesis using assms(2)
    by (auto simp: upsert_chunks_def bind_p_def ask_p_def ret_p_def res_p_def split: option.splits sum.splits if_splits)
qed

lemma found_in_ids: "found_in (Some d) ps \<Longrightarrow> dc_point_ids d = map qp_id ps"
  by (simp add: found_in_def record_point_ids)

lemma write_document_keeps:
  assumes "engine_ok en pts" and "collection_ok (pts c)"
    and "found_in existing (open_points ws (ua_source_id a) (ua_external_id a) (pts c))"
    and "write_document en env a ws existing c = Some (r, c')"
  shows "collection_ok (pts c')"
proof -
  let ?k = "doc_key_of ws (ua_source_id a) (ua_external_id a)"
  let ?r = "retired existing ws (qe_now env) (pts c)"
  note sorted = engine_by_id [OF assms(1), of c]
  have ids: "\<And>d. existing = Some d \<Longrightarrow> dc_point_ids d = map qp_id (open_points ws (ua_source_id a) (ua_external_id a) (pts c))"
    and none: "existing = None \<Longrightarrow> open_points ws (ua_source_id a) (ua_external_id a) (pts c) = []"
    using assms(3) found_in_ids by (auto simp: found_in_def)
  note ret = collection_ok_retired [OF assms(2) sorted ids none]
  consider "pts c' = pts c" | "pts c' = ?r"
    | ps where "made_points env a ws existing = Inr ps" "pts c' = fold put_point ps ?r"
    using write_document_cases [OF assms(1,4)] by blast
  then show ?thesis
  proof cases
    case 1
    then show ?thesis using assms(2) by simp
  next
    case 2
    then show ?thesis using ret(1) by simp
  next
    case (3 ps)
    show ?thesis unfolding 3(2)
      by (rule collection_ok_put [OF ret(1) made_points_facts(1) [OF 3(1)] made_points_facts(2) [OF 3(1)] ret(2)])
  qed
qed

lemma upsert_chunks_keeps:
  assumes "engine_ok en pts" and "collection_ok (pts c)" and "upsert_chunks en env a c = Some (r, c')"
  shows "collection_ok (pts c')"
  using upsert_chunks_cases [OF assms(1,3)] upsert_if_new_cases [OF assms(1)] write_document_keeps [OF assms(1,2)] assms(2)
  by metis

text \<open>Setting a payload field that belongs to chunk points only.\<close>

lemma collection_ok_set:
  assumes "collection_ok xs" and "\<And>x. chunk_point x \<Longrightarrow> chunk_point (merge_payload kvs x)"
    and "\<And>x. current (merge_payload kvs x) \<Longrightarrow> current x"
    and "\<And>x. doc_key (merge_payload kvs x) = doc_key x \<and> generation (merge_payload kvs x) = generation x"
    and "\<And>x. x \<in> set xs \<Longrightarrow> P x \<Longrightarrow> chunk_point x"
  shows "collection_ok (map (\<lambda>x. if P x then merge_payload kvs x else x) xs)"
proof (rule collection_ok_map [OF assms(1)], goal_cases)
  case (1 x)
  then show ?case using assms(2) [of x] assms(5) [OF 1] collection_okD(1) [OF assms(1) 1] by auto
next
  case (2 x)
  then show ?case using assms(3,4) by (auto split: if_splits)
qed

lemma delete_by_document_cases:
  assumes "engine_ok en pts" and "delete_by_document en env src ext w c = Some (r, c')"
  shows "c' = c \<or> (\<exists>ws d. w = Some ws \<and> found_in (Some d) (open_points ws src ext (pts c)) \<and> \<not> dc_tombstoned d
    \<and> r = Inr True
    \<and> pts c' = map (\<lambda>x. if qp_id x \<in> set (dc_point_ids d) then merge_payload [(''tombstoned_at'', VTime (qe_now env))] x else x) (pts c))"
proof (cases w)
  case None
  then show ?thesis using assms(2) by (simp add: delete_by_document_def raise_p_def)
next
  case (Some ws)
  obtain r1 c1 where f: "find_document en ws src ext c = Some (r1, c1)"
    using assms(2) Some by (auto simp: delete_by_document_def bind_p_def split: option.splits)
  note fd = find_document_cases [OF assms(1) f]
  have *: "found_in (Some d) (open_points ws src ext (pts c))" if "r1 = Inr (Some d)" for d
    using fd(3) [OF that] by (simp add: found_in_def)
  show ?thesis using assms(2) Some f fd(1) * engine_set_payload [OF assms(1)]
    by (auto simp: delete_by_document_def bind_p_def ret_p_def then_p_def tell_p_def selects_def
        split: sum.splits option.splits if_splits)
qed

lemma delete_by_document_keeps:
  assumes "engine_ok en pts" and "collection_ok (pts c)" and "delete_by_document en env src ext w c = Some (r, c')"
  shows "collection_ok (pts c')"
proof -
  consider "c' = c" | ws d where "found_in (Some d) (open_points ws src ext (pts c))"
    "pts c' = map (\<lambda>x. if qp_id x \<in> set (dc_point_ids d) then merge_payload [(''tombstoned_at'', VTime (qe_now env))] x else x) (pts c)"
    using delete_by_document_cases [OF assms(1,3)] by blast
  then show ?thesis
  proof cases
    case 1
    then show ?thesis using assms(2) by simp
  next
    case 2
    have "chunk_point x" if "x \<in> set (pts c)" "qp_id x \<in> set (dc_point_ids d)" for x
      using open_points_chunk(2) [OF assms(2) engine_by_id [OF assms(1)] that(1), of ws src ext] that(2)
        found_in_ids [OF 2(1)] by simp
    then show ?thesis unfolding 2(2)
      by (intro collection_ok_set [OF assms(2)]) (simp_all add: chunk_point_tombstone merge_other_fields)
  qed
qed

lemma end_date_chunks_cases:
  assumes "engine_ok en pts" and "end_date_chunks en env src ws t excl c = Some (r, c')"
  shows "c' = c \<or> pts c' = map (\<lambda>x. if filter_holds (build_end_date_chunks_filter ws src excl) x
      then merge_payload [(''valid_to'', VTime (case t of Some u \<Rightarrow> u | None \<Rightarrow> qe_now env))] x else x) (pts c)"
  using assms(2) engine_set_payload [OF assms(1)]
  by (auto simp: end_date_chunks_def bind_p_def ask_p_def ret_p_def then_p_def tell_p_def selects_def Let_def
      split: sum.splits if_splits)

lemma end_date_filter_current: "filter_holds (build_end_date_chunks_filter ws src excl) x \<Longrightarrow> current x \<and> in_workspace ws x"
  by (simp add: filter_holds_def build_end_date_chunks_filter_def current_def workspace_clause_def in_workspace_def)

lemma end_date_chunks_keeps:
  assumes "engine_ok en pts" and "collection_ok (pts c)" and "end_date_chunks en env src ws t excl c = Some (r, c')"
  shows "collection_ok (pts c')"
proof -
  let ?P = "filter_holds (build_end_date_chunks_filter ws src excl)"
  have "chunk_point x" if "x \<in> set (pts c)" "?P x" for x
    using current_chunk [OF collection_okD(1) [OF assms(2) that(1)]] end_date_filter_current [OF that(2)] by simp
  then have "collection_ok (map (\<lambda>x. if ?P x then merge_payload [(''valid_to'', VTime u)] x else x) (pts c))" for u
    by (intro collection_ok_set [OF assms(2)]) (simp_all add: chunk_point_end merge_other_fields)
  then show ?thesis using end_date_chunks_cases [OF assms(1,3)] assms(2) by auto
qed

lemma delete_keeps:
  assumes "engine_ok en pts" and "collection_ok (pts c)" and "tell_p (en_delete en sel) c = Some (r, c')"
  shows "collection_ok (pts c')"
proof (cases "en_delete en sel c")
  case (Inl e)
  then show ?thesis using assms(2,3) by (simp add: tell_p_def)
next
  case (Inr c1)
  then have "c' = c1" using assms(3) by (simp add: tell_p_def)
  then show ?thesis using engine_delete [OF assms(1) Inr] collection_ok_subset [OF assms(2), of "pts c1"] by simp
qed

lemma delete_tombstoned_keeps:
  assumes "engine_ok en pts" and "collection_ok (pts c)" and "delete_tombstoned en env age c = Some (r, c')"
  shows "collection_ok (pts c')"
proof -
  obtain r1 where s: "scroll_all en (build_tombstone_sweep_filter (qe_now env - age)) c = Some (r1, c)"
    using assms(3) scroll_all_cases(1) [OF assms(1)] by (fastforce simp: delete_tombstoned_def bind_p_def split: option.splits)
  show ?thesis
  proof (cases r1)
    case (Inl e)
    then show ?thesis using assms(2,3) s by (simp add: delete_tombstoned_def bind_p_def)
  next
    case (Inr xs)
    show ?thesis
    proof (cases "xs = []")
      case True
      then show ?thesis using assms(2,3) s Inr by (simp add: delete_tombstoned_def bind_p_def then_p_def ret_p_def)
    next
      case False
      obtain r2 c2 where d: "tell_p (en_delete en (ByIds (map qp_id xs))) c = Some (r2, c2)"
        by (cases "en_delete en (ByIds (map qp_id xs)) c") (simp_all add: tell_p_def)
      have "c' = c2" using assms(3) s Inr False d
        by (cases r2) (simp_all add: delete_tombstoned_def bind_p_def then_p_def ret_p_def)
      then show ?thesis using delete_keeps [OF assms(1,2) d] by simp
    qed
  qed
qed

lemma delete_retention_archive_keeps:
  assumes "engine_ok en pts" and "collection_ok (pts c)" and "delete_retention_archive en ws day c = Some (r, c')"
  shows "collection_ok (pts c')"
proof -
  let ?f = "build_warm_archive_filter ws day"
  obtain r2 c2 where d: "tell_p (en_delete en (ByFilter ?f)) c = Some (r2, c2)"
    by (cases "en_delete en (ByFilter ?f) c") (simp_all add: tell_p_def)
  have "c' = c \<or> c' = c2"
    using assms(3) d unfolding delete_retention_archive_def Let_def
    by (cases "en_count en ?f c"; cases r2)
       (auto simp: bind_p_def ask_p_def then_p_def ret_p_def split: if_splits)
  then show ?thesis using delete_keeps [OF assms(1,2) d] assms(2) by auto
qed

lemma warm_fields:
  "chunk_point x \<Longrightarrow> chunk_point (merge_payload [(''tier'', v), (''snapshot_date'', v')] x)"
  "current (merge_payload [(''tier'', v), (''snapshot_date'', v')] x) = current x"
  "doc_key (merge_payload [(''tier'', v), (''snapshot_date'', v')] x) = doc_key x"
  "generation (merge_payload [(''tier'', v), (''snapshot_date'', v')] x) = generation x"
  by (simp_all add: chunk_point_def current_def doc_key_def generation_def Let_def)

lemma mark_days_keeps:
  assumes "engine_ok en pts"
  shows "collection_ok (pts c) \<Longrightarrow> mark_days en d n c = Some (r, c') \<Longrightarrow>
    (\<And>x. x \<in> set (pts c) \<Longrightarrow> \<exists>(day, ids) \<in> set d. qp_id x \<in> set ids \<Longrightarrow> chunk_point x) \<Longrightarrow> collection_ok (pts c')"
proof (induction d arbitrary: n c)
  case Nil
  then show ?case by (simp add: ret_p_def)
next
  case (Cons p rest)
  obtain day ids where p: "p = (day, ids)" by force
  show ?case
  proof (cases "ids = []")
    case True
    then show ?thesis using Cons.IH [OF Cons.prems(1)] Cons.prems(2,3) p by simp
  next
    case False
    let ?kvs = "[(''tier'', VStr ''warm''), (''snapshot_date'', VStr day)]"
    show ?thesis
    proof (cases "en_set_payload en (ByIds ids) ?kvs c")
      case (Inl e)
      then show ?thesis using False Cons.prems(1,2) p by (simp add: then_p_def bind_p_def tell_p_def)
    next
      case (Inr c1)
      note v = engine_set_payload [OF assms Inr]
      have "collection_ok (pts c1)"
        unfolding v selects_def selector.case
        by (rule collection_ok_set [OF Cons.prems(1)]) (use Cons.prems(3) p in \<open>auto simp: warm_fields\<close>)
      moreover have "chunk_point x" if "x \<in> set (pts c1)" "\<exists>(day, ids) \<in> set rest. qp_id x \<in> set ids" for x
        using that Cons.prems(3) unfolding v p by (fastforce simp: warm_fields split: if_splits)
      moreover have "mark_days en rest (n + length ids) c1 = Some (r, c')"
        using Cons.prems(2) False Inr p by (simp add: then_p_def bind_p_def tell_p_def)
      ultimately show ?thesis using Cons.IH by blast
    qed
  qed
qed

lemma mem_dict_set: "q \<in> set (dict_set d k v) \<Longrightarrow> q = (k, v) \<or> q \<in> set d"
  by (induction d) (auto split: if_splits)

lemma mem_dict_getd: "i \<in> set (dict_getd d k []) \<Longrightarrow> \<exists>(day, ids) \<in> set d. i \<in> set ids"
  using map_of_SomeD [of d k] by (cases "dict_get d k") (force simp: dict_getd_def)+

lemma group_by_day_ids:
  "(day, ids) \<in> set (group_by_day day_of ps d) \<Longrightarrow> i \<in> set ids \<Longrightarrow>
     (\<exists>p \<in> set ps. qp_id p = i \<and> dict_get (qp_payload p) ''recorded_at'' \<noteq> None)
     \<or> (\<exists>(day, ids) \<in> set d. i \<in> set ids)"
proof (induction ps arbitrary: d)
  case Nil
  then show ?case by auto
next
  case (Cons p ps)
  let ?t = "dict_get (qp_payload p) ''recorded_at''"
  have step: "(\<exists>q \<in> set ps. qp_id q = i \<and> dict_get (qp_payload q) ''recorded_at'' \<noteq> None)
     \<or> (\<exists>(day, ids) \<in> set d'. i \<in> set ids)" if "(day, ids) \<in> set (group_by_day day_of ps d')" for d'
    using Cons.IH [OF that Cons.prems(2)] .
  show ?case
  proof (cases "dict_get (qp_payload p) ''tier'' = Some (VStr ''warm'') \<or> \<not> (\<exists>t. ?t = Some (VTime t))")
    case True
    then have "(day, ids) \<in> set (group_by_day day_of ps d)"
      using Cons.prems(1) by (auto split: option.splits pval.splits)
    then show ?thesis using step by fastforce
  next
    case False
    then obtain t where t: "?t = Some (VTime t)" by blast
    let ?d = "dict_set d (day_of t) (dict_getd d (day_of t) [] @ [qp_id p])"
    have "(day, ids) \<in> set (group_by_day day_of ps ?d)" using Cons.prems(1) False t by simp
    from step [OF this] show ?thesis
    proof
      assume "\<exists>q \<in> set ps. qp_id q = i \<and> dict_get (qp_payload q) ''recorded_at'' \<noteq> None"
      then show ?thesis by auto
    next
      assume "\<exists>(day, ids) \<in> set ?d. i \<in> set ids"
      then obtain day' ids' where "(day', ids') \<in> set ?d" "i \<in> set ids'" by auto
      then show ?thesis using mem_dict_set mem_dict_getd t by fastforce
    qed
  qed
qed

lemma mark_retention_warm_keeps:
  assumes "engine_ok en pts" and "collection_ok (pts c)" and "mark_retention_warm en day_of ws cutoff c = Some (r, c')"
  shows "collection_ok (pts c')"
proof -
  let ?f = "build_retention_eligible_filter ws cutoff"
  obtain r1 where s: "scroll_all en ?f c = Some (r1, c)"
    using assms(3) scroll_all_cases(1) [OF assms(1)] by (fastforce simp: mark_retention_warm_def bind_p_def split: option.splits)
  show ?thesis
  proof (cases r1)
    case (Inl e)
    then show ?thesis using assms(2,3) s by (simp add: mark_retention_warm_def bind_p_def)
  next
    case (Inr xs)
    have xs: "xs = filter (filter_holds ?f) (pts c)" using scroll_all_cases(2) [OF assms(1) s Inr] .
    have m: "mark_days en (group_by_day day_of xs []) 0 c = Some (r, c')"
      using assms(3) s Inr by (simp add: mark_retention_warm_def bind_p_def)
    have "chunk_point x" if x: "x \<in> set (pts c)" "\<exists>(day, ids) \<in> set (group_by_day day_of xs []). qp_id x \<in> set ids" for x
    proof -
      obtain p where p: "p \<in> set xs" "qp_id p = qp_id x" "dict_get (qp_payload p) ''recorded_at'' \<noteq> None"
        using x(2) group_by_day_ids by fastforce
      then have "p = x" using by_id_inj [OF engine_by_id [OF assms(1)]] x(1) xs by auto
      then show ?thesis using p(3) collection_okD(1) [OF assms(2) x(1)] by (auto simp: version_mark_def Let_def)
    qed
    then show ?thesis using mark_days_keeps [OF assms(1,2) m] by blast
  qed
qed

section \<open>Runs of the store\<close>

text \<open>One call of the store that may write, by any caller, whatever its outcome.\<close>

inductive store_call :: "'q engine \<Rightarrow> 'q \<Rightarrow> 'q \<Rightarrow> bool" for en where
  sc_upsert: "upsert_chunks en env a c = Some (r, c') \<Longrightarrow> store_call en c c'"
| sc_delete: "delete_by_document en env src ext w c = Some (r, c') \<Longrightarrow> store_call en c c'"
| sc_end_date: "end_date_chunks en env src ws t excl c = Some (r, c') \<Longrightarrow> store_call en c c'"
| sc_sweep: "delete_tombstoned en env age c = Some (r, c') \<Longrightarrow> store_call en c c'"
| sc_warm: "mark_retention_warm en day_of ws cutoff c = Some (r, c') \<Longrightarrow> store_call en c c'"
| sc_archive: "delete_retention_archive en ws day c = Some (r, c') \<Longrightarrow> store_call en c c'"

inductive_cases store_callE: "store_call en c c'"

text \<open>
  Claim C22: In every run of the store's writes, whatever fails in between, the collection holds
  only complete chunk points and checkpoints, and all open points of a document belong to one
  generation: they agree on the document id, the content hash and the version.
\<close>

theorem one_open_generation:
  assumes "engine_ok en pts" and "collection_ok (pts c)" and "(store_call en)\<^sup>*\<^sup>* c c'"
  shows "collection_ok (pts c')"
  using assms(3,2)
proof (induction rule: rtranclp_induct)
  case base
  then show ?case .
next
  case (step c1 c2)
  then have ok: "collection_ok (pts c1)" by simp
  from step.hyps(2) show ?case
  proof cases
    case sc_upsert
    then show ?thesis by (rule upsert_chunks_keeps [OF assms(1) ok])
  next
    case sc_delete
    then show ?thesis by (rule delete_by_document_keeps [OF assms(1) ok])
  next
    case sc_end_date
    then show ?thesis by (rule end_date_chunks_keeps [OF assms(1) ok])
  next
    case sc_sweep
    then show ?thesis by (rule delete_tombstoned_keeps [OF assms(1) ok])
  next
    case sc_warm
    then show ?thesis by (rule mark_retention_warm_keeps [OF assms(1) ok])
  next
    case sc_archive
    then show ?thesis by (rule delete_retention_archive_keeps [OF assms(1) ok])
  qed
qed

section \<open>A service in memory\<close>

text \<open>
  The collection as the list of the points put into it. It keeps the promises, so they can all
  hold together.
\<close>

definition mem_points :: "qpoint list \<Rightarrow> qpoint list" where
  "mem_points puts = fold put_point puts []"

definition mem_engine :: "qpoint list engine" where
  "mem_engine =
     \<lparr>en_retrieve = (\<lambda>i c. Inr (find (\<lambda>x. qp_id x = i) (mem_points c))),
      en_scroll = (\<lambda>f n off c. Inr (page_of n off (filter (filter_holds f) (mem_points c)))),
      en_count = (\<lambda>f c. Inr (length (filter (filter_holds f) (mem_points c)))),
      en_upsert = (\<lambda>xs c. Inr (c @ xs)),
      en_set_payload = (\<lambda>sel kvs c. Inr (map (\<lambda>x. if selects sel x then merge_payload kvs x else x) (mem_points c))),
      en_delete = (\<lambda>sel c. Inr (filter (\<lambda>x. \<not> selects sel x) (mem_points c))),
      en_query = (\<lambda>q f n c. Inr (map (\<lambda>x. \<lparr>sp_id = qp_id x, sp_score = 1, sp_payload = Some (qp_payload x)\<rparr>)
        (take (nat n) (filter (filter_holds f) (mem_points c)))))\<rparr>"

lemma put_point_last: "\<forall>y \<in> set ys. qp_id y < qp_id x \<Longrightarrow> put_point x ys = ys @ [x]"
  by (induction ys) auto

lemma fold_put_by_id: "by_id (ys @ xs) \<Longrightarrow> fold put_point xs ys = ys @ xs"
proof (induction xs arbitrary: ys)
  case Nil
  then show ?case by simp
next
  case (Cons x xs)
  then have "put_point x ys = ys @ [x]" by (intro put_point_last) (simp add: sorted_wrt_append)
  then show ?case using Cons.IH [of "ys @ [x]"] Cons.prems by simp
qed

lemma mem_by_id: "by_id (mem_points c)"
  by (simp add: mem_points_def by_id_fold_put)

lemma mem_points_id: "by_id xs \<Longrightarrow> mem_points xs = xs"
  using fold_put_by_id [of "[]" xs] by (simp add: mem_points_def)

lemma by_id_map: "by_id xs \<Longrightarrow> (\<And>x. qp_id (f x) = qp_id x) \<Longrightarrow> by_id (map f xs)"
  by (simp add: sorted_wrt_map)

lemma mem_engine_ok: "engine_ok mem_engine mem_points"
proof -
  have "by_id (map (\<lambda>x. if selects sel x then merge_payload kvs x else x) (mem_points c))" for sel kvs c
    by (rule by_id_map [OF mem_by_id]) simp
  moreover have "distinct (map qp_id (take k (filter P (mem_points c))))" for k P c
    using distinct_take [OF distinct_by_id [OF by_id_filter [OF mem_by_id]], of k P c] by (simp add: take_map)
  moreover have "\<exists>x \<in> set xs. P x \<and> qp_id x = qp_id s \<and> qp_payload s = qp_payload x"
    if "s \<in> set (take k (filter P xs))" for s k P xs
    using set_take_subset' [OF that] by auto
  ultimately show ?thesis
    unfolding engine_ok_def
    by (auto simp: mem_engine_def mem_by_id by_id_filter mem_points_id o_def list_all_iff) (simp_all add: mem_points_def)
qed

lemma mem_engine_up: "engine_up mem_engine"
  by (simp add: engine_up_def mem_engine_def)

end
