(* ===== verification/QdrantHistory.thy ===== *)
theory QdrantHistory
  imports QdrantStore
begin

text \<open>
  What the writes of the vector store adapter mean for the documents in it: the checkpoint of a
  source, the history of a document over its versions, and the separation of the workspaces.
\<close>

section \<open>Checkpoints\<close>

lemma put_last_mem: "by_id xs \<Longrightarrow> p \<in> set (fold put_point (ps @ [p]) xs)"
  using set_put_point [OF by_id_fold_put, of xs p ps] by simp

lemma written_checkpoint:
  assumes "engine_ok en pts" and "upsert_chunks en env a c = Some (Inr u, c')"
    and "uo_action u \<noteq> ActUnchanged" and "ua_version a = Some v"
  shows "\<exists>ws. checkpoint_point env a ws v \<in> set (pts c')"
proof -
  obtain ws existing where w: "write_document en env a ws existing c = Some (Inr u, c')"
  proof -
    have "c' = c \<Longrightarrow> \<exists>ws. extract_workspace_id (ua_metadata a) = Inr ws \<and> upsert_if_new en env a ws c = Some (Inr u, c')"
      using assms(2,3,4) by (cases "extract_workspace_id (ua_metadata a)")
        (auto simp: upsert_chunks_def bind_p_def ask_p_def ret_p_def res_p_def split: sum.splits option.splits if_splits)
    then obtain ws where "upsert_if_new en env a ws c = Some (Inr u, c')"
      using upsert_chunks_cases [OF assms(1,2)] by blast
    then show ?thesis using upsert_if_new_cases [OF assms(1)] assms(3) that by blast
  qed
  then obtain ps where ps: "made_points env a ws existing = Inr ps"
    "pts c' = fold put_point ps (retired existing ws (qe_now env) (pts c))"
    using write_document_cases [OF assms(1) w] by auto
  moreover have "by_id (retired existing ws (qe_now env) (pts c))"
    using engine_by_id [OF assms(1), of c] by (auto simp: retired_def end_dated_def intro: by_id_map split: option.split)
  moreover obtain cps where "ps = cps @ [checkpoint_point env a ws v]"
    using ps(1) assms(4) by (auto simp: made_points_def bind_res_eq_Inr)
  ultimately show ?thesis using put_last_mem by metis
qed

lemma checkpoint_skips:
  assumes "engine_ok en pts" and "engine_up en"
    and "upsert_chunks en env a c = Some (Inr u, c')" and "uo_action u \<noteq> ActUnchanged" and "ua_version a = Some v"
    and "ua_source_id b = ua_source_id a" and "ua_version b = Some v'" and "v' \<le> v"
    and "\<not> ua_forced_replay b" and "ua_epoch b = None" and "extract_workspace_id (ua_metadata b) = Inr ws"
    and "qe_uuid5 env' = qe_uuid5 env"
  shows "\<exists>u'. upsert_chunks en env' b c' = Some (Inr u', c') \<and> uo_action u' = ActUnchanged \<and> uo_chunks_written u' = 0"
proof -
  obtain ws0 where m: "checkpoint_point env a ws0 v \<in> set (pts c')" using written_checkpoint [OF assms(1,3,4,5)] by blast
  have cid: "checkpoint_id env' (ua_source_id b) = checkpoint_id env (ua_source_id a)"
    using assms(6,12) by (simp add: checkpoint_id_def)
  obtain r where r: "en_retrieve en (checkpoint_id env' (ua_source_id b)) c' = Inr r" using up_retrieve [OF assms(2)] by blast
  have "r = Some (checkpoint_point env a ws0 v)"
    using engine_retrieve [OF assms(1) r] find_by_id [OF engine_by_id [OF assms(1)]] m cid by simp
  then show ?thesis using assms(7-11) r
    by (simp add: upsert_chunks_def bind_p_def ask_p_def ret_p_def res_p_def should_skip_def)
qed

text \<open>
  The version checkpoint is one number per source. Once a document of a source has been
  written with version \<open>v\<close>, every later upsert of any document of that source whose version is not
  greater, and which neither forces a replay nor carries an epoch, is answered as unchanged and
  writes nothing; so of the documents of a source that are new, and all start at version 1, only
  the first reaches the vector store.
\<close>

theorem source_checkpoint_drops_documents:
  assumes "engine_ok en pts" and "engine_up en"
    and "upsert_chunks en env a c = Some (Inr u, c')" and "uo_action u \<noteq> ActUnchanged" and "ua_version a = Some v"
    and "ua_source_id b = ua_source_id a" and "ua_version b = Some v'" and "v' \<le> v"
    and "\<not> ua_forced_replay b" and "ua_epoch b = None" and "extract_workspace_id (ua_metadata b) = Inr ws"
    and "qe_uuid5 env' = qe_uuid5 env"
  shows "\<exists>u'. upsert_chunks en env' b c' = Some (Inr u', c') \<and> uo_action u' = ActUnchanged \<and> uo_chunks_written u' = 0"
  by (rule checkpoint_skips [OF assms])

section \<open>History\<close>

text \<open>What the temporal clauses of a read select.\<close>

definition valid_at :: "int \<Rightarrow> qpoint \<Rightarrow> bool" where
  "valid_at t x \<longleftrightarrow> list_all (\<lambda>c. cond_holds c (qp_id x) (qp_payload x)) (as_of_must_clauses t)"

lemma valid_at_iff:
  "valid_at t x \<longleftrightarrow> (\<exists>u. dict_get (qp_payload x) ''valid_from'' = Some (VTime u) \<and> u \<le> t)
     \<and> (current x \<or> (\<exists>u. dict_get (qp_payload x) ''valid_to'' = Some (VTime u) \<and> t < u))"
  by (auto simp: valid_at_def as_of_must_clauses_def current_def split: option.splits pval.splits)

definition complete_chunk :: "vchunk \<Rightarrow> bool" where
  "complete_chunk ch \<longleftrightarrow> vc_chunk_id ch \<noteq> None \<and> vc_ord ch \<noteq> None \<and> vc_text ch \<noteq> None \<and> vc_embedding ch \<noteq> None"

definition chunk_ids :: "upsert_args \<Rightarrow> uuid list" where
  "chunk_ids a = map (\<lambda>ch. the (vc_chunk_id ch)) (ua_chunks a)"

lemma complete_chunks:
  "list_all complete_chunk chs \<Longrightarrow> \<exists>ps. chunks_to_points env a ws d v i chs = Inr ps"
proof (induction chs arbitrary: i)
  case Nil
  then show ?case by simp
next
  case (Cons ch chs)
  obtain p where "chunk_to_point env a ws d v i ch = Inr p"
    using Cons.prems by (auto simp: complete_chunk_def chunk_to_point_def require_chunk_fields_def Let_def)
  moreover obtain ps where "chunks_to_points env a ws d v (Suc i) chs = Inr ps" using Cons by auto
  ultimately show ?case by simp
qed

text \<open>The version of the call is not behind the checkpoint of its source.\<close>

definition admitted :: "qenv \<Rightarrow> upsert_args \<Rightarrow> qpoint list \<Rightarrow> bool" where
  "admitted env a xs \<longleftrightarrow>
     (case ua_version a of
        None \<Rightarrow> True
      | Some v \<Rightarrow> (case find (\<lambda>x. qp_id x = checkpoint_id env (ua_source_id a)) xs of
                     None \<Rightarrow> True
                   | Some p \<Rightarrow> \<not> (qp_payload p \<noteq> [] \<and> should_skip a v (qp_payload p))))"

lemma upsert_admitted:
  assumes "engine_ok en pts" and "engine_up en" and "extract_workspace_id (ua_metadata a) = Inr ws"
    and "admitted env a (pts c)"
  shows "upsert_chunks en env a c = upsert_if_new en env a ws c"
proof (cases "ua_version a")
  case None
  then show ?thesis using assms(3) by (simp add: upsert_chunks_def)
next
  case (Some v)
  obtain r where r: "en_retrieve en (checkpoint_id env (ua_source_id a)) c = Inr r" using up_retrieve [OF assms(2)] by blast
  then have "r = find (\<lambda>x. qp_id x = checkpoint_id env (ua_source_id a)) (pts c)" using engine_retrieve [OF assms(1)] by blast
  then show ?thesis using assms(3,4) Some r
    by (auto simp: upsert_chunks_def admitted_def bind_p_def ask_p_def res_p_def split: option.splits)
qed

lemma record_of_open:
  assumes "collection_ok xs" and "ps \<noteq> []" and "ps = open_points ws src ext xs"
  shows "\<exists>d. record_from_points ps = Inr d
    \<and> generation (hd ps) = (Some (VStr (uuid_str (dc_document_id d))), Some (VStr (dc_content_hash d)), Some (VInt (dc_doc_version d)))"
proof -
  have "hd ps \<in> set ps" using assms(2) by simp
  then have "hd ps \<in> set xs \<and> current (hd ps)" using assms(3) by (simp add: open_point_iff)
  then have "chunk_point (hd ps)" using collection_okD(1) [OF assms(1)] current_chunk by blast
  then show ?thesis
    by (auto simp: chunk_point_def record_from_points_def generation_def Let_def)
qed

lemma write_document_up:
  assumes "engine_ok en pts" and "engine_up en" and "list_all complete_chunk (ua_chunks a)"
  shows "\<exists>ps c'. made_points env a ws existing = Inr ps
    \<and> write_document en env a ws existing c = Some (Inr \<lparr>uo_action = (case existing of Some _ \<Rightarrow> ActUpdated | None \<Rightarrow> ActCreated),
         uo_document_id = doc_id_for env existing, uo_chunks_written = length (ua_chunks a),
         uo_doc_version = version_for existing\<rparr>, c')
    \<and> pts c' = fold put_point ps (retired existing ws (qe_now env) (pts c))"
proof -
  obtain cps where cps: "chunks_to_points env a ws (doc_id_for env existing) (version_for existing) 0 (ua_chunks a) = Inr cps"
    using complete_chunks [OF assms(3)] by blast
  obtain c1 where e1: "(case existing of Some d \<Rightarrow> end_date_points en (dc_point_ids d) ws (qe_now env) | None \<Rightarrow> ret_p ()) c = Some (Inr (), c1)"
  proof (cases existing)
    case None
    then show ?thesis using that [of c] by (simp add: ret_p_def)
  next
    case (Some d)
    obtain c1 where "en_set_payload en (ByFilter (build_point_ids_filter ws (dc_point_ids d))) [(''valid_to'', VTime (qe_now env))] c = Inr c1"
      using up_set_payload [OF assms(2)] by blast
    then show ?thesis using that [of c] that [of c1] Some
      by (cases "dc_point_ids d = []") (simp_all add: end_date_points_def ret_p_def tell_p_def)
  qed
  let ?ps = "cps @ (case ua_version a of Some v \<Rightarrow> [checkpoint_point env a ws v] | None \<Rightarrow> [])"
  obtain c2 where c2: "en_upsert en ?ps c1 = Inr c2" using up_upsert [OF assms(2)] by blast
  have "\<exists>r c'. write_document en env a ws existing c = Some (r, c') \<and> is_ok r"
    using cps e1 c2 unfolding write_document_def Let_def doc_id_for_def version_for_def
    by (simp add: then_p_def bind_p_def res_p_def ret_p_def tell_p_def)
  then obtain r c' where w: "write_document en env a ws existing c = Some (r, c')" "is_ok r" by blast
  then show ?thesis using write_document_cases [OF assms(1) w(1)] by auto
qed

lemma find_document_up:
  assumes "engine_ok en pts" and "engine_up en" and "collection_ok (pts c)"
  shows "\<exists>existing. find_document en ws src ext c = Some (Inr existing, c) \<and> found_in existing (open_points ws src ext (pts c))"
proof (cases "open_points ws src ext (pts c) = []")
  case True
  then show ?thesis using scroll_all_up [OF assms(1,2)]
    by (simp add: find_document_def bind_p_def ret_p_def open_points_def found_in_def)
next
  case False
  then obtain d where d: "record_from_points (open_points ws src ext (pts c)) = Inr d"
    using record_of_open [OF assms(3) False refl] by blast
  then have "find_document en ws src ext c = Some (Inr (Some d), c)"
    using scroll_all_up [OF assms(1,2)] False
    by (simp add: find_document_def bind_p_def ret_p_def res_p_def open_points_def)
  then show ?thesis using d False by (auto simp: found_in_def)
qed

lemma upsert_if_new_up:
  assumes "engine_ok en pts" and "engine_up en" and "collection_ok (pts c)"
    and "\<And>x. x \<in> set (open_points ws (ua_source_id a) (ua_external_id a) (pts c)) \<Longrightarrow>
      dict_get (qp_payload x) ''content_hash'' \<noteq> Some (VStr (ua_content_hash a))"
  shows "\<exists>existing. found_in existing (open_points ws (ua_source_id a) (ua_external_id a) (pts c))
    \<and> upsert_if_new en env a ws c = write_document en env a ws existing c"
proof -
  let ?o = "open_points ws (ua_source_id a) (ua_external_id a) (pts c)"
  obtain existing where e: "find_document en ws (ua_source_id a) (ua_external_id a) c = Some (Inr existing, c)"
    "found_in existing ?o" using find_document_up [OF assms(1-3)] by blast
  have "dc_content_hash d \<noteq> ua_content_hash a" if d: "existing = Some d" for d
  proof -
    have o: "?o \<noteq> []" "record_from_points ?o = Inr d" using e(2) d by (simp_all add: found_in_def)
    have "generation (hd ?o) = (Some (VStr (uuid_str (dc_document_id d))), Some (VStr (dc_content_hash d)), Some (VInt (dc_doc_version d)))"
      using record_of_open [OF assms(3) o(1) refl] o(2) by auto
    then show ?thesis using assms(4) [of "hd ?o"] o(1) by (simp add: generation_def Let_def)
  qed
  then show ?thesis using e by (intro exI [of _ existing]) (auto simp: upsert_if_new_def bind_p_def split: option.split)
qed

definition outcome :: "qenv \<Rightarrow> upsert_args \<Rightarrow> document_record option \<Rightarrow> upsert_outcome" where
  "outcome env a existing = \<lparr>uo_action = (case existing of Some _ \<Rightarrow> ActUpdated | None \<Rightarrow> ActCreated),
     uo_document_id = doc_id_for env existing, uo_chunks_written = length (ua_chunks a),
     uo_doc_version = version_for existing\<rparr>"

lemma upsert_chunks_up:
  assumes "engine_ok en pts" and "engine_up en" and "collection_ok (pts c)"
    and "extract_workspace_id (ua_metadata a) = Inr ws" and "admitted env a (pts c)"
    and "list_all complete_chunk (ua_chunks a)"
    and "\<And>x. x \<in> set (open_points ws (ua_source_id a) (ua_external_id a) (pts c)) \<Longrightarrow>
      dict_get (qp_payload x) ''content_hash'' \<noteq> Some (VStr (ua_content_hash a))"
  shows "\<exists>existing ps c'. found_in existing (open_points ws (ua_source_id a) (ua_external_id a) (pts c))
    \<and> made_points env a ws existing = Inr ps
    \<and> upsert_chunks en env a c = Some (Inr (outcome env a existing), c')
    \<and> pts c' = fold put_point ps (retired existing ws (qe_now env) (pts c))"
proof -
  obtain existing where f: "found_in existing (open_points ws (ua_source_id a) (ua_external_id a) (pts c))"
    and u: "upsert_chunks en env a c = write_document en env a ws existing c"
    using upsert_admitted [OF assms(1,2,4,5)] upsert_if_new_up [OF assms(1,2,3,7)] by metis
  show ?thesis using write_document_up [OF assms(1,2,6), of env ws existing c] f u
    by (auto simp: outcome_def)
qed

definition history :: "pval option \<times> pval option \<times> pval option \<Rightarrow> int \<Rightarrow> qpoint list \<Rightarrow> uuid set" where
  "history k t xs = qp_id ` {x \<in> set xs. doc_key x = k \<and> valid_at t x}"

lemma made_points_ids:
  assumes "made_points env a ws existing = Inr ps" and "list_all complete_chunk (ua_chunks a)"
  shows "map qp_id ps = chunk_ids a @ (if ua_version a = None then [] else [checkpoint_id env (ua_source_id a)])"
proof -
  have "list_all (\<lambda>ch. vc_chunk_id ch \<noteq> None) (ua_chunks a)"
    using assms(2) by (simp add: list_all_iff complete_chunk_def)
  then show ?thesis using assms(1) chunks_to_points_ids
    by (fastforce simp: made_points_def bind_res_eq_Inr chunk_ids_def split: option.splits)
qed

lemma made_history:
  assumes "made_points env a ws existing = Inr ps" and "list_all complete_chunk (ua_chunks a)"
  shows "history (doc_key_of ws (ua_source_id a) (ua_external_id a)) t ps = (if qe_now env \<le> t then set (chunk_ids a) else {})"
proof -
  let ?k = "doc_key_of ws (ua_source_id a) (ua_external_id a)"
  obtain cps where cps: "chunks_to_points env a ws (doc_id_for env existing) (version_for existing) 0 (ua_chunks a) = Inr cps"
    and ps: "ps = cps @ (case ua_version a of Some v \<Rightarrow> [checkpoint_point env a ws v] | None \<Rightarrow> [])"
    using assms(1) by (auto simp: made_points_def bind_res_eq_Inr)
  have cp: "doc_key (checkpoint_point env a ws v) \<noteq> ?k" for v by (simp add: doc_key_def doc_key_of_def Let_def)
  have v: "valid_at t p \<longleftrightarrow> qe_now env \<le> t" if "p \<in> set cps" for p
    using made_point(2,5) [OF cps that] by (auto simp: valid_at_iff)
  have "{x \<in> set ps. doc_key x = ?k \<and> valid_at t x} = (if qe_now env \<le> t then set cps else {})"
    using ps cp v made_point(3) [OF cps] by (auto split: option.splits)
  moreover have "qp_id ` set cps = set (chunk_ids a)"
  proof -
    have "list_all (\<lambda>ch. vc_chunk_id ch \<noteq> None) (ua_chunks a)"
      using assms(2) by (simp add: list_all_iff complete_chunk_def)
    from chunks_to_points_ids [OF cps this] show ?thesis by (metis chunk_ids_def list.set_map)
  qed
  ultimately show ?thesis by (simp add: history_def)
qed

lemma retired_history:
  assumes "collection_ok xs" and "by_id xs" and "found_in existing (open_points ws src ext xs)"
    and "\<And>x u. x \<in> set xs \<Longrightarrow> dict_get (qp_payload x) ''valid_to'' = Some (VTime u) \<Longrightarrow> u \<le> now"
  shows "history (doc_key_of ws src ext) t (retired existing ws now xs) = (if t < now then history (doc_key_of ws src ext) t xs else {})"
proof -
  let ?k = "doc_key_of ws src ext"
  define ids where "ids = qp_id ` set (open_points ws src ext xs)"
  define f where "f = (\<lambda>x. if in_workspace ws x \<and> qp_id x \<in> ids then merge_payload [(''valid_to'', VTime now)] x else x)"
  have r: "retired existing ws now xs = map f xs"
    using assms(3) found_in_ids [of _ "open_points ws src ext xs"]
    by (cases existing) (auto simp: retired_def found_in_def end_dated_def f_def ids_def)
  have key: "doc_key (f x) = doc_key x" for x by (simp add: f_def merge_other_fields)
  have open_iff: "qp_id x \<in> ids \<longleftrightarrow> current x" if "x \<in> set xs" "doc_key x = ?k" for x
    using open_points_chunk(1) [OF assms(1,2) that(1), of ws src ext] that by (auto simp: ids_def open_point_iff)
  have v: "valid_at t (f x) \<longleftrightarrow> t < now \<and> valid_at t x" if x: "x \<in> set xs" "doc_key x = ?k" for x
  proof (cases "current x")
    case True
    then have "f x = merge_payload [(''valid_to'', VTime now)] x"
      using open_iff [OF x] open_point_workspace [OF x(2)] by (simp add: f_def)
    then show ?thesis using True by (auto simp: valid_at_iff)
  next
    case False
    then have "f x = x" using open_iff [OF x] by (simp add: f_def)
    then show ?thesis using False assms(4) [OF x(1)] by (auto simp: valid_at_iff)
  qed
  have "qp_id (f x) = qp_id x" for x by (simp add: f_def)
  then show ?thesis unfolding r history_def using key v by (auto simp: image_iff) metis
qed

text \<open>
  Claim C23: An upsert of new content keeps the history of the document. When the service answers
  and the source's checkpoint admits the version, a read as of any earlier instant selects the
  same chunks as before the call, and a read as of the instant of the call or later selects
  exactly the new chunks.
\<close>

theorem update_keeps_history:
  assumes "engine_ok en pts" and "engine_up en" and "collection_ok (pts c)"
    and "extract_workspace_id (ua_metadata a) = Inr ws" and "admitted env a (pts c)"
    and "list_all complete_chunk (ua_chunks a)" and "distinct (chunk_ids a @ [checkpoint_id env (ua_source_id a)])"
    and "\<And>x. x \<in> set (pts c) \<Longrightarrow> qp_id x \<notin> set (chunk_ids a)"
    and "\<And>x. x \<in> set (pts c) \<Longrightarrow> qp_id x = checkpoint_id env (ua_source_id a) \<Longrightarrow> version_mark x"
    and "\<And>x. x \<in> set (open_points ws (ua_source_id a) (ua_external_id a) (pts c)) \<Longrightarrow>
      dict_get (qp_payload x) ''content_hash'' \<noteq> Some (VStr (ua_content_hash a))"
    and "\<And>x u. x \<in> set (pts c) \<Longrightarrow> dict_get (qp_payload x) ''valid_to'' = Some (VTime u) \<Longrightarrow> u \<le> qe_now env"
  shows "\<exists>u c'. upsert_chunks en env a c = Some (Inr u, c') \<and> uo_action u \<noteq> ActUnchanged
    \<and> history (doc_key_of ws (ua_source_id a) (ua_external_id a)) t (pts c') =
        (if t < qe_now env then history (doc_key_of ws (ua_source_id a) (ua_external_id a)) t (pts c) else set (chunk_ids a))"
proof -
  let ?k = "doc_key_of ws (ua_source_id a) (ua_external_id a)"
  obtain existing ps c' where f: "found_in existing (open_points ws (ua_source_id a) (ua_external_id a) (pts c))"
    and ps: "made_points env a ws existing = Inr ps" and u: "upsert_chunks en env a c = Some (Inr (outcome env a existing), c')"
    and v: "pts c' = fold put_point ps (retired existing ws (qe_now env) (pts c))"
    using upsert_chunks_up [OF assms(1-6,10)] by blast
  let ?r = "retired existing ws (qe_now env) (pts c)"
  have sorted: "by_id ?r"
    using engine_by_id [OF assms(1), of c] by (auto simp: retired_def end_dated_def intro: by_id_map split: option.split)
  have ids: "qp_id ` set ps \<subseteq> set (chunk_ids a) \<union> {checkpoint_id env (ua_source_id a)}" and d: "distinct (map qp_id ps)"
    using made_points_ids [OF ps assms(6)] assms(7) by (auto simp flip: list.set_map split: if_splits)
  have s: "set (pts c') = set ps \<union> {x \<in> set ?r. qp_id x \<notin> qp_id ` set ps}"
    unfolding v by (rule set_fold_put [OF sorted d])
  have keep: "qp_id x \<notin> qp_id ` set ps" if x: "x \<in> set ?r" "doc_key x = ?k" for x
  proof -
    obtain y where y: "y \<in> set (pts c)" "qp_id x = qp_id y" "doc_key x = doc_key y"
      using x(1) by (auto simp: retired_def end_dated_def merge_other_fields split: option.splits if_splits)
    then have "\<not> version_mark y" using x(2) by (auto simp: version_mark_def doc_key_def doc_key_of_def Let_def)
    then show ?thesis using ids y assms(8,9) [OF y(1)] by auto
  qed
  have "history ?k t (pts c') = history ?k t ps \<union> history ?k t ?r"
    using keep unfolding history_def s by (auto simp: image_iff)
  then have "history ?k t (pts c') = (if t < qe_now env then history ?k t (pts c) else set (chunk_ids a))"
    using made_history [OF ps assms(6)] retired_history [OF assms(3) engine_by_id [OF assms(1)] f assms(11)] by auto
  then show ?thesis using u by (auto simp: outcome_def split: option.split)
qed

section \<open>Tenants\<close>

definition foreign :: "uuid \<Rightarrow> qpoint list \<Rightarrow> qpoint set" where
  "foreign ws xs = {x \<in> set xs. \<not> in_workspace ws x}"

text \<open>The ids under which a call may put points.\<close>

definition call_ids :: "qenv \<Rightarrow> upsert_args \<Rightarrow> uuid set" where
  "call_ids env a = {u. \<exists>ch \<in> set (ua_chunks a). vc_chunk_id ch = Some u} \<union> range (qe_fresh env)
     \<union> {checkpoint_id env (ua_source_id a)}"

text \<open>A call on behalf of one workspace; the ids it brings are not ids of another tenant's points.\<close>

inductive tenant_call :: "'q engine \<Rightarrow> ('q \<Rightarrow> qpoint list) \<Rightarrow> uuid \<Rightarrow> 'q \<Rightarrow> 'q \<Rightarrow> bool" for en pts ws where
  tc_upsert: "upsert_chunks en env a c = Some (r, c') \<Longrightarrow> extract_workspace_id (ua_metadata a) = Inr ws \<Longrightarrow>
     qp_id ` foreign ws (pts c) \<inter> call_ids env a = {} \<Longrightarrow> tenant_call en pts ws c c'"
| tc_delete: "delete_by_document en env src ext (Some ws) c = Some (r, c') \<Longrightarrow> tenant_call en pts ws c c'"
| tc_end_date: "end_date_chunks en env src ws t excl c = Some (r, c') \<Longrightarrow> tenant_call en pts ws c c'"
| tc_warm: "mark_retention_warm en day_of ws cutoff c = Some (r, c') \<Longrightarrow> tenant_call en pts ws c c'"
| tc_archive: "delete_retention_archive en ws day c = Some (r, c') \<Longrightarrow> tenant_call en pts ws c c'"

lemma foreign_map:
  assumes "\<And>x. x \<in> set xs \<Longrightarrow> in_workspace ws (f x) = in_workspace ws x"
    and "\<And>x. x \<in> set xs \<Longrightarrow> \<not> in_workspace ws x \<Longrightarrow> f x = x"
  shows "foreign ws (map f xs) = foreign ws xs"
  using assms by (force simp: foreign_def)

lemma foreign_set:
  assumes "\<And>x. in_workspace ws (merge_payload kvs x) = in_workspace ws x"
    and "\<And>x. x \<in> set xs \<Longrightarrow> P x \<Longrightarrow> in_workspace ws x"
  shows "foreign ws (map (\<lambda>x. if P x then merge_payload kvs x else x) xs) = foreign ws xs"
  using assms by (intro foreign_map) auto

lemma in_workspace_merge [simp]:
  "in_workspace ws (merge_payload [(''valid_to'', v)] x) = in_workspace ws x"
  "in_workspace ws (merge_payload [(''tombstoned_at'', v)] x) = in_workspace ws x"
  "in_workspace ws (merge_payload [(''tier'', v), (''snapshot_date'', v')] x) = in_workspace ws x"
  by (simp_all add: in_workspace_def)

lemma foreign_put:
  assumes "by_id xs" and "\<And>p. p \<in> set ps \<Longrightarrow> in_workspace ws p" and "qp_id ` foreign ws xs \<inter> qp_id ` set ps = {}"
  shows "foreign ws (fold put_point ps xs) = foreign ws xs"
  using assms
proof (induction ps arbitrary: xs)
  case Nil
  then show ?case by simp
next
  case (Cons p ps)
  have ne: "qp_id x \<noteq> qp_id p" if "x \<in> set xs" "\<not> in_workspace ws x" for x
  proof
    assume "qp_id x = qp_id p"
    then have "qp_id p \<in> qp_id ` foreign ws xs" using that by (auto simp: foreign_def image_iff intro: bexI [of _ x])
    then show False using Cons.prems(3) by auto
  qed
  have "foreign ws (put_point p xs) = foreign ws xs"
    using Cons.prems(1,2) ne by (auto simp: foreign_def set_put_point)
  then show ?case using Cons.IH [of "put_point p xs"] Cons.prems by (simp add: by_id_put_point)
qed

lemma foreign_retired: "foreign ws (retired existing ws t xs) = foreign ws xs"
  by (cases existing) (simp_all add: retired_def end_dated_def, rule foreign_set, simp_all)

lemma chunks_to_points_call_ids:
  "chunks_to_points env a ws d v i chs = Inr ps \<Longrightarrow> p \<in> set ps \<Longrightarrow>
     qp_id p \<in> {u. \<exists>ch \<in> set chs. vc_chunk_id ch = Some u} \<union> range (qe_fresh env)"
proof (induction chs arbitrary: i ps)
  case Nil
  then show ?case by simp
next
  case (Cons ch chs)
  obtain q qs where q: "chunk_to_point env a ws d v i ch = Inr q" "chunks_to_points env a ws d v (Suc i) chs = Inr qs"
    and ps: "ps = q # qs"
    using Cons.prems(1) by (auto simp: bind_res_eq_Inr)
  show ?case
  proof (cases "p = q")
    case True
    then show ?thesis using chunk_to_pointD(2) [OF q(1)] by (auto split: option.splits)
  next
    case False
    then show ?thesis using Cons.IH [OF q(2)] Cons.prems(2) ps by auto
  qed
qed

lemma made_points_call_ids:
  assumes "made_points env a ws existing = Inr ps" and "p \<in> set ps"
  shows "qp_id p \<in> call_ids env a"
  using assms chunks_to_points_call_ids
  by (fastforce simp: made_points_def bind_res_eq_Inr call_ids_def split: option.splits)

lemma upsert_foreign:
  assumes "engine_ok en pts" and "upsert_chunks en env a c = Some (r, c')" and "extract_workspace_id (ua_metadata a) = Inr ws"
    and "qp_id ` foreign ws (pts c) \<inter> call_ids env a = {}"
  shows "foreign ws (pts c') = foreign ws (pts c)"
proof -
  consider "c' = c" | "upsert_if_new en env a ws c = Some (r, c')"
    using upsert_chunks_cases [OF assms(1,2)] assms(3) by auto
  then consider "c' = c" | existing where "write_document en env a ws existing c = Some (r, c')"
    using upsert_if_new_cases [OF assms(1)] by metis
  then show ?thesis
  proof cases
    case 1
    then show ?thesis by simp
  next
    case (2 existing)
    let ?r = "retired existing ws (qe_now env) (pts c)"
    consider "pts c' = pts c" | "pts c' = ?r"
      | ps where "made_points env a ws existing = Inr ps" "pts c' = fold put_point ps ?r"
      using write_document_cases [OF assms(1) 2] by blast
    then show ?thesis
    proof cases
      case (3 ps)
      have "by_id ?r"
        using engine_by_id [OF assms(1), of c] by (auto simp: retired_def end_dated_def intro: by_id_map split: option.split)
      moreover have "qp_id ` foreign ws ?r \<inter> qp_id ` set ps = {}"
        using assms(4) made_points_call_ids [OF 3(1)] by (auto simp: foreign_retired)
      ultimately show ?thesis using foreign_put made_points_facts(3) [OF 3(1)] 3(2) foreign_retired by metis
    qed (simp_all add: foreign_retired)
  qed
qed

lemma mark_days_foreign:
  assumes "engine_ok en pts"
  shows "mark_days en d n c = Some (r, c') \<Longrightarrow>
    (\<And>x. x \<in> set (pts c) \<Longrightarrow> \<exists>(day, ids) \<in> set d. qp_id x \<in> set ids \<Longrightarrow> in_workspace ws x) \<Longrightarrow>
    foreign ws (pts c') = foreign ws (pts c)"
proof (induction d arbitrary: n c)
  case Nil
  then show ?case by (simp add: ret_p_def)
next
  case (Cons p rest)
  obtain day ids where p: "p = (day, ids)" by force
  show ?case
  proof (cases "ids = []")
    case True
    then show ?thesis using Cons.IH Cons.prems p by simp
  next
    case False
    let ?kvs = "[(''tier'', VStr ''warm''), (''snapshot_date'', VStr day)]"
    show ?thesis
    proof (cases "en_set_payload en (ByIds ids) ?kvs c")
      case (Inl e)
      then show ?thesis using False Cons.prems(1) p by (simp add: then_p_def bind_p_def tell_p_def)
    next
      case (Inr c1)
      note v = engine_set_payload [OF assms Inr, unfolded selects_def selector.case]
      have "foreign ws (pts c1) = foreign ws (pts c)"
        unfolding v by (rule foreign_set) (use Cons.prems(2) p in auto)
      moreover have "in_workspace ws x" if "x \<in> set (pts c1)" "\<exists>(day, ids) \<in> set rest. qp_id x \<in> set ids" for x
        using that Cons.prems(2) unfolding v p by (fastforce split: if_splits)
      moreover have "mark_days en rest (n + length ids) c1 = Some (r, c')"
        using Cons.prems(1) False Inr p by (simp add: then_p_def bind_p_def tell_p_def)
      ultimately show ?thesis using Cons.IH by metis
    qed
  qed
qed

lemma mark_retention_warm_foreign:
  assumes "engine_ok en pts" and "mark_retention_warm en day_of ws cutoff c = Some (r, c')"
  shows "foreign ws (pts c') = foreign ws (pts c)"
proof -
  let ?f = "build_retention_eligible_filter ws cutoff"
  obtain r1 where s: "scroll_all en ?f c = Some (r1, c)"
    using assms(2) scroll_all_cases(1) [OF assms(1)] by (fastforce simp: mark_retention_warm_def bind_p_def split: option.splits)
  show ?thesis
  proof (cases r1)
    case (Inl e)
    then show ?thesis using assms(2) s by (simp add: mark_retention_warm_def bind_p_def)
  next
    case (Inr xs)
    have xs: "xs = filter (filter_holds ?f) (pts c)" using scroll_all_cases(2) [OF assms(1) s Inr] .
    have m: "mark_days en (group_by_day day_of xs []) 0 c = Some (r, c')"
      using assms(2) s Inr by (simp add: mark_retention_warm_def bind_p_def)
    have "in_workspace ws x" if x: "x \<in> set (pts c)" "\<exists>(day, ids) \<in> set (group_by_day day_of xs []). qp_id x \<in> set ids" for x
    proof -
      obtain p where p: "p \<in> set xs" "qp_id p = qp_id x" using x(2) group_by_day_ids by fastforce
      then have "p = x" using by_id_inj [OF engine_by_id [OF assms(1)]] x(1) xs by auto
      then show ?thesis using p(1) xs
        by (simp add: filter_holds_def build_retention_eligible_filter_def workspace_clause_def in_workspace_def)
    qed
    then show ?thesis using mark_days_foreign [OF assms(1) m] by blast
  qed
qed

lemma delete_by_document_foreign:
  assumes "engine_ok en pts" and "delete_by_document en env src ext (Some ws) c = Some (r, c')"
  shows "foreign ws (pts c') = foreign ws (pts c)"
proof -
  consider "c' = c" | d where "found_in (Some d) (open_points ws src ext (pts c))"
    "pts c' = map (\<lambda>x. if qp_id x \<in> set (dc_point_ids d) then merge_payload [(''tombstoned_at'', VTime (qe_now env))] x else x) (pts c)"
    using delete_by_document_cases [OF assms] by blast
  then show ?thesis
  proof cases
    case (2 d)
    have "in_workspace ws x" if x: "x \<in> set (pts c)" "qp_id x \<in> set (dc_point_ids d)" for x
    proof -
      obtain y where "y \<in> set (open_points ws src ext (pts c))" "qp_id y = qp_id x"
        using x(2) found_in_ids [OF 2(1)] by auto
      then show ?thesis using by_id_inj [OF engine_by_id [OF assms(1)], of x c y] x(1) open_point_workspace
        by (auto simp: open_point_iff)
    qed
    then show ?thesis unfolding 2(2) by (intro foreign_set) simp_all
  qed simp
qed

lemma delete_retention_archive_foreign:
  assumes "engine_ok en pts" and "delete_retention_archive en ws day c = Some (r, c')"
  shows "foreign ws (pts c') = foreign ws (pts c)"
proof -
  let ?f = "build_warm_archive_filter ws day"
  have "c' = c \<or> en_delete en (ByFilter ?f) c = Inr c'"
    using assms(2) unfolding delete_retention_archive_def Let_def
    by (cases "en_count en ?f c"; cases "en_delete en (ByFilter ?f) c")
       (auto simp: bind_p_def ask_p_def then_p_def ret_p_def tell_p_def split: if_splits)
  then show ?thesis using engine_delete [OF assms(1)]
    by (auto simp: foreign_def selects_def filter_holds_def build_warm_archive_filter_def workspace_clause_def in_workspace_def)
qed

text \<open>
  Claim C24: Tenants are isolated. In every run of upserts, deletions, end-datings and retention
  passes on behalf of one workspace, whatever fails, no point of another workspace is added,
  changed or removed, as long as the ids the calls bring are not ids of such a point.
\<close>

theorem tenants_are_isolated:
  assumes "engine_ok en pts" and "(tenant_call en pts ws)\<^sup>*\<^sup>* c c'"
  shows "foreign ws (pts c') = foreign ws (pts c)"
  using assms(2)
proof (induction rule: rtranclp_induct)
  case base
  then show ?case ..
next
  case (step c1 c2)
  from step.hyps(2) have "foreign ws (pts c2) = foreign ws (pts c1)"
  proof cases
    case tc_upsert
    then show ?thesis by (rule upsert_foreign [OF assms(1)])
  next
    case tc_delete
    then show ?thesis by (rule delete_by_document_foreign [OF assms(1)])
  next
    case (tc_end_date env src t excl r)
    have "foreign ws (map (\<lambda>x. if filter_holds (build_end_date_chunks_filter ws src excl) x
        then merge_payload [(''valid_to'', VTime u)] x else x) (pts c1)) = foreign ws (pts c1)" for u
      by (rule foreign_set) (simp_all add: end_date_filter_current)
    then show ?thesis using end_date_chunks_cases [OF assms(1) tc_end_date] by auto
  next
    case tc_warm
    then show ?thesis by (rule mark_retention_warm_foreign [OF assms(1)])
  next
    case tc_archive
    then show ?thesis by (rule delete_retention_archive_foreign [OF assms(1)])
  qed
  then show ?case using step.IH by simp
qed

section \<open>Witnesses\<close>

definition demo_qenv :: "int \<Rightarrow> qenv" where
  "demo_qenv now = \<lparr>qe_now = now, qe_fresh = (\<lambda>n. 1000 + of_nat n), qe_uuid5 = (\<lambda>_. 7), qe_dim = 1, qe_embed = (\<lambda>_. Inr [[1]])\<rparr>"

definition demo_chunk :: "uuid \<Rightarrow> vchunk" where
  "demo_chunk u = \<lparr>vc_chunk_id = Some u, vc_ord = Some 0, vc_text = Some ''text'', vc_embedding = Some [1], vc_symbol = None,
     vc_metadata = None, vc_embedding_model = None, vc_embedding_provider = None, vc_parser_version = None,
     vc_chunker_strategy = None\<rparr>"

definition demo_upsert :: "string \<Rightarrow> string \<Rightarrow> uuid \<Rightarrow> int \<Rightarrow> upsert_args" where
  "demo_upsert ext h u v = \<lparr>ua_source_id = 5, ua_external_id = ext, ua_uri = ext, ua_title = None, ua_content_hash = h,
     ua_metadata = [(''workspace_id'', JStr (uuid_str 9))], ua_chunks = [demo_chunk u], ua_run_id = None,
     ua_version = Some v, ua_epoch = None, ua_forced_replay = False\<rparr>"

lemma demo_fields [simp]:
  "extract_workspace_id (ua_metadata (demo_upsert ext h u v)) = Inr 9"
  "list_all complete_chunk (ua_chunks (demo_upsert ext h u v))"
  "ua_source_id (demo_upsert ext h u v) = 5" "ua_version (demo_upsert ext h u v) = Some v"
  "ua_external_id (demo_upsert ext h u v) = ext" "ua_content_hash (demo_upsert ext h u v) = h"
  "chunk_ids (demo_upsert ext h u v) = [u]" "checkpoint_id (demo_qenv now) 5 = 7" "qe_now (demo_qenv now) = now"
  by (simp_all add: demo_upsert_def extract_workspace_id_def complete_chunk_def demo_chunk_def chunk_ids_def
      checkpoint_id_def demo_qenv_def)

lemma empty_collection [simp]: "mem_points [] = []" "collection_ok []" "open_points ws src ext [] = []" "admitted env a []"
  by (simp_all add: mem_points_def collection_ok_def open_points_def admitted_def split: option.split)

lemma demo_first:
  "\<exists>c'. upsert_chunks mem_engine (demo_qenv now) (demo_upsert ext h u v) [] =
     Some (Inr (outcome (demo_qenv now) (demo_upsert ext h u v) None), c')"
  using upsert_chunks_up [OF mem_engine_ok mem_engine_up, of "[]" "demo_upsert ext h u v" 9 "demo_qenv now"]
  by (auto simp: found_in_def split: option.splits)

theorem scroll_reads_everything_witness:
  "\<exists>r. scroll_all mem_engine (build (new_builder 9)) [] = Some (r, []) \<and> r = Inr []"
  using scroll_reads_everything [OF mem_engine_ok, of "build (new_builder 9)" "[]"] mem_engine_up by (auto simp: is_ok_iff)

theorem one_open_generation_witness:
  "\<exists>c'. (store_call mem_engine)\<^sup>*\<^sup>* [] c' \<and> collection_ok (mem_points c')
     \<and> upsert_chunks mem_engine (demo_qenv 3) (demo_upsert ''a.md'' ''h1'' 11 1) [] =
         Some (Inr (outcome (demo_qenv 3) (demo_upsert ''a.md'' ''h1'' 11 1) None), c')"
proof -
  obtain c' where c': "upsert_chunks mem_engine (demo_qenv 3) (demo_upsert ''a.md'' ''h1'' 11 1) [] =
      Some (Inr (outcome (demo_qenv 3) (demo_upsert ''a.md'' ''h1'' 11 1) None), c')"
    using demo_first by blast
  then have "(store_call mem_engine)\<^sup>*\<^sup>* [] c'" by (blast intro: sc_upsert)
  then show ?thesis using one_open_generation [OF mem_engine_ok, of "[]" c'] c' by auto
qed

theorem source_checkpoint_drops_documents_witness:
  "\<exists>u c' u'. upsert_chunks mem_engine (demo_qenv 3) (demo_upsert ''a.md'' ''h1'' 11 1) [] = Some (Inr u, c')
     \<and> uo_action u = ActCreated
     \<and> upsert_chunks mem_engine (demo_qenv 4) (demo_upsert ''b.md'' ''h2'' 12 1) c' = Some (Inr u', c')
     \<and> uo_action u' = ActUnchanged \<and> uo_chunks_written u' = 0"
proof -
  let ?u = "outcome (demo_qenv 3) (demo_upsert ''a.md'' ''h1'' 11 1) None"
  obtain c' where c': "upsert_chunks mem_engine (demo_qenv 3) (demo_upsert ''a.md'' ''h1'' 11 1) [] = Some (Inr ?u, c')"
    using demo_first by blast
  have "\<exists>u'. upsert_chunks mem_engine (demo_qenv 4) (demo_upsert ''b.md'' ''h2'' 12 1) c' = Some (Inr u', c')
      \<and> uo_action u' = ActUnchanged \<and> uo_chunks_written u' = 0"
    by (rule source_checkpoint_drops_documents [OF mem_engine_ok mem_engine_up c', of 1 _ 1 9])
       (simp_all add: outcome_def, simp_all add: demo_upsert_def demo_qenv_def)
  then show ?thesis using c' by (auto simp: outcome_def)
qed

theorem update_keeps_history_witness:
  "\<exists>u c'. upsert_chunks mem_engine (demo_qenv 3) (demo_upsert ''a.md'' ''h1'' 11 1) [] = Some (Inr u, c')
     \<and> history (doc_key_of 9 5 ''a.md'') 5 (mem_points c') = {11}"
  using update_keeps_history [OF mem_engine_ok mem_engine_up, of "[]" "demo_upsert ''a.md'' ''h1'' 11 1" 9 "demo_qenv 3" 5]
  by auto

theorem tenants_are_isolated_witness:
  "\<exists>c'. (tenant_call mem_engine mem_points 9)\<^sup>*\<^sup>* [] c' \<and> foreign 9 (mem_points c') = {}"
proof -
  obtain c' where c': "upsert_chunks mem_engine (demo_qenv 3) (demo_upsert ''a.md'' ''h1'' 11 1) [] =
      Some (Inr (outcome (demo_qenv 3) (demo_upsert ''a.md'' ''h1'' 11 1) None), c')"
    using demo_first by blast
  have "tenant_call mem_engine mem_points 9 [] c'"
    by (rule tc_upsert [OF c']) (simp_all add: foreign_def)
  then have "(tenant_call mem_engine mem_points 9)\<^sup>*\<^sup>* [] c'" by simp
  then show ?thesis using tenants_are_isolated [OF mem_engine_ok] by (auto simp: foreign_def)
qed

end
