(* ===== verification/QdrantSearch.thy ===== *)
theory QdrantSearch
  imports QdrantHistory
begin

text \<open>
  The searches of the vector store adapter (\<^verbatim>\<open>packages/index/.../stores/qdrant_store.py\<close>): the
  filter of a request, the dense, the sparse and the fused search, and the hits they return.
\<close>

section \<open>Search\<close>

fun extract_source_ids :: "string list \<Rightarrow> uuid list res" where
  "extract_source_ids [] = Inr []"
| "extract_source_ids (s # ss) =
     (case uuid_parse s of
        Inl _ \<Rightarrow> Inl (ValueError ''request.sources'')
      | Inr u \<Rightarrow> bind_res (extract_source_ids ss) (\<lambda>us. Inr (u # us)))"

definition request_to_filter :: "search_request \<Rightarrow> uuid \<Rightarrow> int option \<Rightarrow> qfilter res" where
  "request_to_filter rq ws as_of =
     bind_res (extract_source_ids (case sr_sources rq of None \<Rightarrow> [] | Some ss \<Rightarrow> ss)) (\<lambda>ids.
       let b0 = new_builder ws;
           b1 = (if ids \<noteq> [] then with_source_ids ids b0 else b0);
           b2 = (if \<not> sr_include_tombstoned rq then exclude_tombstoned b1 else b1)
       in Inr (build (temporal as_of b2)))"

definition embed_query :: "qenv \<Rightarrow> string \<Rightarrow> rat list res" where
  "embed_query env q = bind_res (qe_embed env q) (\<lambda>vs. case vs of [] \<Rightarrow> Inl IndexError | v # _ \<Rightarrow> Inr v)"

fun accumulate :: "nat \<Rightarrow> scored_point list \<Rightarrow> (uuid, real) dict \<times> (uuid, qpayload) dict
  \<Rightarrow> (uuid, real) dict \<times> (uuid, qpayload) dict" where
  "accumulate rank [] st = st"
| "accumulate rank (s # ss) (scores, payloads) =
     accumulate (Suc rank) ss
       (dict_set scores (sp_id s) (dict_getd scores (sp_id s) 0 + 1 / (real RRF_K + real rank)),
        case sp_payload s of
          Some p \<Rightarrow> if p \<noteq> [] \<and> \<not> dict_has payloads (sp_id s) then dict_set payloads (sp_id s) p else payloads
        | None \<Rightarrow> payloads)"

definition rrf_point ::
  "scored_point list \<Rightarrow> (uuid, real) dict \<Rightarrow> (uuid, qpayload) dict \<Rightarrow> uuid \<Rightarrow> scored_point option" where
  "rrf_point hits scores payloads pid =
     (case find (\<lambda>s. sp_id s = pid) hits of
        None \<Rightarrow> None
      | Some s \<Rightarrow> Some \<lparr>sp_id = sp_id s, sp_score = dict_getd scores pid 0,
          sp_payload = (case dict_get payloads pid of Some p \<Rightarrow> Some p | None \<Rightarrow> sp_payload s)\<rparr>)"

definition rrf_merge :: "scored_point list \<Rightarrow> scored_point list \<Rightarrow> int \<Rightarrow> scored_point list" where
  "rrf_merge dense sparse top_k =
     (let (scores, payloads) = accumulate 1 sparse (accumulate 1 dense ([], []));
          ranked = take (nat top_k) (order_by (\<lambda>pid. - dict_getd scores pid 0) (dict_keys scores))
      in List.map_filter (rrf_point (dense @ sparse) scores payloads) ranked)"

definition pval_uuid :: "pval option \<Rightarrow> uuid res" where
  "pval_uuid v = (case v of Some (VStr s) \<Rightarrow> uuid_parse s | _ \<Rightarrow> Inl TypeError)"

definition parse_opt_uuid :: "pval option \<Rightarrow> uuid option res" where
  "parse_opt_uuid v = (case v of Some (VStr s) \<Rightarrow> bind_res (uuid_parse s) (\<lambda>u. Inr (Some u)) | _ \<Rightarrow> Inr None)"

definition parse_datetime :: "int \<Rightarrow> pval option \<Rightarrow> int" where
  "parse_datetime now v = (case v of Some (VTime t) \<Rightarrow> t | _ \<Rightarrow> now)"

definition hit_of_point :: "int \<Rightarrow> scored_point \<Rightarrow> search_hit res" where
  "hit_of_point now s =
     (let p = (case sp_payload s of None \<Rightarrow> [] | Some p \<Rightarrow> p) in
      bind_res (pval_uuid (dict_get p ''document_id'')) (\<lambda>doc_id.
      bind_res (pval_uuid (dict_get p ''source_id'')) (\<lambda>src.
      bind_res (case dict_get p ''doc_version'' of None \<Rightarrow> Inr 0 | Some v \<Rightarrow> pval_int v) (\<lambda>version.
      bind_res (parse_opt_uuid (dict_get p ''ingestion_run_id'')) (\<lambda>_.
        Inr \<lparr>sh_chunk_id = sp_id s, sh_document_id = doc_id, sh_score = sp_score s,
             sh_text = (case dict_get p ''text'' of None \<Rightarrow> [] | Some v \<Rightarrow> pval_str v),
             sh_source_id = src, sh_source_type = ''qdrant'',
             sh_indexed_at = parse_datetime now (dict_get p ''recorded_at''),
             sh_source_instance = None, sh_confidence = None, sh_score_type = None, sh_impact = None,
             sh_applied_version = Some version\<rparr>)))))"

fun hits_of_points :: "int \<Rightarrow> scored_point list \<Rightarrow> search_hit list res" where
  "hits_of_points now [] = Inr []"
| "hits_of_points now (s # ss) =
     bind_res (hit_of_point now s) (\<lambda>h. bind_res (hits_of_points now ss) (\<lambda>hs. Inr (h # hs)))"

definition search_result_of :: "search_hit list \<Rightarrow> int \<Rightarrow> int \<Rightarrow> search_result" where
  "search_result_of hits scored text_matches =
     \<lparr>rs_hits = hits,
      rs_query_stats = \<lparr>qs_total_matches = scored, qs_vector_matches = scored - text_matches, qs_text_matches = text_matches\<rparr>,
      rs_effective_as_of = None, rs_degraded_response = None,
      rs_min_applied_version = min_list_opt (List.map_filter sh_applied_version hits),
      rs_degraded_subsystems = [], rs_staleness = None, rs_pinned_watermark = None, rs_next_cursor = None\<rparr>"

definition build_search_result :: "int \<Rightarrow> scored_point list \<Rightarrow> int \<Rightarrow> int \<Rightarrow> search_result res" where
  "build_search_result now scored top_k text_matches =
     bind_res (hits_of_points now (take (nat top_k) scored)) (\<lambda>hits.
       Inr (search_result_of hits (int (length scored)) text_matches))"

definition search_dense :: "'q engine \<Rightarrow> qenv \<Rightarrow> search_request \<Rightarrow> uuid \<Rightarrow> int option \<Rightarrow> 'q \<Rightarrow> search_result res" where
  "search_dense en env rq ws as_of c =
     bind_res (embed_query env (sr_query rq)) (\<lambda>v.
     bind_res (request_to_filter rq ws as_of) (\<lambda>f.
     bind_res (en_query en (QDense v) f (sr_top_k rq) c) (\<lambda>hits.
       build_search_result (qe_now env) hits (sr_top_k rq) 0)))"

definition search_sparse :: "'q engine \<Rightarrow> qenv \<Rightarrow> search_request \<Rightarrow> uuid \<Rightarrow> int option \<Rightarrow> 'q \<Rightarrow> search_result res" where
  "search_sparse en env rq ws as_of c =
     (let q = tokenize_to_sparse (sr_query rq) in
      if sv_indices q = [] then Inr (search_result_of [] 0 0)
      else
        bind_res (request_to_filter rq ws as_of) (\<lambda>f.
        bind_res (en_query en (QSparse q) f (sr_top_k rq) c) (\<lambda>hits.
          build_search_result (qe_now env) hits (sr_top_k rq) (int (length hits)))))"

definition search_hybrid_rrf :: "'q engine \<Rightarrow> qenv \<Rightarrow> search_request \<Rightarrow> uuid \<Rightarrow> int option \<Rightarrow> 'q \<Rightarrow> search_result res" where
  "search_hybrid_rrf en env rq ws as_of c =
     bind_res (request_to_filter rq ws as_of) (\<lambda>f.
     let candidate_k = sr_top_k rq * SPARSE_CANDIDATE_FACTOR; q = tokenize_to_sparse (sr_query rq) in
     bind_res (embed_query env (sr_query rq)) (\<lambda>v.
     bind_res (en_query en (QDense v) f candidate_k c) (\<lambda>dense.
     bind_res (if sv_indices q = [] then Inr [] else en_query en (QSparse q) f candidate_k c) (\<lambda>sparse.
       build_search_result (qe_now env) (rrf_merge dense sparse (sr_top_k rq)) (sr_top_k rq) (int (length sparse))))))"

definition qdrant_search :: "'q engine \<Rightarrow> qenv \<Rightarrow> search_request \<Rightarrow> uuid \<Rightarrow> int option \<Rightarrow> 'q \<Rightarrow> search_result res" where
  "qdrant_search en env rq ws as_of c =
     (let effective = (case as_of of Some t \<Rightarrow> Some t | None \<Rightarrow> sr_as_of rq) in
      if sr_retrieval_strategy rq = ''keyword'' then search_sparse en env rq ws effective c
      else if sr_retrieval_strategy rq = ''hybrid'' \<or> sr_retrieval_strategy rq = ''auto''
      then search_hybrid_rrf en env rq ws effective c
      else search_dense en env rq ws effective c)"

section \<open>Fusion\<close>

text \<open>What a ranked list contributes to the fused score of a point: one over 60 plus its rank.\<close>

definition rrf_weight :: "nat \<Rightarrow> scored_point list \<Rightarrow> uuid \<Rightarrow> real" where
  "rrf_weight rank xs u = (\<Sum>i<length xs. if sp_id (xs ! i) = u then 1 / (60 + real (rank + i)) else 0)"

lemma rrf_weight_simps [simp]:
  "rrf_weight rank [] u = 0"
  "rrf_weight rank (s # ss) u = (if sp_id s = u then 1 / (60 + real rank) else 0) + rrf_weight (Suc rank) ss u"
  by (simp_all add: rrf_weight_def sum.lessThan_Suc_shift del: sum.lessThan_Suc cong: if_cong)

lemma find_mem: "find P xs = Some x \<Longrightarrow> x \<in> set xs \<and> P x"
  by (metis find_Some_iff nth_mem)

lemma accumulate_scores:
  "dict_getd (fst (accumulate rank xs st)) u 0 = dict_getd (fst st) u 0 + rrf_weight rank xs u"
  by (induction rank xs st rule: accumulate.induct) (auto simp: RRF_K_def)

lemma accumulate_has: "dict_has (fst (accumulate rank xs st)) u \<longleftrightarrow> dict_has (fst st) u \<or> u \<in> sp_id ` set xs"
  by (induction rank xs st rule: accumulate.induct) auto

lemma accumulate_wf: "dict_wf (fst st) \<Longrightarrow> dict_wf (fst (accumulate rank xs st))"
  by (induction rank xs st rule: accumulate.induct) auto

lemma accumulate_payloads:
  "dict_get (snd (accumulate rank xs st)) u = Some p \<Longrightarrow> dict_get (snd st) u = Some p
     \<or> (\<exists>s \<in> set xs. sp_id s = u \<and> sp_payload s = Some p)"
  by (induction rank xs st rule: accumulate.induct) (auto split: option.splits if_splits)

lemma map_filter_total:
  "(\<And>x. x \<in> set xs \<Longrightarrow> \<exists>y. f x = Some y \<and> g y = x) \<Longrightarrow> map g (List.map_filter f xs) = xs"
proof (induction xs)
  case (Cons x xs)
  obtain y where "f x = Some y" "g y = x" using Cons.prems [of x] by auto
  then show ?case using Cons by (simp add: List.map_filter_simps)
qed (simp add: List.map_filter_simps)

text \<open>The fused list as a function of the score table.\<close>

lemma rrf_merge_ids:
  assumes "scores = fst (accumulate 1 sparse (accumulate 1 dense ([], [])))"
  shows "map sp_id (rrf_merge dense sparse k) = take (nat k) (order_by (\<lambda>pid. - dict_getd scores pid 0) (dict_keys scores))"
proof -
  obtain payloads where a: "accumulate 1 sparse (accumulate 1 dense ([], [])) = (scores, payloads)"
    using assms by (cases "accumulate 1 sparse (accumulate 1 dense ([], []))") simp
  have "\<exists>y. rrf_point (dense @ sparse) scores payloads u = Some y \<and> sp_id y = u" if "u \<in> set (dict_keys scores)" for u
  proof -
    have "u \<in> sp_id ` set (dense @ sparse)"
      using that assms accumulate_has [of 1 sparse "accumulate 1 dense ([], [])" u] accumulate_has [of 1 dense "([], [])" u]
      by (auto simp: dict_keys_def dict_has_def)
    then obtain s where "find (\<lambda>s. sp_id s = u) (dense @ sparse) = Some s"
      by (cases "find (\<lambda>s. sp_id s = u) (dense @ sparse)") (auto simp: find_None_iff)
    then show ?thesis using find_mem [of "\<lambda>s. sp_id s = u" _ s] by (simp add: rrf_point_def)
  qed
  then show ?thesis unfolding rrf_merge_def a Let_def prod.case
    by (intro map_filter_total) (auto dest!: set_take_subset')
qed

lemma rrf_merge_score:
  assumes "s \<in> set (rrf_merge dense sparse k)"
  shows "sp_score s = rrf_weight 1 dense (sp_id s) + rrf_weight 1 sparse (sp_id s)"
    and "\<exists>s' \<in> set (dense @ sparse). sp_id s' = sp_id s \<and> sp_payload s' = sp_payload s"
proof -
  obtain scores payloads where a: "accumulate 1 sparse (accumulate 1 dense ([], [])) = (scores, payloads)" by force
  obtain u where u: "rrf_point (dense @ sparse) scores payloads u = Some s"
    using assms unfolding rrf_merge_def a by (auto simp: List.map_filter_def)
  have id: "sp_id s = u" and sc: "sp_score s = dict_getd scores u 0"
    using u by (auto simp: rrf_point_def dest: find_mem split: option.splits)
  show "sp_score s = rrf_weight 1 dense (sp_id s) + rrf_weight 1 sparse (sp_id s)"
    using accumulate_scores [of 1 sparse "accumulate 1 dense ([], [])" u] accumulate_scores [of 1 dense "([], [])" u] a id sc
    by (simp add: dict_getd_def)
  show "\<exists>s' \<in> set (dense @ sparse). sp_id s' = sp_id s \<and> sp_payload s' = sp_payload s"
  proof (cases "dict_get payloads u")
    case None
    then obtain t where t: "find (\<lambda>s. sp_id s = u) (dense @ sparse) = Some t" "sp_payload s = sp_payload t"
      using u by (auto simp: rrf_point_def split: option.splits)
    then show ?thesis using find_mem [OF t(1)] id by (intro bexI [of _ t]) simp_all
  next
    case (Some p)
    then have "\<exists>s' \<in> set (dense @ sparse). sp_id s' = u \<and> sp_payload s' = Some p"
      using a accumulate_payloads [of 1 sparse "accumulate 1 dense ([], [])" u p] accumulate_payloads [of 1 dense "([], [])" u p]
      by auto
    moreover have "sp_payload s = Some p" using u Some by (auto simp: rrf_point_def split: option.splits)
    ultimately show ?thesis using id by simp
  qed
qed

text \<open>The score the formula gives a point, and the ranking of all points by it.\<close>

definition fused_score :: "scored_point list \<Rightarrow> scored_point list \<Rightarrow> uuid \<Rightarrow> real" where
  "fused_score dense sparse u = rrf_weight 1 dense u + rrf_weight 1 sparse u"

lemma rrf_ranking:
  obtains all where "map sp_id (rrf_merge dense sparse k) = take (nat k) all" and "distinct all"
    and "set all = sp_id ` (set dense \<union> set sparse)"
    and "sorted_wrt (\<lambda>u v. fused_score dense sparse u \<ge> fused_score dense sparse v) all"
proof -
  define scores where "scores = fst (accumulate 1 sparse (accumulate 1 dense ([], [])))"
  define score where "score u = dict_getd scores u 0" for u
  define all where "all = order_by (\<lambda>pid. - score pid) (dict_keys scores)"
  have score: "score = fused_score dense sparse"
    using accumulate_scores [of 1 sparse "accumulate 1 dense ([], [])"] accumulate_scores [of 1 dense "([], [])"]
    by (intro ext) (simp add: score_def scores_def dict_getd_def fused_score_def)
  have "u \<in> set all \<longleftrightarrow> u \<in> sp_id ` (set dense \<union> set sparse)" for u
    using accumulate_has [of 1 sparse "accumulate 1 dense ([], [])" u] accumulate_has [of 1 dense "([], [])" u]
    by (auto simp: all_def dict_keys_def dict_has_def scores_def)
  moreover have "distinct all" using accumulate_wf [of "accumulate 1 dense ([], [])" 1 sparse] accumulate_wf [of "([], [])" 1 dense]
      distinct_order_by [of id "\<lambda>pid. - score pid" "dict_keys scores"] by (simp add: all_def scores_def dict_wf_def dict_keys_def)
  moreover have "sorted_wrt (\<lambda>u v. fused_score dense sparse u \<ge> fused_score dense sparse v) all"
    using sorted_order_by [of "\<lambda>pid. - score pid" "dict_keys scores"] by (simp add: all_def sorted_map flip: score)
  ultimately show thesis using that [of all] rrf_merge_ids [OF scores_def] by (auto simp: all_def score_def)
qed

lemma rrf_merge_sorted:
  "sorted_wrt (\<lambda>x y. sp_score x \<ge> sp_score y) (rrf_merge dense sparse k)"
proof -
  obtain all where ids: "map sp_id (rrf_merge dense sparse k) = take (nat k) all" and d: "distinct all"
    and set_all: "set all = sp_id ` (set dense \<union> set sparse)"
    and so: "sorted_wrt (\<lambda>u v. fused_score dense sparse u \<ge> fused_score dense sparse v) all"
    by (rule rrf_ranking [of dense sparse k])
  have "sorted_wrt (\<lambda>u v. fused_score dense sparse u \<ge> fused_score dense sparse v) (map sp_id (rrf_merge dense sparse k))"
    unfolding ids using so by (rule sorted_wrt_take)
  then show ?thesis unfolding sorted_wrt_map
    by (rule sorted_wrt_mono_rel [rotated]) (simp add: rrf_merge_score(1) fused_score_def)
qed

lemma rrf_merge_cut:
  assumes "x \<in> set (dense @ sparse)" and "sp_id x \<notin> sp_id ` set (rrf_merge dense sparse k)" and "s \<in> set (rrf_merge dense sparse k)"
  shows "sp_score s \<ge> fused_score dense sparse (sp_id x)"
proof -
  obtain all where ids: "map sp_id (rrf_merge dense sparse k) = take (nat k) all" and d: "distinct all"
    and set_all: "set all = sp_id ` (set dense \<union> set sparse)"
    and so: "sorted_wrt (\<lambda>u v. fused_score dense sparse u \<ge> fused_score dense sparse v) all"
    by (rule rrf_ranking [of dense sparse k])
  have taken: "set (take (nat k) all) = sp_id ` set (rrf_merge dense sparse k)" by (simp flip: ids)
  have "sp_id x \<in> set all" using assms(1) by (simp add: set_all)
  then have out: "sp_id x \<in> set (drop (nat k) all)"
    using assms(2) taken set_append [of "take (nat k) all" "drop (nat k) all"] by simp
  have "sorted_wrt (\<lambda>u v. fused_score dense sparse u \<ge> fused_score dense sparse v) (take (nat k) all @ drop (nat k) all)"
    using so by simp
  then have "fused_score dense sparse (sp_id s) \<ge> fused_score dense sparse (sp_id x)"
    using out assms(3) taken unfolding sorted_wrt_append by simp
  then show ?thesis using rrf_merge_score(1) [OF assms(3)] by (simp add: fused_score_def)
qed

text \<open>
  Claim C26: The fused ranking is reciprocal rank fusion. The points of the merged list are distinct
  points of the two lists; the score of each is the sum, over the lists it occurs in, of
  one over 60 plus its rank; the list is in descending order of the score, has \<open>top_k\<close> points
  when there are that many, and leaves out no point with a greater score than one it keeps.
\<close>

theorem rrf_fusion_is_exact:
  "distinct (map sp_id (rrf_merge dense sparse k))
   \<and> length (rrf_merge dense sparse k) = min (nat k) (card (sp_id ` (set dense \<union> set sparse)))
   \<and> list_all (\<lambda>s. sp_id s \<in> sp_id ` (set dense \<union> set sparse)
        \<and> sp_score s = rrf_weight 1 dense (sp_id s) + rrf_weight 1 sparse (sp_id s)) (rrf_merge dense sparse k)
   \<and> sorted_wrt (\<lambda>x y. sp_score x \<ge> sp_score y) (rrf_merge dense sparse k)
   \<and> list_all (\<lambda>x. list_all (\<lambda>s. sp_id x \<in> sp_id ` set (rrf_merge dense sparse k)
        \<or> sp_score s \<ge> rrf_weight 1 dense (sp_id x) + rrf_weight 1 sparse (sp_id x)) (rrf_merge dense sparse k))
        (dense @ sparse)"
proof (intro conjI)
  let ?m = "rrf_merge dense sparse k"
  obtain all where ids: "map sp_id ?m = take (nat k) all" and d: "distinct all"
    and set_all: "set all = sp_id ` (set dense \<union> set sparse)"
    and so: "sorted_wrt (\<lambda>u v. fused_score dense sparse u \<ge> fused_score dense sparse v) all"
    by (rule rrf_ranking [of dense sparse k])
  show "length ?m = min (nat k) (card (sp_id ` (set dense \<union> set sparse)))"
    using arg_cong [OF ids, of length] distinct_card [OF d] set_all by simp
  show "distinct (map sp_id ?m)" using d by (simp add: ids)
  show "list_all (\<lambda>s. sp_id s \<in> sp_id ` (set dense \<union> set sparse)
      \<and> sp_score s = rrf_weight 1 dense (sp_id s) + rrf_weight 1 sparse (sp_id s)) ?m"
    unfolding list_all_iff
  proof (intro ballI conjI)
    fix s assume s: "s \<in> set ?m"
    show "sp_id s \<in> sp_id ` (set dense \<union> set sparse)" using rrf_merge_score(2) [OF s] by (metis image_eqI set_append)
  qed (rule rrf_merge_score(1))
  show "list_all (\<lambda>x. list_all (\<lambda>s. sp_id x \<in> sp_id ` set ?m
      \<or> sp_score s \<ge> rrf_weight 1 dense (sp_id x) + rrf_weight 1 sparse (sp_id x)) ?m) (dense @ sparse)"
    using rrf_merge_cut [of _ dense sparse k] unfolding list_all_iff fused_score_def by blast
qed (rule rrf_merge_sorted)

section \<open>What a search returns\<close>

text \<open>The points a request may see: those of the workspace, of the named sources, valid at the
  requested instant (or current when there is none) and, unless asked for, not tombstoned.\<close>

definition visible :: "search_request \<Rightarrow> uuid \<Rightarrow> int option \<Rightarrow> uuid list \<Rightarrow> qpoint \<Rightarrow> bool" where
  "visible rq ws as_of srcs x \<longleftrightarrow>
     in_workspace ws x
   \<and> (srcs = [] \<or> dict_get (qp_payload x) ''source_id'' \<in> (\<lambda>s. Some (VStr (uuid_str s))) ` set srcs)
   \<and> (sr_include_tombstoned rq \<or> dict_get (qp_payload x) ''tombstoned_at'' = Some VNull)
   \<and> (case as_of of
        None \<Rightarrow> current x
      | Some t \<Rightarrow> (\<exists>u. dict_get (qp_payload x) ''valid_from'' = Some (VTime u) \<and> u \<le> t)
          \<and> (current x \<or> (\<exists>u. dict_get (qp_payload x) ''valid_to'' = Some (VTime u) \<and> t < u)))"

lemma request_to_filter_visible:
  assumes "request_to_filter rq ws as_of = Inr f"
    and "extract_source_ids (case sr_sources rq of None \<Rightarrow> [] | Some ss \<Rightarrow> ss) = Inr srcs"
  shows "filter_holds f x \<longleftrightarrow> visible rq ws as_of srcs x"
  using assms
  by (cases as_of; cases "srcs = []"; cases "sr_include_tombstoned rq")
     (auto simp: request_to_filter_def filter_holds_def build_def temporal_def builder_defs visible_def
       in_workspace_def current_def as_of_must_clauses_def split: option.splits pval.splits)

lemma visible_chunk: "collection_ok xs \<Longrightarrow> x \<in> set xs \<Longrightarrow> visible rq ws as_of srcs x \<Longrightarrow> chunk_point x"
  by (drule (1) collection_okD(1)) (auto simp: visible_def version_mark_def current_def Let_def split: option.splits)

definition backed :: "qpoint list \<Rightarrow> (qpoint \<Rightarrow> bool) \<Rightarrow> scored_point \<Rightarrow> bool" where
  "backed xs P s \<longleftrightarrow> (\<exists>x \<in> set xs. P x \<and> qp_id x = sp_id s \<and> sp_payload s = Some (qp_payload x))"

text \<open>What a hit repeats of the point it stands for.\<close>

definition hit_shows :: "search_hit \<Rightarrow> qpoint \<Rightarrow> bool" where
  "hit_shows h x \<longleftrightarrow> sh_chunk_id h = qp_id x
     \<and> dict_get (qp_payload x) ''document_id'' = Some (VStr (uuid_str (sh_document_id h)))
     \<and> dict_get (qp_payload x) ''source_id'' = Some (VStr (uuid_str (sh_source_id h)))
     \<and> dict_get (qp_payload x) ''text'' = Some (VStr (sh_text h))
     \<and> map_option VInt (sh_applied_version h) = dict_get (qp_payload x) ''doc_version''
     \<and> dict_get (qp_payload x) ''recorded_at'' = Some (VTime (sh_indexed_at h))"

lemma hit_of_chunk:
  assumes "chunk_point x" and "sp_payload s = Some (qp_payload x)" and "qp_id x = sp_id s"
  shows "\<exists>h. hit_of_point now s = Inr h \<and> hit_shows h x \<and> sh_score h = sp_score s"
proof -
  obtain src d v t rec where "dict_get (qp_payload x) ''source_id'' = Some (VStr (uuid_str src))"
    "dict_get (qp_payload x) ''document_id'' = Some (VStr (uuid_str d))"
    "dict_get (qp_payload x) ''doc_version'' = Some (VInt v)" "dict_get (qp_payload x) ''text'' = Some (VStr t)"
    "dict_get (qp_payload x) ''recorded_at'' = Some (VTime rec)"
    using assms(1) unfolding chunk_point_def Let_def by blast
  moreover have "dict_get (qp_payload x) ''ingestion_run_id'' = Some VNull
      \<or> (\<exists>u. dict_get (qp_payload x) ''ingestion_run_id'' = Some (VStr (uuid_str u)))"
    using assms(1) unfolding chunk_point_def Let_def by blast
  ultimately show ?thesis using assms(2,3)
    by (auto simp: hit_of_point_def pval_uuid_def parse_opt_uuid_def parse_datetime_def hit_shows_def)
qed

lemma hits_of_backed:
  assumes "\<And>x. x \<in> set xs \<Longrightarrow> P x \<Longrightarrow> chunk_point x" and "list_all (backed xs P) ss"
  shows "\<exists>hs. hits_of_points now ss = Inr hs \<and> map sh_chunk_id hs = map sp_id ss
    \<and> map sh_score hs = map sp_score ss \<and> list_all (\<lambda>h. \<exists>x \<in> set xs. P x \<and> hit_shows h x) hs"
  using assms(2)
proof (induction ss)
  case (Cons s ss)
  then obtain x where x: "x \<in> set xs" "P x" "qp_id x = sp_id s" "sp_payload s = Some (qp_payload x)"
    by (auto simp: backed_def)
  then obtain h where h: "hit_of_point now s = Inr h" "hit_shows h x" "sh_score h = sp_score s"
    using hit_of_chunk [OF assms(1)] by blast
  obtain hs where "hits_of_points now ss = Inr hs" "map sh_chunk_id hs = map sp_id ss" "map sh_score hs = map sp_score ss"
    "list_all (\<lambda>h. \<exists>x \<in> set xs. P x \<and> hit_shows h x) hs" using Cons by auto
  then show ?case using h x by (auto simp: hit_shows_def)
qed simp

lemma rrf_merge_shape:
  "distinct (map sp_id (rrf_merge dense sparse k))" "length (rrf_merge dense sparse k) \<le> nat k"
proof -
  obtain all where ids: "map sp_id (rrf_merge dense sparse k) = take (nat k) all" and d: "distinct all"
    and set_all: "set all = sp_id ` (set dense \<union> set sparse)"
    and so: "sorted_wrt (\<lambda>u v. fused_score dense sparse u \<ge> fused_score dense sparse v) all"
    by (rule rrf_ranking [of dense sparse k])
  show "distinct (map sp_id (rrf_merge dense sparse k))" using d by (simp add: ids)
  show "length (rrf_merge dense sparse k) \<le> nat k" using arg_cong [OF ids, of length] by simp
qed

lemma rrf_merge_backed:
  assumes "list_all (backed xs P) dense" and "list_all (backed xs P) sparse"
  shows "list_all (backed xs P) (rrf_merge dense sparse k)"
  unfolding list_all_iff
proof
  fix s assume "s \<in> set (rrf_merge dense sparse k)"
  then obtain s' where "s' \<in> set (dense @ sparse)" "sp_id s' = sp_id s" "sp_payload s' = sp_payload s"
    using rrf_merge_score(2) by blast
  moreover have "backed xs P s'" using assms calculation(1) by (auto simp: list_all_iff)
  ultimately show "backed xs P s" by (simp add: backed_def)
qed

text \<open>The points a search has ranked, before they become hits.\<close>

definition ranked_points ::
  "'q engine \<Rightarrow> qenv \<Rightarrow> search_request \<Rightarrow> qfilter \<Rightarrow> 'q \<Rightarrow> scored_point list \<Rightarrow> bool" where
  "ranked_points en env rq f c ss \<longleftrightarrow>
     ss = [] \<or> (\<exists>q. en_query en q f (sr_top_k rq) c = Inr ss)
   \<or> (\<exists>q q' n dense sparse. en_query en q f n c = Inr dense \<and> (sparse = [] \<or> en_query en q' f n c = Inr sparse)
        \<and> ss = rrf_merge dense sparse (sr_top_k rq))"

lemma ranked_points_intros:
  shows ranked_Nil: "ranked_points en env rq f c []"
    and ranked_query: "en_query en q f (sr_top_k rq) c = Inr ss \<Longrightarrow> ranked_points en env rq f c ss"
    and ranked_fused: "en_query en q f n c = Inr dense \<Longrightarrow> sparse = [] \<or> en_query en q' f n c = Inr sparse
      \<Longrightarrow> ranked_points en env rq f c (rrf_merge dense sparse (sr_top_k rq))"
  unfolding ranked_points_def by blast+

lemma ranked_points_ok:
  assumes "engine_ok en pts" and "ranked_points en env rq f c ss"
  shows "list_all (backed (pts c) (filter_holds f)) ss \<and> distinct (map sp_id ss) \<and> length ss \<le> nat (sr_top_k rq)"
proof -
  have q: "list_all (backed (pts c) (filter_holds f)) ss" "distinct (map sp_id ss)" "length ss \<le> nat n"
    if "en_query en q f n c = Inr ss" for q n ss
    using engine_query [OF assms(1) that] by (auto simp: list_all_iff backed_def le_nat_iff max_def split: if_splits)
  from assms(2) consider "ss = []" | q where "en_query en q f (sr_top_k rq) c = Inr ss"
    | q q' n dense sparse where "en_query en q f n c = Inr dense" "sparse = [] \<or> en_query en q' f n c = Inr sparse"
      "ss = rrf_merge dense sparse (sr_top_k rq)"
    unfolding ranked_points_def by blast
  then show ?thesis
  proof cases
    case 3
    have "list_all (backed (pts c) (filter_holds f)) sparse" using 3(2) q(1) by auto
    then show ?thesis using q(1) [OF 3(1)] rrf_merge_backed rrf_merge_shape 3(3) by blast
  qed (use q in auto)
qed

text \<open>A search that answers has ranked points behind it.\<close>

definition answers_from :: "'q engine \<Rightarrow> qenv \<Rightarrow> search_request \<Rightarrow> qfilter \<Rightarrow> 'q \<Rightarrow> search_result \<Rightarrow> bool" where
  "answers_from en env rq f c r \<longleftrightarrow>
     (\<exists>ss. ranked_points en env rq f c ss \<and> hits_of_points (qe_now env) (take (nat (sr_top_k rq)) ss) = Inr (rs_hits r))"

lemma build_search_result_hits:
  "build_search_result now ss k n = Inr r \<Longrightarrow> hits_of_points now (take (nat k) ss) = Inr (rs_hits r)"
  by (auto simp: build_search_result_def bind_res_eq_Inr search_result_of_def)

lemma answersI:
  "ranked_points en env rq f c ss \<Longrightarrow> build_search_result (qe_now env) ss (sr_top_k rq) n = Inr r \<Longrightarrow> answers_from en env rq f c r"
  using build_search_result_hits unfolding answers_from_def by blast

lemma search_dense_ranked:
  assumes "search_dense en env rq ws as_of c = Inr r" and "request_to_filter rq ws as_of = Inr f"
  shows "answers_from en env rq f c r"
proof -
  obtain v hits where "en_query en (QDense v) f (sr_top_k rq) c = Inr hits"
    "build_search_result (qe_now env) hits (sr_top_k rq) 0 = Inr r"
    using assms unfolding search_dense_def by (auto simp: bind_res_eq_Inr)
  then show ?thesis by (rule answersI [OF ranked_query])
qed

lemma search_sparse_ranked:
  assumes "search_sparse en env rq ws as_of c = Inr r" and "request_to_filter rq ws as_of = Inr f"
  shows "answers_from en env rq f c r"
proof (cases "sv_indices (tokenize_to_sparse (sr_query rq)) = []")
  case True
  then show ?thesis using assms(1)
    by (auto simp: search_sparse_def search_result_of_def answers_from_def intro!: exI [of _ "[]"] ranked_Nil)
next
  case False
  then obtain q n hits where "en_query en q f (sr_top_k rq) c = Inr hits"
    "build_search_result (qe_now env) hits (sr_top_k rq) n = Inr r"
    using assms unfolding search_sparse_def Let_def by (auto simp: bind_res_eq_Inr)
  then show ?thesis by (rule answersI [OF ranked_query])
qed

lemma search_hybrid_ranked:
  assumes "search_hybrid_rrf en env rq ws as_of c = Inr r" and "request_to_filter rq ws as_of = Inr f"
  shows "answers_from en env rq f c r"
proof -
  let ?q = "tokenize_to_sparse (sr_query rq)" and ?n = "sr_top_k rq * SPARSE_CANDIDATE_FACTOR"
  obtain v dense sparse where d: "en_query en (QDense v) f ?n c = Inr dense"
    and sp: "(if sv_indices ?q = [] then Inr [] else en_query en (QSparse ?q) f ?n c) = Inr sparse"
    and r: "build_search_result (qe_now env) (rrf_merge dense sparse (sr_top_k rq)) (sr_top_k rq) (int (length sparse)) = Inr r"
    using assms(1) unfolding search_hybrid_rrf_def Let_def assms(2) bind_res_simps unfolding bind_res_eq_Inr by blast
  have sp': "sparse = [] \<or> en_query en (QSparse ?q) f ?n c = Inr sparse" using sp by (simp split: if_splits)
  show ?thesis by (rule answersI [OF ranked_fused [OF d sp'] r])
qed

definition effective_as_of :: "search_request \<Rightarrow> int option \<Rightarrow> int option" where
  "effective_as_of rq as_of = (case as_of of Some t \<Rightarrow> Some t | None \<Rightarrow> sr_as_of rq)"

lemma qdrant_search_ranked:
  assumes "qdrant_search en env rq ws as_of c = Inr r" and "request_to_filter rq ws (effective_as_of rq as_of) = Inr f"
  shows "answers_from en env rq f c r"
  using assms search_dense_ranked search_sparse_ranked search_hybrid_ranked
  unfolding qdrant_search_def Let_def effective_as_of_def by metis

lemma take_ranked [simp]: "length ss \<le> nat k \<Longrightarrow> take (nat k) ss = ss"
  by simp

text \<open>With the services up, no step of a search can fail on a collection the adapter has written.\<close>

lemma ranked_hits:
  assumes "engine_ok en pts" and "collection_ok (pts c)" and "ranked_points en env rq f c ss"
    and "\<And>x. filter_holds f x \<longleftrightarrow> visible rq ws as_of srcs x"
  shows "\<exists>hs. hits_of_points now ss = Inr hs \<and> map sh_chunk_id hs = map sp_id ss \<and> map sh_score hs = map sp_score ss
    \<and> list_all (\<lambda>h. \<exists>x \<in> set (pts c). visible rq ws as_of srcs x \<and> hit_shows h x) hs"
proof -
  have "filter_holds f = visible rq ws as_of srcs" using assms(4) by blast
  then have "list_all (backed (pts c) (visible rq ws as_of srcs)) ss" using ranked_points_ok [OF assms(1,3)] by simp
  then show ?thesis using hits_of_backed visible_chunk [OF assms(2)] by blast
qed

lemma build_ranked:
  assumes "engine_ok en pts" and "collection_ok (pts c)" and "ranked_points en env rq f c ss"
    and "\<And>x. filter_holds f x \<longleftrightarrow> visible rq ws as_of srcs x"
  shows "is_ok (build_search_result now ss (sr_top_k rq) n)"
  using ranked_hits [OF assms, of now] ranked_points_ok [OF assms(1,3)] by (auto simp: build_search_result_def)

lemma qdrant_search_up:
  assumes "engine_ok en pts" and "engine_up en" and "collection_ok (pts c)"
    and "request_to_filter rq ws (effective_as_of rq as_of) = Inr f" and "embed_query env (sr_query rq) = Inr v"
    and "\<And>x. filter_holds f x \<longleftrightarrow> visible rq ws (effective_as_of rq as_of) srcs x"
  shows "is_ok (qdrant_search en env rq ws as_of c)"
proof -
  note ok = build_ranked [OF assms(1,3) _ assms(6)]
  let ?q = "tokenize_to_sparse (sr_query rq)"
  have u: "\<exists>ss. en_query en q f n c = Inr ss" for q n using assms(2) by (auto simp: engine_up_def is_ok_iff)
  have "is_ok (search_dense en env rq ws (effective_as_of rq as_of) c)"
  proof -
    obtain ss where ss: "en_query en (QDense v) f (sr_top_k rq) c = Inr ss" using u by blast
    show ?thesis using ok [OF ranked_query [OF ss]] ss assms(4,5) by (simp add: search_dense_def)
  qed
  moreover have "is_ok (search_sparse en env rq ws (effective_as_of rq as_of) c)"
  proof -
    obtain ss where ss: "en_query en (QSparse ?q) f (sr_top_k rq) c = Inr ss" using u by blast
    show ?thesis using ok [OF ranked_query [OF ss]] ss assms(4) by (simp add: search_sparse_def Let_def)
  qed
  moreover have "is_ok (search_hybrid_rrf en env rq ws (effective_as_of rq as_of) c)"
  proof -
    let ?n = "sr_top_k rq * SPARSE_CANDIDATE_FACTOR"
    obtain dense where d: "en_query en (QDense v) f ?n c = Inr dense" using u by blast
    obtain sparse where sp: "en_query en (QSparse ?q) f ?n c = Inr sparse" using u by blast
    have r: "ranked_points en env rq f c (rrf_merge dense [] (sr_top_k rq))"
      "ranked_points en env rq f c (rrf_merge dense sparse (sr_top_k rq))"
      by (rule ranked_fused [OF d disjI1 [OF refl]], rule ranked_fused [OF d disjI2 [OF sp]])
    show ?thesis using d sp assms(4,5) ok [OF r(1)] ok [OF r(2)] by (simp add: search_hybrid_rrf_def Let_def)
  qed
  ultimately show ?thesis unfolding qdrant_search_def Let_def effective_as_of_def by simp
qed

text \<open>
  Claim C25: A search on a collection the adapter has written answers whenever the vector service
  and the embedding provider do. Its hits are at most \<open>top_k\<close> distinct points, each a chunk of the
  caller's workspace and of the requested sources, valid at the requested instant (current when
  there is none), not tombstoned unless tombstones were asked for, with the document, the source,
  the text, the version and the indexing time of the point.
\<close>

theorem search_serves_visible_chunks:
  assumes "engine_ok en pts" and "engine_up en" and "collection_ok (pts c)"
    and "extract_source_ids (case sr_sources rq of None \<Rightarrow> [] | Some ss \<Rightarrow> ss) = Inr srcs"
    and "embed_query env (sr_query rq) = Inr v"
  shows "\<exists>r. qdrant_search en env rq ws as_of c = Inr r
    \<and> length (rs_hits r) \<le> nat (sr_top_k rq) \<and> distinct (map sh_chunk_id (rs_hits r))
    \<and> list_all (\<lambda>h. \<exists>x \<in> set (pts c). visible rq ws (effective_as_of rq as_of) srcs x \<and> hit_shows h x) (rs_hits r)"
proof -
  obtain f where f: "request_to_filter rq ws (effective_as_of rq as_of) = Inr f"
    using assms(4) by (simp add: request_to_filter_def Let_def)
  note v = request_to_filter_visible [OF f assms(4)]
  obtain r where r: "qdrant_search en env rq ws as_of c = Inr r"
    using qdrant_search_up [OF assms(1-3) f assms(5) v] by (auto simp: is_ok_iff)
  obtain ss where ss: "ranked_points en env rq f c ss" "hits_of_points (qe_now env) (take (nat (sr_top_k rq)) ss) = Inr (rs_hits r)"
    using qdrant_search_ranked [OF r f] by (auto simp: answers_from_def)
  then show ?thesis
    using ranked_hits [OF assms(1,3) ss(1) v, of "qe_now env"] ranked_points_ok [OF assms(1) ss(1)] r
    by (auto dest: map_eq_imp_length_eq)
qed

text \<open>The type, age and metadata restrictions of a request do not reach the vector store.\<close>

lemma search_ignores_restrictions:
  "qdrant_search en env (rq\<lparr>sr_types := ts, sr_max_age_seconds := age, sr_filters := fs\<rparr>) ws as_of c
     = qdrant_search en env rq ws as_of c"
proof -
  let ?rq = "rq\<lparr>sr_types := ts, sr_max_age_seconds := age, sr_filters := fs\<rparr>"
  have f: "request_to_filter ?rq ws t = request_to_filter rq ws t" for t by (simp add: request_to_filter_def cong: if_cong)
  show ?thesis
    unfolding qdrant_search_def search_dense_def search_sparse_def search_hybrid_rrf_def Let_def f
    by (simp cong: if_cong option.case_cong)
qed

text \<open>The fused search counts its vector matches below zero as soon as the keyword leg has found
  more than \<open>top_k\<close> points.\<close>

lemma hybrid_vector_matches_negative:
  assumes "search_hybrid_rrf en env rq ws as_of c = Inr r" and "sr_top_k rq < qs_text_matches (rs_query_stats r)"
    and "0 \<le> sr_top_k rq"
  shows "qs_vector_matches (rs_query_stats r) < 0"
proof -
  obtain dense sparse where r: "build_search_result (qe_now env) (rrf_merge dense sparse (sr_top_k rq)) (sr_top_k rq) (int (length sparse)) = Inr r"
    using assms(1) unfolding search_hybrid_rrf_def Let_def bind_res_eq_Inr by blast
  then show ?thesis using assms(2,3) rrf_merge_shape(2) [of dense sparse "sr_top_k rq"]
    by (auto simp: build_search_result_def bind_res_eq_Inr search_result_of_def)
qed

definition demo_query :: "string \<Rightarrow> search_request" where
  "demo_query q = \<lparr>sr_query = q, sr_top_k = 5, sr_sources = Some [uuid_str 5], sr_types = None, sr_max_age_seconds = None,
     sr_filters = None, sr_include_tombstoned = False, sr_retrieval_strategy = ''structural'', sr_as_of = None, sr_cursor = None\<rparr>"

theorem search_serves_visible_chunks_witness:
  "\<exists>c' r. upsert_chunks mem_engine (demo_qenv 3) (demo_upsert ''a.md'' ''h1'' 11 1) [] =
       Some (Inr (outcome (demo_qenv 3) (demo_upsert ''a.md'' ''h1'' 11 1) None), c')
     \<and> qdrant_search mem_engine (demo_qenv 4) (demo_query ''text'') 9 None c' = Inr r \<and> length (rs_hits r) \<le> 5
     \<and> list_all (\<lambda>h. \<exists>x \<in> set (mem_points c'). visible (demo_query ''text'') 9 None [5] x \<and> hit_shows h x) (rs_hits r)"
proof -
  obtain c' where c': "upsert_chunks mem_engine (demo_qenv 3) (demo_upsert ''a.md'' ''h1'' 11 1) [] =
      Some (Inr (outcome (demo_qenv 3) (demo_upsert ''a.md'' ''h1'' 11 1) None), c')"
    using demo_first by blast
  have ok: "collection_ok (mem_points c')" by (rule upsert_chunks_keeps [OF mem_engine_ok _ c']) simp
  have e: "effective_as_of (demo_query ''text'') None = None" by (simp add: effective_as_of_def demo_query_def)
  have "\<exists>r. qdrant_search mem_engine (demo_qenv 4) (demo_query ''text'') 9 None c' = Inr r
      \<and> length (rs_hits r) \<le> nat (sr_top_k (demo_query ''text'')) \<and> distinct (map sh_chunk_id (rs_hits r))
      \<and> list_all (\<lambda>h. \<exists>x \<in> set (mem_points c'). visible (demo_query ''text'') 9
           (effective_as_of (demo_query ''text'') None) [5] x \<and> hit_shows h x) (rs_hits r)"
    by (rule search_serves_visible_chunks [OF mem_engine_ok mem_engine_up ok, of _ "[5]" _ "[1]"])
       (simp_all add: demo_query_def embed_query_def demo_qenv_def)
  then show ?thesis using c' unfolding e by (auto simp: demo_query_def)
qed

end
