(* ===== verification/Hashing.thy ===== *)
theory Hashing
  imports Prelude
begin

text \<open>
  Content normalisation and hashing (\<^verbatim>\<open>packages/index/src/omniscience_index/hashing.py\<close>, repeated in
  \<^verbatim>\<open>ingestion/pipeline.py\<close>). A text is the list of its code points, so the byte order mark, the
  Unicode line boundaries of \<^verbatim>\<open>str.splitlines\<close> and the white space of \<^verbatim>\<open>str.rstrip\<close> are all covered.
  The SHA-256 hex digest of the encoded text is the argument \<open>digest\<close>.
\<close>

type_synonym codepoints = "nat list"

definition BOM :: nat where "BOM = 65279"

definition is_line_break :: "nat \<Rightarrow> bool" where
  "is_line_break c \<longleftrightarrow> c \<in> {10, 11, 12, 13, 28, 29, 30, 133, 8232, 8233}"

definition is_white :: "nat \<Rightarrow> bool" where
  "is_white c \<longleftrightarrow> (9 \<le> c \<and> c \<le> 13) \<or> (28 \<le> c \<and> c \<le> 32) \<or> c \<in> {133, 160, 5760}
     \<or> (8192 \<le> c \<and> c \<le> 8202) \<or> c \<in> {8232, 8233, 8239, 8287, 12288}"

definition lstrip_bom :: "codepoints \<Rightarrow> codepoints" where
  "lstrip_bom t = dropWhile (\<lambda>c. c = BOM) t"

definition rstrip :: "codepoints \<Rightarrow> codepoints" where
  "rstrip l = rev (dropWhile is_white (rev l))"

text \<open>\<^verbatim>\<open>str.splitlines\<close>: a carriage return and line feed count once, and a final boundary starts no
  further line.\<close>

fun splitlines_from :: "codepoints \<Rightarrow> codepoints \<Rightarrow> codepoints list" where
  "splitlines_from cur [] = (if cur = [] then [] else [rev cur])"
| "splitlines_from cur [c] = (if is_line_break c then [rev cur] else [rev (c # cur)])"
| "splitlines_from cur (c # d # cs) =
     (if c = 13 \<and> d = 10 then rev cur # splitlines_from [] cs
      else if is_line_break c then rev cur # splitlines_from [] (d # cs)
      else splitlines_from (c # cur) (d # cs))"

definition splitlines :: "codepoints \<Rightarrow> codepoints list" where
  "splitlines t = splitlines_from [] t"

fun collapse_blanks :: "nat \<Rightarrow> codepoints list \<Rightarrow> codepoints list" where
  "collapse_blanks blank_run [] = []"
| "collapse_blanks blank_run (line # rest) =
     (if line = [] then collapse_blanks (blank_run + 1) rest
      else (if blank_run > 0 then [[]] else []) @ [line] @ collapse_blanks 0 rest)"

fun join_lines :: "codepoints list \<Rightarrow> codepoints" where
  "join_lines [] = []"
| "join_lines [l] = l"
| "join_lines (l # m # ls) = l @ [10] @ join_lines (m # ls)"

definition normal_lines :: "codepoints \<Rightarrow> codepoints list" where
  "normal_lines t = collapse_blanks 0 (map rstrip (splitlines (lstrip_bom t)))"

definition normalize_content :: "codepoints \<Rightarrow> codepoints" where
  "normalize_content t = join_lines (normal_lines t)"

definition compute_content_hash :: "(codepoints \<Rightarrow> string) \<Rightarrow> codepoints \<Rightarrow> string" where
  "compute_content_hash digest t = digest (normalize_content t)"

section \<open>Lines\<close>

definition no_break :: "codepoints \<Rightarrow> bool" where
  "no_break l \<longleftrightarrow> list_all (\<lambda>c. \<not> is_line_break c) l"

lemma no_break_simps [simp]:
  "no_break []"
  "no_break (c # l) \<longleftrightarrow> \<not> is_line_break c \<and> no_break l"
  "no_break (l @ m) \<longleftrightarrow> no_break l \<and> no_break m"
  "no_break (rev l) \<longleftrightarrow> no_break l"
  by (auto simp: no_break_def list_all_iff)

lemma breaks [simp]: "is_line_break 10" "is_line_break 13" "\<not> is_line_break BOM"
  by (simp_all add: is_line_break_def BOM_def)

text \<open>The scan, one character at a time.\<close>

lemma splitlines_from_Cons:
  "\<not> is_line_break c \<Longrightarrow> splitlines_from cur (c # cs) = splitlines_from (c # cur) cs"
  by (cases cs) auto

lemma splitlines_from_line:
  "no_break l \<Longrightarrow> splitlines_from cur (l @ cs) = splitlines_from (rev l @ cur) cs"
  by (induction l arbitrary: cur) (simp_all add: splitlines_from_Cons)

lemma splitlines_from_lf: "splitlines_from cur (10 # cs) = rev cur # splitlines_from [] cs"
  by (cases cs) auto

lemma splitlines_line: "no_break l \<Longrightarrow> splitlines (l @ 10 # t) = l # splitlines t"
  by (simp add: splitlines_def splitlines_from_line splitlines_from_lf)

lemma splitlines_last: "no_break l \<Longrightarrow> l \<noteq> [] \<Longrightarrow> splitlines l = [l]"
  using splitlines_from_line [of l "[]" "[]"] by (simp add: splitlines_def)

lemma splitlines_from_no_break:
  "no_break cur \<Longrightarrow> list_all no_break (splitlines_from cur t)"
  by (induction cur t rule: splitlines_from.induct) auto

lemma splitlines_no_break: "list_all no_break (splitlines t)"
  by (simp add: splitlines_def splitlines_from_no_break)

text \<open>Joined lines split into the same lines, as long as the last one is not empty.\<close>

lemma splitlines_join:
  "list_all no_break ls \<Longrightarrow> ls = [] \<or> last ls \<noteq> [] \<Longrightarrow> splitlines (join_lines ls) = ls"
proof (induction ls rule: join_lines.induct)
  case 1
  then show ?case by (simp add: splitlines_def)
next
  case (2 l)
  then show ?case by (simp add: splitlines_last)
next
  case (3 l m ls)
  then show ?case by (simp add: splitlines_line)
qed

section \<open>Normal form\<close>

lemma rstrip_prefix: "\<exists>ws. l = rstrip l @ ws"
  using takeWhile_dropWhile_id [of is_white "rev l"] by (metis rev_append rev_rev_ident rstrip_def)

lemma rstrip_idem [simp]: "rstrip (rstrip l) = rstrip l"
  by (simp add: rstrip_def dropWhile_idem)

lemma rstrip_Nil [simp]: "rstrip [] = []"
  by (simp add: rstrip_def)

lemma rstrip_no_break: "no_break l \<Longrightarrow> no_break (rstrip l)"
  using rstrip_prefix [of l] by (metis no_break_simps(3))

lemma rstrip_white: "list_all is_white ws \<Longrightarrow> rstrip (l @ ws) = rstrip l"
  by (simp add: rstrip_def list_all_iff dropWhile_append)

lemma collapse_set: "set (collapse_blanks n ls) \<subseteq> insert [] (set ls)"
  by (induction n ls rule: collapse_blanks.induct) auto

lemma collapse_last: "collapse_blanks n ls = [] \<or> last (collapse_blanks n ls) \<noteq> []"
  by (induction n ls rule: collapse_blanks.induct) (auto split: if_splits)

lemma collapse_head: "0 < n \<Longrightarrow> collapse_blanks n ls = l # r \<Longrightarrow> l = []"
  by (induction n ls rule: collapse_blanks.induct) (auto split: if_splits)

lemma collapse_idem: "collapse_blanks 0 (collapse_blanks n ls) = collapse_blanks n ls"
proof (induction n ls rule: collapse_blanks.induct)
  case (2 n line rest)
  then show ?case by (cases "line = []") auto
qed simp

lemma normal_lines_facts:
  shows normal_no_break: "list_all no_break (normal_lines t)"
    and normal_last: "normal_lines t = [] \<or> last (normal_lines t) \<noteq> []"
    and normal_stripped: "map rstrip (normal_lines t) = normal_lines t"
proof -
  let ?ls = "map rstrip (splitlines (lstrip_bom t))"
  have nb: "\<forall>l \<in> set ?ls. no_break l \<and> rstrip l = l"
    using splitlines_no_break [of "lstrip_bom t"] rstrip_no_break by (auto simp: list_all_iff)
  show "list_all no_break (normal_lines t)" "map rstrip (normal_lines t) = normal_lines t"
    using nb collapse_set [of 0 ?ls] unfolding normal_lines_def list_all_iff by (fastforce, intro map_idI) fastforce
  show "normal_lines t = [] \<or> last (normal_lines t) \<noteq> []" unfolding normal_lines_def by (rule collapse_last)
qed

lemma splitlines_normal: "splitlines (normalize_content t) = normal_lines t"
  by (simp add: normalize_content_def splitlines_join normal_no_break normal_last)

text \<open>A line boundary is never at the head of the first line, nor is a byte order mark after \<^verbatim>\<open>lstrip\<close>.\<close>

lemma splitlines_from_first:
  "splitlines_from cur t = l # ls \<Longrightarrow> l = rev cur @ takeWhile (\<lambda>c. \<not> is_line_break c) t"
  by (induction cur t rule: splitlines_from.induct) (auto split: if_splits)

lemma normal_first:
  assumes "normal_lines t = l # ls" and "l \<noteq> []"
  shows "hd l \<noteq> BOM"
proof -
  let ?u = "lstrip_bom t"
  obtain k ks where s: "splitlines ?u = k # ks" and k: "l = rstrip k"
    using assms collapse_head [of 1 _ l ls]
    by (cases "splitlines ?u") (auto simp: normal_lines_def split: if_splits)
  have "k = takeWhile (\<lambda>c. \<not> is_line_break c) ?u" using splitlines_from_first [of "[]"] s by (simp add: splitlines_def)
  moreover have "k \<noteq> []" using assms(2) k by auto
  moreover obtain ws where "k = l @ ws" using rstrip_prefix k by metis
  ultimately have "?u \<noteq> [] \<and> hd l = hd ?u" using assms(2) by (cases ?u; cases l) (auto split: if_splits)
  then show ?thesis using hd_dropWhile [of "\<lambda>c. c = BOM" t] by (simp add: lstrip_bom_def)
qed

lemma lstrip_normal: "lstrip_bom (normalize_content t) = normalize_content t"
proof (cases "normal_lines t")
  case Nil
  then show ?thesis by (simp add: normalize_content_def lstrip_bom_def)
next
  case (Cons l ls)
  have "normalize_content t = [] \<or> hd (normalize_content t) \<noteq> BOM"
    using normal_first [OF Cons] normal_last [of t] Cons
    by (cases "l = []"; cases ls) (auto simp: normalize_content_def BOM_def)
  then show ?thesis by (cases "normalize_content t") (auto simp: lstrip_bom_def)
qed

lemma normal_lines_normal: "normal_lines (normalize_content t) = normal_lines t"
proof -
  have "normal_lines (normalize_content t) = collapse_blanks 0 (normal_lines t)"
    by (simp add: normal_lines_def [of "normalize_content t"] lstrip_normal splitlines_normal normal_stripped)
  then show ?thesis by (simp add: normal_lines_def collapse_idem)
qed

lemma collapse_content: "filter (\<lambda>l. l \<noteq> []) (collapse_blanks n ls) = filter (\<lambda>l. l \<noteq> []) ls"
  by (induction n ls rule: collapse_blanks.induct) auto

fun single_blanks :: "codepoints list \<Rightarrow> bool" where
  "single_blanks (l # m # ls) \<longleftrightarrow> \<not> (l = [] \<and> m = []) \<and> single_blanks (m # ls)"
| "single_blanks _ \<longleftrightarrow> True"

lemma single_blanks_Cons: "l \<noteq> [] \<Longrightarrow> single_blanks (l # ls) \<longleftrightarrow> single_blanks ls"
  by (cases ls) auto

lemma collapse_single: "single_blanks (collapse_blanks n ls)"
  by (induction n ls rule: collapse_blanks.induct) (auto simp: single_blanks_Cons)

text \<open>
  Normalisation computes a canonical form. It is idempotent; two texts have the same
  normal form exactly when they have the same normal lines; the normal lines have the text's
  non-blank lines in their order, without trailing white space, never two blank lines in a row
  and none at the end; so the hash of a text is the hash of its normal form.
\<close>

theorem normal_form_is_canonical:
  "normalize_content (normalize_content t) = normalize_content t
   \<and> (normalize_content t = normalize_content u \<longleftrightarrow> normal_lines t = normal_lines u)
   \<and> filter (\<lambda>l. l \<noteq> []) (normal_lines t) = filter (\<lambda>l. l \<noteq> []) (map rstrip (splitlines (lstrip_bom t)))
   \<and> single_blanks (normal_lines t) \<and> takeWhile (\<lambda>l. l = []) (rev (normal_lines t)) = []
   \<and> compute_content_hash digest (normalize_content t) = compute_content_hash digest t"
proof (intro conjI)
  show idem: "normalize_content (normalize_content t) = normalize_content t"
    unfolding normalize_content_def [of "normalize_content t"] normal_lines_normal by (simp add: normalize_content_def)
  show "normalize_content t = normalize_content u \<longleftrightarrow> normal_lines t = normal_lines u"
    by (metis normalize_content_def splitlines_normal)
  show "filter (\<lambda>l. l \<noteq> []) (normal_lines t) = filter (\<lambda>l. l \<noteq> []) (map rstrip (splitlines (lstrip_bom t)))"
    unfolding normal_lines_def by (rule collapse_content)
  show "single_blanks (normal_lines t)" unfolding normal_lines_def by (rule collapse_single)
  show "compute_content_hash digest (normalize_content t) = compute_content_hash digest t"
    by (simp add: compute_content_hash_def idem)
  show "takeWhile (\<lambda>l. l = []) (rev (normal_lines t)) = []"
    using normal_last [of t] by (cases "normal_lines t" rule: rev_cases) auto
qed

text \<open>Cosmetic edits: a byte order mark, white space at the end of a line, another line boundary at the
  end of the text.\<close>

lemma bom_invisible: "normalize_content (BOM # t) = normalize_content t"
  by (simp add: normalize_content_def normal_lines_def lstrip_bom_def)

lemma trailing_white_invisible:
  assumes "no_break l" and "no_break ws" and "list_all is_white ws" and "l @ ws \<noteq> []" and "hd (l @ ws) \<noteq> BOM" and "l \<noteq> []"
  shows "normalize_content (l @ ws @ 10 # t) = normalize_content (l @ 10 # t)"
proof -
  have "lstrip_bom (l @ ws @ 10 # t) = l @ ws @ 10 # t" "lstrip_bom (l @ 10 # t) = l @ 10 # t"
    using assms(5,6) by (cases l; simp add: lstrip_bom_def)+
  then show ?thesis
    using assms(1-3) splitlines_line [of "l @ ws" t] splitlines_line [of l t]
    by (simp add: normalize_content_def normal_lines_def rstrip_white)
qed

end
