(* ===== verification/IndexWriter.thy ===== *)
theory IndexWriter
  imports QdrantSearch Hashing Messages
begin

text \<open>
  The index writer (\<^verbatim>\<open>packages/index/src/omniscience_index/writer.py\<close>): the Postgres rows of documents
  and chunks, written in one transaction, followed by the vector write outside of it; tombstones,
  the purge of tombstones and the graph write. The tables are lists of rows with their key
  constraints; Qdrant is the adapter of \<open>QdrantStore\<close>; the graph store is a function of the
  environment.
\<close>

section \<open>Tables\<close>

datatype sync_mode = Pull | Push

record source_row =
  so_id :: uuid
  so_type :: string
  so_name :: string
  so_sync_mode :: sync_mode
  so_freshness_sla_seconds :: "int option"
  so_active :: bool
  so_tenant_id :: "uuid option"
  so_secrets_ref :: "string option"
  so_config :: metadata
  so_last_sync_at :: "int option"

record document_row =
  dx_id :: uuid
  dx_source_id :: uuid
  dx_external_id :: string
  dx_uri :: string
  dx_title :: "string option"
  dx_content_hash :: string
  dx_doc_version :: int
  dx_metadata :: metadata
  dx_indexed_at :: int
  dx_tombstoned_at :: "int option"

record chunk_data =
  cd_ord :: int
  cd_text :: string
  cd_id :: uuid
  cd_embedding :: "rat list"
  cd_symbol :: "string option"
  cd_metadata :: metadata
  cd_embedding_model :: string
  cd_embedding_provider :: string
  cd_parser_version :: string
  cd_chunker_strategy :: string

record chunk_row =
  cr_id :: uuid
  cr_document_id :: uuid
  cr_ord :: int
  cr_text :: string
  cr_symbol :: "string option"
  cr_run_id :: "uuid option"
  cr_embedding_model :: string
  cr_embedding_provider :: string
  cr_parser_version :: string
  cr_chunker_strategy :: string
  cr_metadata :: metadata
  cr_embedding :: "rat list option"

datatype ingestion_status = Run_running | Run_ok | Run_partial | Run_failed

record ingestion_run =
  ru_id :: uuid
  ru_source_id :: uuid
  ru_started_at :: int
  ru_finished_at :: "int option"
  ru_status :: ingestion_status
  ru_docs_new :: int
  ru_docs_updated :: int
  ru_docs_removed :: int
  ru_errors :: "(string, string) dict"

text \<open>The entities and edges an extractor hands to the graph store.\<close>

record graph_entity =
  xe_id :: uuid
  xe_entity_type :: string
  xe_name :: string
  xe_display_name :: string
  xe_symbol :: string
  xe_metadata :: metadata

record graph_edge_spec =
  xd_source_entity_id :: uuid
  xd_target_name :: string
  xd_edge_type :: string
  xd_metadata :: metadata

record graph_upsert =
  gu_source_id :: uuid
  gu_document_id :: uuid
  gu_entities :: "graph_entity list"
  gu_edges :: "graph_edge_spec list"
  gu_workspace_id :: uuid
  gu_snapshot_at :: "int option"
  gu_version :: "int option"
  gu_epoch :: "int option"
  gu_forced_replay :: bool

record graph_write_result =
  gw_applied :: bool
  gw_entities_written :: int
  gw_edges_written :: int
  gw_skip_reason :: "string option"

record ('q, 'g) stores =
  st_sources :: "source_row list"
  st_documents :: "document_row list"
  st_chunks :: "chunk_row list"
  st_runs :: "ingestion_run list"
  st_vectors :: 'q
  st_graph :: 'g

text \<open>
  What a call meets: whether Postgres answers and commits, the adapters the writer was built with,
  the clock and the identifier the next \<^verbatim>\<open>uuid4()\<close> of a document returns.
\<close>

record ('q, 'g) wenv =
  we_pg :: bool
  we_commit :: bool
  we_engine :: "'q engine option"
  we_qenv :: qenv
  we_graph :: "(graph_upsert \<Rightarrow> 'g \<Rightarrow> graph_write_result res \<times> 'g) option"
  we_now :: int
  we_doc_id :: uuid
  we_write_embedding :: bool

section \<open>Transactions\<close>

definition pg_txn :: "('q, 'g) wenv \<Rightarrow> (('q, 'g) stores \<Rightarrow> ('a \<times> ('q, 'g) stores) res) \<Rightarrow> (('q, 'g) stores, 'a) prog" where
  "pg_txn env body = (\<lambda>s.
     if \<not> we_pg env then Some (Inl (BackendError ''postgres''), s)
     else case body s of
       Inl e \<Rightarrow> Some (Inl e, s)
     | Inr (x, s') \<Rightarrow> if we_commit env then Some (Inr x, s') else Some (Inl (BackendError ''postgres''), s))"

definition on_vectors :: "('q, 'a) prog \<Rightarrow> (('q, 'g) stores, 'a) prog" where
  "on_vectors m = (\<lambda>s. case m (st_vectors s) of
     None \<Rightarrow> None
   | Some (r, c) \<Rightarrow> Some (r, s\<lparr>st_vectors := c\<rparr>))"

section \<open>Rows\<close>

record doc_args =
  da_source_id :: uuid
  da_external_id :: string
  da_uri :: string
  da_title :: "string option"
  da_content_hash :: string
  da_metadata :: metadata
  da_chunks :: "chunk_data list"
  da_workspace_id :: "uuid option"
  da_run_id :: "uuid option"
  da_epoch :: "int option"
  da_forced_replay :: bool

record upsert_result =
  ur_action :: upsert_action
  ur_document_id :: uuid
  ur_chunks_written :: nat
  ur_doc_version :: int

definition find_document_row :: "uuid \<Rightarrow> string \<Rightarrow> document_row list \<Rightarrow> document_row option res" where
  "find_document_row src ext docs =
     (case filter (\<lambda>d. dx_source_id d = src \<and> dx_external_id d = ext) docs of
        [] \<Rightarrow> Inr None
      | [d] \<Rightarrow> Inr (Some d)
      | _ \<Rightarrow> Inl (BackendError ''MultipleResultsFound''))"

definition insert_document_row :: "('q, 'g) wenv \<Rightarrow> doc_args \<Rightarrow> ('q, 'g) stores \<Rightarrow> (document_row \<times> ('q, 'g) stores) res" where
  "insert_document_row env a s =
     (let doc = \<lparr>dx_id = we_doc_id env, dx_source_id = da_source_id a, dx_external_id = da_external_id a,
                 dx_uri = da_uri a, dx_title = da_title a, dx_content_hash = da_content_hash a, dx_doc_version = 1,
                 dx_metadata = da_metadata a, dx_indexed_at = we_now env, dx_tombstoned_at = None\<rparr>
      in if dx_id doc \<in> dx_id ` set (st_documents s) \<or> dx_source_id doc \<notin> so_id ` set (st_sources s)
         then Inl (BackendError ''IntegrityError'')
         else Inr (doc, s\<lparr>st_documents := st_documents s @ [doc]\<rparr>))"

definition updated_document :: "('q, 'g) wenv \<Rightarrow> doc_args \<Rightarrow> document_row \<Rightarrow> document_row" where
  "updated_document env a d =
     d\<lparr>dx_uri := da_uri a, dx_title := da_title a, dx_content_hash := da_content_hash a, dx_metadata := da_metadata a,
       dx_doc_version := dx_doc_version d + 1, dx_indexed_at := we_now env, dx_tombstoned_at := None\<rparr>"

definition replace_document :: "document_row \<Rightarrow> ('q, 'g) stores \<Rightarrow> ('q, 'g) stores" where
  "replace_document d s = s\<lparr>st_documents := map (\<lambda>x. if dx_id x = dx_id d then d else x) (st_documents s)\<rparr>"

definition delete_chunks :: "uuid \<Rightarrow> ('q, 'g) stores \<Rightarrow> ('q, 'g) stores" where
  "delete_chunks doc_id s = s\<lparr>st_chunks := filter (\<lambda>c. cr_document_id c \<noteq> doc_id) (st_chunks s)\<rparr>"

definition chunk_row_of :: "bool \<Rightarrow> uuid \<Rightarrow> uuid option \<Rightarrow> chunk_data \<Rightarrow> chunk_row" where
  "chunk_row_of with_embedding doc_id run_id c =
     \<lparr>cr_id = cd_id c, cr_document_id = doc_id, cr_ord = cd_ord c, cr_text = cd_text c, cr_symbol = cd_symbol c,
      cr_run_id = run_id, cr_embedding_model = cd_embedding_model c, cr_embedding_provider = cd_embedding_provider c,
      cr_parser_version = cd_parser_version c, cr_chunker_strategy = cd_chunker_strategy c,
      cr_metadata = cd_metadata c, cr_embedding = (if with_embedding then Some (cd_embedding c) else None)\<rparr>"

definition insert_chunks ::
  "('q, 'g) wenv \<Rightarrow> uuid \<Rightarrow> chunk_data list \<Rightarrow> uuid option \<Rightarrow> ('q, 'g) stores \<Rightarrow> ('q, 'g) stores res" where
  "insert_chunks env doc_id chunks run_id s =
     (let rows = map (chunk_row_of (we_write_embedding env) doc_id run_id) chunks in
      if rows = [] then Inr s
      else if \<not> distinct (map cr_id rows) \<or> cr_id ` set rows \<inter> cr_id ` set (st_chunks s) \<noteq> {}
           \<or> (case run_id of None \<Rightarrow> False | Some r \<Rightarrow> r \<notin> ru_id ` set (st_runs s))
      then Inl (BackendError ''IntegrityError'')
      else Inr (s\<lparr>st_chunks := st_chunks s @ rows\<rparr>))"

text \<open>The body of the transaction of \<^verbatim>\<open>upsert_document\<close>.\<close>

definition write_rows ::
  "('q, 'g) wenv \<Rightarrow> doc_args \<Rightarrow> ('q, 'g) stores \<Rightarrow> ((upsert_action \<times> document_row) \<times> ('q, 'g) stores) res" where
  "write_rows env a s =
     bind_res (find_document_row (da_source_id a) (da_external_id a) (st_documents s)) (\<lambda>existing.
       case existing of
         None \<Rightarrow>
           bind_res (insert_document_row env a s) (\<lambda>(doc, s1).
           bind_res (insert_chunks env (dx_id doc) (da_chunks a) (da_run_id a) s1) (\<lambda>s2.
             Inr ((ActCreated, doc), s2)))
       | Some d \<Rightarrow>
           if dx_content_hash d = da_content_hash a then Inr ((ActUnchanged, d), s)
           else
             let doc = updated_document env a d in
             bind_res (insert_chunks env (dx_id doc) (da_chunks a) (da_run_id a)
                (replace_document doc (delete_chunks (dx_id d) s))) (\<lambda>s2.
               Inr ((ActUpdated, doc), s2)))"

section \<open>Operations\<close>

definition payload_of_chunk :: "chunk_data \<Rightarrow> vchunk" where
  "payload_of_chunk c =
     \<lparr>vc_chunk_id = Some (cd_id c), vc_ord = Some (cd_ord c), vc_text = Some (cd_text c),
      vc_embedding = Some (cd_embedding c), vc_symbol = cd_symbol c, vc_metadata = Some (cd_metadata c),
      vc_embedding_model = Some (cd_embedding_model c), vc_embedding_provider = Some (cd_embedding_provider c),
      vc_parser_version = Some (cd_parser_version c), vc_chunker_strategy = Some (cd_chunker_strategy c)\<rparr>"

definition vector_args :: "doc_args \<Rightarrow> uuid \<Rightarrow> int \<Rightarrow> upsert_args" where
  "vector_args a ws doc_version =
     \<lparr>ua_source_id = da_source_id a, ua_external_id = da_external_id a, ua_uri = da_uri a, ua_title = da_title a,
      ua_content_hash = da_content_hash a, ua_metadata = dict_set (da_metadata a) ''workspace_id'' (JStr (uuid_str ws)),
      ua_chunks = map payload_of_chunk (da_chunks a), ua_run_id = da_run_id a, ua_version = Some doc_version,
      ua_epoch = da_epoch a, ua_forced_replay = da_forced_replay a\<rparr>"

definition vector_write :: "('q, 'g) wenv \<Rightarrow> doc_args \<Rightarrow> int \<Rightarrow> (('q, 'g) stores, unit) prog" where
  "vector_write env a doc_version =
     (case (we_engine env, da_workspace_id a) of
        (Some en, Some ws) \<Rightarrow> bind_p (on_vectors (upsert_chunks en (we_qenv env) (vector_args a ws doc_version))) (\<lambda>_. ret_p ())
      | _ \<Rightarrow> ret_p ())"

definition upsert_document :: "('q, 'g) wenv \<Rightarrow> doc_args \<Rightarrow> (('q, 'g) stores, upsert_result) prog" where
  "upsert_document env a =
     bind_p (pg_txn env (write_rows env a)) (\<lambda>(action, doc).
     then_p (vector_write env a (dx_doc_version doc))
       (ret_p \<lparr>ur_action = action, ur_document_id = dx_id doc,
               ur_chunks_written = (if action \<noteq> ActUnchanged then length (da_chunks a) else 0),
               ur_doc_version = dx_doc_version doc\<rparr>))"

text \<open>The tombstone: the vector call runs inside the transaction, so its failure rolls the row back, but
  a failed commit leaves the points marked.\<close>

definition writer_tombstone :: "('q, 'g) wenv \<Rightarrow> uuid \<Rightarrow> string \<Rightarrow> uuid option \<Rightarrow> (('q, 'g) stores, bool) prog" where
  "writer_tombstone env src ext workspace = (\<lambda>s.
     if \<not> we_pg env then Some (Inl (BackendError ''postgres''), s)
     else case find_document_row src ext (st_documents s) of
       Inl e \<Rightarrow> Some (Inl e, s)
     | Inr None \<Rightarrow> Some (Inr False, s)
     | Inr (Some d) \<Rightarrow>
         (case (case (we_engine env, workspace) of
                  (Some en, Some ws) \<Rightarrow>
                    bind_p (on_vectors (delete_by_document en (we_qenv env) src ext (Some ws))) (\<lambda>_. ret_p ()) s
                | _ \<Rightarrow> Some (Inr (), s)) of
            None \<Rightarrow> None
          | Some (Inl e, s1) \<Rightarrow> Some (Inl e, s1)
          | Some (Inr _, s1) \<Rightarrow>
              if we_commit env then Some (Inr True, replace_document (d\<lparr>dx_tombstoned_at := Some (we_now env)\<rparr>) s1)
              else Some (Inl (BackendError ''postgres''), s1)))"

definition purge_rows :: "int \<Rightarrow> ('q, 'g) stores \<Rightarrow> (nat \<times> ('q, 'g) stores) res" where
  "purge_rows cutoff s =
     (let gone = (\<lambda>d. case dx_tombstoned_at d of None \<Rightarrow> False | Some t \<Rightarrow> t \<le> cutoff);
          ids = dx_id ` set (filter gone (st_documents s))
      in Inr (length (filter gone (st_documents s)),
              s\<lparr>st_documents := filter (\<lambda>d. \<not> gone d) (st_documents s),
                st_chunks := filter (\<lambda>c. cr_document_id c \<notin> ids) (st_chunks s)\<rparr>))"

definition purge_tombstones :: "('q, 'g) wenv \<Rightarrow> int \<Rightarrow> (('q, 'g) stores, nat) prog" where
  "purge_tombstones env older_than =
     then_p (case we_engine env of
               None \<Rightarrow> ret_p ()
             | Some en \<Rightarrow> bind_p (on_vectors (delete_tombstoned en (we_qenv env) older_than)) (\<lambda>_. ret_p ()))
       (pg_txn env (purge_rows (we_now env - older_than)))"

definition tag_entity :: "uuid \<Rightarrow> graph_entity \<Rightarrow> graph_entity" where
  "tag_entity ws e = e\<lparr>xe_metadata := dict_set (xe_metadata e) ''workspace_id'' (JStr (uuid_str ws))\<rparr>"

definition writer_upsert_graph ::
  "('q, 'g) wenv \<Rightarrow> uuid \<Rightarrow> uuid \<Rightarrow> graph_entity list \<Rightarrow> graph_edge_spec list \<Rightarrow> uuid option \<Rightarrow> int option
   \<Rightarrow> int option \<Rightarrow> int option \<Rightarrow> bool \<Rightarrow> (('q, 'g) stores, graph_write_result) prog" where
  "writer_upsert_graph env src doc_id entities edges workspace snapshot_at version epoch forced_replay =
     (case (we_graph env, workspace) of
        (Some f, Some ws) \<Rightarrow> (\<lambda>s.
          let (r, g) = f \<lparr>gu_source_id = src, gu_document_id = doc_id, gu_entities = map (tag_entity ws) entities,
                          gu_edges = edges, gu_workspace_id = ws, gu_snapshot_at = snapshot_at, gu_version = version,
                          gu_epoch = epoch, gu_forced_replay = forced_replay\<rparr> (st_graph s)
          in Some (r, s\<lparr>st_graph := g\<rparr>))
      | _ \<Rightarrow> ret_p \<lparr>gw_applied = False, gw_entities_written = 0, gw_edges_written = 0, gw_skip_reason = Some ''no_graph_store''\<rparr>)"

section \<open>Rows and transactions\<close>

lemma find_row_Some:
  "find_document_row src ext docs = Inr (Some d) \<Longrightarrow> d \<in> set docs \<and> dx_source_id d = src \<and> dx_external_id d = ext"
proof -
  assume "find_document_row src ext docs = Inr (Some d)"
  then have "filter (\<lambda>d. dx_source_id d = src \<and> dx_external_id d = ext) docs = [d]"
    by (auto simp: find_document_row_def split: list.splits)
  then have "d \<in> set (filter (\<lambda>d. dx_source_id d = src \<and> dx_external_id d = ext) docs)" by simp
  then show ?thesis by simp
qed

lemma find_row_None:
  "find_document_row src ext docs = Inr None \<longleftrightarrow> (\<forall>d \<in> set docs. \<not> (dx_source_id d = src \<and> dx_external_id d = ext))"
proof -
  let ?f = "filter (\<lambda>d. dx_source_id d = src \<and> dx_external_id d = ext) docs"
  have "find_document_row src ext docs = Inr None \<longleftrightarrow> ?f = []" by (auto simp: find_document_row_def split: list.split)
  then show ?thesis by (auto simp: filter_empty_conv)
qed

definition row_key :: "document_row \<Rightarrow> uuid \<times> string" where
  "row_key d = (dx_source_id d, dx_external_id d)"

lemma find_row_unique:
  assumes "distinct (map row_key docs)" and "d \<in> set docs"
  shows "find_document_row (dx_source_id d) (dx_external_id d) docs = Inr (Some d)"
proof -
  let ?P = "\<lambda>x. dx_source_id x = dx_source_id d \<and> dx_external_id x = dx_external_id d"
  have "x = d" if "x \<in> set docs" "?P x" for x
    using inj_onD [OF assms(1) [THEN distinct_map [THEN iffD1], THEN conjunct2], of x d] that assms(2) by (simp add: row_key_def)
  then have s: "set (filter ?P docs) = {d}" using assms(2) by auto
  have "distinct (filter ?P docs)" using assms(1) by (simp add: distinct_map)
  then have "filter ?P docs = [d]" using s by (cases "filter ?P docs") (auto simp: subset_singleton_iff)
  then show ?thesis by (simp add: find_document_row_def)
qed

lemma find_row_ok: "distinct (map row_key docs) \<Longrightarrow> \<exists>existing. find_document_row src ext docs = Inr existing"
  using find_row_unique [of docs] find_row_None [of src ext docs] by metis

definition fresh_chunks :: "doc_args \<Rightarrow> ('q, 'g) stores \<Rightarrow> bool" where
  "fresh_chunks a s \<longleftrightarrow> distinct (map cd_id (da_chunks a)) \<and> cd_id ` set (da_chunks a) \<inter> cr_id ` set (st_chunks s) = {}
     \<and> (case da_run_id a of None \<Rightarrow> True | Some r \<Rightarrow> r \<in> ru_id ` set (st_runs s))"

definition rows_of :: "('q, 'g) wenv \<Rightarrow> doc_args \<Rightarrow> uuid \<Rightarrow> chunk_row list" where
  "rows_of env a doc_id = map (chunk_row_of (we_write_embedding env) doc_id (da_run_id a)) (da_chunks a)"

lemma chunk_row_of_fields [simp]:
  "cr_id (chunk_row_of e d r c) = cd_id c" "cr_document_id (chunk_row_of e d r c) = d" "cr_text (chunk_row_of e d r c) = cd_text c"
  by (simp_all add: chunk_row_of_def)

lemma rows_of_fields [simp]:
  "map cr_id (rows_of env a d) = map cd_id (da_chunks a)" "cr_id ` set (rows_of env a d) = cd_id ` set (da_chunks a)"
  "c \<in> set (rows_of env a d) \<Longrightarrow> cr_document_id c = d" "rows_of env a d = [] \<longleftrightarrow> da_chunks a = []"
  by (auto simp: rows_of_def image_image)

lemma insert_chunks_Inr:
  "insert_chunks env d (da_chunks a) (da_run_id a) s = Inr s' \<Longrightarrow>
     s' = s\<lparr>st_chunks := st_chunks s @ rows_of env a d\<rparr> \<and> distinct (map cd_id (da_chunks a))
     \<and> cd_id ` set (da_chunks a) \<inter> cr_id ` set (st_chunks s) = {}"
  by (auto simp: insert_chunks_def rows_of_def Let_def o_def image_image split: if_splits)

lemma insert_chunks_fresh:
  "fresh_chunks a s \<Longrightarrow> insert_chunks env d (da_chunks a) (da_run_id a) s = Inr (s\<lparr>st_chunks := st_chunks s @ rows_of env a d\<rparr>)"
  by (auto simp: insert_chunks_def rows_of_def fresh_chunks_def Let_def o_def image_image split: option.splits)

definition new_document :: "('q, 'g) wenv \<Rightarrow> doc_args \<Rightarrow> document_row" where
  "new_document env a =
     \<lparr>dx_id = we_doc_id env, dx_source_id = da_source_id a, dx_external_id = da_external_id a,
      dx_uri = da_uri a, dx_title = da_title a, dx_content_hash = da_content_hash a, dx_doc_version = 1,
      dx_metadata = da_metadata a, dx_indexed_at = we_now env, dx_tombstoned_at = None\<rparr>"

lemma new_document_fields [simp]:
  "dx_id (new_document env a) = we_doc_id env" "dx_source_id (new_document env a) = da_source_id a"
  "dx_external_id (new_document env a) = da_external_id a" "dx_content_hash (new_document env a) = da_content_hash a"
  "dx_doc_version (new_document env a) = 1" "dx_tombstoned_at (new_document env a) = None"
  by (simp_all add: new_document_def)

lemma updated_document_fields [simp]:
  "dx_id (updated_document env a d) = dx_id d" "dx_source_id (updated_document env a d) = dx_source_id d"
  "dx_external_id (updated_document env a d) = dx_external_id d" "dx_content_hash (updated_document env a d) = da_content_hash a"
  "dx_doc_version (updated_document env a d) = dx_doc_version d + 1" "dx_tombstoned_at (updated_document env a d) = None"
  by (simp_all add: updated_document_def)

lemma row_ops_fields [simp]:
  "st_sources (replace_document d s) = st_sources s" "st_chunks (replace_document d s) = st_chunks s"
  "st_runs (replace_document d s) = st_runs s" "st_vectors (replace_document d s) = st_vectors s"
  "st_graph (replace_document d s) = st_graph s"
  "st_sources (delete_chunks i s) = st_sources s" "st_documents (delete_chunks i s) = st_documents s"
  "st_runs (delete_chunks i s) = st_runs s" "st_vectors (delete_chunks i s) = st_vectors s" "st_graph (delete_chunks i s) = st_graph s"
  by (simp_all add: replace_document_def delete_chunks_def)

lemma write_rows_cases:
  assumes "write_rows env a s = Inr ((act, doc), s')"
  obtains (unchanged) "find_document_row (da_source_id a) (da_external_id a) (st_documents s) = Inr (Some doc)"
      "dx_content_hash doc = da_content_hash a" "act = ActUnchanged" "s' = s"
    | (created) "find_document_row (da_source_id a) (da_external_id a) (st_documents s) = Inr None" "act = ActCreated"
      "doc = new_document env a" "we_doc_id env \<notin> dx_id ` set (st_documents s)" "da_source_id a \<in> so_id ` set (st_sources s)"
      "distinct (map cd_id (da_chunks a))" "cd_id ` set (da_chunks a) \<inter> cr_id ` set (st_chunks s) = {}"
      "s' = s\<lparr>st_documents := st_documents s @ [doc], st_chunks := st_chunks s @ rows_of env a (we_doc_id env)\<rparr>"
    | (updated) d where "find_document_row (da_source_id a) (da_external_id a) (st_documents s) = Inr (Some d)"
      "dx_content_hash d \<noteq> da_content_hash a" "act = ActUpdated" "doc = updated_document env a d"
      "distinct (map cd_id (da_chunks a))" "cd_id ` set (da_chunks a) \<inter> cr_id ` set (st_chunks (delete_chunks (dx_id d) s)) = {}"
      "s' = (replace_document doc (delete_chunks (dx_id d) s))
         \<lparr>st_chunks := st_chunks (delete_chunks (dx_id d) s) @ rows_of env a (dx_id d)\<rparr>"
proof -
  obtain existing where f: "find_document_row (da_source_id a) (da_external_id a) (st_documents s) = Inr existing"
    using assms by (auto simp: write_rows_def bind_res_eq_Inr)
  show thesis
  proof (cases existing)
    case None
    obtain s1 where i: "insert_document_row env a s = Inr (doc, s1)" and ic: "insert_chunks env (dx_id doc) (da_chunks a) (da_run_id a) s1 = Inr s'"
      and act: "act = ActCreated"
      using assms f None by (auto simp: write_rows_def bind_res_eq_Inr)
    have "doc = new_document env a" "s1 = s\<lparr>st_documents := st_documents s @ [doc]\<rparr>"
      "we_doc_id env \<notin> dx_id ` set (st_documents s)" "da_source_id a \<in> so_id ` set (st_sources s)"
      using i by (auto simp: insert_document_row_def new_document_def Let_def split: if_splits)
    then show thesis using created f None act insert_chunks_Inr [OF ic] by simp
  next
    case (Some d)
    show thesis
    proof (cases "dx_content_hash d = da_content_hash a")
      case True
      then show thesis using unchanged assms f Some by (simp add: write_rows_def)
    next
      case False
      then have ic: "insert_chunks env (dx_id d) (da_chunks a) (da_run_id a) (replace_document doc (delete_chunks (dx_id d) s)) = Inr s'"
        and act: "act = ActUpdated" and doc: "doc = updated_document env a d"
        using assms f Some by (auto simp: write_rows_def bind_res_eq_Inr Let_def)
      show thesis using updated [OF _ False act doc] f Some insert_chunks_Inr [OF ic] by simp
    qed
  qed
qed

section \<open>The invariant of the tables\<close>

definition rows_ok :: "('q, 'g) stores \<Rightarrow> bool" where
  "rows_ok s \<longleftrightarrow> distinct (map dx_id (st_documents s)) \<and> distinct (map row_key (st_documents s))
     \<and> distinct (map cr_id (st_chunks s))
     \<and> list_all (\<lambda>c. cr_document_id c \<in> dx_id ` set (st_documents s)) (st_chunks s)
     \<and> list_all (\<lambda>d. dx_source_id d \<in> so_id ` set (st_sources s) \<and> 1 \<le> dx_doc_version d) (st_documents s)"

lemma replace_document_map:
  assumes "dx_id d' = dx_id d" and "row_key d' = row_key d" and "d \<in> set docs" and "distinct (map dx_id docs)"
  shows "map dx_id (map (\<lambda>x. if dx_id x = dx_id d' then d' else x) docs) = map dx_id docs"
    and "map row_key (map (\<lambda>x. if dx_id x = dx_id d' then d' else x) docs) = map row_key docs"
proof -
  have "x = d" if "x \<in> set docs" "dx_id x = dx_id d" for x
    using assms(3,4) that by (auto simp: distinct_map dest: inj_onD)
  then show "map dx_id (map (\<lambda>x. if dx_id x = dx_id d' then d' else x) docs) = map dx_id docs"
    "map row_key (map (\<lambda>x. if dx_id x = dx_id d' then d' else x) docs) = map row_key docs"
    using assms(1,2) by auto
qed

lemma replaced_mem:
  "d \<in> set docs \<Longrightarrow> dx_id d' = dx_id d \<Longrightarrow> d' \<in> set (map (\<lambda>x. if dx_id x = dx_id d' then d' else x) docs)"
  using imageI [of d "set docs" "\<lambda>x. if dx_id x = dx_id d' then d' else x"] by simp

lemma replaced_others:
  "filter (\<lambda>x. dx_id x \<noteq> dx_id d) (map (\<lambda>x. if dx_id x = dx_id d then d else x) docs) = filter (\<lambda>x. dx_id x \<noteq> dx_id d) docs"
  by (induction docs) auto

lemma rows_ok_replace:
  assumes "rows_ok s" and "d \<in> set (st_documents s)" and "dx_id d' = dx_id d" and "row_key d' = row_key d"
    and "1 \<le> dx_doc_version d'"
  shows "rows_ok (replace_document d' s)"
proof -
  have "distinct (map dx_id (st_documents s))" using assms(1) by (simp add: rows_ok_def)
  note m = replace_document_map [OF assms(3,4,2) this]
  have ids: "map dx_id (st_documents (replace_document d' s)) = map dx_id (st_documents s)"
    and keys: "map row_key (st_documents (replace_document d' s)) = map row_key (st_documents s)"
    using m by (simp_all add: replace_document_def)
  have set: "dx_id ` set (st_documents (replace_document d' s)) = dx_id ` set (st_documents s)"
    using arg_cong [OF ids, of set] by simp
  have src: "dx_source_id d' = dx_source_id d" using assms(4) by (simp add: row_key_def)
  have "dx_source_id x \<in> so_id ` set (st_sources s) \<and> 1 \<le> dx_doc_version x"
    if "x \<in> set (st_documents (replace_document d' s))" for x
    using that assms(1,2,5) src by (auto simp: replace_document_def rows_ok_def list_all_iff split: if_splits)
  then show ?thesis using assms(1) ids keys set by (simp add: rows_ok_def list_all_iff)
qed

lemma rows_ok_chunks:
  assumes "rows_ok s" and "set cs \<subseteq> set (st_chunks s)" and "distinct (map cr_id cs)"
  shows "rows_ok (s\<lparr>st_chunks := cs\<rparr>)"
  using assms by (auto simp: rows_ok_def list_all_iff)

lemma rows_ok_add_chunks:
  assumes "rows_ok s" and "distinct (map cd_id (da_chunks a))" and "cd_id ` set (da_chunks a) \<inter> cr_id ` set (st_chunks s) = {}"
    and "i \<in> dx_id ` set (st_documents s)"
  shows "rows_ok (s\<lparr>st_chunks := st_chunks s @ rows_of env a i\<rparr>)"
  using assms by (auto simp: rows_ok_def list_all_iff)

lemma write_rows_ok:
  assumes "rows_ok s" and "write_rows env a s = Inr ((act, doc), s')"
  shows "rows_ok s'"
  using assms(2)
proof (cases rule: write_rows_cases)
  case unchanged
  then show ?thesis using assms(1) by simp
next
  case created
  have "row_key doc \<notin> row_key ` set (st_documents s)" using created(1,3) by (auto simp: find_row_None row_key_def)
  then have "rows_ok (s\<lparr>st_documents := st_documents s @ [doc]\<rparr>)"
    using assms(1) created(3-5) by (auto simp: rows_ok_def list_all_iff)
  from rows_ok_add_chunks [OF this created(6), of "we_doc_id env" env] show ?thesis using created(3,7,8) by simp
next
  case (updated d)
  have d: "d \<in> set (st_documents s)" using find_row_Some [OF updated(1)] by simp
  have "rows_ok (delete_chunks (dx_id d) s)" unfolding delete_chunks_def
    using assms(1) by (intro rows_ok_chunks) (auto simp: rows_ok_def distinct_map_filter)
  then have r: "rows_ok (replace_document doc (delete_chunks (dx_id d) s))"
    by (rule rows_ok_replace [of _ d]) (use d updated(4) assms(1) in \<open>auto simp: row_key_def rows_ok_def list_all_iff\<close>)
  have "dx_id d \<in> dx_id ` set (st_documents (replace_document doc (delete_chunks (dx_id d) s)))"
    using replaced_mem [OF d, of doc] updated(4) imageI [of doc _ dx_id] by (simp add: replace_document_def)
  from rows_ok_add_chunks [OF r updated(5) _ this, of env] show ?thesis using updated(6,7) by simp
qed

lemma pg_txn_cases:
  assumes "pg_txn env body s = Some (r, s')"
  obtains e where "r = Inl e" "s' = s" | x where "body s = Inr (x, s')" "r = Inr x" "we_pg env" "we_commit env"
  using assms by (auto simp: pg_txn_def split: if_splits sum.splits)

lemma keeps_pg_txn [keeps_p_intros]:
  assumes "\<And>s x s'. I s \<Longrightarrow> body s = Inr (x, s') \<Longrightarrow> I s'"
  shows "keeps_p I (pg_txn env body)"
  by (rule keeps_pI, erule pg_txn_cases) (use assms in auto)

lemma keeps_on_vectors [keeps_p_intros]:
  assumes "\<And>s c. I s \<Longrightarrow> I (s\<lparr>st_vectors := c\<rparr>)"
  shows "keeps_p I (on_vectors m)"
  using assms by (auto simp: keeps_p_def on_vectors_def split: option.splits)

lemma rows_ok_other [simp]:
  "rows_ok (s\<lparr>st_vectors := c\<rparr>) = rows_ok s" "rows_ok (s\<lparr>st_graph := g\<rparr>) = rows_ok s" "rows_ok (s\<lparr>st_runs := rs\<rparr>) = rows_ok s"
  by (simp_all add: rows_ok_def)

lemma keeps_vector_write [keeps_p_intros]:
  assumes "\<And>s c. I s \<Longrightarrow> I (s\<lparr>st_vectors := c\<rparr>)"
  shows "keeps_p I (vector_write env a v)"
  unfolding vector_write_def using assms by (auto intro!: keeps_p_intros split: option.split)

lemma upsert_document_rows_ok: "keeps_p rows_ok (upsert_document env a)"
proof -
  have "rows_ok s'" if "rows_ok s" "write_rows env a s = Inr (x, s')" for s x s'
    using write_rows_ok that by (cases x) blast
  then show ?thesis unfolding upsert_document_def
    by (auto intro!: keeps_p_intros split: prod.split)
qed

lemma tombstone_rows_ok: "keeps_p rows_ok (writer_tombstone env src ext w)"
proof (rule keeps_pI)
  fix s r s' assume s: "rows_ok s" and t: "writer_tombstone env src ext w s = Some (r, s')"
  let ?v = "\<lambda>en ws. bind_p (on_vectors (delete_by_document en (we_qenv env) src ext (Some ws))) (\<lambda>_. ret_p ())"
  have v: "keeps_p (\<lambda>s1. rows_ok s1 \<and> st_documents s1 = st_documents s) (?v en ws)" for en ws
    by (intro keeps_p_intros) simp
  show "rows_ok s'"
  proof (cases "we_pg env \<and> (\<exists>d. find_document_row src ext (st_documents s) = Inr (Some d))")
    case False
    then show ?thesis using s t by (auto simp: writer_tombstone_def split: if_splits sum.splits option.splits)
  next
    case True
    then obtain d where pg: "we_pg env" and d: "find_document_row src ext (st_documents s) = Inr (Some d)" by blast
    obtain q s1 where q: "(case (we_engine env, w) of (Some en, Some ws) \<Rightarrow> ?v en ws s | _ \<Rightarrow> Some (Inr (), s)) = Some (q, s1)"
      using t pg d by (auto simp: writer_tombstone_def split: option.splits)
    have "?v en ws s = Some (q, s1) \<Longrightarrow> rows_ok s1 \<and> st_documents s1 = st_documents s" for en ws
      by (rule keeps_pD [OF v]) (use s in simp_all)
    then have s1: "rows_ok s1" "st_documents s1 = st_documents s"
      using q s by (auto split: option.splits)
    have "s' = s1 \<or> s' = replace_document (d\<lparr>dx_tombstoned_at := Some (we_now env)\<rparr>) s1"
      using t pg d q by (auto simp: writer_tombstone_def split: sum.splits if_splits)
    moreover have "rows_ok (replace_document (d\<lparr>dx_tombstoned_at := Some (we_now env)\<rparr>) s1)"
      by (rule rows_ok_replace [OF s1(1), of d])
         (use s1 find_row_Some [OF d] s in \<open>auto simp: row_key_def rows_ok_def list_all_iff\<close>)
    ultimately show ?thesis using s1 by auto
  qed
qed

lemma rows_ok_remove:
  "rows_ok s \<Longrightarrow> rows_ok (s\<lparr>st_documents := filter (\<lambda>d. \<not> P d) (st_documents s),
     st_chunks := filter (\<lambda>c. cr_document_id c \<notin> dx_id ` set (filter P (st_documents s))) (st_chunks s)\<rparr>)"
  by (auto simp: rows_ok_def list_all_iff distinct_map_filter) blast

lemma purge_rows_ok: "rows_ok s \<Longrightarrow> purge_rows cutoff s = Inr (n, s') \<Longrightarrow> rows_ok s'"
  using rows_ok_remove [of s "\<lambda>d. case dx_tombstoned_at d of None \<Rightarrow> False | Some t \<Rightarrow> t \<le> cutoff"]
  unfolding purge_rows_def Let_def by simp

lemma purge_tombstones_rows_ok: "keeps_p rows_ok (purge_tombstones env older)"
  unfolding purge_tombstones_def using purge_rows_ok
  by (auto intro!: keeps_p_intros split: option.split)

lemma upsert_graph_rows: "keeps_p (\<lambda>s. rows_ok s) (writer_upsert_graph env src d es xs w t v e f)"
  unfolding writer_upsert_graph_def
  by (auto intro!: keeps_p_intros keeps_pI simp: Let_def split: option.splits prod.splits)

inductive writer_call :: "('q, 'g) stores \<Rightarrow> ('q, 'g) stores \<Rightarrow> bool" where
  wc_upsert: "upsert_document env a s = Some (r, s') \<Longrightarrow> writer_call s s'"
| wc_tombstone: "writer_tombstone env src ext w s = Some (r, s') \<Longrightarrow> writer_call s s'"
| wc_purge: "purge_tombstones env older s = Some (r, s') \<Longrightarrow> writer_call s s'"
| wc_graph: "writer_upsert_graph env src d es xs w t v e f s = Some (r, s') \<Longrightarrow> writer_call s s'"

lemma writer_call_rows_ok: "writer_call s s' \<Longrightarrow> rows_ok s \<Longrightarrow> rows_ok s'"
  by (induction rule: writer_call.induct)
     (blast intro: keeps_pD [OF upsert_document_rows_ok] keeps_pD [OF tombstone_rows_ok]
       keeps_pD [OF purge_tombstones_rows_ok] keeps_pD [OF upsert_graph_rows])+

text \<open>
  Claim C27: In every run of upserts, tombstones, purges and graph writes, whichever of the stores
  fails at whichever point, the tables stay consistent: one document per source and external id,
  unique document and chunk ids, every chunk row belongs to a document row, every document to a
  source, and every version is at least 1.
\<close>

theorem index_tables_stay_consistent:
  assumes "rows_ok s" and "writer_call\<^sup>*\<^sup>* s s'"
  shows "rows_ok s'"
  using assms(2,1) by (induction rule: rtranclp_induct) (auto intro: writer_call_rows_ok)

section \<open>The outcome of an upsert\<close>

definition rows_commit :: "('q, 'g) wenv \<Rightarrow> doc_args \<Rightarrow> ('q, 'g) stores \<Rightarrow> bool" where
  "rows_commit env a s \<longleftrightarrow> we_pg env \<and> we_commit env \<and> fresh_chunks a s
     \<and> da_source_id a \<in> so_id ` set (st_sources s) \<and> we_doc_id env \<notin> dx_id ` set (st_documents s)"

text \<open>With the row writes possible, the transaction commits, whatever the vector store does after it.\<close>

lemma write_rows_fresh:
  assumes "rows_ok s" and "rows_commit env a s"
  shows "\<exists>x s'. write_rows env a s = Inr (x, s')"
proof -
  obtain existing where f: "find_document_row (da_source_id a) (da_external_id a) (st_documents s) = Inr existing"
    using find_row_ok assms(1) unfolding rows_ok_def by blast
  have c: "fresh_chunks a (s\<lparr>st_documents := ds\<rparr>)" "fresh_chunks a (replace_document d (delete_chunks i s))" for ds d i
    using assms(2) by (auto simp: rows_commit_def fresh_chunks_def replace_document_def delete_chunks_def split: option.splits)
  show ?thesis
    using f assms(2) insert_chunks_fresh [OF c(1), of env] insert_chunks_fresh [OF c(2), of env]
    by (cases existing) (simp_all add: write_rows_def insert_document_row_def rows_commit_def Let_def)
qed

lemma vector_write_rows:
  assumes "vector_write env a v s = Some (r, s')"
  shows "st_sources s' = st_sources s" "st_documents s' = st_documents s" "st_chunks s' = st_chunks s" "st_runs s' = st_runs s"
    "st_graph s' = st_graph s"
  using assms
  by (auto simp: vector_write_def bind_p_def ret_p_def on_vectors_def split: option.splits sum.splits prod.splits)

lemma upsert_document_split:
  assumes "upsert_document env a s = Some (r, s')" and "pg_txn env (write_rows env a) s = Some (Inr (act, doc), s1)"
  shows "\<exists>q. vector_write env a (dx_doc_version doc) s1 = Some (q, s')
    \<and> (case q of Inl e \<Rightarrow> r = Inl e
       | Inr _ \<Rightarrow> r = Inr \<lparr>ur_action = act, ur_document_id = dx_id doc,
           ur_chunks_written = (if act \<noteq> ActUnchanged then length (da_chunks a) else 0), ur_doc_version = dx_doc_version doc\<rparr>)"
  using assms by (auto simp: upsert_document_def then_p_def bind_p_def ret_p_def split: option.splits sum.splits)

lemma pg_txn_commit:
  assumes "rows_ok s" and "rows_commit env a s"
  obtains act doc s1 where "write_rows env a s = Inr ((act, doc), s1)" "pg_txn env (write_rows env a) s = Some (Inr (act, doc), s1)"
  using write_rows_fresh [OF assms] assms(2) by (auto simp: pg_txn_def rows_commit_def)

definition chunks_of :: "uuid \<Rightarrow> ('q, 'g) stores \<Rightarrow> chunk_row list" where
  "chunks_of i s = filter (\<lambda>c. cr_document_id c = i) (st_chunks s)"

text \<open>What a committed write leaves in the tables, as a function of the row that was there.\<close>

definition version_after :: "document_row option \<Rightarrow> string \<Rightarrow> int" where
  "version_after existing h =
     (case existing of None \<Rightarrow> 1 | Some d \<Rightarrow> if dx_content_hash d = h then dx_doc_version d else dx_doc_version d + 1)"

lemma filter_doc_rows: "filter (\<lambda>c. cr_document_id c = i) (rows_of env a i) = rows_of env a i"
  "filter (\<lambda>c. cr_document_id c \<noteq> i) (rows_of env a i) = []"
  by (simp_all add: filter_id_conv filter_empty_conv)

lemma write_rows_effect:
  assumes "rows_ok s" and "write_rows env a s = Inr ((act, doc), s1)"
    and "find_document_row (da_source_id a) (da_external_id a) (st_documents s) = Inr existing"
  shows "doc \<in> set (st_documents s1) \<and> row_key doc = (da_source_id a, da_external_id a)
    \<and> dx_content_hash doc = da_content_hash a \<and> dx_doc_version doc = version_after existing (da_content_hash a)
    \<and> (act = ActUnchanged \<and> s1 = s \<or> act \<noteq> ActUnchanged \<and> dx_tombstoned_at doc = None \<and> chunks_of (dx_id doc) s1 = rows_of env a (dx_id doc))
    \<and> filter (\<lambda>d. dx_id d \<noteq> dx_id doc) (st_documents s1) = filter (\<lambda>d. dx_id d \<noteq> dx_id doc) (st_documents s)
    \<and> filter (\<lambda>c. cr_document_id c \<noteq> dx_id doc) (st_chunks s1) = filter (\<lambda>c. cr_document_id c \<noteq> dx_id doc) (st_chunks s)
    \<and> st_sources s1 = st_sources s \<and> st_runs s1 = st_runs s \<and> st_vectors s1 = st_vectors s \<and> st_graph s1 = st_graph s"
  using assms(2)
proof (cases rule: write_rows_cases)
  case unchanged
  then show ?thesis using find_row_Some [OF unchanged(1)] assms(3) by (simp add: row_key_def version_after_def)
next
  case created
  have "cr_document_id c \<noteq> we_doc_id env" if "c \<in> set (st_chunks s)" for c
  proof -
    have "cr_document_id c \<in> dx_id ` set (st_documents s)" using assms(1) that by (simp add: rows_ok_def list_all_iff)
    then show ?thesis using created(4) by metis
  qed
  then have "filter (\<lambda>c. cr_document_id c = we_doc_id env) (st_chunks s) = []"
    "filter (\<lambda>c. cr_document_id c \<noteq> we_doc_id env) (st_chunks s) = st_chunks s"
    by (auto simp: filter_empty_conv filter_id_conv)
  moreover have "filter (\<lambda>d. dx_id d \<noteq> we_doc_id env) (st_documents s) = st_documents s"
    using created(4) by (auto simp: filter_id_conv image_iff)
  ultimately show ?thesis using created assms(3) by (simp add: row_key_def version_after_def chunks_of_def filter_doc_rows)
next
  case (updated d)
  note d = find_row_Some [OF updated(1)]
  have docs: "st_documents s1 = map (\<lambda>x. if dx_id x = dx_id doc then doc else x) (st_documents s)"
    and chunks: "st_chunks s1 = filter (\<lambda>c. cr_document_id c \<noteq> dx_id doc) (st_chunks s) @ rows_of env a (dx_id doc)"
    and other: "st_sources s1 = st_sources s" "st_runs s1 = st_runs s" "st_vectors s1 = st_vectors s" "st_graph s1 = st_graph s"
    using updated(4,7) by (simp_all add: replace_document_def delete_chunks_def)
  have "doc \<in> set (st_documents s1)" unfolding docs by (rule replaced_mem) (use d updated(4) in simp_all)
  moreover have "filter (\<lambda>x. dx_id x \<noteq> dx_id doc) (st_documents s1) = filter (\<lambda>x. dx_id x \<noteq> dx_id doc) (st_documents s)"
    unfolding docs by (rule replaced_others)
  moreover have "filter (\<lambda>c. cr_document_id c \<noteq> dx_id doc) (st_chunks s1) = filter (\<lambda>c. cr_document_id c \<noteq> dx_id doc) (st_chunks s)"
    "chunks_of (dx_id doc) s1 = rows_of env a (dx_id doc)"
    unfolding chunks chunks_of_def by (simp_all add: filter_doc_rows)
  ultimately show ?thesis using updated(1-4) d assms(3) other by (simp add: row_key_def version_after_def)
qed

text \<open>
  Claim C28: The rows an upsert leaves behind. When Postgres commits, then whatever the vector store
  does afterwards there is exactly one row for the document, with the new content hash; its version
  is 1 for a new document, the old version for unchanged content and one more otherwise. For new or
  changed content the row is not tombstoned and its chunk rows are exactly the given chunks with all
  their fields. For unchanged content the row, its tombstone included, and its chunk rows are what
  they were. The rows of all other documents are as before. The call returns the outcome unless the
  vector write raised.
\<close>

theorem upsert_document_writes_rows:
  assumes "rows_ok s" and "rows_commit env a s" and "upsert_document env a s = Some (r, s')"
    and "find_document_row (da_source_id a) (da_external_id a) (st_documents s) = Inr existing"
  shows "\<exists>doc. find_document_row (da_source_id a) (da_external_id a) (st_documents s') = Inr (Some doc)
    \<and> dx_content_hash doc = da_content_hash a \<and> dx_doc_version doc = version_after existing (da_content_hash a)
    \<and> filter (\<lambda>d. dx_source_id d = da_source_id a \<and> dx_external_id d = da_external_id a) (st_documents s') = [doc]
    \<and> (if map_option dx_content_hash existing = Some (da_content_hash a)
       then existing = Some doc \<and> chunks_of (dx_id doc) s' = chunks_of (dx_id doc) s
       else dx_tombstoned_at doc = None
         \<and> chunks_of (dx_id doc) s' = map (\<lambda>c.
             \<lparr>cr_id = cd_id c, cr_document_id = dx_id doc, cr_ord = cd_ord c, cr_text = cd_text c, cr_symbol = cd_symbol c,
              cr_run_id = da_run_id a, cr_embedding_model = cd_embedding_model c, cr_embedding_provider = cd_embedding_provider c,
              cr_parser_version = cd_parser_version c, cr_chunker_strategy = cd_chunker_strategy c,
              cr_metadata = cd_metadata c, cr_embedding = (if we_write_embedding env then Some (cd_embedding c) else None)\<rparr>)
             (da_chunks a))
    \<and> filter (\<lambda>d. dx_id d \<noteq> dx_id doc) (st_documents s') = filter (\<lambda>d. dx_id d \<noteq> dx_id doc) (st_documents s)
    \<and> filter (\<lambda>c. cr_document_id c \<noteq> dx_id doc) (st_chunks s') = filter (\<lambda>c. cr_document_id c \<noteq> dx_id doc) (st_chunks s)
    \<and> (case r of Inl _ \<Rightarrow> we_engine env \<noteq> None
       | Inr u \<Rightarrow> ur_document_id u = dx_id doc \<and> ur_doc_version u = dx_doc_version doc)"
proof -
  obtain act doc s1 where w: "write_rows env a s = Inr ((act, doc), s1)" and p: "pg_txn env (write_rows env a) s = Some (Inr (act, doc), s1)"
    by (rule pg_txn_commit [OF assms(1,2)])
  note e = write_rows_effect [OF assms(1) w assms(4)]
  obtain q where q: "vector_write env a (dx_doc_version doc) s1 = Some (q, s')" and r: "case q of Inl e \<Rightarrow> r = Inl e
       | Inr _ \<Rightarrow> r = Inr \<lparr>ur_action = act, ur_document_id = dx_id doc,
           ur_chunks_written = (if act \<noteq> ActUnchanged then length (da_chunks a) else 0), ur_doc_version = dx_doc_version doc\<rparr>"
    using upsert_document_split [OF assms(3) p] by blast
  note v = vector_write_rows [OF q]
  have "case r of Inl _ \<Rightarrow> we_engine env \<noteq> None | Inr u \<Rightarrow> ur_document_id u = dx_id doc \<and> ur_doc_version u = dx_doc_version doc"
    using q r by (auto simp: vector_write_def ret_p_def split: option.splits sum.splits)
  moreover
  have "rows_ok s1" using write_rows_ok [OF assms(1) w] .
  then have f: "find_document_row (da_source_id a) (da_external_id a) (st_documents s') = Inr (Some doc)"
    using find_row_unique [of "st_documents s1" doc] e v(2) by (simp add: rows_ok_def row_key_def)
  moreover have "filter (\<lambda>d. dx_source_id d = da_source_id a \<and> dx_external_id d = da_external_id a) (st_documents s') = [doc]"
    using f by (auto simp: find_document_row_def split: list.splits)
  moreover have u: "act = ActUnchanged \<longleftrightarrow> map_option dx_content_hash existing = Some (da_content_hash a)"
    "act = ActUnchanged \<Longrightarrow> existing = Some doc"
    using w assms(4) by (auto elim!: write_rows_cases)
  moreover have "if act = ActUnchanged then existing = Some doc \<and> chunks_of (dx_id doc) s' = chunks_of (dx_id doc) s
      else dx_tombstoned_at doc = None \<and> chunks_of (dx_id doc) s' = rows_of env a (dx_id doc)"
    using e v(3) u(2) by (auto simp: chunks_of_def)
  ultimately show ?thesis
    using e v unfolding rows_of_def chunk_row_of_def [abs_def] by (intro exI [of _ doc]) simp
qed

section \<open>Witnesses\<close>

definition demo_source :: source_row where
  "demo_source = \<lparr>so_id = 5, so_type = ''git'', so_name = ''docs'', so_sync_mode = Pull, so_freshness_sla_seconds = None, so_active = True, so_tenant_id = Some 9, so_secrets_ref = None,
     so_config = [], so_last_sync_at = None\<rparr>"

definition demo_stores :: "(qpoint list, unit) stores" where
  "demo_stores = \<lparr>st_sources = [demo_source], st_documents = [], st_chunks = [], st_runs = [], st_vectors = [], st_graph = ()\<rparr>"

definition demo_wenv :: "int \<Rightarrow> uuid \<Rightarrow> (qpoint list, unit) wenv" where
  "demo_wenv now i = \<lparr>we_pg = True, we_commit = True, we_engine = Some mem_engine, we_qenv = demo_qenv now, we_graph = None,
     we_now = now, we_doc_id = i, we_write_embedding = False\<rparr>"

definition demo_chunk_data :: "uuid \<Rightarrow> chunk_data" where
  "demo_chunk_data u = \<lparr>cd_ord = 0, cd_text = ''text'', cd_id = u, cd_embedding = [1], cd_symbol = None, cd_metadata = [],
     cd_embedding_model = ''m'', cd_embedding_provider = ''p'', cd_parser_version = ''v0'', cd_chunker_strategy = ''full''\<rparr>"

definition demo_doc :: "string \<Rightarrow> string \<Rightarrow> uuid \<Rightarrow> doc_args" where
  "demo_doc ext h u = \<lparr>da_source_id = 5, da_external_id = ext, da_uri = ext, da_title = None, da_content_hash = h, da_metadata = [],
     da_chunks = [demo_chunk_data u], da_workspace_id = Some 9, da_run_id = None, da_epoch = None, da_forced_replay = False\<rparr>"

lemma demo_stores_ok [simp]: "rows_ok demo_stores"
  by (simp add: rows_ok_def demo_stores_def)

lemma demo_rows_commit [simp]: "rows_commit (demo_wenv now i) (demo_doc ext h u) demo_stores"
  by (simp add: rows_commit_def demo_wenv_def demo_doc_def demo_stores_def fresh_chunks_def demo_source_def)

text \<open>The same writer without a vector store: the rows are written and the call returns.\<close>

definition demo_pg_only :: "int \<Rightarrow> uuid \<Rightarrow> (qpoint list, unit) wenv" where
  "demo_pg_only now i = (demo_wenv now i)\<lparr>we_engine := None\<rparr>"

lemma demo_pg_only_commit [simp]: "rows_commit (demo_pg_only now i) (demo_doc ext h u) demo_stores"
  using demo_rows_commit [of now i ext h u] by (simp add: rows_commit_def demo_pg_only_def)

lemma demo_pg_write:
  "upsert_document (demo_pg_only now i) (demo_doc ext h u) demo_stores =
     Some (Inr \<lparr>ur_action = ActCreated, ur_document_id = i, ur_chunks_written = 1, ur_doc_version = 1\<rparr>,
       demo_stores\<lparr>st_documents := [new_document (demo_pg_only now i) (demo_doc ext h u)],
         st_chunks := rows_of (demo_pg_only now i) (demo_doc ext h u) i\<rparr>)"
  by (simp add: upsert_document_def pg_txn_def write_rows_def find_document_row_def insert_document_row_def insert_chunks_def
      demo_stores_def demo_doc_def demo_pg_only_def demo_wenv_def demo_source_def vector_write_def bind_p_def then_p_def ret_p_def
      Let_def new_document_def rows_of_def)

theorem index_tables_stay_consistent_witness:
  "\<exists>s'. writer_call\<^sup>*\<^sup>* demo_stores s' \<and> length (st_documents s') = 1 \<and> rows_ok s'"
proof -
  have "writer_call demo_stores (demo_stores\<lparr>st_documents := [new_document (demo_pg_only 3 20) (demo_doc ''a.md'' ''h1'' 11)],
      st_chunks := rows_of (demo_pg_only 3 20) (demo_doc ''a.md'' ''h1'' 11) 20\<rparr>)" (is "writer_call _ ?s")
    by (rule wc_upsert [OF demo_pg_write])
  then have "writer_call\<^sup>*\<^sup>* demo_stores ?s" by simp
  then show ?thesis using index_tables_stay_consistent [OF demo_stores_ok] by (intro exI [of _ ?s]) simp
qed

theorem upsert_document_writes_rows_witness:
  "\<exists>r s' doc. upsert_document (demo_pg_only 3 20) (demo_doc ''a.md'' ''h1'' 11) demo_stores = Some (r, s')
     \<and> find_document_row 5 ''a.md'' (st_documents s') = Inr (Some doc) \<and> dx_content_hash doc = ''h1'' \<and> dx_doc_version doc = 1"
proof -
  have f: "find_document_row (da_source_id (demo_doc ''a.md'' ''h1'' 11)) (da_external_id (demo_doc ''a.md'' ''h1'' 11))
      (st_documents demo_stores) = Inr None"
    by (simp add: find_document_row_def demo_stores_def)
  show ?thesis
    using upsert_document_writes_rows [OF demo_stores_ok demo_pg_only_commit demo_pg_write f] demo_pg_write [of 3 20 "''a.md''" "''h1''" 11]
    by (auto simp: demo_doc_def version_after_def)
qed

end
