(* ===== verification/IndexServing.thy ===== *)
theory IndexServing
  imports IndexWriter
begin

text \<open>
  What an index write means for the read side. The composer serves a vector hit only when its
  chunk id is a live chunk row of Postgres (\<open>live_chunk\<close>, \<^verbatim>\<open>graph_rag.py\<close>), so a chunk is served when it
  is both a visible point of the vector store and a live row under the same id. The theorems say
  when the two writes of \<open>upsert_document\<close> agree, and when they do not.
\<close>

section \<open>The read side's view of the tables\<close>

definition tables_of :: "('q, 'g) stores \<Rightarrow> rag_tables" where
  "tables_of s =
     \<lparr>rt_sources = map (\<lambda>r. \<lparr>bs_id = so_id r, bs_tenant = so_tenant_id r, bs_active = so_active r\<rparr>) (st_sources s),
      rt_documents = map (\<lambda>d. \<lparr>bd_id = dx_id d, bd_source_id = dx_source_id d, bd_tombstoned = (dx_tombstoned_at d \<noteq> None)\<rparr>) (st_documents s),
      rt_chunks = map (\<lambda>c. \<lparr>bc_id = cr_id c, bc_document_id = cr_document_id c\<rparr>) (st_chunks s),
      rt_entities = []\<rparr>"

definition active_source :: "uuid \<Rightarrow> uuid \<Rightarrow> ('q, 'g) stores \<Rightarrow> bool" where
  "active_source ws src s \<longleftrightarrow> (\<exists>r \<in> set (st_sources s). so_id r = src \<and> so_tenant_id r = Some ws \<and> so_active r)"

lemma live_source_iff: "live_source (tables_of s) ws src \<longleftrightarrow> active_source ws src s"
  by (auto simp: live_source_def tables_of_def active_source_def list_ex_iff)

lemma live_chunk_iff:
  "live_chunk (tables_of s) ws i \<longleftrightarrow>
     (\<exists>c \<in> set (st_chunks s). cr_id c = i \<and> (\<exists>d \<in> set (st_documents s). dx_id d = cr_document_id c
        \<and> dx_tombstoned_at d = None \<and> active_source ws (dx_source_id d) s))"
  unfolding live_chunk_def live_source_iff list_ex_iff by (force simp: tables_of_def)

text \<open>A chunk the caller can be served: a current point of the workspace that is not tombstoned, whose
  row is live.\<close>

definition served :: "('q \<Rightarrow> qpoint list) \<Rightarrow> uuid \<Rightarrow> uuid \<Rightarrow> ('q, 'g) stores \<Rightarrow> bool" where
  "served pts ws i s \<longleftrightarrow> live_chunk (tables_of s) ws i
     \<and> (\<exists>x \<in> set (pts (st_vectors s)). qp_id x = i \<and> in_workspace ws x \<and> current x
          \<and> dict_get (qp_payload x) ''tombstoned_at'' = Some VNull)"

section \<open>The vector write of a document\<close>

lemma vector_args_fields [simp]:
  "ua_source_id (vector_args a ws v) = da_source_id a" "ua_external_id (vector_args a ws v) = da_external_id a"
  "ua_content_hash (vector_args a ws v) = da_content_hash a" "ua_version (vector_args a ws v) = Some v"
  "ua_epoch (vector_args a ws v) = da_epoch a" "ua_forced_replay (vector_args a ws v) = da_forced_replay a"
  "extract_workspace_id (ua_metadata (vector_args a ws v)) = Inr ws"
  "list_all complete_chunk (ua_chunks (vector_args a ws v))" "chunk_ids (vector_args a ws v) = map cd_id (da_chunks a)"
  by (simp_all add: vector_args_def extract_workspace_id_def list_all_iff complete_chunk_def payload_of_chunk_def chunk_ids_def)

text \<open>The documents of the vector store that the write will find.\<close>

definition no_open_copy :: "doc_args \<Rightarrow> uuid \<Rightarrow> qpoint list \<Rightarrow> bool" where
  "no_open_copy a ws xs \<longleftrightarrow> (\<forall>x \<in> set (open_points ws (da_source_id a) (da_external_id a) xs).
     dict_get (qp_payload x) ''content_hash'' \<noteq> Some (VStr (da_content_hash a)))"

definition vector_ready :: "('q \<Rightarrow> qpoint list) \<Rightarrow> ('q, 'g) wenv \<Rightarrow> doc_args \<Rightarrow> uuid \<Rightarrow> int \<Rightarrow> 'q \<Rightarrow> bool" where
  "vector_ready pts env a ws v c \<longleftrightarrow>
     (\<exists>en. we_engine env = Some en \<and> engine_ok en pts \<and> engine_up en) \<and> da_workspace_id a = Some ws
   \<and> collection_ok (pts c) \<and> admitted (we_qenv env) (vector_args a ws v) (pts c) \<and> no_open_copy a ws (pts c)
   \<and> distinct (map cd_id (da_chunks a) @ [checkpoint_id (we_qenv env) (da_source_id a)])"

lemma union_subset: "X \<subseteq> P \<union> R \<Longrightarrow> P \<subseteq> C \<union> K \<Longrightarrow> R = S \<Longrightarrow> X \<subseteq> S \<union> C \<union> K"
  by blast

lemma vector_write_up:
  assumes "vector_ready pts env a ws v (st_vectors s)"
  shows "\<exists>u c'. the (we_engine env) \<in> {en. engine_ok en pts \<and> engine_up en}
    \<and> upsert_chunks (the (we_engine env)) (we_qenv env) (vector_args a ws v) (st_vectors s) = Some (Inr u, c')
    \<and> uo_action u \<noteq> ActUnchanged
    \<and> vector_write env a v s = Some (Inr (), s\<lparr>st_vectors := c'\<rparr>)
    \<and> (\<forall>i \<in> set (map cd_id (da_chunks a)). \<exists>x \<in> set (pts c'). qp_id x = i \<and> in_workspace ws x \<and> current x
         \<and> dict_get (qp_payload x) ''tombstoned_at'' = Some VNull)
    \<and> qp_id ` set (pts c') \<subseteq> qp_id ` set (pts (st_vectors s)) \<union> set (map cd_id (da_chunks a)) \<union> {checkpoint_id (we_qenv env) (da_source_id a)}"
proof -
  let ?a = "vector_args a ws v" and ?env = "we_qenv env" and ?c = "st_vectors s"
  obtain en where en: "we_engine env = Some en" "engine_ok en pts" "engine_up en" using assms by (auto simp: vector_ready_def)
  have ready: "da_workspace_id a = Some ws" "collection_ok (pts ?c)" "admitted ?env ?a (pts ?c)"
    and d0: "distinct (chunk_ids ?a @ [checkpoint_id ?env (ua_source_id ?a)])"
    using assms by (simp_all add: vector_ready_def)
  have nc: "x \<in> set (open_points ws (ua_source_id ?a) (ua_external_id ?a) (pts ?c)) \<Longrightarrow>
      dict_get (qp_payload x) ''content_hash'' \<noteq> Some (VStr (ua_content_hash ?a))" for x
    using assms by (auto simp: vector_ready_def no_open_copy_def)
  obtain existing ps c' where ps: "made_points ?env ?a ws existing = Inr ps"
    and u: "upsert_chunks en ?env ?a ?c = Some (Inr (outcome ?env ?a existing), c')"
    and v: "pts c' = fold put_point ps (retired existing ws (qe_now ?env) (pts ?c))"
    using upsert_chunks_up [OF en(2,3) ready(2) vector_args_fields(7) ready(3) vector_args_fields(8) nc] by blast
  let ?r = "retired existing ws (qe_now ?env) (pts ?c)"
  have "by_id ?r"
    using engine_by_id [OF en(2), of ?c] by (auto simp: retired_def end_dated_def intro: by_id_map split: option.split)
  moreover have "distinct (map qp_id ps)" using made_points_ids [OF ps] d0 by (simp split: if_splits)
  ultimately have mem: "set ps \<subseteq> set (pts c')" unfolding v using set_fold_put by blast
  obtain cps where cps: "chunks_to_points ?env ?a ws (doc_id_for ?env existing) (version_for existing) 0 (ua_chunks ?a) = Inr cps"
    and "ps = cps @ [checkpoint_point ?env ?a ws v]" using ps by (auto simp: made_points_def bind_res_eq_Inr)
  then have sub: "set cps \<subseteq> set ps" by auto
  have "list_all (\<lambda>ch. vc_chunk_id ch \<noteq> None) (ua_chunks ?a)"
    using vector_args_fields(8) [of a ws v] by (simp add: list_all_iff complete_chunk_def)
  then have ids: "map qp_id cps = chunk_ids ?a" using chunks_to_points_ids [OF cps] by (simp add: chunk_ids_def)
  have "\<exists>x \<in> set (pts c'). qp_id x = i \<and> in_workspace ws x \<and> current x \<and> dict_get (qp_payload x) ''tombstoned_at'' = Some VNull"
    if i: "i \<in> set (map cd_id (da_chunks a))" for i
  proof -
    have "i \<in> qp_id ` set cps" using i arg_cong [OF ids, of set] by simp
    then obtain p where p: "p \<in> set cps" "qp_id p = i" by blast
    then show ?thesis using made_point [OF cps p(1)] mem sub by (intro bexI [of _ p]) auto
  qed
  moreover have "qp_id ` set (pts c') \<subseteq> qp_id ` set (pts ?c) \<union> set (map cd_id (da_chunks a)) \<union> {checkpoint_id ?env (da_source_id a)}"
  proof -
    have new: "qp_id ` set ps \<subseteq> set (chunk_ids ?a) \<union> {checkpoint_id ?env (da_source_id a)}"
      using arg_cong [OF made_points_ids [OF ps vector_args_fields(8)], of set] by auto
    have "map qp_id ?r = map qp_id (pts ?c)" by (cases existing) (simp_all add: retired_def end_dated_def)
    then have old: "qp_id ` set ?r = qp_id ` set (pts ?c)" by (metis list.set_map)
    have "qp_id ` set (pts c') \<subseteq> qp_id ` set ps \<union> qp_id ` set ?r"
      unfolding v using image_mono [OF set_fold_put_subset [of ps ?r], of qp_id] by (simp add: image_Un)
    then show ?thesis using union_subset [OF _ new old] by (simp add: vector_args_fields(9))
  qed
  moreover have "vector_write env a v s = Some (Inr (), s\<lparr>st_vectors := c'\<rparr>)"
    using en(1) ready(1) u by (simp add: vector_write_def on_vectors_def bind_p_def ret_p_def)
  ultimately show ?thesis using en u by (auto simp: outcome_def split: option.split)
qed


section \<open>A new document\<close>

lemma created_rows:
  assumes "rows_ok s" and "rows_commit env a s"
    and "find_document_row (da_source_id a) (da_external_id a) (st_documents s) = Inr None"
  shows "pg_txn env (write_rows env a) s = Some (Inr (ActCreated, new_document env a),
    s\<lparr>st_documents := st_documents s @ [new_document env a], st_chunks := st_chunks s @ rows_of env a (we_doc_id env)\<rparr>)"
proof -
  obtain act doc s1 where w: "write_rows env a s = Inr ((act, doc), s1)" and p: "pg_txn env (write_rows env a) s = Some (Inr (act, doc), s1)"
    by (rule pg_txn_commit [OF assms(1,2)])
  from w show ?thesis using assms(3) p by (cases rule: write_rows_cases) auto
qed

lemma created_live:
  assumes "active_source ws (da_source_id a) s" and "i \<in> set (map cd_id (da_chunks a))"
    and "st_documents s' = st_documents s @ [new_document env a]" and "st_chunks s' = st_chunks s @ rows_of env a (we_doc_id env)"
    and "st_sources s' = st_sources s"
  shows "live_chunk (tables_of s') ws i"
proof -
  have "i \<in> cr_id ` set (rows_of env a (we_doc_id env))" using assms(2) by simp
  then obtain c where "c \<in> set (rows_of env a (we_doc_id env))" "cr_id c = i" by blast
  moreover have "active_source ws (da_source_id a) s'" using assms(1,5) by (simp add: active_source_def)
  ultimately show ?thesis unfolding live_chunk_iff using assms(3,4)
    by (intro bexI [of _ c] conjI bexI [of _ "new_document env a"]) auto
qed

text \<open>The two writes of a new document, on a store the adapter has written.\<close>

lemma upsert_new_document:
  assumes "rows_ok s" and "rows_commit env a s" and "vector_ready pts env a ws 1 (st_vectors s)"
    and "find_document_row (da_source_id a) (da_external_id a) (st_documents s) = Inr None"
    and "active_source ws (da_source_id a) s"
  shows "\<exists>s'. upsert_document env a s = Some (Inr \<lparr>ur_action = ActCreated, ur_document_id = we_doc_id env,
        ur_chunks_written = length (da_chunks a), ur_doc_version = 1\<rparr>, s')
    \<and> list_all (\<lambda>c. served pts ws (cd_id c) s') (da_chunks a)
    \<and> (\<exists>u. upsert_chunks (the (we_engine env)) (we_qenv env) (vector_args a ws 1) (st_vectors s) = Some (Inr u, st_vectors s')
        \<and> uo_action u \<noteq> ActUnchanged)
    \<and> st_sources s' = st_sources s"
proof -
  let ?s1 = "s\<lparr>st_documents := st_documents s @ [new_document env a], st_chunks := st_chunks s @ rows_of env a (we_doc_id env)\<rparr>"
  have p: "pg_txn env (write_rows env a) s = Some (Inr (ActCreated, new_document env a), ?s1)" by (rule created_rows [OF assms(1,2,4)])
  obtain u c' where v: "upsert_chunks (the (we_engine env)) (we_qenv env) (vector_args a ws 1) (st_vectors s) = Some (Inr u, c')"
    "uo_action u \<noteq> ActUnchanged" "vector_write env a 1 ?s1 = Some (Inr (), ?s1\<lparr>st_vectors := c'\<rparr>)"
    "\<forall>i \<in> set (map cd_id (da_chunks a)). \<exists>x \<in> set (pts c'). qp_id x = i \<and> in_workspace ws x \<and> current x
         \<and> dict_get (qp_payload x) ''tombstoned_at'' = Some VNull"
    using vector_write_up [of pts env a ws 1 ?s1] assms(3) by auto
  let ?s' = "?s1\<lparr>st_vectors := c'\<rparr>"
  have "live_chunk (tables_of ?s') ws i" if "i \<in> set (map cd_id (da_chunks a))" for i
    by (rule created_live [OF assms(5) that, where env = env]) simp_all
  then have "list_all (\<lambda>c. served pts ws (cd_id c) ?s') (da_chunks a)" using v(4) by (simp add: list_all_iff served_def)
  moreover have "upsert_document env a s = Some (Inr \<lparr>ur_action = ActCreated, ur_document_id = we_doc_id env,
      ur_chunks_written = length (da_chunks a), ur_doc_version = 1\<rparr>, ?s')"
    using p v(3) by (simp add: upsert_document_def bind_p_def then_p_def ret_p_def)
  ultimately show ?thesis using v(1,2) by (intro exI [of _ ?s']) auto
qed

text \<open>
  Claim C29: The first document of a source is served. When Postgres commits, the vector store is up
  and its checkpoint admits version 1, the upsert of a document the tables do not have returns
  created, and every chunk of it is served afterwards: a current point of the workspace under
  the same id as a live chunk row.
\<close>

theorem new_document_is_served:
  assumes "rows_ok s" and "rows_commit env a s" and "vector_ready pts env a ws 1 (st_vectors s)"
    and "find_document_row (da_source_id a) (da_external_id a) (st_documents s) = Inr None"
    and "active_source ws (da_source_id a) s"
  shows "\<exists>r s'. upsert_document env a s = Some (Inr r, s') \<and> ur_action r = ActCreated \<and> ur_doc_version r = 1
    \<and> list_all (\<lambda>c. served pts ws (cd_id c) s') (da_chunks a)"
  using upsert_new_document [OF assms] by fastforce

text \<open>
  Claim C30: The second new document of a source is never served. After a document of a source has been
  written, the upsert of any other new document of that source also returns created with all
  its chunks reported as written, and its rows are live, but the vector store is left exactly
  as it was: unless the point ids happen to exist already, no chunk of it can be found.
\<close>

theorem second_document_is_not_served:
  assumes "rows_ok s" and "rows_commit env a s" and "vector_ready pts env a ws 1 (st_vectors s)"
    and "find_document_row (da_source_id a) (da_external_id a) (st_documents s) = Inr None"
    and "active_source ws (da_source_id a) s"
    and "upsert_document env a s = Some (r, s1)"
    and "rows_commit env' b s1" and "we_engine env' = we_engine env" and "qe_uuid5 (we_qenv env') = qe_uuid5 (we_qenv env)"
    and "da_source_id b = da_source_id a" and "da_workspace_id b = Some ws" and "da_epoch b = None" and "\<not> da_forced_replay b"
    and "find_document_row (da_source_id b) (da_external_id b) (st_documents s1) = Inr None"
    and "\<And>i. i \<in> set (map cd_id (da_chunks b)) \<Longrightarrow> i \<notin> qp_id ` set (pts (st_vectors s1))"
  shows "\<exists>s2. upsert_document env' b s1 = Some (Inr \<lparr>ur_action = ActCreated, ur_document_id = we_doc_id env',
        ur_chunks_written = length (da_chunks b), ur_doc_version = 1\<rparr>, s2)
    \<and> st_vectors s2 = st_vectors s1
    \<and> list_all (\<lambda>c. live_chunk (tables_of s2) ws (cd_id c) \<and> \<not> served pts ws (cd_id c) s2) (da_chunks b)"
proof -
  obtain en where en: "we_engine env = Some en" "engine_ok en pts" "engine_up en" using assms(3) by (auto simp: vector_ready_def)
  obtain u where u: "upsert_chunks en (we_qenv env) (vector_args a ws 1) (st_vectors s) = Some (Inr u, st_vectors s1)"
    "uo_action u \<noteq> ActUnchanged" and src: "st_sources s1 = st_sources s"
    using upsert_new_document [OF assms(1-5)] assms(6) en(1) by auto
  let ?s2 = "s1\<lparr>st_documents := st_documents s1 @ [new_document env' b], st_chunks := st_chunks s1 @ rows_of env' b (we_doc_id env')\<rparr>"
  have "rows_ok s1" using keeps_pD [OF upsert_document_rows_ok assms(1,6)] .
  then have p: "pg_txn env' (write_rows env' b) s1 = Some (Inr (ActCreated, new_document env' b), ?s2)"
    by (rule created_rows [OF _ assms(7,14)])
  obtain u' where "upsert_chunks en (we_qenv env') (vector_args b ws 1) (st_vectors s1) = Some (Inr u', st_vectors s1)"
    using checkpoint_skips [OF en(2,3) u, of 1 "vector_args b ws 1" 1 ws "we_qenv env'"] assms(9,10,12,13) by auto
  then have "vector_write env' b 1 ?s2 = Some (Inr (), ?s2)"
    using assms(8,11) en(1) by (simp add: vector_write_def on_vectors_def bind_p_def ret_p_def)
  then have e: "upsert_document env' b s1 = Some (Inr \<lparr>ur_action = ActCreated, ur_document_id = we_doc_id env',
      ur_chunks_written = length (da_chunks b), ur_doc_version = 1\<rparr>, ?s2)"
    using p by (simp add: upsert_document_def bind_p_def then_p_def ret_p_def)
  have act: "active_source ws (da_source_id b) s1" using assms(5,10) src by (simp add: active_source_def)
  have "live_chunk (tables_of ?s2) ws i" if "i \<in> set (map cd_id (da_chunks b))" for i
    by (rule created_live [OF act that, where env = env']) simp_all
  moreover have "\<not> served pts ws i ?s2" if "i \<in> set (map cd_id (da_chunks b))" for i
    using assms(15) [OF that] by (auto simp: served_def)
  ultimately show ?thesis using e by (intro exI [of _ ?s2]) (simp add: list_all_iff)
qed


section \<open>Retries and re-creation\<close>

lemma unchanged_rows:
  assumes "we_pg env" and "we_commit env" and "dx_content_hash d = da_content_hash a"
    and "find_document_row (da_source_id a) (da_external_id a) (st_documents s) = Inr (Some d)"
  shows "pg_txn env (write_rows env a) s = Some (Inr (ActUnchanged, d), s)"
  using assms by (simp add: pg_txn_def write_rows_def)

lemma chunk_rows_unique:
  assumes "rows_ok s" and "c \<in> set (st_chunks s)" and "c' \<in> set (st_chunks s)" and "cr_id c = cr_id c'"
  shows "c = c'"
  using assms by (auto simp: rows_ok_def distinct_map dest: inj_onD)

lemma document_rows_unique:
  assumes "rows_ok s" and "d \<in> set (st_documents s)" and "d' \<in> set (st_documents s)" and "dx_id d = dx_id d'"
  shows "d = d'"
  using assms by (auto simp: rows_ok_def distinct_map dest: inj_onD)

text \<open>
  A retry after a failed vector write leaves the document unservable. When the first attempt
  commits the rows of a new document and the vector write then raises, the redelivered event
  brings fresh chunk ids; Postgres answers unchanged and keeps the chunk rows of the first
  attempt, while the vector store receives points with the ids of the second. The retry returns
  normally, and afterwards no chunk of either attempt is served.
\<close>

theorem retry_after_vector_failure_is_not_served:
  assumes "rows_ok s" and "rows_commit env a s"
    and "find_document_row (da_source_id a) (da_external_id a) (st_documents s) = Inr None"
    and "upsert_document env a s = Some (Inl e, s1)"
    and "we_pg env'" and "we_commit env'" and "vector_ready pts env' b ws 1 (st_vectors s1)"
    and "da_source_id b = da_source_id a" and "da_external_id b = da_external_id a" and "da_content_hash b = da_content_hash a"
    and "\<And>i. i \<in> set (map cd_id (da_chunks b)) \<Longrightarrow> i \<notin> cr_id ` set (st_chunks s1)"
    and "\<And>i. i \<in> set (map cd_id (da_chunks a)) \<Longrightarrow> i \<notin> qp_id ` set (pts (st_vectors s1))"
    and "checkpoint_id (we_qenv env') (da_source_id a) \<notin> set (map cd_id (da_chunks a))"
  shows "\<exists>u s2. upsert_document env' b s1 = Some (Inr u, s2) \<and> ur_action u = ActUnchanged
    \<and> list_all (\<lambda>c. \<not> served pts ws (cd_id c) s2) (da_chunks a @ da_chunks b)"
proof -
  let ?d = "new_document env a"
  let ?s' = "s\<lparr>st_documents := st_documents s @ [?d], st_chunks := st_chunks s @ rows_of env a (we_doc_id env)\<rparr>"
  have p: "pg_txn env (write_rows env a) s = Some (Inr (ActCreated, ?d), ?s')" by (rule created_rows [OF assms(1-3)])
  obtain q where "vector_write env a (dx_doc_version ?d) ?s' = Some (q, s1)" using upsert_document_split [OF assms(4) p] by blast
  note v1 = vector_write_rows [OF this]
  have r1: "rows_ok s1" using keeps_pD [OF upsert_document_rows_ok assms(1,4)] .
  have "find_document_row (da_source_id b) (da_external_id b) (st_documents s1) = Inr (Some ?d)"
    using find_row_unique [of "st_documents s1" ?d] r1 v1(2) assms(8,9) by (simp add: rows_ok_def)
  then have p2: "pg_txn env' (write_rows env' b) s1 = Some (Inr (ActUnchanged, ?d), s1)"
    by (intro unchanged_rows assms(5,6)) (simp_all add: assms(10))
  obtain c' where vw: "vector_write env' b 1 s1 = Some (Inr (), s1\<lparr>st_vectors := c'\<rparr>)"
    and ids: "qp_id ` set (pts c') \<subseteq> qp_id ` set (pts (st_vectors s1)) \<union> set (map cd_id (da_chunks b)) \<union> {checkpoint_id (we_qenv env') (da_source_id b)}"
    using vector_write_up [OF assms(7)] by auto
  let ?s2 = "s1\<lparr>st_vectors := c'\<rparr>"
  obtain u where up: "upsert_document env' b s1 = Some (Inr u, ?s2)" "ur_action u = ActUnchanged"
    using p2 vw by (simp add: upsert_document_def bind_p_def then_p_def ret_p_def)
  have nb: "\<not> served pts ws i ?s2" if "i \<in> set (map cd_id (da_chunks b))" for i
    using assms(11) [OF that] by (auto simp: served_def live_chunk_iff)
  have na: "\<not> served pts ws i ?s2" if i: "i \<in> set (map cd_id (da_chunks a))" for i
  proof (cases "i \<in> set (map cd_id (da_chunks b))")
    case True
    then show ?thesis by (rule nb)
  next
    case False
    moreover have "i \<noteq> checkpoint_id (we_qenv env') (da_source_id b)" using assms(8,13) i by metis
    ultimately have "i \<notin> qp_id ` set (pts (st_vectors s1)) \<union> set (map cd_id (da_chunks b)) \<union> {checkpoint_id (we_qenv env') (da_source_id b)}"
      using assms(12) [OF i] by simp
    then have "i \<notin> qp_id ` set (pts c')" by (rule contra_subsetD [OF ids])
    then show ?thesis by (auto simp: served_def)
  qed
  have "list_all (\<lambda>c. \<not> served pts ws (cd_id c) ?s2) (da_chunks a @ da_chunks b)" using na nb by (auto simp: list_all_iff)
  then show ?thesis using up by blast
qed

text \<open>
  A deleted document that comes back unchanged stays deleted. When the row of a document is
  tombstoned and an upsert brings the content it had, the upsert does not touch the row, and
  none of its chunks is served, however often it is repeated.
\<close>

theorem recreated_document_stays_deleted:
  assumes "rows_ok s" and "we_pg env" and "we_commit env"
    and "find_document_row (da_source_id a) (da_external_id a) (st_documents s) = Inr (Some d)"
    and "dx_tombstoned_at d \<noteq> None" and "dx_content_hash d = da_content_hash a"
    and "upsert_document env a s = Some (r, s')"
  shows "find_document_row (da_source_id a) (da_external_id a) (st_documents s') = Inr (Some d)
    \<and> list_all (\<lambda>c. \<not> served pts ws (cr_id c) s') (chunks_of (dx_id d) s')
    \<and> (case r of Inl _ \<Rightarrow> we_engine env \<noteq> None | Inr u \<Rightarrow> ur_action u = ActUnchanged)"
proof -
  have p: "pg_txn env (write_rows env a) s = Some (Inr (ActUnchanged, d), s)" by (rule unchanged_rows [OF assms(2,3,6,4)])
  obtain q where q: "vector_write env a (dx_doc_version d) s = Some (q, s')" and r: "case q of Inl e \<Rightarrow> r = Inl e
       | Inr _ \<Rightarrow> r = Inr \<lparr>ur_action = ActUnchanged, ur_document_id = dx_id d,
           ur_chunks_written = (if ActUnchanged \<noteq> ActUnchanged then length (da_chunks a) else 0), ur_doc_version = dx_doc_version d\<rparr>"
    using upsert_document_split [OF assms(7) p] by blast
  note v = vector_write_rows [OF q]
  have ok: "rows_ok s'" using keeps_pD [OF upsert_document_rows_ok assms(1,7)] .
  have d: "d \<in> set (st_documents s')" using find_row_Some [OF assms(4)] v(2) by simp
  have "\<not> live_chunk (tables_of s') ws (cr_id c)" if c: "c \<in> set (chunks_of (dx_id d) s')" for c
  proof
    assume "live_chunk (tables_of s') ws (cr_id c)"
    then obtain x y where xy: "x \<in> set (st_chunks s')" "cr_id x = cr_id c" "y \<in> set (st_documents s')" "dx_id y = cr_document_id x"
      "dx_tombstoned_at y = None" unfolding live_chunk_iff by blast
    have c': "c \<in> set (st_chunks s')" "cr_document_id c = dx_id d" using c by (simp_all add: chunks_of_def)
    then have "x = c" using chunk_rows_unique [OF ok xy(1) c'(1) xy(2)] by simp
    then have "y = d" using document_rows_unique [OF ok xy(3) d] xy(4) c'(2) by simp
    then show False using xy(5) assms(5) by simp
  qed
  moreover have "case r of Inl _ \<Rightarrow> we_engine env \<noteq> None | Inr u \<Rightarrow> ur_action u = ActUnchanged"
    using q r by (auto simp: vector_write_def ret_p_def split: option.splits sum.splits)
  ultimately show ?thesis using assms(4) v(2) by (simp add: list_all_iff served_def)
qed

text \<open>An update removes the chunk rows of the version before, so its points, which the vector store
  keeps for reads of the past, are no longer served.\<close>

lemma superseded_chunks_not_live:
  assumes "rows_ok s" and "rows_commit env a s" and "upsert_document env a s = Some (r, s')"
    and "find_document_row (da_source_id a) (da_external_id a) (st_documents s) = Inr (Some d)"
    and "dx_content_hash d \<noteq> da_content_hash a" and "c \<in> set (chunks_of (dx_id d) s)"
  shows "\<not> live_chunk (tables_of s') ws (cr_id c)"
proof -
  obtain act doc s1 where w: "write_rows env a s = Inr ((act, doc), s1)" and p: "pg_txn env (write_rows env a) s = Some (Inr (act, doc), s1)"
    by (rule pg_txn_commit [OF assms(1,2)])
  obtain q where "vector_write env a (dx_doc_version doc) s1 = Some (q, s')" using upsert_document_split [OF assms(3) p] by blast
  note v = vector_write_rows [OF this]
  have chunks: "st_chunks s' = filter (\<lambda>x. cr_document_id x \<noteq> dx_id d) (st_chunks s) @ rows_of env a (dx_id d)"
    using w by (cases rule: write_rows_cases) (use assms(4,5) v(3) in \<open>simp_all add: delete_chunks_def\<close>)
  have fresh: "cr_id c \<notin> cd_id ` set (da_chunks a)"
    using assms(2,6) by (auto simp: rows_commit_def fresh_chunks_def chunks_of_def)
  have "cr_id x \<noteq> cr_id c" if "x \<in> set (st_chunks s')" for x
  proof (cases "x \<in> set (rows_of env a (dx_id d))")
    case True
    then have "cr_id x \<in> cd_id ` set (da_chunks a)" using imageI [OF True, of cr_id] by simp
    then show ?thesis using fresh by metis
  next
    case False
    then have x: "x \<in> set (st_chunks s)" "cr_document_id x \<noteq> dx_id d" using that chunks by auto
    then show ?thesis using chunk_rows_unique [OF assms(1) x(1), of c] assms(6) by (auto simp: chunks_of_def)
  qed
  then show ?thesis unfolding live_chunk_iff by blast
qed


section \<open>Witnesses\<close>

lemma demo_active [simp]: "active_source 9 5 demo_stores"
  by (simp add: active_source_def demo_stores_def demo_source_def)

lemma demo_doc_fields [simp]:
  "da_source_id (demo_doc ext h u) = 5" "da_external_id (demo_doc ext h u) = ext" "da_content_hash (demo_doc ext h u) = h"
  "map cd_id (da_chunks (demo_doc ext h u)) = [u]" "da_workspace_id (demo_doc ext h u) = Some 9"
  "da_epoch (demo_doc ext h u) = None" "\<not> da_forced_replay (demo_doc ext h u)" "length (da_chunks (demo_doc ext h u)) = 1"
  "da_run_id (demo_doc ext h u) = None"
  by (simp_all add: demo_doc_def demo_chunk_data_def)

lemma demo_wenv_fields [simp]:
  "we_engine (demo_wenv now i) = Some mem_engine" "we_qenv (demo_wenv now i) = demo_qenv now" "we_doc_id (demo_wenv now i) = i"
  "we_pg (demo_wenv now i)" "we_commit (demo_wenv now i)" "qe_uuid5 (demo_qenv now) = (\<lambda>_. 7)"
  by (simp_all add: demo_wenv_def demo_qenv_def)

lemma demo_stores_fields [simp]:
  "st_documents demo_stores = []" "st_chunks demo_stores = []" "st_vectors demo_stores = []" "st_sources demo_stores = [demo_source]"
  "so_id demo_source = 5"
  by (simp_all add: demo_stores_def demo_source_def)

lemma demo_ready:
  "u \<noteq> 7 \<Longrightarrow> vector_ready mem_points (demo_wenv now i) (demo_doc ext h u) 9 v []"
  using mem_engine_ok mem_engine_up by (simp add: vector_ready_def no_open_copy_def)

lemma find_row_Nil [simp]: "find_document_row src ext [] = Inr None"
  by (simp add: find_document_row_def)

theorem new_document_is_served_witness:
  "\<exists>r s'. upsert_document (demo_wenv 3 20) (demo_doc ''a.md'' ''h1'' 11) demo_stores = Some (Inr r, s') \<and> ur_action r = ActCreated
     \<and> served mem_points 9 11 s'"
proof -
  let ?a = "demo_doc ''a.md'' ''h1'' 11"
  have "\<exists>r s'. upsert_document (demo_wenv 3 20) ?a demo_stores = Some (Inr r, s') \<and> ur_action r = ActCreated \<and> ur_doc_version r = 1
      \<and> list_all (\<lambda>c. served mem_points 9 (cd_id c) s') (da_chunks ?a)"
    by (rule new_document_is_served [OF demo_stores_ok demo_rows_commit]) (simp_all add: demo_ready)
  then show ?thesis by (auto simp: demo_doc_def demo_chunk_data_def)
qed

text \<open>The state after the first document, and the ids in it.\<close>

lemma demo_after_first:
  obtains s1 where "upsert_document (demo_wenv 3 20) (demo_doc ''a.md'' ''h1'' 11) demo_stores =
       Some (Inr \<lparr>ur_action = ActCreated, ur_document_id = 20, ur_chunks_written = 1, ur_doc_version = 1\<rparr>, s1)"
    and "map dx_id (st_documents s1) = [20]" and "map row_key (st_documents s1) = [(5, ''a.md'')]" and "map cr_id (st_chunks s1) = [11]"
    and "st_sources s1 = [demo_source]" and "qp_id ` set (mem_points (st_vectors s1)) \<subseteq> {11, 7}"
proof -
  let ?env = "demo_wenv 3 20" and ?a = "demo_doc ''a.md'' ''h1'' 11"
  let ?s1 = "demo_stores\<lparr>st_documents := [new_document ?env ?a], st_chunks := rows_of ?env ?a 20\<rparr>"
  have p: "pg_txn ?env (write_rows ?env ?a) demo_stores = Some (Inr (ActCreated, new_document ?env ?a), ?s1)"
    using created_rows [OF demo_stores_ok demo_rows_commit [of 3 20 "''a.md''" "''h1''" 11]] by simp
  obtain c' where "vector_write ?env ?a 1 ?s1 = Some (Inr (), ?s1\<lparr>st_vectors := c'\<rparr>)" "qp_id ` set (mem_points c') \<subseteq> {11, 7}"
    using vector_write_up [of mem_points ?env ?a 9 1 ?s1] demo_ready [of 11 3 20 "''a.md''" "''h1''" 1] by auto
  then show thesis
    using p by (intro that [of "?s1\<lparr>st_vectors := c'\<rparr>"]) (simp_all add: upsert_document_def bind_p_def then_p_def ret_p_def row_key_def)
qed

lemma row_key_absent:
  "(src, ext) \<notin> set (map row_key docs) \<Longrightarrow> find_document_row src ext docs = Inr None"
  by (auto simp: find_row_None row_key_def)

theorem second_document_is_not_served_witness:
  "\<exists>s1 r s2. upsert_document (demo_wenv 3 20) (demo_doc ''a.md'' ''h1'' 11) demo_stores = Some (r, s1)
     \<and> upsert_document (demo_wenv 4 21) (demo_doc ''b.md'' ''h2'' 12) s1 =
         Some (Inr \<lparr>ur_action = ActCreated, ur_document_id = 21, ur_chunks_written = 1, ur_doc_version = 1\<rparr>, s2)
     \<and> st_vectors s2 = st_vectors s1 \<and> \<not> served mem_points 9 12 s2"
proof -
  let ?a = "demo_doc ''a.md'' ''h1'' 11" and ?b = "demo_doc ''b.md'' ''h2'' 12"
  obtain s1 where s1: "upsert_document (demo_wenv 3 20) ?a demo_stores =
       Some (Inr \<lparr>ur_action = ActCreated, ur_document_id = 20, ur_chunks_written = 1, ur_doc_version = 1\<rparr>, s1)"
    and d: "map dx_id (st_documents s1) = [20]" "map row_key (st_documents s1) = [(5, ''a.md'')]" "map cr_id (st_chunks s1) = [11]"
    and src: "st_sources s1 = [demo_source]" and q: "qp_id ` set (mem_points (st_vectors s1)) \<subseteq> {11, 7}"
    by (rule demo_after_first)
  have ids: "dx_id ` set (st_documents s1) = {20}" "cr_id ` set (st_chunks s1) = {11}"
    using arg_cong [OF d(1), of set] arg_cong [OF d(3), of set] by simp_all
  have c: "rows_commit (demo_wenv 4 21) ?b s1"
    using ids src by (simp add: rows_commit_def fresh_chunks_def) (simp add: demo_doc_def demo_chunk_data_def)
  have f: "find_document_row 5 ''b.md'' (st_documents s1) = Inr None" by (rule row_key_absent) (simp only: d, simp)
  have n: "12 \<notin> qp_id ` set (mem_points (st_vectors s1))" using q by (auto dest: subsetD)
  have "\<exists>s2. upsert_document (demo_wenv 4 21) ?b s1 = Some (Inr \<lparr>ur_action = ActCreated, ur_document_id = we_doc_id (demo_wenv 4 21),
        ur_chunks_written = length (da_chunks ?b), ur_doc_version = 1\<rparr>, s2)
    \<and> st_vectors s2 = st_vectors s1
    \<and> list_all (\<lambda>c. live_chunk (tables_of s2) 9 (cd_id c) \<and> \<not> served mem_points 9 (cd_id c) s2) (da_chunks ?b)"
  proof (rule second_document_is_not_served [OF demo_stores_ok demo_rows_commit _ _ _ s1 c])
    show "vector_ready mem_points (demo_wenv 3 20) ?a 9 1 (st_vectors demo_stores)" by (simp add: demo_ready)
    show "find_document_row (da_source_id ?b) (da_external_id ?b) (st_documents s1) = Inr None" using f by simp
    show "i \<notin> qp_id ` set (mem_points (st_vectors s1))" if "i \<in> set (map cd_id (da_chunks ?b))" for i
      using that n unfolding demo_doc_fields(4) by (metis list.set(1,2) singletonD)
  qed simp_all
  then show ?thesis using s1 by (auto simp: demo_doc_def demo_chunk_data_def)
qed

theorem recreated_document_stays_deleted_witness:
  "\<exists>s r s'. writer_tombstone (demo_pg_only 4 21) 5 ''a.md'' (Some 9)
       (demo_stores\<lparr>st_documents := [new_document (demo_pg_only 3 20) (demo_doc ''a.md'' ''h1'' 11)],
         st_chunks := rows_of (demo_pg_only 3 20) (demo_doc ''a.md'' ''h1'' 11) 20\<rparr>) = Some (Inr True, s)
     \<and> upsert_document (demo_pg_only 5 22) (demo_doc ''a.md'' ''h1'' 12) s = Some (r, s')
     \<and> list_all (\<lambda>c. \<not> served mem_points 9 (cr_id c) s') (chunks_of 20 s')"
proof -
  let ?d = "new_document (demo_pg_only 3 20) (demo_doc ''a.md'' ''h1'' 11)"
  let ?before = "demo_stores\<lparr>st_documents := [?d], st_chunks := rows_of (demo_pg_only 3 20) (demo_doc ''a.md'' ''h1'' 11) 20\<rparr>"
  let ?d' = "?d\<lparr>dx_tombstoned_at := Some 4\<rparr>"
  let ?s = "replace_document ?d' ?before" and ?b = "demo_doc ''a.md'' ''h1'' 12"
  have pg: "we_pg (demo_pg_only now i)" "we_commit (demo_pg_only now i)" "we_engine (demo_pg_only now i) = None"
    "we_now (demo_pg_only now i) = now" "we_doc_id (demo_pg_only now i) = i" for now i
    by (simp_all add: demo_pg_only_def) (simp_all add: demo_wenv_def)
  have t: "writer_tombstone (demo_pg_only 4 21) 5 ''a.md'' (Some 9) ?before = Some (Inr True, ?s)"
    by (simp add: writer_tombstone_def pg find_document_row_def)
  have ok: "rows_ok ?before" using keeps_pD [OF upsert_document_rows_ok demo_stores_ok demo_pg_write] .
  have ok': "rows_ok ?s" by (rule keeps_pD [OF tombstone_rows_ok ok t])
  have f: "find_document_row (da_source_id ?b) (da_external_id ?b) (st_documents ?s) = Inr (Some ?d')"
    by (simp add: replace_document_def find_document_row_def)
  have p: "pg_txn (demo_pg_only 5 22) (write_rows (demo_pg_only 5 22) ?b) ?s = Some (Inr (ActUnchanged, ?d'), ?s)"
    by (rule unchanged_rows [OF pg(1,2) _ f]) simp
  have u: "upsert_document (demo_pg_only 5 22) ?b ?s = Some (Inr \<lparr>ur_action = ActUnchanged, ur_document_id = dx_id ?d',
      ur_chunks_written = 0, ur_doc_version = 1\<rparr>, ?s)"
    unfolding upsert_document_def bind_p_def then_p_def p by (simp add: vector_write_def pg ret_p_def)
  show ?thesis
    using recreated_document_stays_deleted [OF ok' pg(1,2) f _ _ u, of mem_points 9] t u by (auto simp: pg)
qed

text \<open>A vector service that does not answer reads.\<close>

definition down_wenv :: "int \<Rightarrow> uuid \<Rightarrow> (qpoint list, unit) wenv" where
  "down_wenv now i = (demo_wenv now i)\<lparr>we_engine := Some (mem_engine\<lparr>en_retrieve := (\<lambda>_ _. Inl (BackendError ''qdrant''))\<rparr>)\<rparr>"

theorem retry_after_vector_failure_is_not_served_witness:
  "\<exists>e s1 u s2. upsert_document (down_wenv 3 20) (demo_doc ''a.md'' ''h1'' 11) demo_stores = Some (Inl e, s1)
     \<and> upsert_document (demo_wenv 4 21) (demo_doc ''a.md'' ''h1'' 12) s1 = Some (Inr u, s2)
     \<and> \<not> served mem_points 9 11 s2 \<and> \<not> served mem_points 9 12 s2"
proof -
  let ?a = "demo_doc ''a.md'' ''h1'' 11" and ?b = "demo_doc ''a.md'' ''h1'' 12"
  let ?rest = "demo_stores\<lparr>st_documents := [new_document (down_wenv 3 20) ?a], st_chunks := rows_of (down_wenv 3 20) ?a 20\<rparr>"
  have f: "we_doc_id (down_wenv 3 20) = 20" "we_qenv (down_wenv 3 20) = demo_qenv 3" by (simp_all add: down_wenv_def)
  have commit: "rows_commit (down_wenv 3 20) ?a demo_stores"
    using demo_rows_commit [of 3 20 "''a.md''" "''h1''" 11] by (simp add: rows_commit_def down_wenv_def)
  have p: "pg_txn (down_wenv 3 20) (write_rows (down_wenv 3 20) ?a) demo_stores = Some (Inr (ActCreated, new_document (down_wenv 3 20) ?a), ?rest)"
    using created_rows [OF demo_stores_ok commit] by (simp add: f)
  have "vector_write (down_wenv 3 20) ?a 1 ?rest = Some (Inl (BackendError ''qdrant''), ?rest)"
    by (simp add: vector_write_def down_wenv_def on_vectors_def upsert_chunks_def bind_p_def ask_p_def res_p_def)
  then have fail: "upsert_document (down_wenv 3 20) ?a demo_stores = Some (Inl (BackendError ''qdrant''), ?rest)"
    using p by (simp add: upsert_document_def bind_p_def then_p_def)
  have "\<exists>u s2. upsert_document (demo_wenv 4 21) ?b ?rest = Some (Inr u, s2) \<and> ur_action u = ActUnchanged
      \<and> list_all (\<lambda>c. \<not> served mem_points 9 (cd_id c) s2) (da_chunks ?a @ da_chunks ?b)"
  proof (rule retry_after_vector_failure_is_not_served [OF demo_stores_ok commit _ fail])
    show "vector_ready mem_points (demo_wenv 4 21) ?b 9 1 (st_vectors ?rest)" by (simp add: demo_ready)
    show "i \<notin> cr_id ` set (st_chunks ?rest)" if "i \<in> set (map cd_id (da_chunks ?b))" for i
      using that unfolding demo_doc_fields(4) by (simp add: demo_doc_def demo_chunk_data_def)
  qed (simp_all add: mem_points_def)
  then show ?thesis using fail by (auto simp: demo_doc_def demo_chunk_data_def)
qed

end
