(* ===== verification/AwsLive.thy ===== *)
theory AwsLive
  imports IndexWriter Fingerprint
begin

text \<open>
  The graph of a live AWS inventory document
  (\<^verbatim>\<open>packages/parsers/src/omniscience_parsers/infra/aws_live.py\<close>) and the choice of the extractor
  of a document (\<^verbatim>\<open>packages/parsers/src/omniscience_parsers/graph_dispatch.py\<close>). The name-based UUID
  is the argument \<open>uuid5\<close>; \<open>utf8\<close> is the text that \<^verbatim>\<open>bytes.decode("utf-8", errors="replace")\<close> gives.
\<close>

section \<open>Python values\<close>

text \<open>\<^verbatim>\<open>str(v)\<close> and the truth value of \<^verbatim>\<open>v\<close>; a float is zero when its mantissa has no other digit.\<close>

definition py_str :: "json \<Rightarrow> string" where
  "py_str v = (case v of JStr s \<Rightarrow> s | _ \<Rightarrow> py_repr v)"

definition json_truthy :: "json \<Rightarrow> bool" where
  "json_truthy v =
     (case v of
        JNull \<Rightarrow> False
      | JBool b \<Rightarrow> b
      | JInt i \<Rightarrow> i \<noteq> 0
      | JFloat t \<Rightarrow> list_ex (\<lambda>c. is_dec c \<and> c \<noteq> CHR ''0'') (takeWhile (\<lambda>c. c \<notin> {CHR ''e'', CHR ''E''}) t)
      | JStr s \<Rightarrow> s \<noteq> []
      | JArr xs \<Rightarrow> xs \<noteq> []
      | JObj kvs \<Rightarrow> kvs \<noteq> [])"

text \<open>\<^verbatim>\<open>m.get(k, "") or None\<close> and \<^verbatim>\<open>str(m.get(k, "") or "")\<close>.\<close>

definition truthy_field :: "metadata \<Rightarrow> string \<Rightarrow> json option" where
  "truthy_field m k = (case dict_get m k of None \<Rightarrow> None | Some v \<Rightarrow> if json_truthy v then Some v else None)"

definition str_field :: "metadata \<Rightarrow> string \<Rightarrow> string" where
  "str_field m k = (case truthy_field m k of None \<Rightarrow> [] | Some v \<Rightarrow> py_str v)"

fun split_on :: "char \<Rightarrow> string \<Rightarrow> string list" where
  "split_on d [] = [[]]"
| "split_on d (c # cs) =
     (if c = d then [] # split_on d cs
      else case split_on d cs of [] \<Rightarrow> [[c]] | w # ws \<Rightarrow> (c # w) # ws)"

section \<open>Constants\<close>

definition AWS_LIVE_KIND :: string where "AWS_LIVE_KIND = ''aws_live''"
definition DEPENDS_ON_EDGE :: string where "DEPENDS_ON_EDGE = ''depends_on''"
definition EXTRACTOR_VERSION :: string where "EXTRACTOR_VERSION = ''aws-live-inventory/v1''"

definition BODY_SCALAR_FIELDS :: "string list" where
  "BODY_SCALAR_FIELDS =
     [''attachment_count'', ''cidr_block'', ''description'', ''dhcp_options_id'', ''feature_set'', ''group_name'',
      ''image_id'', ''instance_type'', ''is_default'', ''location'', ''master_account_id'', ''path'', ''policy_id'',
      ''policy_name'', ''private_ip'', ''role_id'', ''state'', ''status'', ''subnet_id'', ''user_id'',
      ''versioning_status'', ''vpc_id'']"

definition VPC_MEMBER_TYPES :: "string list" where
  "VPC_MEMBER_TYPES = [''aws_instance'', ''aws_security_group'']"

definition ORG_MEMBER_TYPES :: "string list" where
  "ORG_MEMBER_TYPES = [''aws_organizations_account'', ''aws_organizations_ou'']"

definition ARN_ACCOUNT_FIELD :: nat where "ARN_ACCOUNT_FIELD = 4"
definition ARN_MIN_FIELDS :: nat where "ARN_MIN_FIELDS = 6"

record infra_document =
  id_source_id :: uuid
  id_external_id :: string
  id_uri :: string
  id_metadata :: metadata
  id_content_bytes :: string

section \<open>Helpers\<close>

definition decode_body :: "(string \<Rightarrow> string) \<Rightarrow> string \<Rightarrow> metadata" where
  "decode_body utf8 content_bytes =
     (if content_bytes = [] then []
      else case json_loads (utf8 content_bytes) of
             Inl _ \<Rightarrow> []
           | Inr decoded \<Rightarrow> (case decoded of JObj kvs \<Rightarrow> kvs | _ \<Rightarrow> []))"

definition arn_account :: "string \<Rightarrow> string" where
  "arn_account arn =
     (let parts = split_on (CHR '':'') arn
      in if length parts < ARN_MIN_FIELDS then [] else parts ! ARN_ACCOUNT_FIELD)"

definition account_root_arn :: "string \<Rightarrow> string" where
  "account_root_arn account_id = ''arn:aws:iam::'' @ account_id @ '':root''"

definition vpc_arn :: "string \<Rightarrow> string \<Rightarrow> string \<Rightarrow> string" where
  "vpc_arn region account_id vpc_id = ''arn:aws:ec2:'' @ region @ '':'' @ account_id @ '':vpc/'' @ vpc_id"

definition ou_arn :: "string \<Rightarrow> string \<Rightarrow> string \<Rightarrow> string" where
  "ou_arn owner_account org_id ou_id = ''arn:aws:organizations::'' @ owner_account @ '':ou/'' @ org_id @ ''/'' @ ou_id"

definition organization_arn :: "string \<Rightarrow> string \<Rightarrow> string" where
  "organization_arn owner_account org_id = ''arn:aws:organizations::'' @ owner_account @ '':organization/'' @ org_id"

definition is_scalar :: "json \<Rightarrow> bool" where
  "is_scalar v = (case v of JBool _ \<Rightarrow> True | JInt _ \<Rightarrow> True | JFloat _ \<Rightarrow> True | JStr _ \<Rightarrow> True | _ \<Rightarrow> False)"

text \<open>The three passes of the assembly: scalars and tags of the body, then the connector's metadata.\<close>

definition add_body_field :: "metadata \<Rightarrow> string \<times> json \<Rightarrow> metadata" where
  "add_body_field m kv =
     (let (k, v) = kv
      in if k \<in> set BODY_SCALAR_FIELDS \<and> is_scalar v \<and> v \<noteq> JStr [] then dict_set m k v else m)"

definition add_tags :: "metadata \<Rightarrow> json \<Rightarrow> metadata" where
  "add_tags m v = (case v of JObj (t # ts) \<Rightarrow> dict_set m ''tags'' (JObj (t # ts)) | _ \<Rightarrow> m)"

definition add_ref_field :: "metadata \<Rightarrow> string \<times> json \<Rightarrow> metadata" where
  "add_ref_field m kv =
     (let (k, v) = kv
      in if k = ''tags'' then add_tags m v
         else if v = JStr [] \<or> v = JNull then m
         else dict_set m k v)"

definition add_provenance :: "infra_document \<Rightarrow> metadata \<Rightarrow> metadata" where
  "add_provenance doc m =
     dict_set (dict_set (dict_set (dict_set m ''source_uri'' (JStr (id_uri doc)))
       ''source_external_id'' (JStr (id_external_id doc))) ''source_id'' (JStr (uuid_str (id_source_id doc))))
       ''extractor'' (JStr EXTRACTOR_VERSION)"

definition entity_metadata :: "infra_document \<Rightarrow> metadata \<Rightarrow> metadata \<Rightarrow> metadata" where
  "entity_metadata doc ref_meta body =
     (let m1 = foldl add_body_field [] body;
          m2 = (case dict_get body ''tags'' of None \<Rightarrow> m1 | Some v \<Rightarrow> add_tags m1 v);
          m3 = foldl add_ref_field m2 ref_meta
      in add_provenance doc m3)"

definition reference_edge :: "uuid \<Rightarrow> string \<Rightarrow> string \<Rightarrow> string \<Rightarrow> graph_edge_spec option" where
  "reference_edge entity_id own_name target_name relation =
     (if target_name = [] \<or> target_name = own_name then None
      else Some \<lparr>xd_source_entity_id = entity_id, xd_target_name = target_name, xd_edge_type = DEPENDS_ON_EDGE,
                 xd_metadata = [(''relation'', JStr relation), (''asserted_by'', JStr own_name)]\<rparr>)"

definition owner_asserted_edges :: "uuid \<Rightarrow> string \<Rightarrow> string \<Rightarrow> metadata \<Rightarrow> graph_edge_spec list" where
  "owner_asserted_edges entity_id arn resource_type meta =
     (let account_id = str_field meta ''account_id''; region = str_field meta ''region''; org_id = str_field meta ''org_id'';
          owner_account = arn_account arn; ref = reference_edge entity_id arn;
          c1 = (if account_id \<noteq> [] then [ref (account_root_arn account_id) ''in_account''] else []);
          master = str_field meta ''master_account_id'';
          c2 = (if resource_type = ''aws_organization'' \<and> master \<noteq> []
                then [ref (account_root_arn master) ''management_account''] else []);
          vpc_id = str_field meta ''vpc_id'';
          c3 = (if resource_type \<in> set VPC_MEMBER_TYPES \<and> vpc_id \<noteq> [] \<and> region \<noteq> [] \<and> account_id \<noteq> []
                then [ref (vpc_arn region account_id vpc_id) ''in_vpc''] else []);
          parent_id = str_field meta ''parent_id'';
          c4 = (if resource_type \<in> set ORG_MEMBER_TYPES \<and> org_id \<noteq> [] \<and> owner_account \<noteq> []
                then (if starts ''ou-'' parent_id then [ref (ou_arn owner_account org_id parent_id) ''in_ou''] else [])
                     @ [ref (organization_arn owner_account org_id) ''in_organization'']
                else [])
      in map the (filter (\<lambda>e. e \<noteq> None) (c1 @ c2 @ c3 @ c4)))"

definition entity_id_for :: "(string \<Rightarrow> uuid) \<Rightarrow> uuid \<Rightarrow> string \<Rightarrow> uuid" where
  "entity_id_for uuid5 source_id arn = uuid5 (uuid_str source_id @ ''|'' @ arn)"

section \<open>The extractor and the route\<close>

definition supports :: "metadata \<Rightarrow> bool" where
  "supports m \<longleftrightarrow> m \<noteq> [] \<and> py_str (dict_getd m ''kind'' (JStr [])) = AWS_LIVE_KIND"

definition document_arn :: "metadata \<Rightarrow> metadata \<Rightarrow> string" where
  "document_arn ref_meta body =
     (case truthy_field ref_meta ''arn'' of Some v \<Rightarrow> py_str v | None \<Rightarrow> str_field body ''arn'')"

definition extract_aws_live_graph ::
  "(string \<Rightarrow> uuid) \<Rightarrow> (string \<Rightarrow> string) \<Rightarrow> infra_document \<Rightarrow> graph_entity list \<times> graph_edge_spec list" where
  "extract_aws_live_graph uuid5 utf8 doc =
     (let ref_meta = id_metadata doc
      in if \<not> supports ref_meta then ([], [])
         else
           let body = decode_body utf8 (id_content_bytes doc);
               arn = document_arn ref_meta body
           in if arn = [] then ([], [])
              else
                let resource_type = str_field ref_meta ''resource_type'';
                    name = str_field ref_meta ''name'';
                    entity_id = entity_id_for uuid5 (id_source_id doc) arn;
                    meta = dict_set (entity_metadata doc ref_meta body) ''arn'' (JStr arn)
                in ([\<lparr>xe_id = entity_id, xe_entity_type = AWS_LIVE_KIND, xe_name = arn,
                      xe_display_name = (if name \<noteq> [] then name else arn), xe_symbol = id_uri doc, xe_metadata = meta\<rparr>],
                    owner_asserted_edges entity_id arn resource_type meta))"

datatype graph_route = Route_code | Route_aws_live

definition AWS_SOURCE_TYPE :: string where "AWS_SOURCE_TYPE = ''aws''"

definition route_document :: "string \<Rightarrow> metadata \<Rightarrow> graph_route" where
  "route_document source_type meta =
     (if supports meta then Route_aws_live
      else if source_type = AWS_SOURCE_TYPE \<and> starts ''aws_'' (str_field meta ''resource_type'') then Route_aws_live
      else Route_code)"

section \<open>The entity of a document\<close>

lemma add_tags_get: "map_of (add_tags m v) k =
    (case v of JObj (t # ts) \<Rightarrow> if k = ''tags'' then Some v else map_of m k | _ \<Rightarrow> map_of m k)"
  by (simp add: add_tags_def split: json.split list.split)

text \<open>The connector's metadata wins over what was collected before it.\<close>

lemma ref_fields_get:
  assumes "dict_wf ref" and "k \<noteq> ''tags''"
  shows "map_of (foldl add_ref_field m ref) k =
    (case map_of ref k of None \<Rightarrow> map_of m k | Some v \<Rightarrow> if v = JStr [] \<or> v = JNull then map_of m k else Some v)"
  using assms(1)
proof (induction ref arbitrary: m)
  case (Cons p ref)
  obtain a v where p: "p = (a, v)" by force
  have new: "a \<notin> fst ` set ref" and wf: "dict_wf ref" using Cons.prems by (auto simp: dict_wf_def p)
  have "map_of ref a = None" using new by (simp add: map_of_eq_None_iff)
  moreover have "map_of (add_ref_field m (a, v)) k = (if a = k \<and> v \<noteq> JStr [] \<and> v \<noteq> JNull then Some v else map_of m k)"
    using assms(2) by (auto simp: add_ref_field_def add_tags_get split: json.split list.split)
  ultimately show ?case
    using Cons.IH [OF wf] by (cases "a = k") (simp_all add: p cong: option.case_cong if_cong)
qed simp

lemma ref_fields_keys: "dict_has (foldl add_ref_field m ref) k \<Longrightarrow> dict_has m k \<or> dict_has ref k"
proof (induction ref arbitrary: m)
  case (Cons p ref)
  have "dict_has (add_ref_field m p) k \<Longrightarrow> dict_has m k \<or> k = fst p"
    by (auto simp: add_ref_field_def add_tags_def split: prod.splits json.splits list.splits if_splits)
  then show ?case using Cons.IH Cons.prems by (auto simp: dict_has_def)
qed simp

lemma body_fields_keys:
  "dict_has (foldl add_body_field m body) k \<Longrightarrow> dict_has m k \<or> k \<in> set BODY_SCALAR_FIELDS"
proof (induction body arbitrary: m)
  case (Cons p body)
  have "dict_has (add_body_field m p) k \<Longrightarrow> dict_has m k \<or> k \<in> set BODY_SCALAR_FIELDS"
    by (auto simp: add_body_field_def split: prod.splits if_splits)
  then show ?case using Cons.IH Cons.prems by auto
qed simp

definition PROVENANCE_KEYS :: "string list" where
  "PROVENANCE_KEYS = [''source_uri'', ''source_external_id'', ''source_id'', ''extractor'']"

lemma entity_metadata_get:
  assumes "dict_wf ref" and "k \<notin> set (''tags'' # PROVENANCE_KEYS)" and "map_of ref k = Some v" and "v \<noteq> JStr []" and "v \<noteq> JNull"
  shows "map_of (entity_metadata doc ref body) k = Some v"
  using assms by (simp add: entity_metadata_def add_provenance_def PROVENANCE_KEYS_def Let_def ref_fields_get)

lemma entity_metadata_keys:
  assumes "dict_has (entity_metadata doc ref body) k"
  shows "dict_has ref k \<or> k \<in> set (''tags'' # PROVENANCE_KEYS @ BODY_SCALAR_FIELDS)"
proof -
  let ?b = "foldl add_body_field [] body"
  let ?m = "case dict_get body ''tags'' of None \<Rightarrow> ?b | Some v \<Rightarrow> add_tags ?b v"
  have "k \<in> set PROVENANCE_KEYS \<or> dict_has (foldl add_ref_field ?m ref) k"
    using assms by (auto simp: entity_metadata_def add_provenance_def PROVENANCE_KEYS_def Let_def)
  moreover have "dict_has ?m k \<Longrightarrow> k = ''tags'' \<or> dict_has ?b k"
    by (auto simp: add_tags_def split: option.splits json.splits list.splits)
  ultimately show ?thesis using ref_fields_keys [of ?m ref k] body_fields_keys [of "[]" body k] by auto
qed

definition asserted_edge :: "uuid \<Rightarrow> string \<Rightarrow> graph_edge_spec \<Rightarrow> bool" where
  "asserted_edge i arn x \<longleftrightarrow> xd_source_entity_id x = i \<and> xd_edge_type x = DEPENDS_ON_EDGE
     \<and> xd_target_name x \<noteq> [] \<and> xd_target_name x \<noteq> arn"

definition asserted_candidate :: "uuid \<Rightarrow> string \<Rightarrow> graph_edge_spec option \<Rightarrow> bool" where
  "asserted_candidate i arn e \<longleftrightarrow> e = None \<or> asserted_edge i arn (the e)"

lemma candidate_rules:
  "asserted_candidate i arn (reference_edge i arn t r)"
  "list_all P xs \<Longrightarrow> list_all P (if b then xs else [])"
  "list_all P xs \<Longrightarrow> list_all P ys \<Longrightarrow> list_all P (xs @ ys)"
  "P x \<Longrightarrow> list_all P [x]"
  "list_all (asserted_candidate i arn) cs \<Longrightarrow> list_all (asserted_edge i arn) (map the (filter (\<lambda>e. e \<noteq> None) cs))"
  by (auto simp: asserted_candidate_def asserted_edge_def reference_edge_def list_all_iff)

lemma asserted_edges_wf: "list_all (asserted_edge i arn) (owner_asserted_edges i arn ty meta)"
  unfolding owner_asserted_edges_def Let_def by (intro candidate_rules)

text \<open>
  The entity of an inventory document. At most one entity is extracted; its identifier
  depends on the source and the ARN only; the ARN, the source fields and the extractor stamp of its
  metadata are the document's own, whatever the payload says; every other non-empty field the
  connector reported is kept as it is, and beyond these only allow-listed scalars and the tags of
  the body get in. Every edge starts at the entity and names another resource.
\<close>

theorem aws_entity_is_authentic:
  assumes "dict_wf (id_metadata doc)" and "extract_aws_live_graph uuid5 utf8 doc = (entity # others, edges)"
  shows "others = [] \<and> xe_id entity = uuid5 (uuid_str (id_source_id doc) @ ''|'' @ xe_name entity) \<and> xe_name entity \<noteq> []
    \<and> dict_get (xe_metadata entity) ''arn'' = Some (JStr (xe_name entity))
    \<and> dict_get (xe_metadata entity) ''source_id'' = Some (JStr (uuid_str (id_source_id doc)))
    \<and> dict_get (xe_metadata entity) ''source_uri'' = Some (JStr (id_uri doc))
    \<and> dict_get (xe_metadata entity) ''source_external_id'' = Some (JStr (id_external_id doc))
    \<and> dict_get (xe_metadata entity) ''extractor'' = Some (JStr EXTRACTOR_VERSION)
    \<and> (\<forall>k v. dict_get (id_metadata doc) k = Some v \<longrightarrow> v \<noteq> JStr [] \<longrightarrow> v \<noteq> JNull
          \<longrightarrow> k \<notin> set (''arn'' # ''tags'' # PROVENANCE_KEYS) \<longrightarrow> dict_get (xe_metadata entity) k = Some v)
    \<and> (\<forall>k. dict_has (xe_metadata entity) k
          \<longrightarrow> dict_has (id_metadata doc) k \<or> k \<in> set (''arn'' # ''tags'' # PROVENANCE_KEYS @ BODY_SCALAR_FIELDS))
    \<and> list_all (\<lambda>x. xd_source_entity_id x = xe_id entity \<and> xd_edge_type x = DEPENDS_ON_EDGE
          \<and> xd_target_name x \<noteq> [] \<and> xd_target_name x \<noteq> xe_name entity) edges"
proof -
  define body where "body = decode_body utf8 (id_content_bytes doc)"
  define arn where "arn = document_arn (id_metadata doc) body"
  define meta where "meta = dict_set (entity_metadata doc (id_metadata doc) body) ''arn'' (JStr arn)"
  have e: "others = []" "arn \<noteq> []" "xe_id entity = entity_id_for uuid5 (id_source_id doc) arn" "xe_name entity = arn" "xe_metadata entity = meta"
    "edges = owner_asserted_edges (xe_id entity) arn (str_field (id_metadata doc) ''resource_type'') meta"
    using assms(2) by (auto simp: extract_aws_live_graph_def Let_def body_def [symmetric] arn_def [symmetric] meta_def [symmetric] split: if_splits)
  have prov: "dict_get meta ''source_id'' = Some (JStr (uuid_str (id_source_id doc)))"
    "dict_get meta ''source_uri'' = Some (JStr (id_uri doc))"
    "dict_get meta ''source_external_id'' = Some (JStr (id_external_id doc))"
    "dict_get meta ''extractor'' = Some (JStr EXTRACTOR_VERSION)" "dict_get meta ''arn'' = Some (JStr arn)"
    by (simp_all add: meta_def entity_metadata_def add_provenance_def Let_def)
  have keep: "dict_get meta k = Some v"
    if "dict_get (id_metadata doc) k = Some v" "v \<noteq> JStr []" "v \<noteq> JNull" "k \<notin> set (''arn'' # ''tags'' # PROVENANCE_KEYS)" for k v
    using entity_metadata_get [OF assms(1) _ that(1-3), of doc body] that(4) by (simp add: meta_def)
  have keys: "dict_has (id_metadata doc) k \<or> k \<in> set (''arn'' # ''tags'' # PROVENANCE_KEYS @ BODY_SCALAR_FIELDS)"
    if "dict_has meta k" for k
    using that entity_metadata_keys [of doc "id_metadata doc" body k] by (auto simp: meta_def)
  have edges: "list_all (\<lambda>x. xd_source_entity_id x = xe_id entity \<and> xd_edge_type x = DEPENDS_ON_EDGE
      \<and> xd_target_name x \<noteq> [] \<and> xd_target_name x \<noteq> arn) edges"
    using asserted_edges_wf [of "xe_id entity" arn _ meta] unfolding e(6) asserted_edge_def [abs_def] .
  show ?thesis
    unfolding e(4,5) entity_id_for_def [symmetric] using e(1-3) prov keep keys edges by blast
qed

definition demo_bucket :: infra_document where
  "demo_bucket = \<lparr>id_source_id = 9, id_external_id = ''b'', id_uri = ''aws://b'',
     id_metadata = [(''kind'', JStr ''aws_live''), (''arn'', JStr ''arn:aws:s3:::b''), (''source_id'', JStr ''forged''),
                    (''account_id'', JStr ''42''), (''region'', JStr [])],
     id_content_bytes = []\<rparr>"

theorem aws_entity_is_authentic_witness:
  "map (\<lambda>e. dict_get (xe_metadata e) ''source_id'') (fst (extract_aws_live_graph (\<lambda>_. 7) (\<lambda>t. t) demo_bucket))
   = [Some (JStr (uuid_str 9))]"
proof -
  have wf: "dict_wf (id_metadata demo_bucket)" by (simp add: demo_bucket_def dict_wf_def)
  obtain e es edges where x: "extract_aws_live_graph (\<lambda>_. 7) (\<lambda>t. t) demo_bucket = (e # es, edges)"
    by (simp add: extract_aws_live_graph_def demo_bucket_def supports_def dict_getd_def py_str_def AWS_LIVE_KIND_def
        document_arn_def truthy_field_def json_truthy_def Let_def)
  have "es = []" "dict_get (xe_metadata e) ''source_id'' = Some (JStr (uuid_str (id_source_id demo_bucket)))"
    using aws_entity_is_authentic [OF wf x] by blast+
  then show ?thesis unfolding x by (simp add: demo_bucket_def)
qed

section \<open>The fallback route\<close>

text \<open>
  A document of an AWS source without the connector's kind stamp is sent to the inventory
  extractor because of its resource type; the extractor tests the stamp again and finds nothing.
\<close>

lemma fallback_route_extracts_nothing:
  assumes "\<not> supports (id_metadata doc)"
  shows "extract_aws_live_graph uuid5 utf8 doc = ([], [])"
  using assms by (simp add: extract_aws_live_graph_def Let_def)

end
