(* ===== verification/Pipeline.thy ===== *)
theory Pipeline
  imports IndexWriter AwsLive
begin

text \<open>
  The per-document ingestion pipeline
  (\<^verbatim>\<open>apps/server/src/omniscience_server/ingestion/pipeline.py\<close>): fetch, hash, parse, chunk, embed, the
  write of rows and vectors, the graph and the links. A stage that fails raises; \<open>run_ref\<close> turns the
  exception into an error result, with every write made before it kept. Logs and metrics are left out.

  The connector, the embedding provider, the syntax-tree parser with its extractor and the linker are
  fields of the environment; so is the text of a byte string, which may have characters outside the
  strings of this development, and the hash.
\<close>

section \<open>Documents and results\<close>

record document_ref =
  rf_external_id :: string
  rf_uri :: string
  rf_updated_at :: "int option"
  rf_metadata :: metadata

record fetched_document =
  fd_ref :: document_ref
  fd_content_bytes :: string
  fd_content_type :: string

record process_result =
  pr_source_id :: uuid
  pr_external_id :: string
  pr_action :: string
  pr_duration_ms :: rat
  pr_error :: "string option"

definition PARSER_VERSION :: string where "PARSER_VERSION = ''placeholder-v0''"
definition CHUNKER_STRATEGY :: string where "CHUNKER_STRATEGY = ''full-content-v0''"

definition bare_ref :: "string \<Rightarrow> string \<Rightarrow> document_ref" where
  "bare_ref external_id uri = \<lparr>rf_external_id = external_id, rf_uri = uri, rf_updated_at = None, rf_metadata = []\<rparr>"

type_synonym secrets = "(string, string) dict"
type_synonym symbol_graph = "graph_entity list \<times> graph_edge_spec list"

record ('q, 'g, 'c, 'p) penv =
  pv_fetch :: "'c \<Rightarrow> secrets \<Rightarrow> document_ref \<Rightarrow> fetched_document res"
  pv_decode :: "string \<Rightarrow> string"
  pv_sha256 :: "codepoints \<Rightarrow> string"
  pv_embed :: "string list \<Rightarrow> rat list list res"
  pv_model_name :: string
  pv_provider_name :: string
  pv_chunk_id :: "nat \<Rightarrow> uuid"
  pv_can_handle :: "string \<Rightarrow> bool"
  pv_parse :: "string \<Rightarrow> string \<Rightarrow> 'p res"
  pv_extractor :: "('p \<Rightarrow> string \<Rightarrow> symbol_graph res) option"
  pv_uuid5 :: "string \<Rightarrow> uuid"
  pv_linker :: "(uuid \<Rightarrow> uuid \<Rightarrow> 'g \<Rightarrow> int res \<times> 'g) option"
  pv_writer :: "('q, 'g) wenv"
  pv_exn_str :: "py_exn \<Rightarrow> string"
  pv_elapsed_ms :: rat

section \<open>Stages\<close>

definition pipeline_content_hash :: "('q, 'g, 'c, 'p) penv \<Rightarrow> string \<Rightarrow> string" where
  "pipeline_content_hash env text = compute_content_hash (pv_sha256 env) (map of_char text)"

definition stage_fetch :: "('q, 'g, 'c, 'p) penv \<Rightarrow> document_ref \<Rightarrow> 'c \<Rightarrow> secrets \<Rightarrow> (('q, 'g) stores, fetched_document) prog" where
  "stage_fetch env ref config secrets = res_p (pv_fetch env config secrets ref)"

text \<open>The hash is computed for the log; the comparison is left to the writer.\<close>

definition stage_hash_check :: "('q, 'g, 'c, 'p) penv \<Rightarrow> string \<Rightarrow> (('q, 'g) stores, bool) prog" where
  "stage_hash_check env content_text = (let _ = pipeline_content_hash env content_text in ret_p False)"

definition stage_parse :: "string \<Rightarrow> (('q, 'g) stores, string) prog" where
  "stage_parse content_text = ret_p content_text"

definition stage_chunk :: "string \<Rightarrow> (('q, 'g) stores, string list) prog" where
  "stage_chunk parsed_text = ret_p [parsed_text]"

definition stage_embed :: "('q, 'g, 'c, 'p) penv \<Rightarrow> string list \<Rightarrow> (('q, 'g) stores, rat list list) prog" where
  "stage_embed env chunks_text = res_p (pv_embed env chunks_text)"

definition raw_chunk :: "('q, 'g, 'c, 'p) penv \<Rightarrow> nat \<Rightarrow> string \<Rightarrow> rat list \<Rightarrow> chunk_data" where
  "raw_chunk env i text embedding =
     \<lparr>cd_ord = int i, cd_text = text, cd_id = pv_chunk_id env i, cd_embedding = embedding, cd_symbol = None, cd_metadata = [],
      cd_embedding_model = pv_model_name env, cd_embedding_provider = pv_provider_name env,
      cd_parser_version = PARSER_VERSION, cd_chunker_strategy = CHUNKER_STRATEGY\<rparr>"

definition build_chunks :: "('q, 'g, 'c, 'p) penv \<Rightarrow> string list \<Rightarrow> rat list list \<Rightarrow> chunk_data list res" where
  "build_chunks env chunks_text embeddings =
     (if length chunks_text \<noteq> length embeddings
      then Inl (ValueError (''chunk_embedding_mismatch: '' @ digits10 (length chunks_text) @ '' chunks vs ''
             @ digits10 (length embeddings) @ '' embeddings''))
      else Inr (map (\<lambda>(i, t, e). raw_chunk env i t e) (enumerate 0 (zip chunks_text embeddings))))"

definition action_name :: "upsert_action \<Rightarrow> string" where
  "action_name a = (case a of ActCreated \<Rightarrow> ''created'' | ActUpdated \<Rightarrow> ''updated'' | ActUnchanged \<Rightarrow> ''unchanged'')"

definition index_args ::
  "('q, 'g, 'c, 'p) penv \<Rightarrow> document_change_event \<Rightarrow> document_ref \<Rightarrow> fetched_document \<Rightarrow> string \<Rightarrow> chunk_data list
   \<Rightarrow> uuid \<Rightarrow> uuid option \<Rightarrow> doc_args" where
  "index_args env event ref fetched content_text chunks ws run_id =
     \<lparr>da_source_id = dc_source_id event, da_external_id = rf_external_id ref, da_uri = rf_uri ref, da_title = None,
      da_content_hash = pipeline_content_hash env content_text, da_metadata = rf_metadata (fd_ref fetched), da_chunks = chunks,
      da_workspace_id = Some ws, da_run_id = run_id, da_epoch = None, da_forced_replay = False\<rparr>"

definition stage_index ::
  "('q, 'g, 'c, 'p) penv \<Rightarrow> document_change_event \<Rightarrow> document_ref \<Rightarrow> fetched_document \<Rightarrow> string \<Rightarrow> chunk_data list
   \<Rightarrow> uuid \<Rightarrow> uuid option \<Rightarrow> (('q, 'g) stores, string \<times> uuid \<times> int) prog" where
  "stage_index env event ref fetched content_text chunks ws run_id =
     bind_p (upsert_document (pv_writer env) (index_args env event ref fetched content_text chunks ws run_id)) (\<lambda>result.
       ret_p (action_name (ur_action result), ur_document_id result, ur_doc_version result))"

text \<open>\<^verbatim>\<open>"." + external_id.rsplit(".", 1)[-1] if "." in external_id else ""\<close>.\<close>

definition file_extension :: "string \<Rightarrow> string" where
  "file_extension external_id =
     (if CHR ''.'' \<in> set external_id then CHR ''.'' # rev (takeWhile (\<lambda>c. c \<noteq> CHR ''.'') (rev external_id)) else [])"

definition extract_code_graph ::
  "('q, 'g, 'c, 'p) penv \<Rightarrow> ('p \<Rightarrow> string \<Rightarrow> symbol_graph res) \<Rightarrow> document_ref \<Rightarrow> string \<Rightarrow> symbol_graph option res" where
  "extract_code_graph env extractor ref content_bytes =
     (if \<not> pv_can_handle env (file_extension (rf_external_id ref)) then Inr None
      else bind_res (pv_parse env content_bytes (rf_external_id ref)) (\<lambda>parsed.
           bind_res (extractor parsed content_bytes) (\<lambda>g. Inr (Some g))))"

definition extract_infra_graph ::
  "('q, 'g, 'c, 'p) penv \<Rightarrow> document_change_event \<Rightarrow> document_ref \<Rightarrow> string \<Rightarrow> symbol_graph option res" where
  "extract_infra_graph env event ref content_bytes =
     Inr (Some (extract_aws_live_graph (pv_uuid5 env) (pv_decode env)
       \<lparr>id_source_id = dc_source_id event, id_external_id = rf_external_id ref, id_uri = rf_uri ref,
        id_metadata = rf_metadata ref, id_content_bytes = content_bytes\<rparr>))"

definition extract_graph ::
  "('q, 'g, 'c, 'p) penv \<Rightarrow> ('p \<Rightarrow> string \<Rightarrow> symbol_graph res) \<Rightarrow> document_change_event \<Rightarrow> document_ref \<Rightarrow> string
   \<Rightarrow> symbol_graph option" where
  "extract_graph env extractor event ref content_bytes =
     (case (if route_document (dc_source_type event) (rf_metadata ref) = Route_aws_live
            then extract_infra_graph env event ref content_bytes
            else extract_code_graph env extractor ref content_bytes) of
        Inl _ \<Rightarrow> None
      | Inr None \<Rightarrow> None
      | Inr (Some (entities, edges)) \<Rightarrow> if entities = [] \<and> edges = [] then None else Some (entities, edges))"

definition stage_graph ::
  "('q, 'g, 'c, 'p) penv \<Rightarrow> document_change_event \<Rightarrow> document_ref \<Rightarrow> string \<Rightarrow> uuid \<Rightarrow> uuid \<Rightarrow> int
   \<Rightarrow> (('q, 'g) stores, unit) prog" where
  "stage_graph env event ref content_bytes document_id ws doc_version =
     (case pv_extractor env of
        None \<Rightarrow> ret_p ()
      | Some extractor \<Rightarrow>
          (case extract_graph env extractor event ref content_bytes of
             None \<Rightarrow> ret_p ()
           | Some (entities, edges) \<Rightarrow>
               bind_p (writer_upsert_graph (pv_writer env) (dc_source_id event) document_id entities edges (Some ws)
                         None (Some doc_version) None False) (\<lambda>_. ret_p ())))"

definition stage_link ::
  "('q, 'g, 'c, 'p) penv \<Rightarrow> document_change_event \<Rightarrow> uuid \<Rightarrow> (('q, 'g) stores, unit) prog" where
  "stage_link env event ws =
     (case pv_linker env of
        None \<Rightarrow> ret_p ()
      | Some link \<Rightarrow> (\<lambda>s.
          let (_, g) = link (dc_source_id event) ws (st_graph s) in Some (Inr (), s\<lparr>st_graph := g\<rparr>)))"

section \<open>Orchestration\<close>

definition result_of :: "document_change_event \<Rightarrow> string \<Rightarrow> string \<Rightarrow> rat \<Rightarrow> string option \<Rightarrow> process_result" where
  "result_of event external_id action ms error =
     \<lparr>pr_source_id = dc_source_id event, pr_external_id = external_id, pr_action = action, pr_duration_ms = ms, pr_error = error\<rparr>"

definition handle_delete ::
  "('q, 'g, 'c, 'p) penv \<Rightarrow> document_change_event \<Rightarrow> uuid \<Rightarrow> (('q, 'g) stores, process_result) prog" where
  "handle_delete env event ws =
     bind_p (writer_tombstone (pv_writer env) (dc_source_id event) (dc_external_id event) (Some ws)) (\<lambda>found.
       ret_p (result_of event (dc_external_id event) (if found then ''deleted'' else ''unchanged'') (pv_elapsed_ms env) None))"

definition execute_ref ::
  "('q, 'g, 'c, 'p) penv \<Rightarrow> document_change_event \<Rightarrow> document_ref \<Rightarrow> 'c \<Rightarrow> secrets \<Rightarrow> uuid \<Rightarrow> uuid option
   \<Rightarrow> (('q, 'g) stores, process_result) prog" where
  "execute_ref env event ref config secrets ws run_id =
     (if dc_action event = Deleted then handle_delete env event ws
      else
        bind_p (stage_fetch env ref config secrets) (\<lambda>fetched.
        let content_text = pv_decode env (fd_content_bytes fetched) in
        bind_p (stage_hash_check env content_text) (\<lambda>unchanged.
        if unchanged then ret_p (result_of event (rf_external_id ref) ''unchanged'' 0 None)
        else
          bind_p (stage_parse content_text) (\<lambda>parsed_text.
          bind_p (stage_chunk parsed_text) (\<lambda>chunks_text.
          bind_p (stage_embed env chunks_text) (\<lambda>embeddings.
          bind_p (res_p (build_chunks env chunks_text embeddings)) (\<lambda>chunks.
          bind_p (stage_index env event ref fetched content_text chunks ws run_id) (\<lambda>(action, document_id, doc_version).
          then_p (stage_graph env event ref (fd_content_bytes fetched) document_id ws doc_version)
          (then_p (stage_link env event ws)
            (ret_p (result_of event (rf_external_id ref) action 0 None))))))))))) "

definition run_ref ::
  "('q, 'g, 'c, 'p) penv \<Rightarrow> document_change_event \<Rightarrow> document_ref \<Rightarrow> 'c \<Rightarrow> secrets \<Rightarrow> uuid \<Rightarrow> uuid option
   \<Rightarrow> (('q, 'g) stores, process_result) prog" where
  "run_ref env event ref config secrets ws run_id =
     try_p
       (bind_p (execute_ref env event ref config secrets ws run_id) (\<lambda>result. ret_p (result\<lparr>pr_duration_ms := pv_elapsed_ms env\<rparr>)))
       (\<lambda>exc. ret_p (result_of event (rf_external_id ref) ''error'' (pv_elapsed_ms env) (Some (pv_exn_str env exc))))"

definition pipeline_run ::
  "('q, 'g, 'c, 'p) penv \<Rightarrow> document_change_event \<Rightarrow> 'c \<Rightarrow> secrets \<Rightarrow> uuid \<Rightarrow> uuid option
   \<Rightarrow> (('q, 'g) stores, process_result) prog" where
  "pipeline_run env event config secrets ws run_id =
     run_ref env event (bare_ref (dc_external_id event) (dc_uri event)) config secrets ws run_id"

section \<open>What a run of the pipeline does\<close>

lemma run_ref_returns:
  assumes "run_ref env event ref config secrets ws run_id s = Some (r, s')"
  obtains p where "r = Inr p"
  using assms
  by (auto simp: run_ref_def try_p_def bind_p_def ret_p_def split: option.splits sum.splits prod.splits)

lemma stage_graph_frame:
  assumes "stage_graph env event ref content document_id ws v s = Some (r, s')"
  shows "\<exists>g. s' = s\<lparr>st_graph := g\<rparr>"
  using assms
  by (auto simp: stage_graph_def writer_upsert_graph_def bind_p_def ret_p_def Let_def
      split: option.splits sum.splits prod.splits intro: exI [of _ "st_graph s"])

lemma stage_link_frame:
  assumes "stage_link env event ws s = Some (r, s')"
  shows "r = Inr () \<and> (\<exists>g. s' = s\<lparr>st_graph := g\<rparr>)"
  using assms by (auto simp: stage_link_def ret_p_def Let_def split: option.splits prod.splits intro: exI [of _ "st_graph s"])

lemma bind_p_eq:
  "bind_p m f s = Some (r, s') \<longleftrightarrow>
     (\<exists>e. m s = Some (Inl e, s') \<and> r = Inl e) \<or> (\<exists>x s1. m s = Some (Inr x, s1) \<and> f x s1 = Some (r, s'))"
  by (auto simp: bind_p_def split: option.splits sum.splits prod.splits)

lemma execute_ref_document:
  assumes "execute_ref env event ref config secrets ws run_id s = Some (Inr p, s')" and "dc_action event \<noteq> Deleted"
  obtains fetched chunks u s1 g where "pv_fetch env config secrets ref = Inr fetched"
    and "upsert_document (pv_writer env) (index_args env event ref fetched (pv_decode env (fd_content_bytes fetched)) chunks ws run_id) s
      = Some (Inr u, s1)"
    and "s' = s1\<lparr>st_graph := g\<rparr>"
    and "p = result_of event (rf_external_id ref) (action_name (ur_action u)) 0 None"
proof -
  have "\<exists>fetched chunks u s1 s2 q.
      pv_fetch env config secrets ref = Inr fetched
    \<and> upsert_document (pv_writer env) (index_args env event ref fetched (pv_decode env (fd_content_bytes fetched)) chunks ws run_id) s
      = Some (Inr u, s1)
    \<and> stage_graph env event ref (fd_content_bytes fetched) (ur_document_id u) ws (ur_doc_version u) s1 = Some (Inr (), s2)
    \<and> stage_link env event ws s2 = Some (q, s') \<and> p = result_of event (rf_external_id ref) (action_name (ur_action u)) 0 None"
    using assms
    by (auto simp: execute_ref_def stage_fetch_def stage_hash_check_def stage_parse_def stage_chunk_def stage_embed_def
        stage_index_def then_p_def bind_p_eq res_p_def ret_p_def Let_def split: prod.splits) blast
  then obtain fetched chunks u s1 s2 q where
    r: "pv_fetch env config secrets ref = Inr fetched"
      "upsert_document (pv_writer env) (index_args env event ref fetched (pv_decode env (fd_content_bytes fetched)) chunks ws run_id) s
        = Some (Inr u, s1)"
      "p = result_of event (rf_external_id ref) (action_name (ur_action u)) 0 None"
    and g: "stage_graph env event ref (fd_content_bytes fetched) (ur_document_id u) ws (ur_doc_version u) s1 = Some (Inr (), s2)"
    and l: "stage_link env event ws s2 = Some (q, s')"
    by blast
  obtain g1 where g1: "s2 = s1\<lparr>st_graph := g1\<rparr>" using stage_graph_frame [OF g] by blast
  obtain g2 where "s' = s2\<lparr>st_graph := g2\<rparr>" using stage_link_frame [OF l] by blast
  then show thesis using that [OF r(1,2) _ r(3)] g1 by simp
qed

lemma run_ref_ok:
  assumes "run_ref env event ref config secrets ws run_id s = Some (Inr p, s')" and "pr_action p \<noteq> ''error''"
  shows "\<exists>p1. execute_ref env event ref config secrets ws run_id s = Some (Inr p1, s')
    \<and> p = p1\<lparr>pr_duration_ms := pv_elapsed_ms env\<rparr>"
proof (cases "execute_ref env event ref config secrets ws run_id s")
  case None
  then show ?thesis using assms(1) by (simp add: run_ref_def try_p_def bind_p_def)
next
  case (Some q)
  then show ?thesis
    using assms by (cases q; cases "fst q") (auto simp: run_ref_def try_p_def bind_p_def ret_p_def result_of_def)
qed

text \<open>An upsert that returned has left the document's row with the new content hash.\<close>

lemma upsert_document_found:
  assumes "rows_ok s" and "upsert_document env a s = Some (Inr u, s')"
  shows "\<exists>doc. find_document_row (da_source_id a) (da_external_id a) (st_documents s') = Inr (Some doc)
    \<and> dx_content_hash doc = da_content_hash a \<and> ur_document_id u = dx_id doc \<and> ur_doc_version u = dx_doc_version doc
    \<and> (ur_action u = ActUnchanged \<or> dx_tombstoned_at doc = None \<and> chunks_of (dx_id doc) s' = rows_of env a (dx_id doc))"
proof -
  obtain act doc s1 where t: "pg_txn env (write_rows env a) s = Some (Inr (act, doc), s1)"
    using assms(2) unfolding upsert_document_def bind_p_Inr by auto
  then have w: "write_rows env a s = Inr ((act, doc), s1)" by (rule pg_txn_cases) auto
  obtain existing where f: "find_document_row (da_source_id a) (da_external_id a) (st_documents s) = Inr existing"
    using find_row_ok assms(1) unfolding rows_ok_def by blast
  note e = write_rows_effect [OF assms(1) w f]
  obtain q where q: "vector_write env a (dx_doc_version doc) s1 = Some (q, s')"
    and u: "ur_action u = act" "ur_document_id u = dx_id doc" "ur_doc_version u = dx_doc_version doc"
  proof -
    from upsert_document_split [OF assms(2) t] obtain q where
      q: "vector_write env a (dx_doc_version doc) s1 = Some (q, s')" "case q of Inl e \<Rightarrow> (Inr u :: upsert_result res) = Inl e
       | Inr _ \<Rightarrow> (Inr u :: upsert_result res) = Inr \<lparr>ur_action = act, ur_document_id = dx_id doc,
           ur_chunks_written = (if act \<noteq> ActUnchanged then length (da_chunks a) else 0), ur_doc_version = dx_doc_version doc\<rparr>"
      by blast
    then show thesis using that by (cases q) auto
  qed
  note v = vector_write_rows [OF q]
  have "distinct (map row_key (st_documents s1))" using write_rows_ok [OF assms(1) w] by (simp add: rows_ok_def)
  then have "find_document_row (da_source_id a) (da_external_id a) (st_documents s') = Inr (Some doc)"
    using find_row_unique [of "st_documents s1" doc] e v(2) by (simp add: row_key_def)
  moreover have "dx_content_hash doc = da_content_hash a" using e by (rule conjunct1 [OF conjunct2 [OF conjunct2]])
  moreover have "chunks_of (dx_id doc) s' = chunks_of (dx_id doc) s1" by (simp add: chunks_of_def v(3))
  ultimately show ?thesis using e u by (intro exI [of _ doc]) auto
qed

lemma tombstone_found:
  assumes "rows_ok s" and "writer_tombstone env src ext w s = Some (Inr found, s')"
  shows "if found then \<exists>doc. find_document_row src ext (st_documents s') = Inr (Some doc) \<and> dx_tombstoned_at doc = Some (we_now env)
    else find_document_row src ext (st_documents s') = Inr None"
proof (cases "find_document_row src ext (st_documents s) = Inr None")
  case True
  then show ?thesis using assms(2) by (auto simp: writer_tombstone_def split: if_splits)
next
  case False
  obtain d where d: "find_document_row src ext (st_documents s) = Inr (Some d)"
    using find_row_ok [of "st_documents s" src ext] False assms(1) by (auto simp: rows_ok_def not_None_eq)
  define e where "e = d\<lparr>dx_tombstoned_at := Some (we_now env)\<rparr>"
  let ?v = "case (we_engine env, w) of (Some en, Some ws) \<Rightarrow>
      bind_p (on_vectors (delete_by_document en (we_qenv env) src ext (Some ws))) (\<lambda>_. ret_p ()) s | _ \<Rightarrow> Some (Inr (), s)"
  obtain s1 where v: "?v = Some (Inr (), s1)" and s': "found" "s' = replace_document e s1"
    using assms(2) d by (auto simp: writer_tombstone_def e_def split: if_splits option.splits sum.splits)
  have docs: "st_documents s1 = st_documents s"
    using v by (auto simp: bind_p_eq on_vectors_def ret_p_def split: option.splits)
  have "rows_ok s'" by (rule keeps_pD [OF tombstone_rows_ok assms])
  moreover have "e \<in> set (st_documents s')"
    using find_row_Some [OF d] unfolding s'(2) by (simp add: replace_document_def docs) (rule rev_image_eqI, auto simp: e_def)
  ultimately have "find_document_row (dx_source_id e) (dx_external_id e) (st_documents s') = Inr (Some e)"
    by (intro find_row_unique) (simp_all add: rows_ok_def)
  then show ?thesis using s'(1) find_row_Some [OF d] by (auto simp: e_def)
qed

text \<open>The pipeline keeps the tables consistent, whatever fails.\<close>

lemma stage_graph_rows_ok: "keeps_p rows_ok (stage_graph env event ref content d ws v)"
  by (rule keeps_pI) (auto dest!: stage_graph_frame)

lemma stage_link_rows_ok: "keeps_p rows_ok (stage_link env event ws)"
  by (rule keeps_pI) (auto dest!: stage_link_frame)

lemma run_ref_rows_ok: "keeps_p rows_ok (run_ref env event ref config secrets ws run_id)"
  unfolding run_ref_def execute_ref_def handle_delete_def stage_fetch_def stage_hash_check_def stage_parse_def stage_chunk_def
    stage_embed_def stage_index_def Let_def
  by (auto intro!: keeps_p_intros stage_graph_rows_ok stage_link_rows_ok upsert_document_rows_ok tombstone_rows_ok
      split: prod.split)

section \<open>Other workspaces\<close>

text \<open>
  The identifiers a run of the pipeline brings to the vector store are none of a foreign point: the
  fresh chunk ids, the fresh ids of the adapter and the checkpoint of the source.
\<close>

definition safe_ids :: "('q \<Rightarrow> qpoint list) \<Rightarrow> qpoint set \<Rightarrow> uuid \<Rightarrow> ('q, 'g, 'c, 'p) penv \<Rightarrow> bool" where
  "safe_ids pts others src env \<longleftrightarrow>
     (case we_engine (pv_writer env) of None \<Rightarrow> True | Some en \<Rightarrow> engine_ok en pts)
     \<and> qp_id ` others \<inter> (range (pv_chunk_id env) \<union> range (qe_fresh (we_qenv (pv_writer env)))
          \<union> {checkpoint_id (we_qenv (pv_writer env)) src}) = {}"

abbreviation others_kept :: "('q \<Rightarrow> qpoint list) \<Rightarrow> uuid \<Rightarrow> qpoint set \<Rightarrow> ('q, 'g) stores \<Rightarrow> bool" where
  "others_kept pts ws others s \<equiv> foreign ws (pts (st_vectors s)) = others"

lemma keeps_p_bind_res: "(\<And>x. r = Inr x \<Longrightarrow> keeps_p I (f x)) \<Longrightarrow> keeps_p I (bind_p (res_p r) f)"
  by (cases r) (simp_all add: keeps_p_leaf)

lemma build_chunks_ids:
  assumes "build_chunks env ts es = Inr chunks"
  shows "cd_id ` set chunks \<subseteq> range (pv_chunk_id env)"
proof -
  have "chunks = map (\<lambda>(i, t, e). raw_chunk env i t e) (enumerate 0 (zip ts es))"
    using assms by (simp add: build_chunks_def split: if_splits)
  then show ?thesis by (auto simp: raw_chunk_def)
qed

lemma extract_workspace_set: "extract_workspace_id (dict_set m ''workspace_id'' (JStr (uuid_str ws))) = Inr ws"
  by (simp add: extract_workspace_id_def)

lemma keeps_vectors:
  assumes "\<And>c r c'. foreign ws (pts c) = others \<Longrightarrow> m c = Some (r, c') \<Longrightarrow> foreign ws (pts c') = others"
  shows "keeps_p (others_kept pts ws others) (on_vectors m)"
  using assms by (auto simp: keeps_p_def on_vectors_def split: option.splits)

lemma upsert_document_others:
  assumes "safe_ids pts others (da_source_id a) env" and "cd_id ` set (da_chunks a) \<subseteq> range (pv_chunk_id env)"
    and "da_workspace_id a = Some ws"
  shows "keeps_p (others_kept pts ws others) (upsert_document (pv_writer env) a)"
proof -
  have vec: "keeps_p (others_kept pts ws others) (vector_write (pv_writer env) a v)" for v
  proof (cases "we_engine (pv_writer env)")
    case (Some en)
    let ?a = "vector_args a ws v" and ?q = "we_qenv (pv_writer env)"
    have ids: "call_ids ?q ?a \<subseteq> range (pv_chunk_id env) \<union> range (qe_fresh ?q) \<union> {checkpoint_id ?q (da_source_id a)}"
      using assms(2) by (auto simp: call_ids_def vector_args_def payload_of_chunk_def image_subset_iff)
    have ok: "engine_ok en pts" using assms(1) Some by (simp add: safe_ids_def)
    have "qp_id ` others \<inter> (range (pv_chunk_id env) \<union> range (qe_fresh ?q) \<union> {checkpoint_id ?q (da_source_id a)}) = {}"
      using assms(1) unfolding safe_ids_def by (rule conjunct2)
    then have disj: "qp_id ` others \<inter> call_ids ?q ?a = {}" using ids by blast
    have stored: "keeps_p (others_kept pts ws others) (on_vectors (upsert_chunks en ?q ?a))"
      by (rule keeps_vectors) (use upsert_foreign [OF ok] disj in \<open>simp add: vector_args_def extract_workspace_set\<close>)
    have eq: "vector_write (pv_writer env) a v = bind_p (on_vectors (upsert_chunks en ?q ?a)) (\<lambda>_. ret_p ())"
      using Some assms(3) by (simp add: vector_write_def)
    show ?thesis unfolding eq by (rule keeps_p_bind [OF stored keeps_p_leaf(1)])
  qed (simp add: vector_write_def keeps_p_leaf)
  have rows: "st_vectors s' = st_vectors s" if "write_rows (pv_writer env) a s = Inr ((act, doc), s')" for s act doc s'
    using that by (cases rule: write_rows_cases) (simp_all add: replace_document_def delete_chunks_def)
  have "keeps_p (others_kept pts ws others) (pg_txn (pv_writer env) (write_rows (pv_writer env) a))"
    by (rule keeps_pg_txn) (auto dest: rows)
  then show ?thesis unfolding upsert_document_def using vec by (auto intro!: keeps_p_bind keeps_p_then keeps_p_leaf split: prod.split)
qed

lemma tombstone_others:
  assumes "safe_ids pts others src env"
  shows "keeps_p (others_kept pts ws others) (writer_tombstone (pv_writer env) src' ext (Some ws))"
proof (rule keeps_pI)
  fix s r s' assume s: "others_kept pts ws others s" and t: "writer_tombstone (pv_writer env) src' ext (Some ws) s = Some (r, s')"
  have step: "others_kept pts ws others s1"
    if "we_engine (pv_writer env) = Some en" "on_vectors (delete_by_document en (we_qenv (pv_writer env)) src' ext (Some ws)) s = Some (q, s1)"
    for en q s1
  proof -
    have "keeps_p (others_kept pts ws others) (on_vectors (delete_by_document en (we_qenv (pv_writer env)) src' ext (Some ws)))"
      by (rule keeps_vectors) (use delete_by_document_foreign [of en pts] assms that(1) in \<open>auto simp: safe_ids_def\<close>)
    then show ?thesis using keeps_pD [of "others_kept pts ws others"] s that(2) by blast
  qed
  show "others_kept pts ws others s'"
    using t s step
    by (auto simp: writer_tombstone_def replace_document_def bind_p_def ret_p_def split: if_splits option.splits sum.splits prod.splits)
qed

lemma stage_graph_others: "keeps_p (others_kept pts ws others) (stage_graph env event ref content d ws' v)"
  by (rule keeps_pI) (auto dest!: stage_graph_frame)

lemma stage_link_others: "keeps_p (others_kept pts ws others) (stage_link env event ws')"
  by (rule keeps_pI) (auto dest!: stage_link_frame)

lemma run_ref_others:
  assumes "safe_ids pts others (dc_source_id event) env"
  shows "keeps_p (others_kept pts ws others) (run_ref env event ref config secrets ws run_id)"
proof -
  have index: "keeps_p (others_kept pts ws others) (stage_index env event ref fetched t chunks ws run_id)"
    if "build_chunks env ts es = Inr chunks" for fetched t chunks ts es
    unfolding stage_index_def
    by (intro keeps_p_bind keeps_p_leaf upsert_document_others) (use assms build_chunks_ids [OF that] in \<open>simp_all add: index_args_def\<close>)
  have "keeps_p (others_kept pts ws others) (execute_ref env event ref config secrets ws run_id)"
    unfolding execute_ref_def handle_delete_def stage_fetch_def stage_hash_check_def stage_parse_def stage_chunk_def stage_embed_def Let_def
    using tombstone_others [OF assms] stage_graph_others stage_link_others index
    by (auto intro!: keeps_p_bind_res keeps_p_bind keeps_p_then keeps_p_leaf split: prod.split)
  then show ?thesis unfolding run_ref_def by (auto intro!: keeps_p_try keeps_p_bind keeps_p_leaf)
qed

section \<open>The fallback route\<close>

text \<open>
  A document of an AWS source whose connector metadata lacks the kind stamp takes the inventory route
  because of its resource type, and the graph stage then writes nothing: the extractor asks for the
  stamp again.
\<close>

lemma fallback_route_writes_no_graph:
  assumes "dc_source_type event = AWS_SOURCE_TYPE" and "\<not> supports (rf_metadata ref)"
    and "starts ''aws_'' (str_field (rf_metadata ref) ''resource_type'')"
  shows "route_document (dc_source_type event) (rf_metadata ref) = Route_aws_live
    \<and> stage_graph env event ref content document_id ws v s = Some (Inr (), s)"
  using assms
  by (simp add: route_document_def stage_graph_def extract_graph_def extract_infra_graph_def fallback_route_extracts_nothing ret_p_def
      split: option.split)

end
