(* ===== verification/Secrets.thy ===== *)
theory Secrets
  imports Fingerprint Messages
begin

text \<open>
  Resolution of a source's secrets at fetch time
  (\<^verbatim>\<open>packages/core/src/omniscience_core/secrets.py\<close>). The process environment is a dictionary and
  \<open>read_text\<close> is what reading a file gives, an error for an \<^verbatim>\<open>OSError\<close>.
\<close>

section \<open>The resolver\<close>

definition resolve_env_prefix :: "(string, string) dict \<Rightarrow> string \<Rightarrow> (string, string) dict" where
  "resolve_env_prefix environ prefix =
     foldl (\<lambda>acc (name, value). if starts prefix name then dict_set acc (drop (length prefix) name) value else acc) [] environ"

text \<open>\<^verbatim>\<open>spec.partition("=")\<close>: the parts before and after the first equals sign.\<close>

definition partition_eq :: "string \<Rightarrow> string \<times> string" where
  "partition_eq spec = (takeWhile (\<lambda>c. c \<noteq> CHR ''='') spec, drop 1 (dropWhile (\<lambda>c. c \<noteq> CHR ''='') spec))"

definition resolve_env_single :: "(string, string) dict \<Rightarrow> string \<Rightarrow> (string, string) dict res" where
  "resolve_env_single environ spec =
     (let (v, k) = partition_eq spec; var_name = strip_by is_space v; key = strip_by is_space k
      in case dict_get environ var_name of
           None \<Rightarrow> Inl (ConfigError (''Environment variable '' @ repr_str var_name @ '' referenced in secrets_ref is not set.''))
         | Some value \<Rightarrow> Inr [(key, value)])"

definition resolve_env :: "(string, string) dict \<Rightarrow> string \<Rightarrow> (string, string) dict res" where
  "resolve_env environ spec =
     (if CHR ''='' \<in> set spec then resolve_env_single environ spec else Inr (resolve_env_prefix environ spec))"

fun flat_strings :: "string \<Rightarrow> metadata \<Rightarrow> (string, string) dict \<Rightarrow> (string, string) dict res" where
  "flat_strings path [] acc = Inr acc"
| "flat_strings path ((k, v) # rest) acc =
     (case v of
        JStr s \<Rightarrow> flat_strings path rest (dict_set acc k s)
      | _ \<Rightarrow> Inl (ConfigError (''Secrets file '' @ repr_str path @ '': value for key '' @ repr_str k @ '' must be a string'')))"

definition resolve_file :: "(string \<Rightarrow> string res) \<Rightarrow> string \<Rightarrow> (string, string) dict res" where
  "resolve_file read_text path =
     (case read_text path of
        Inl _ \<Rightarrow> Inl (ConfigError (''Cannot read secrets file '' @ repr_str path))
      | Inr raw \<Rightarrow>
          (case json_loads raw of
             Inl _ \<Rightarrow> Inl (ConfigError (''Secrets file '' @ repr_str path @ '' is not valid JSON''))
           | Inr (JObj kvs) \<Rightarrow> flat_strings path kvs []
           | Inr _ \<Rightarrow> Inl (ConfigError (''Secrets file '' @ repr_str path @ '' must contain a JSON object at the top level''))))"

definition resolve_secrets ::
  "(string, string) dict \<Rightarrow> (string \<Rightarrow> string res) \<Rightarrow> string option \<Rightarrow> (string, string) dict res" where
  "resolve_secrets environ read_text secrets_ref =
     (case secrets_ref of
        None \<Rightarrow> Inr []
      | Some ref \<Rightarrow>
          if ref = [] then Inr []
          else if starts ''env:'' ref then resolve_env environ (drop 4 ref)
          else if starts ''file:'' ref then resolve_file read_text (drop 5 ref)
          else Inl (ConfigError (''Unrecognised secrets_ref format: '' @ repr_str ref)))"

section \<open>What a reference gives\<close>

lemma starts_append: "starts p s \<Longrightarrow> s = p @ drop (length p) s"
  by (metis append_take_drop_id starts_def)

lemma env_prefix_get:
  assumes "dict_wf environ"
  shows "map_of (foldl (\<lambda>acc (name, value). if starts p name then dict_set acc (drop (length p) name) value else acc) acc environ) k
    = (case map_of environ (p @ k) of None \<Rightarrow> map_of acc k | Some v \<Rightarrow> Some v)"
  using assms
proof (induction environ arbitrary: acc)
  case (Cons q environ)
  obtain n v where q: "q = (n, v)" by force
  have wf: "dict_wf environ" and new: "n \<notin> fst ` set environ" using Cons.prems by (auto simp: dict_wf_def q)
  show ?case
  proof (cases "n = p @ k")
    case True
    then have "map_of environ (p @ k) = None" using new by (simp add: map_of_eq_None_iff)
    then show ?thesis using Cons.IH [OF wf] True by (simp add: q starts_def)
  next
    case False
    then have "starts p n \<Longrightarrow> k \<noteq> drop (length p) n" using starts_append by blast
    then show ?thesis using Cons.IH [OF wf] False by (simp add: q cong: option.case_cong)
  qed
qed simp

text \<open>
  The prefix form hands over exactly the variables with that prefix, under the rest of their
  names; the reference without a prefix therefore hands over the whole environment.
\<close>

lemma prefix_secrets_exact:
  assumes "dict_wf environ" and "CHR ''='' \<notin> set prefix"
  shows "\<exists>d. resolve_secrets environ read_text (Some (''env:'' @ prefix)) = Inr d \<and> (\<forall>k. dict_get d k = dict_get environ (prefix @ k))"
  using assms env_prefix_get [OF assms(1), of prefix "[]"]
  by (auto simp: resolve_secrets_def resolve_env_def resolve_env_prefix_def starts_def split: option.split)

lemma flat_strings_get:
  assumes "flat_strings path kvs acc = Inr d" and "distinct (map fst kvs)"
  shows "map_of d k = (case map_of kvs k of None \<Rightarrow> map_of acc k | Some v \<Rightarrow> (case v of JStr s \<Rightarrow> Some s | _ \<Rightarrow> None))"
  using assms
proof (induction path kvs acc rule: flat_strings.induct)
  case (2 path k' v rest acc)
  then obtain s where v: "v = JStr s" by (cases v) auto
  have "map_of rest k' = None" using 2(3) by (simp add: map_of_eq_None_iff)
  then show ?case using 2 by (cases "k = k'") (simp_all add: v cong: option.case_cong)
qed simp

text \<open>
  A file of secrets that was printed from string values is read back as it is, and a file with any
  other value is refused.
\<close>

lemma file_secrets_roundtrip:
  assumes "dict_wf d"
  shows "\<exists>e. resolve_secrets environ (\<lambda>_. Inr (json_dumps (JObj (map (\<lambda>(k, s). (k, JStr s)) d)))) (Some (''file:'' @ path)) = Inr e
    \<and> (\<forall>k. dict_get e k = dict_get d k)"
proof -
  let ?kvs = "map (\<lambda>(k, s). (k, JStr s)) d"
  have keys: "map fst ?kvs = map fst d" by (simp add: case_prod_unfold o_def)
  have "json_wf (JObj ?kvs)" using assms unfolding json_wf.simps keys dict_wf_def by (auto simp: list_all_iff)
  then have load: "json_loads (json_dumps (JObj ?kvs)) = Inr (JObj ?kvs)" by (rule json_roundtrip)
  have ok: "\<exists>e. flat_strings path (map (\<lambda>(k, s). (k, JStr s)) d') acc = Inr e" for d' acc
    by (induction d' arbitrary: acc) auto
  then obtain e where e: "flat_strings path ?kvs [] = Inr e" by blast
  have "map_of ?kvs k = map_option JStr (map_of d k)" for k by (simp add: map_of_map)
  then have "dict_get e k = dict_get d k" for k
    using flat_strings_get [OF e, of k] assms unfolding keys by (simp add: dict_wf_def split: option.splits)
  then show ?thesis using e load by (simp add: resolve_secrets_def resolve_file_def starts_def del: json_dumps.simps)
qed

end
