(* ===== verification/Dedup.thy ===== *)
theory Dedup
  imports Messages
begin

text \<open>
  \<^verbatim>\<open>ingestion/dedup.py\<close>: the gate that decides whether an event of the in-cluster
  operator or of the agentic connector is authoritative for a Kubernetes resource. The
  state is the \<^verbatim>\<open>entity_emitter\<close> table. A decision reads the row and then executes one
  guarded statement; the two are separate definitions, because a row that does not exist
  yet is not locked by the read. Times are seconds since the earliest date Python has.
\<close>

section \<open>Configuration\<close>

datatype pyfloat = Fin rat | PosInf | NegInf | NotANumber

definition EMITTER_OPERATOR :: string where "EMITTER_OPERATOR = ''k8s-operator''"

definition EMITTER_AGENTIC :: string where "EMITTER_AGENTIC = ''k8s-agentic''"

definition DEFAULT_TTL_HOURS :: pyfloat where "DEFAULT_TTL_HOURS = Fin 24"

record dedup_config =
  dd_enabled :: bool
  dd_ttl_seconds :: "pyfloat option"
  dd_agentic_allowed :: bool

definition flag_value :: "string \<Rightarrow> bool" where
  "flag_value s \<longleftrightarrow> map lower_char (strip_by is_space s) \<notin> {''false'', ''0'', ''no'', ''off'', []}"

definition hours_to_seconds :: "pyfloat \<Rightarrow> pyfloat" where
  "hours_to_seconds h = (case h of Fin r \<Rightarrow> Fin (r * 3600) | x \<Rightarrow> x)"

text \<open>
  \<^verbatim>\<open>parse_float\<close> is Python's reading of a float literal, \<open>None\<close> where it raises
  \<^verbatim>\<open>ValueError\<close>.
\<close>

definition config_from_env ::
  "(string \<Rightarrow> pyfloat option) \<Rightarrow> string option \<Rightarrow> string option \<Rightarrow> string option \<Rightarrow> dedup_config" where
  "config_from_env parse_float enabled_env ttl_hours_env agentic_allowed_env =
     (let enabled = (case enabled_env of None \<Rightarrow> True | Some s \<Rightarrow> flag_value s);
          (enabled, ttl_hours) =
            (case ttl_hours_env of
               None \<Rightarrow> (enabled, Some DEFAULT_TTL_HOURS)
             | Some t \<Rightarrow>
                 let parsed = (case parse_float (strip_by is_space t) of None \<Rightarrow> DEFAULT_TTL_HOURS | Some p \<Rightarrow> p)
                 in if parsed = Fin (-1) then (False, Some DEFAULT_TTL_HOURS)
                    else if parsed = Fin 0 then (enabled, None)
                    else if (case parsed of Fin r \<Rightarrow> 0 < r | PosInf \<Rightarrow> True | _ \<Rightarrow> False) then (enabled, Some parsed)
                    else (False, Some DEFAULT_TTL_HOURS))
      in \<lparr>dd_enabled = enabled, dd_ttl_seconds = map_option hours_to_seconds ttl_hours,
          dd_agentic_allowed = (case agentic_allowed_env of None \<Rightarrow> True | Some s \<Rightarrow> flag_value s)\<rparr>)"

section \<open>The gate\<close>

datatype dedup_action = Accept | Drop

datatype dedup_reason =
    FirstAuthorityAssigned
  | NoOpIdempotentRefresh
  | NoOpAgenticDropped
  | OperatorSupersedesAgentic
  | TtlReassignToAgentic
  | DedupDisabled
  | NonK8sBypass
  | AgenticFlagDisabled

record dedup_decision =
  de_action :: dedup_action
  de_reason :: dedup_reason
  de_authority_emitter :: string
  de_kind :: string

record emitter_row =
  er_authority :: string
  er_last_emit_at :: rat
  er_authority_changed_at :: "rat option"

type_synonym emitter_table = "(uuid \<times> string, emitter_row) dict"

definition is_k8s_emitter :: "string \<Rightarrow> bool" where
  "is_k8s_emitter source_type \<longleftrightarrow> source_type = EMITTER_OPERATOR \<or> source_type = EMITTER_AGENTIC"

definition is_alpha :: "char \<Rightarrow> bool" where
  "is_alpha c \<longleftrightarrow> (65 \<le> ord c \<and> ord c \<le> 90) \<or> (97 \<le> ord c \<and> ord c \<le> 122)"

definition is_cluster_char :: "char \<Rightarrow> bool" where
  "is_cluster_char c \<longleftrightarrow> is_dec c \<or> (97 \<le> ord c \<and> ord c \<le> 102) \<or> c = CHR ''-''"

definition parse_kind_from_external_id :: "string \<Rightarrow> string" where
  "parse_kind_from_external_id external_id =
     (let prefix = ''k8s_resource/''; rest = drop (length prefix) external_id;
          cluster = takeWhile is_cluster_char rest; after = dropWhile is_cluster_char rest;
          kind = takeWhile (\<lambda>c. is_alpha c \<or> is_dec c) (tl after);
          final = dropWhile (\<lambda>c. is_alpha c \<or> is_dec c) (tl after)
      in if starts prefix external_id \<and> cluster \<noteq> [] \<and> starts ''/'' after
            \<and> kind \<noteq> [] \<and> is_alpha (hd kind) \<and> starts ''/'' final
         then kind else ''unknown'')"

text \<open>\<^verbatim>\<open>wall_now - timedelta(seconds=ttl)\<close>, which overflows for long spans.\<close>

definition cutoff_of :: "dedup_config \<Rightarrow> rat \<Rightarrow> rat option res" where
  "cutoff_of cfg now =
     (case dd_ttl_seconds cfg of
        None \<Rightarrow> Inr None
      | Some (Fin r) \<Rightarrow>
          if 86400 * 1000000000 \<le> r then Inl OverflowError
          else if now - r < 0 then Inl OverflowError
          else Inr (Some (now - r))
      | Some NotANumber \<Rightarrow> Inl (ValueError ''cannot convert float NaN to integer'')
      | Some _ \<Rightarrow> Inl OverflowError)"

text \<open>
  The statement and the answer of \<^verbatim>\<open>_evaluate_in_session\<close>, for the row the read returned;
  the statement runs on the table as it is then.
\<close>

definition decide_in_session ::
  "rat option \<Rightarrow> uuid \<Rightarrow> string \<Rightarrow> string \<Rightarrow> rat \<Rightarrow> emitter_row option \<Rightarrow> emitter_table \<Rightarrow> dedup_decision \<times> emitter_table" where
  "decide_in_session cutoff ws ext emitter now row tab =
     (let key = (ws, ext); kind = parse_kind_from_external_id ext;
          answer = (\<lambda>a r auth. \<lparr>de_action = a, de_reason = r, de_authority_emitter = auth, de_kind = kind\<rparr>)
      in case row of
           None \<Rightarrow>
             (answer Accept FirstAuthorityAssigned emitter,
              (case dict_get tab key of
                 None \<Rightarrow> dict_set tab key \<lparr>er_authority = emitter, er_last_emit_at = now, er_authority_changed_at = None\<rparr>
               | Some e \<Rightarrow> if er_authority e = emitter then dict_set tab key (e\<lparr>er_last_emit_at := now\<rparr>) else tab))
         | Some r \<Rightarrow>
             if er_authority r = emitter
             then (answer Accept NoOpIdempotentRefresh (er_authority r),
                   (case dict_get tab key of
                      None \<Rightarrow> tab
                    | Some e \<Rightarrow> if er_authority e = emitter then dict_set tab key (e\<lparr>er_last_emit_at := now\<rparr>) else tab))
             else if emitter = EMITTER_OPERATOR \<and> er_authority r = EMITTER_AGENTIC
             then (answer Accept OperatorSupersedesAgentic EMITTER_OPERATOR,
                   (case dict_get tab key of
                      None \<Rightarrow> tab
                    | Some e \<Rightarrow> if er_authority e = EMITTER_AGENTIC
                        then dict_set tab key \<lparr>er_authority = EMITTER_OPERATOR, er_last_emit_at = now, er_authority_changed_at = Some now\<rparr>
                        else tab))
             else if emitter = EMITTER_AGENTIC \<and> er_authority r = EMITTER_OPERATOR
             then (case cutoff of
                     Some c \<Rightarrow>
                       if er_last_emit_at r < c
                       then (answer Accept TtlReassignToAgentic EMITTER_AGENTIC,
                             (case dict_get tab key of
                                None \<Rightarrow> tab
                              | Some e \<Rightarrow> if er_authority e = EMITTER_OPERATOR \<and> er_last_emit_at e < c
                                  then dict_set tab key \<lparr>er_authority = EMITTER_AGENTIC, er_last_emit_at = now, er_authority_changed_at = Some now\<rparr>
                                  else tab))
                       else (answer Drop NoOpAgenticDropped EMITTER_OPERATOR, tab)
                   | None \<Rightarrow> (answer Drop NoOpAgenticDropped EMITTER_OPERATOR, tab))
             else (answer Accept NonK8sBypass (er_authority r), tab))"

definition evaluate_in_session ::
  "dedup_config \<Rightarrow> uuid \<Rightarrow> string \<Rightarrow> string \<Rightarrow> rat \<Rightarrow> emitter_table \<Rightarrow> (dedup_decision \<times> emitter_table) res" where
  "evaluate_in_session cfg ws ext emitter now tab =
     bind_res (cutoff_of cfg now) (\<lambda>cutoff.
       Inr (decide_in_session cutoff ws ext emitter now (dict_get tab (ws, ext)) tab))"

definition evaluate ::
  "dedup_config \<Rightarrow> uuid \<Rightarrow> document_change_event \<Rightarrow> rat \<Rightarrow> emitter_table \<Rightarrow> (dedup_decision \<times> emitter_table) res" where
  "evaluate cfg ws ev now tab =
     (let kind = parse_kind_from_external_id (dc_external_id ev); emitter = dc_source_type ev;
          answer = (\<lambda>a r auth. \<lparr>de_action = a, de_reason = r, de_authority_emitter = auth, de_kind = kind\<rparr>)
      in if \<not> dd_agentic_allowed cfg \<and> emitter = EMITTER_AGENTIC
         then Inr (answer Drop AgenticFlagDisabled EMITTER_OPERATOR, tab)
         else if \<not> dd_enabled cfg then Inr (answer Accept DedupDisabled emitter, tab)
         else if \<not> is_k8s_emitter emitter then Inr (answer Accept NonK8sBypass emitter, tab)
         else evaluate_in_session cfg ws (dc_external_id ev) emitter now tab)"

text \<open>One event through the gate; an exception leaves the table as it was.\<close>

record dedup_input =
  di_workspace :: uuid
  di_event :: document_change_event
  di_now :: rat

definition dedup_step :: "dedup_config \<Rightarrow> dedup_input \<Rightarrow> emitter_table \<Rightarrow> emitter_table" where
  "dedup_step cfg i tab =
     (case evaluate cfg (di_workspace i) (di_event i) (di_now i) tab of Inl _ \<Rightarrow> tab | Inr (_, tab') \<Rightarrow> tab')"

definition dedup_answer :: "dedup_config \<Rightarrow> dedup_input \<Rightarrow> emitter_table \<Rightarrow> dedup_decision option" where
  "dedup_answer cfg i tab =
     (case evaluate cfg (di_workspace i) (di_event i) (di_now i) tab of Inl _ \<Rightarrow> None | Inr (d, _) \<Rightarrow> Some d)"

definition key_of :: "dedup_input \<Rightarrow> uuid \<times> string" where
  "key_of i = (di_workspace i, dc_external_id (di_event i))"

section \<open>What a decision does\<close>

text \<open>The specification of one decision on the row alone.\<close>

definition expired :: "rat option \<Rightarrow> emitter_row \<Rightarrow> bool" where
  "expired cutoff r = (case cutoff of None \<Rightarrow> False | Some c \<Rightarrow> er_last_emit_at r < c)"

definition gate_spec :: "rat option \<Rightarrow> string \<Rightarrow> rat \<Rightarrow> emitter_row option \<Rightarrow> dedup_action \<times> emitter_row" where
  "gate_spec cutoff emitter now row =
     (case row of
        None \<Rightarrow> (Accept, \<lparr>er_authority = emitter, er_last_emit_at = now, er_authority_changed_at = None\<rparr>)
      | Some r \<Rightarrow>
          if er_authority r = emitter then (Accept, r\<lparr>er_last_emit_at := now\<rparr>)
          else if emitter = EMITTER_AGENTIC \<and> \<not> expired cutoff r then (Drop, r)
          else (Accept, \<lparr>er_authority = emitter, er_last_emit_at = now, er_authority_changed_at = Some now\<rparr>))"

definition dedup_inv :: "emitter_table \<Rightarrow> bool" where
  "dedup_inv tab \<longleftrightarrow> (\<forall>k r. map_of tab k = Some r \<longrightarrow> is_k8s_emitter (er_authority r))"

lemma emitters_distinct [simp]: "EMITTER_OPERATOR \<noteq> EMITTER_AGENTIC" "EMITTER_AGENTIC \<noteq> EMITTER_OPERATOR"
  by (simp_all add: EMITTER_OPERATOR_def EMITTER_AGENTIC_def)

lemma decide_spec:
  assumes "dedup_inv tab" and "is_k8s_emitter emitter"
    and "decide_in_session cutoff ws ext emitter now (dict_get tab (ws, ext)) tab = (d, tab')"
  shows "de_action d = fst (gate_spec cutoff emitter now (dict_get tab (ws, ext)))
    \<and> map_of tab' = (map_of tab)((ws, ext) \<mapsto> snd (gate_spec cutoff emitter now (dict_get tab (ws, ext))))"
proof (cases "dict_get tab (ws, ext)")
  case None
  then show ?thesis using assms(3) by (auto simp: decide_in_session_def gate_spec_def fun_eq_iff)
next
  case (Some r)
  have "is_k8s_emitter (er_authority r)" using assms(1) Some by (auto simp: dedup_inv_def)
  then show ?thesis
    using assms(2,3) Some
    by (auto simp: decide_in_session_def gate_spec_def expired_def is_k8s_emitter_def fun_eq_iff Let_def
        split: if_splits option.splits)
qed

definition gated :: "dedup_config \<Rightarrow> string \<Rightarrow> bool" where
  "gated cfg emitter \<longleftrightarrow> dd_enabled cfg \<and> is_k8s_emitter emitter \<and> (dd_agentic_allowed cfg \<or> emitter \<noteq> EMITTER_AGENTIC)"

lemma evaluate_gated:
  assumes "gated cfg (dc_source_type ev)"
  shows "evaluate cfg ws ev now tab =
    evaluate_in_session cfg ws (dc_external_id ev) (dc_source_type ev) now tab"
  using assms by (auto simp: evaluate_def gated_def Let_def)

lemma evaluate_not_gated:
  assumes "\<not> gated cfg (dc_source_type ev)"
  shows "\<exists>d. evaluate cfg ws ev now tab = Inr (d, tab)"
  using assms by (auto simp: evaluate_def gated_def Let_def)

lemma step_idle:
  assumes "\<not> (gated cfg (dc_source_type (di_event i)) \<and> is_ok (cutoff_of cfg (di_now i)))"
  shows "dedup_step cfg i tab = tab"
proof (cases "gated cfg (dc_source_type (di_event i))")
  case False
  then obtain d where "evaluate cfg (di_workspace i) (di_event i) (di_now i) tab = Inr (d, tab)"
    using evaluate_not_gated by blast
  then show ?thesis by (simp add: dedup_step_def)
next
  case True
  then obtain x where "cutoff_of cfg (di_now i) = Inl x" using assms not_ok_Inl by blast
  then show ?thesis using True by (simp add: dedup_step_def evaluate_gated evaluate_in_session_def)
qed

lemma step_gated:
  assumes "dedup_inv tab" and "gated cfg (dc_source_type (di_event i))" and "cutoff_of cfg (di_now i) = Inr cutoff"
  shows "map_of (dedup_step cfg i tab) = (map_of tab)(key_of i \<mapsto>
         snd (gate_spec cutoff (dc_source_type (di_event i)) (di_now i) (map_of tab (key_of i))))
    \<and> map_option de_action (dedup_answer cfg i tab) =
         Some (fst (gate_spec cutoff (dc_source_type (di_event i)) (di_now i) (map_of tab (key_of i))))"
proof -
  obtain d tab' where dec: "decide_in_session cutoff (di_workspace i) (dc_external_id (di_event i))
      (dc_source_type (di_event i)) (di_now i) (dict_get tab (key_of i)) tab = (d, tab')" by fastforce
  have k8s: "is_k8s_emitter (dc_source_type (di_event i))" using assms(2) by (simp add: gated_def)
  note spec = decide_spec [OF assms(1) k8s dec [unfolded key_of_def]]
  have "dedup_step cfg i tab = tab'" "dedup_answer cfg i tab = Some d"
    using assms(2,3) dec by (simp_all add: dedup_step_def dedup_answer_def evaluate_gated evaluate_in_session_def key_of_def)
  then show ?thesis using spec by (simp add: key_of_def)
qed

lemma step_cases:
  assumes "dedup_inv tab"
  obtains (same) "dedup_step cfg i tab = tab"
  | (gated) cutoff where "gated cfg (dc_source_type (di_event i))" "cutoff_of cfg (di_now i) = Inr cutoff"
      "map_of (dedup_step cfg i tab) = (map_of tab)(key_of i \<mapsto>
         snd (gate_spec cutoff (dc_source_type (di_event i)) (di_now i) (map_of tab (key_of i))))"
  using step_idle [of cfg i tab] step_gated [OF assms, of cfg i] unfolding is_ok_iff by blast

lemma gate_spec_k8s:
  assumes "is_k8s_emitter emitter" and "\<And>r. row = Some r \<Longrightarrow> is_k8s_emitter (er_authority r)"
  shows "is_k8s_emitter (er_authority (snd (gate_spec cutoff emitter now row)))"
  using assms by (cases row) (auto simp: gate_spec_def)

lemma dedup_step_inv: "dedup_inv tab \<Longrightarrow> dedup_inv (dedup_step cfg i tab)"
proof -
  assume inv: "dedup_inv tab"
  show "dedup_inv (dedup_step cfg i tab)"
    using inv
  proof (rule step_cases [of tab cfg i])
    assume "dedup_step cfg i tab = tab"
    then show ?thesis using inv by simp
  next
    fix cutoff
    let ?new = "snd (gate_spec cutoff (dc_source_type (di_event i)) (di_now i) (map_of tab (key_of i)))"
    assume g: "gated cfg (dc_source_type (di_event i))" and m: "map_of (dedup_step cfg i tab) = (map_of tab)(key_of i \<mapsto> ?new)"
    have "is_k8s_emitter (er_authority ?new)"
      using g inv [unfolded dedup_inv_def] by (intro gate_spec_k8s) (auto simp: gated_def simp del: split_paired_All)
    then show ?thesis
      using inv m unfolding dedup_inv_def by (simp del: split_paired_All)
  qed
qed

interpretation dedup: invariant_of "dedup_step cfg" dedup_inv for cfg
  by unfold_locales (rule dedup_step_inv)

section \<open>Properties\<close>

lemma reachable_table: "dedup_inv (run (dedup_step cfg) [] is)"
  by (rule dedup.run_inv) (simp add: dedup_inv_def)

text \<open>
  Claim C14: On every table the gate can build up, an event of a gated emitter is decided as
  the specification says on the row alone, no other row changes, and it is dropped exactly
  when it comes from the agentic connector while the operator is authoritative and its last
  emit is not older than the cutoff.
\<close>

theorem gate_refines_spec:
  assumes "run (dedup_step cfg) [] is = tab" and "gated cfg (dc_source_type (di_event i))"
    and "cutoff_of cfg (di_now i) = Inr cutoff"
  shows "map_of (dedup_step cfg i tab) = (map_of tab)(key_of i \<mapsto>
         snd (gate_spec cutoff (dc_source_type (di_event i)) (di_now i) (map_of tab (key_of i))))
    \<and> (map_option de_action (dedup_answer cfg i tab) = Some Drop \<longleftrightarrow>
         dc_source_type (di_event i) = EMITTER_AGENTIC \<and>
         (\<exists>r. map_of tab (key_of i) = Some r \<and> er_authority r = EMITTER_OPERATOR \<and> \<not> expired cutoff r))"
proof -
  have inv: "dedup_inv tab" using reachable_table assms(1) by blast
  have auth: "is_k8s_emitter (er_authority r)" if "map_of tab (key_of i) = Some r" for r
    using inv that by (auto simp: dedup_inv_def simp del: split_paired_All)
  have "fst (gate_spec cutoff (dc_source_type (di_event i)) (di_now i) (map_of tab (key_of i))) = Drop \<longleftrightarrow>
      dc_source_type (di_event i) = EMITTER_AGENTIC \<and>
         (\<exists>r. map_of tab (key_of i) = Some r \<and> er_authority r = EMITTER_OPERATOR \<and> \<not> expired cutoff r)"
    using auth by (cases "map_of tab (key_of i)") (auto simp: gate_spec_def is_k8s_emitter_def)
  then show ?thesis using step_gated [OF inv assms(2,3)] by (metis option.inject)
qed

definition k8s_event :: "string \<Rightarrow> document_change_event" where
  "k8s_event emitter = \<lparr>dc_source_id = 1, dc_source_type = emitter,
     dc_external_id = ''k8s_resource/0a/Pod/default/web'', dc_uri = ''u'', dc_action = Updated,
     dc_metadata = None, dc_topology_edges = None\<rparr>"

definition k8s_input :: "string \<Rightarrow> rat \<Rightarrow> dedup_input" where
  "k8s_input emitter now = \<lparr>di_workspace = 1, di_event = k8s_event emitter, di_now = now\<rparr>"

definition ttl_config :: "pyfloat option \<Rightarrow> dedup_config" where
  "ttl_config ttl = \<lparr>dd_enabled = True, dd_ttl_seconds = ttl, dd_agentic_allowed = True\<rparr>"

theorem gate_refines_spec_witness:
  "map_option de_action (dedup_answer (ttl_config (Some (Fin 100))) (k8s_input EMITTER_AGENTIC 1050)
     (run (dedup_step (ttl_config (Some (Fin 100)))) [] [k8s_input EMITTER_OPERATOR 1000])) = Some Drop"
proof -
  let ?tab = "run (dedup_step (ttl_config (Some (Fin 100)))) [] [k8s_input EMITTER_OPERATOR 1000]"
  have row: "map_of ?tab (key_of (k8s_input EMITTER_AGENTIC 1050)) =
      Some \<lparr>er_authority = EMITTER_OPERATOR, er_last_emit_at = 1000, er_authority_changed_at = None\<rparr>"
    using gate_refines_spec [of "ttl_config (Some (Fin 100))" "[]" "[]" "k8s_input EMITTER_OPERATOR 1000" "Some 900"]
    by (simp add: gated_def ttl_config_def k8s_input_def k8s_event_def is_k8s_emitter_def cutoff_of_def key_of_def gate_spec_def)
  show ?thesis
    using gate_refines_spec [OF refl, of "ttl_config (Some (Fin 100))" "k8s_input EMITTER_AGENTIC 1050" "Some 950"
        "[k8s_input EMITTER_OPERATOR 1000]"] row
    by (simp add: gated_def ttl_config_def k8s_input_def k8s_event_def is_k8s_emitter_def cutoff_of_def expired_def)
qed

definition operator_holds :: "uuid \<times> string \<Rightarrow> emitter_table \<Rightarrow> bool" where
  "operator_holds k tab \<longleftrightarrow> dedup_inv tab \<and> (\<exists>r. map_of tab k = Some r \<and> er_authority r = EMITTER_OPERATOR)"

lemma operator_holds_step:
  assumes "dd_ttl_seconds cfg = None" and "operator_holds k tab"
  shows "operator_holds k (dedup_step cfg i tab)"
proof -
  obtain r where r: "map_of tab k = Some r" "er_authority r = EMITTER_OPERATOR"
    using assms(2) by (auto simp: operator_holds_def)
  have inv: "dedup_inv tab" using assms(2) by (simp add: operator_holds_def)
  show ?thesis
    using inv
  proof (rule step_cases [of tab cfg i])
    assume "dedup_step cfg i tab = tab"
    then show ?thesis using assms(2) by simp
  next
    fix cutoff
    assume g: "gated cfg (dc_source_type (di_event i))" and c: "cutoff_of cfg (di_now i) = Inr cutoff"
      and m: "map_of (dedup_step cfg i tab) = (map_of tab)(key_of i \<mapsto>
         snd (gate_spec cutoff (dc_source_type (di_event i)) (di_now i) (map_of tab (key_of i))))"
    have "cutoff = None" using c assms(1) by (simp add: cutoff_of_def)
    then have "er_authority (snd (gate_spec cutoff (dc_source_type (di_event i)) (di_now i) (Some r))) = EMITTER_OPERATOR"
      using r(2) g by (auto simp: gate_spec_def expired_def gated_def is_k8s_emitter_def)
    then show ?thesis
      using r m dedup_step_inv [OF inv] by (auto simp: operator_holds_def)
  qed
qed

lemma agentic_dropped:
  assumes "dd_ttl_seconds cfg = None" and "dd_enabled cfg" and "operator_holds (key_of i) tab"
    and "dc_source_type (di_event i) = EMITTER_AGENTIC"
  shows "map_option de_action (dedup_answer cfg i tab) = Some Drop"
proof (cases "dd_agentic_allowed cfg")
  case False
  then show ?thesis using assms(4) by (simp add: dedup_answer_def evaluate_def Let_def)
next
  case True
  then have g: "gated cfg (dc_source_type (di_event i))" using assms(2,4) by (simp add: gated_def is_k8s_emitter_def)
  have c: "cutoff_of cfg (di_now i) = Inr None" using assms(1) by (simp add: cutoff_of_def)
  obtain r where r: "dedup_inv tab" "map_of tab (key_of i) = Some r" "er_authority r = EMITTER_OPERATOR"
    using assms(3) by (auto simp: operator_holds_def)
  show ?thesis using step_gated [OF r(1) g c] r(2,3) assms(4) by (simp add: gate_spec_def expired_def)
qed

text \<open>
  Claim C15: With a sticky TTL the operator, once authoritative for a resource, stays so
  through every sequence of events of any workspace, at any times; and after every such
  sequence the enabled gate drops each event of the agentic connector for the resource.
\<close>

theorem sticky_operator_never_displaced:
  assumes "dd_ttl_seconds cfg = None" and "run (dedup_step cfg) [] is = tab"
    and "map_of tab k = Some r" and "er_authority r = EMITTER_OPERATOR"
  shows "map_option er_authority (map_of (run (dedup_step cfg) tab is') k) = Some EMITTER_OPERATOR
    \<and> (dd_enabled cfg \<and> key_of i = k \<and> dc_source_type (di_event i) = EMITTER_AGENTIC
       \<longrightarrow> map_option de_action (dedup_answer cfg i (run (dedup_step cfg) tab is')) = Some Drop)"
proof -
  have "operator_holds k tab" using reachable_table assms(2-4) by (auto simp: operator_holds_def)
  then have "operator_holds k (run (dedup_step cfg) tab is')"
    by (induction is' arbitrary: tab) (simp_all add: operator_holds_step [OF assms(1)])
  then show ?thesis using agentic_dropped [OF assms(1)] by (auto simp: operator_holds_def)
qed

lemma operator_first_row:
  "map_of (run (dedup_step (ttl_config ttl)) [] [k8s_input EMITTER_OPERATOR 1000]) (1, ''k8s_resource/0a/Pod/default/web'') =
     Some \<lparr>er_authority = EMITTER_OPERATOR, er_last_emit_at = 1000, er_authority_changed_at = None\<rparr>"
  if "cutoff_of (ttl_config ttl) 1000 = Inr c"
  using that
  by (simp add: dedup_step_def evaluate_def evaluate_in_session_def decide_in_session_def k8s_input_def k8s_event_def
      ttl_config_def is_k8s_emitter_def)

theorem sticky_operator_never_displaced_witness:
  "map_option er_authority (map_of (run (dedup_step (ttl_config None))
      (run (dedup_step (ttl_config None)) [] [k8s_input EMITTER_OPERATOR 1000])
      [k8s_input EMITTER_AGENTIC 999999]) (1, ''k8s_resource/0a/Pod/default/web'')) = Some EMITTER_OPERATOR
   \<and> map_option de_action (dedup_answer (ttl_config None) (k8s_input EMITTER_AGENTIC 1000000)
      (run (dedup_step (ttl_config None)) (run (dedup_step (ttl_config None)) [] [k8s_input EMITTER_OPERATOR 1000])
        [k8s_input EMITTER_AGENTIC 999999])) = Some Drop"
  using sticky_operator_never_displaced [OF _ refl operator_first_row, of None _
      "[k8s_input EMITTER_AGENTIC 999999]" "k8s_input EMITTER_AGENTIC 1000000"]
  by (simp add: ttl_config_def cutoff_of_def key_of_def k8s_input_def k8s_event_def)

lemma step_other_workspace:
  assumes "dedup_inv tab" and "di_workspace i \<noteq> w"
  shows "map_of (dedup_step cfg i tab) (w, e) = map_of tab (w, e)"
  using assms(1)
proof (rule step_cases [of tab cfg i])
  fix cutoff
  assume "map_of (dedup_step cfg i tab) = (map_of tab)(key_of i \<mapsto>
         snd (gate_spec cutoff (dc_source_type (di_event i)) (di_now i) (map_of tab (key_of i))))"
  then show ?thesis using assms(2) by (simp add: key_of_def)
qed simp

lemma step_same_rows:
  assumes "dedup_inv tab" and "dedup_inv tab'" and "\<forall>e. map_of tab (w, e) = map_of tab' (w, e)" and "di_workspace i = w"
  shows "map_of (dedup_step cfg i tab) (w, e) = map_of (dedup_step cfg i tab') (w, e)"
proof (cases "gated cfg (dc_source_type (di_event i)) \<and> is_ok (cutoff_of cfg (di_now i))")
  case False
  then show ?thesis using assms(3) by (simp add: step_idle)
next
  case True
  then obtain cutoff where c: "cutoff_of cfg (di_now i) = Inr cutoff" by (auto simp: is_ok_iff)
  have k: "key_of i = (w, dc_external_id (di_event i))" using assms(4) by (simp add: key_of_def)
  show ?thesis
    using step_gated [OF assms(1) _ c] step_gated [OF assms(2) _ c] True assms(3) by (simp add: k)
qed

text \<open>
  Workspaces do not influence each other: the rows of a workspace after any
  sequence of events are those after its own events alone.
\<close>

theorem workspaces_do_not_interfere:
  "map_of (run (dedup_step cfg) [] is) (w, e)
     = map_of (run (dedup_step cfg) [] (filter (\<lambda>i. di_workspace i = w) is)) (w, e)"
proof -
  have "\<forall>e. map_of (run (dedup_step cfg) t is) (w, e)
      = map_of (run (dedup_step cfg) t' (filter (\<lambda>i. di_workspace i = w) is)) (w, e)"
    if "dedup_inv t" "dedup_inv t'" "\<forall>e. map_of t (w, e) = map_of t' (w, e)" for t t'
    using that
  proof (induction "is" arbitrary: t t')
    case (Cons i "is")
    show ?case
    proof (cases "di_workspace i = w")
      case True
      then show ?thesis
        using Cons.IH [OF dedup_step_inv dedup_step_inv, of t t' cfg i cfg i] Cons.prems step_same_rows [OF Cons.prems True] by simp
    next
      case False
      then show ?thesis
        using Cons.IH [OF dedup_step_inv, of t t' cfg i] Cons.prems step_other_workspace [OF Cons.prems(1) False] by simp
    qed
  qed simp
  then show ?thesis by (simp add: dedup_inv_def)
qed

text \<open>
  Two first events for the same resource that both read the table before either
  has written are both accepted, whatever their emitters and the order of the two writes,
  and when the emitters differ the second one is told it is authoritative while the table
  says the first one is.
\<close>

theorem concurrent_first_events_both_accepted:
  assumes "map_of tab (ws, ext) = None"
    and "decide_in_session c1 ws ext m1 t1 (map_of tab (ws, ext)) tab = (d1, tab1)"
    and "decide_in_session c2 ws ext m2 t2 (map_of tab (ws, ext)) tab1 = (d2, tab2)"
  shows "de_action d1 = Accept \<and> de_action d2 = Accept \<and> de_authority_emitter d2 = m2
    \<and> map_option er_authority (map_of tab2 (ws, ext)) = Some m1"
  using assms by (auto simp: decide_in_session_def Let_def split: if_splits)

theorem concurrent_first_events_both_accepted_witness:
  "\<exists>d1 tab1 d2 tab2.
     decide_in_session None 1 ''x'' EMITTER_OPERATOR 10 None [] = (d1, tab1)
     \<and> decide_in_session None 1 ''x'' EMITTER_AGENTIC 11 None tab1 = (d2, tab2)
     \<and> de_action d1 = Accept \<and> de_action d2 = Accept \<and> de_authority_emitter d2 = EMITTER_AGENTIC
     \<and> map_option er_authority (map_of tab2 (1, ''x'')) = Some EMITTER_OPERATOR"
proof -
  obtain d1 tab1 where 1: "decide_in_session None 1 ''x'' EMITTER_OPERATOR 10 None [] = (d1, tab1)" by fastforce
  obtain d2 tab2 where 2: "decide_in_session None 1 ''x'' EMITTER_AGENTIC 11 None tab1 = (d2, tab2)" by fastforce
  show ?thesis
    using 1 2 concurrent_first_events_both_accepted [of "[]" 1 "''x''" None EMITTER_OPERATOR 10 d1 tab1 None EMITTER_AGENTIC 11 d2 tab2]
    by auto
qed

text \<open>
  A TTL of infinity hours is taken as a positive TTL, and then every event of the
  operator or the connector raises instead of being decided.
\<close>

theorem infinite_ttl_raises:
  assumes "parse_float (strip_by is_space t) = Some PosInf" and "is_k8s_emitter (dc_source_type ev)"
  shows "evaluate (config_from_env parse_float None (Some t) None) ws ev now tab = Inl OverflowError"
  using assms by (simp add: config_from_env_def evaluate_def evaluate_in_session_def cutoff_of_def hours_to_seconds_def)

theorem infinite_ttl_raises_witness:
  "evaluate (config_from_env (\<lambda>s. if s = ''inf'' then Some PosInf else None) None (Some ''inf'') None)
     1 (k8s_event EMITTER_OPERATOR) 1000 [] = Inl OverflowError"
proof -
  have strip: "strip_by is_space ''inf'' = ''inf''" by (rule strip_by_absent) (simp add: is_space_def)
  show ?thesis by (rule infinite_ttl_raises) (simp_all add: strip is_k8s_emitter_def k8s_event_def)
qed

end
