(* ===== verification/OperatorGraph.thy ===== *)
theory OperatorGraph
  imports OutboxWorker OutboxConsumer
begin

text \<open>
  The bridge from Kubernetes operator events to the graph
  (\<^verbatim>\<open>apps/server/src/omniscience_server/ingestion/operator_graph.py\<close>): the pure mapping of an event to
  one entity and its edges, and the outbox rows in which they are written. The name-based UUID of
  the graph nodes is the argument \<open>uuid5\<close>.
\<close>

section \<open>Events and graph objects\<close>

definition ENTITY_KIND_PREFIX :: string where "ENTITY_KIND_PREFIX = ''k8s_resource''"
definition RELATION_USES_STORAGECLASS :: string where "RELATION_USES_STORAGECLASS = ''uses_storageclass''"

record operator_event =
  op_source_id :: uuid
  op_source_type :: string
  op_external_id :: string
  op_uri :: string
  op_action :: change_action
  op_workspace_id :: uuid
  op_metadata :: "(string, string) dict"
  op_topology_edges :: "(string \<times> string) list"

record operator_entity =
  og_id :: uuid
  og_source_id :: uuid
  og_entity_type :: string
  og_name :: string
  og_display_name :: string
  og_metadata :: metadata

record operator_edge =
  oh_source_entity_id :: uuid
  oh_target_name :: string
  oh_edge_type :: string
  oh_target_entity_id :: "uuid option"
  oh_metadata :: metadata

definition derive_entity_id :: "(string \<Rightarrow> uuid) \<Rightarrow> uuid \<Rightarrow> string \<Rightarrow> uuid" where
  "derive_entity_id uuid5 ws external_id = uuid5 (uuid_str ws @ ''/'' @ external_id)"

definition cluster_scoped_external_id :: "string \<Rightarrow> string \<Rightarrow> string \<Rightarrow> string" where
  "cluster_scoped_external_id cluster_id kind name =
     ENTITY_KIND_PREFIX @ ''/'' @ cluster_id @ ''/'' @ kind @ ''/'' @ name"

section \<open>The mapping\<close>

text \<open>The loop over the topology edges, with the set of pairs already seen.\<close>

fun topology_edges :: "uuid \<Rightarrow> uuid \<Rightarrow> (string \<times> string) list \<Rightarrow> (string \<times> string) list \<Rightarrow> operator_edge list" where
  "topology_edges ws ent seen [] = []"
| "topology_edges ws ent seen ((relation, target) # rest) =
     (if relation = [] \<or> target = [] then topology_edges ws ent seen rest
      else if (relation, target) \<in> set seen then topology_edges ws ent seen rest
      else \<lparr>oh_source_entity_id = ent, oh_target_name = target, oh_edge_type = relation, oh_target_entity_id = None,
            oh_metadata = [(''workspace_id'', JStr (uuid_str ws))]\<rparr>
           # topology_edges ws ent ((relation, target) # seen) rest)"

definition edge_pair :: "operator_edge \<Rightarrow> string \<times> string" where
  "edge_pair e = (oh_edge_type e, oh_target_name e)"

definition storage_class_edge :: "operator_event \<Rightarrow> uuid \<Rightarrow> operator_edge list \<Rightarrow> operator_edge list" where
  "storage_class_edge ev ent edges =
     (let m = op_metadata ev; cluster_id = dict_getd m ''cluster_id'' [];
          sc = strip_by is_space (dict_getd m ''storage_class_name'' [])
      in if dict_getd m ''kind'' [] = ''PersistentVolumeClaim'' \<and> sc \<noteq> [] \<and> cluster_id \<noteq> []
         then (let target = cluster_scoped_external_id cluster_id ''StorageClass'' sc
               in if (RELATION_USES_STORAGECLASS, target) \<in> set (map edge_pair edges) then []
                  else [\<lparr>oh_source_entity_id = ent, oh_target_name = target, oh_edge_type = RELATION_USES_STORAGECLASS,
                         oh_target_entity_id = None,
                         oh_metadata = [(''workspace_id'', JStr (uuid_str (op_workspace_id ev))), (''storage_class_name'', JStr sc)]\<rparr>])
         else [])"

definition operator_entity_of :: "(string \<Rightarrow> uuid) \<Rightarrow> operator_event \<Rightarrow> operator_entity" where
  "operator_entity_of uuid5 ev =
     (let m = op_metadata ev; kind = dict_getd m ''kind'' []; name = dict_getd m ''name'' (op_external_id ev)
      in \<lparr>og_id = derive_entity_id uuid5 (op_workspace_id ev) (op_external_id ev), og_source_id = op_source_id ev,
          og_entity_type = (if kind \<noteq> [] then kind else ENTITY_KIND_PREFIX), og_name = name, og_display_name = name,
          og_metadata = (let md = dict_set (map (\<lambda>(k, v). (k, JStr v)) m) ''workspace_id'' (JStr (uuid_str (op_workspace_id ev)))
                         in case dict_get m ''cluster'' of None \<Rightarrow> md | Some c \<Rightarrow> dict_set md ''cluster'' (JStr c))\<rparr>)"

definition operator_event_to_graph :: "(string \<Rightarrow> uuid) \<Rightarrow> operator_event \<Rightarrow> operator_entity list \<times> operator_edge list" where
  "operator_event_to_graph uuid5 ev =
     (let entity = operator_entity_of uuid5 ev;
          edges = topology_edges (op_workspace_id ev) (og_id entity) [] (op_topology_edges ev)
      in ([entity], edges @ storage_class_edge ev (og_id entity) edges))"

section \<open>Outbox rows\<close>

definition json_opt_str :: "string option \<Rightarrow> json" where
  "json_opt_str v = (case v of None \<Rightarrow> JNull | Some s \<Rightarrow> JStr s)"

definition entity_model_dump :: "entity_upsert_event \<Rightarrow> metadata" where
  "entity_model_dump ev =
     [(''workspace_id'', json_opt_str (eu_workspace_id ev)), (''id'', JStr (eu_id ev)), (''source_id'', JStr (eu_source_id ev)),
      (''entity_type'', JStr (eu_entity_type ev)), (''name'', JStr (eu_name ev)), (''display_name'', JStr (eu_display_name ev)),
      (''metadata'', JObj (eu_metadata ev)), (''version'', case eu_version ev of None \<Rightarrow> JNull | Some v \<Rightarrow> JInt v),
      (''is_backfill'', JBool (eu_is_backfill ev)), (''content_hash'', json_opt_str (eu_content_hash ev))]"

definition edge_model_dump :: "edge_upsert_event \<Rightarrow> metadata" where
  "edge_model_dump ev =
     [(''workspace_id'', json_opt_str (ee_workspace_id ev)), (''id'', JStr (ee_id ev)),
      (''source_entity_id'', JStr (ee_source_entity_id ev)), (''target_entity_id'', JStr (ee_target_entity_id ev)),
      (''edge_type'', JStr (ee_edge_type ev)), (''metadata'', JObj (ee_metadata ev)),
      (''version'', case ee_version ev of None \<Rightarrow> JNull | Some v \<Rightarrow> JInt v), (''is_backfill'', JBool (ee_is_backfill ev))]"

definition operator_entity_event :: "uuid \<Rightarrow> operator_entity \<Rightarrow> entity_upsert_event" where
  "operator_entity_event ws e =
     \<lparr>eu_workspace_id = Some (uuid_str ws), eu_id = uuid_str (og_id e), eu_source_id = uuid_str (og_source_id e),
      eu_entity_type = og_entity_type e, eu_name = og_name e, eu_display_name = og_display_name e, eu_metadata = og_metadata e,
      eu_version = None, eu_is_backfill = False, eu_content_hash = None\<rparr>"

definition operator_edge_event :: "uuid \<Rightarrow> uuid \<Rightarrow> operator_edge \<Rightarrow> edge_upsert_event" where
  "operator_edge_event ws edge_id e =
     \<lparr>ee_workspace_id = Some (uuid_str ws), ee_id = uuid_str edge_id, ee_source_entity_id = uuid_str (oh_source_entity_id e),
      ee_target_entity_id = (case oh_target_entity_id e of None \<Rightarrow> [] | Some t \<Rightarrow> uuid_str t),
      ee_edge_type = oh_edge_type e, ee_metadata = oh_metadata e, ee_version = None, ee_is_backfill = False\<rparr>"

definition new_outbox_row :: "uuid \<Rightarrow> string \<Rightarrow> uuid \<Rightarrow> metadata \<Rightarrow> rat \<Rightarrow> outbox_row" where
  "new_outbox_row i ty ent payload now =
     \<lparr>ob_id = i, ob_event_type = ty, ob_payload = payload, ob_entity_id = Some ent, ob_created_at = now,
      ob_processed = False, ob_processed_at = None\<rparr>"

text \<open>
  Identifiers come from \<^verbatim>\<open>uuid4()\<close>: \<open>row_id n\<close> for the \<open>n\<close>-th row and \<open>edge_id n\<close> for the \<open>n\<close>-th edge.
\<close>

definition operator_rows ::
  "(string \<Rightarrow> uuid) \<Rightarrow> (nat \<Rightarrow> uuid) \<Rightarrow> (nat \<Rightarrow> uuid) \<Rightarrow> rat \<Rightarrow> operator_event \<Rightarrow> outbox_row list" where
  "operator_rows uuid5 row_id edge_id now ev =
     (let (entities, edges) = operator_event_to_graph uuid5 ev; ws = op_workspace_id ev
      in map (\<lambda>(n, e). new_outbox_row (row_id n) ''entity.upsert'' (og_id e) (entity_model_dump (operator_entity_event ws e)) now)
           (enumerate 0 entities)
       @ map (\<lambda>(n, e). new_outbox_row (row_id (length entities + n)) ''edge.upsert'' (oh_source_entity_id e)
                (edge_model_dump (operator_edge_event ws (edge_id n) e)) now) (enumerate 0 edges))"

text \<open>
  With a session factory the rows are inserted in one transaction; without one the graph store is
  called directly (\<open>direct\<close>), for deployments without Postgres or NATS.
\<close>

definition route_operator_event_to_graph ::
  "(string \<Rightarrow> uuid) \<Rightarrow> (nat \<Rightarrow> uuid) \<Rightarrow> (nat \<Rightarrow> uuid) \<Rightarrow> rat \<Rightarrow> bool \<Rightarrow> bool
   \<Rightarrow> (operator_entity list \<Rightarrow> operator_edge list \<Rightarrow> unit res) \<Rightarrow> operator_event \<Rightarrow> outbox_row list
   \<Rightarrow> (nat \<times> nat) res \<times> outbox_row list" where
  "route_operator_event_to_graph uuid5 row_id edge_id now session_factory commit direct ev outbox =
     (let (entities, edges) = operator_event_to_graph uuid5 ev
      in if session_factory
         then (if commit then (Inr (length entities, length edges), outbox @ operator_rows uuid5 row_id edge_id now ev)
               else (Inl (BackendError ''postgres''), outbox))
         else (case direct entities edges of
                 Inl e \<Rightarrow> (Inl e, outbox)
               | Inr _ \<Rightarrow> (Inr (length entities, length edges), outbox)))"

section \<open>The edges of an event\<close>

lemma topology_edges_pairs:
  "set (map edge_pair (topology_edges ws ent seen es)) = {(r, t) \<in> set es. r \<noteq> [] \<and> t \<noteq> []} - set seen
   \<and> distinct (map edge_pair (topology_edges ws ent seen es))
   \<and> (\<forall>e \<in> set (topology_edges ws ent seen es). oh_source_entity_id e = ent \<and> oh_target_entity_id e = None)"
proof (induction ws ent seen es rule: topology_edges.induct)
  case (1 ws ent seen)
  then show ?case by simp
next
  case (2 ws ent seen relation target rest)
  show ?case
  proof (cases "relation = [] \<or> target = [] \<or> (relation, target) \<in> set seen")
    case True
    then show ?thesis using 2(1,2) by auto
  next
    case False
    then have nf: "\<not> (relation = [] \<or> target = [])" "(relation, target) \<notin> set seen" by auto
    note ih = 2(3) [OF nf]
    have "(relation, target) \<notin> set (map edge_pair (topology_edges ws ent ((relation, target) # seen) rest))"
      using ih by auto
    then show ?thesis using nf ih by (auto simp: edge_pair_def)
  qed
qed

lemma storage_class_distinct:
  "distinct (map edge_pair edges) \<Longrightarrow> distinct (map edge_pair (edges @ storage_class_edge ev ent edges))"
  by (auto simp: storage_class_edge_def Let_def edge_pair_def)

text \<open>The pair of the derived edge, where the event has one.\<close>

definition storage_class_pair :: "operator_event \<Rightarrow> (string \<times> string) option" where
  "storage_class_pair ev =
     (let m = op_metadata ev; sc = strip_by is_space (dict_getd m ''storage_class_name'' [])
      in if dict_getd m ''kind'' [] = ''PersistentVolumeClaim'' \<and> sc \<noteq> [] \<and> dict_getd m ''cluster_id'' [] \<noteq> []
         then Some (''uses_storageclass'', ''k8s_resource/'' @ dict_getd m ''cluster_id'' [] @ ''/StorageClass/'' @ sc)
         else None)"

lemma storage_class_pair_added:
  "set (map edge_pair (edges @ storage_class_edge ev ent edges))
     = set (map edge_pair edges) \<union> set_option (storage_class_pair ev)"
  by (auto simp: storage_class_edge_def storage_class_pair_def Let_def edge_pair_def cluster_scoped_external_id_def
      ENTITY_KIND_PREFIX_def RELATION_USES_STORAGECLASS_def)

definition name_edge :: "uuid \<Rightarrow> operator_edge \<Rightarrow> bool" where
  "name_edge ent e \<longleftrightarrow> oh_source_entity_id e = ent \<and> oh_target_entity_id e = None \<and> json_wf (JObj (oh_metadata e))"

lemma topology_name_edges: "list_all (name_edge ent) (topology_edges ws ent seen es)"
  by (induction ws ent seen es rule: topology_edges.induct) (auto simp: name_edge_def)

lemma operator_name_edges:
  "list_all (name_edge (derive_entity_id uuid5 (op_workspace_id ev) (op_external_id ev)))
     (snd (operator_event_to_graph uuid5 ev))"
  by (auto simp: operator_event_to_graph_def operator_entity_of_def Let_def topology_name_edges storage_class_edge_def name_edge_def)

text \<open>
  An operator event becomes exactly one entity, whose identifier depends only on the
  workspace and the external id, and one edge from it for every distinct pair of a relation and a
  target that the event names with both non-empty, plus the storage class of a volume claim that
  names one. Every edge leaves the target to be resolved by name.
\<close>

theorem operator_event_graph_is_exact:
  "\<exists>ent edges. operator_event_to_graph uuid5 ev = ([ent], edges)
     \<and> og_id ent = uuid5 (uuid_str (op_workspace_id ev) @ ''/'' @ op_external_id ev)
     \<and> og_source_id ent = op_source_id ev
     \<and> distinct (map edge_pair edges)
     \<and> set (map edge_pair edges) = {(r, t) \<in> set (op_topology_edges ev). r \<noteq> [] \<and> t \<noteq> []} \<union> set_option (storage_class_pair ev)
     \<and> list_all (\<lambda>e. oh_source_entity_id e = og_id ent \<and> oh_target_entity_id e = None) edges"
proof -
  let ?ent = "operator_entity_of uuid5 ev"
  let ?top = "topology_edges (op_workspace_id ev) (og_id ?ent) [] (op_topology_edges ev)"
  have id: "og_id ?ent = derive_entity_id uuid5 (op_workspace_id ev) (op_external_id ev)" "og_source_id ?ent = op_source_id ev"
    by (simp_all add: operator_entity_of_def Let_def)
  have top: "set (map edge_pair ?top) = {(r, t) \<in> set (op_topology_edges ev). r \<noteq> [] \<and> t \<noteq> []}"
    "distinct (map edge_pair ?top)"
    using topology_edges_pairs [of "op_workspace_id ev" "og_id ?ent" "[]" "op_topology_edges ev"] by simp_all
  have all: "list_all (name_edge (og_id ?ent)) (?top @ storage_class_edge ev (og_id ?ent) ?top)"
    using operator_name_edges [of uuid5 ev] by (simp add: operator_event_to_graph_def id Let_def)
  have "list_all (\<lambda>e. oh_source_entity_id e = og_id ?ent \<and> oh_target_entity_id e = None)
      (?top @ storage_class_edge ev (og_id ?ent) ?top)"
    by (rule list.pred_mono_strong [OF all]) (simp add: name_edge_def)
  then show ?thesis
    using storage_class_distinct [OF top(2), of ev "og_id ?ent"] storage_class_pair_added [of ?top ev "og_id ?ent"] top(1)
    by (intro exI [of _ ?ent] exI [of _ "?top @ storage_class_edge ev (og_id ?ent) ?top"] conjI)
      (simp_all only: operator_event_to_graph_def Let_def id derive_entity_id_def)
qed

section \<open>Operator edges on the queue\<close>

text \<open>
  The dump of an edge event validates back to it, so the outbox worker publishes the row, and the
  consumer receives it with its empty target.
\<close>

lemma edge_dump_validates: "edge_model_validate pyd (edge_model_dump ev) = Inr ev"
  by (cases ev) (simp add: edge_model_validate_def edge_model_dump_def opt_str_def req_str_def dict_metadata_def
      dict_version_def dict_backfill_def json_opt_str_def split: option.splits)

lemma operator_rows_cases:
  assumes "snd (operator_event_to_graph uuid5 ev) = e # es"
  shows "new_outbox_row (row_id 1) ''edge.upsert'' (oh_source_entity_id e)
      (edge_model_dump (operator_edge_event (op_workspace_id ev) (edge_id 0) e)) now
    \<in> set (operator_rows uuid5 row_id edge_id now ev)"
proof -
  have "operator_event_to_graph uuid5 ev = ([operator_entity_of uuid5 ev], e # es)"
    using assms by (simp add: operator_event_to_graph_def Let_def)
  then show ?thesis by (simp add: operator_rows_def Let_def)
qed

lemma operator_rows_fields:
  "list_all (\<lambda>r. \<not> ob_processed r) (operator_rows uuid5 row_id edge_id now ev)"
  "map ob_id (operator_rows uuid5 row_id edge_id now ev) = map row_id [0..<length (operator_rows uuid5 row_id edge_id now ev)]"
proof -
  obtain ents edges where g: "operator_event_to_graph uuid5 ev = (ents, edges)" by fastforce
  show "list_all (\<lambda>r. \<not> ob_processed r) (operator_rows uuid5 row_id edge_id now ev)"
    by (auto simp: operator_rows_def g list_all_iff new_outbox_row_def Let_def)
  show "map ob_id (operator_rows uuid5 row_id edge_id now ev)
      = map row_id [0..<length (operator_rows uuid5 row_id edge_id now ev)]"
    by (rule nth_equalityI)
      (auto simp: operator_rows_def g new_outbox_row_def Let_def nth_append nth_enumerate_eq)
qed

lemma published_in_tick:
  assumes "good_tick tenv" and "distinct (map ob_id rows)" and "length rows \<le> n"
    and "r \<in> set rows" and "\<not> ob_processed r" and "event_payload pyd r = Inr (Some (subject, p))"
  shows "(subject, encode_payload pyd p) \<in> set (snd (tick pyd n tenv (rows, js)))"
proof -
  have "length (pending rows) \<le> n" using assms(3) le_trans [OF length_filter_le] by (simp add: length_pending)
  then have "r \<in> set (select_batch n (te_locked tenv) rows)"
    using assms(1,4,5) by (simp add: good_tick_def select_unlocked) (simp add: pending_def)
  moreover have "(subject, encode_payload pyd p) \<in> set (row_event pyd (te_broker tenv) r)"
    using assms(1,6) by (simp add: row_event_def good_tick_def)
  ultimately show ?thesis
    using assms(1,2) by (auto simp: tick_eq [OF _ _ refl] good_tick_def)
qed

lemma empty_target_kills_edge_task:
  fixes env :: oc_env and subject :: string
  assumes "oc_edge_task s" and "oc_var_target_id s = None" and "uuid_parse (ee_id ev) = Inr e"
    and "uuid_parse (ee_source_entity_id ev) = Inr src" and "ee_target_entity_id ev = []"
  shows "edge_dead (length (filter (is_edge_write \<circ> fst) (oc_calls s))) (oc_step (EdgeMsg env subject ev) s)"
proof -
  have "uuid_parse [] = Inl (ValueError ''badly formed hexadecimal UUID string'')"
    by (simp add: uuid_parse_def replace_empty_def strip_by_def)
  then have "consume_edge env subject ev (s\<lparr>oc_settled := []\<rparr>) = (Inl (NameError ''target_entity_id''),
      s\<lparr>oc_settled := [], oc_var_edge_id := Some e, oc_var_source_id := Some src\<rparr>)"
    using assms(2-5) by (simp add: consume_edge_def consume_edge_body_def act_defs bound_var_def)
  then show ?thesis using assms(1) by (simp add: oc_step_def edge_dead_def)
qed

text \<open>
  An operator event with an edge stops the edge consumer. Its outbox rows are written,
  one good tick publishes them, the edge message is delivered with an empty target identifier, and
  on a consumer that has not yet read an edge with a well-formed target the failure path reads an
  unbound variable: the edge task ends and no edge is written after it, whatever arrives.
\<close>

theorem operator_edge_ends_edge_task:
  fixes env :: oc_env
  assumes "snd (operator_event_to_graph uuid5 ev) \<noteq> []"
    and "inj_on row_id {..<length rows}"
    and "route_operator_event_to_graph uuid5 row_id edge_id now True True direct ev [] = (Inr counts, rows)"
    and "good_tick tenv" and "length rows \<le> n"
    and "qc_payload_type qc = TEdge" and "1 < qc_max_deliver qc"
    and "oc_edge_task s" and "oc_var_target_id s = None"
  shows "\<exists>data ed. (''outbox.edge.upsert'', data) \<in> set (snd (tick pyd n tenv (rows, [])))
    \<and> co_yield (process_raw pyd replaced dlq qc
        \<lparr>rm_subject = ''outbox.edge.upsert'', rm_data = data, rm_num_delivered = Some 1\<rparr>) = Some (PEdge ed)
    \<and> \<not> oc_edge_task (run oc_step (oc_step (EdgeMsg env ''outbox.edge.upsert'' ed) s) events)
    \<and> length (filter (is_edge_write \<circ> fst) (oc_calls (run oc_step (oc_step (EdgeMsg env ''outbox.edge.upsert'' ed) s) events)))
      = length (filter (is_edge_write \<circ> fst) (oc_calls s))"
proof -
  obtain e es where g: "snd (operator_event_to_graph uuid5 ev) = e # es" using assms(1) by (auto simp: neq_Nil_conv)
  define be where "be = operator_edge_event (op_workspace_id ev) (edge_id 0) e"
  define r where "r = new_outbox_row (row_id 1) ''edge.upsert'' (oh_source_entity_id e) (edge_model_dump be) now"
  define data where "data = encode_payload pyd (PEdge be)"
  have rows: "rows = operator_rows uuid5 row_id edge_id now ev"
    using assms(3) by (auto simp: route_operator_event_to_graph_def case_prod_unfold Let_def)
  have r_in: "r \<in> set rows" unfolding r_def be_def rows by (rule operator_rows_cases [OF g])
  have ids: "distinct (map ob_id rows)"
    unfolding rows operator_rows_fields(2) using assms(2) by (simp add: distinct_map rows atLeast0LessThan)
  have fresh: "\<not> ob_processed r" by (simp add: r_def new_outbox_row_def)
  have pay: "event_payload pyd r = Inr (Some (''outbox.edge.upsert'', PEdge be))"
    by (simp add: event_payload_def r_def new_outbox_row_def edge_dump_validates)
  have sent: "(''outbox.edge.upsert'', data) \<in> set (snd (tick pyd n tenv (rows, [])))"
    unfolding data_def by (rule published_in_tick [OF assms(4) ids assms(5) r_in fresh pay])
  have e: "json_wf (JObj (oh_metadata e))" "oh_target_entity_id e = None"
    using operator_name_edges [of uuid5 ev] unfolding g by (simp_all add: name_edge_def)
  have ok: "edge_wire_ok be" using e(1) by (simp add: edge_wire_ok_def be_def operator_edge_event_def)
  have pub: "publish pyd (\<lambda>_ _. Stored) ''outbox.edge.upsert'' (PEdge be) [] = (Inr (), [] @ [(''outbox.edge.upsert'', data)])"
    by (simp add: publish_def data_def)
  have y: "co_yield (process_raw pyd replaced dlq qc
      \<lparr>rm_subject = ''outbox.edge.upsert'', rm_data = data, rm_num_delivered = Some 1\<rparr>) = Some (PEdge (wire_edge be))"
    using edge_channel.delivered [OF ok pub, of _ qc] assms(6,7) by (simp add: get_num_delivered_def)
  have "edge_dead (length (filter (is_edge_write \<circ> fst) (oc_calls s)))
      (run oc_step (oc_step (EdgeMsg env ''outbox.edge.upsert'' (wire_edge be)) s) events)"
    by (rule edge_dead.run_inv, rule empty_target_kills_edge_task [OF assms(8,9)])
      (simp_all add: wire_edge_def be_def operator_edge_event_def e(2))
  then show ?thesis using sent y by (auto simp: edge_dead_def)
qed

definition demo_operator_event :: operator_event where
  "demo_operator_event = \<lparr>op_source_id = 9, op_source_type = ''kubernetes'', op_external_id = ''k8s_resource/c1/Node/n1'',
     op_uri = [], op_action = Created, op_workspace_id = 1, op_metadata = [(''kind'', ''Node'')],
     op_topology_edges = [(''in_cluster'', ''k8s_cluster/c1'')]\<rparr>"

theorem operator_edge_ends_edge_task_witness:
  "\<exists>data ed. (''outbox.edge.upsert'', data) \<in> set (snd (tick sample_pydantic 50 sample_env
        (snd (route_operator_event_to_graph (\<lambda>_. 7) of_nat of_nat 0 True True (\<lambda>_ _. Inr ()) demo_operator_event []), [])))
    \<and> co_yield (process_raw sample_pydantic (\<lambda>t. t) sample_dlq \<lparr>qc_payload_type = TEdge, qc_max_deliver = 5\<rparr>
        \<lparr>rm_subject = ''outbox.edge.upsert'', rm_data = data, rm_num_delivered = Some 1\<rparr>) = Some (PEdge ed)
    \<and> \<not> oc_edge_task (run oc_step (oc_step (EdgeMsg (sample_oc_env (\<lambda>_. True)) ''outbox.edge.upsert'' ed) (oc_start True oc_init))
        [EdgeMsg (sample_oc_env (\<lambda>_. True)) ''outbox.edge.upsert'' (sample_edge_event (uuid_str 6) (uuid_str 1))])"
proof -
  let ?rows = "operator_rows (\<lambda>_. 7) of_nat of_nat 0 demo_operator_event"
  have g: "operator_event_to_graph (\<lambda>_. 7) demo_operator_event = ([operator_entity_of (\<lambda>_. 7) demo_operator_event],
      [\<lparr>oh_source_entity_id = 7, oh_target_name = ''k8s_cluster/c1'', oh_edge_type = ''in_cluster'', oh_target_entity_id = None,
        oh_metadata = [(''workspace_id'', JStr (uuid_str 1))]\<rparr>])"
    by (simp add: operator_event_to_graph_def operator_entity_of_def derive_entity_id_def storage_class_edge_def
        demo_operator_event_def dict_getd_def Let_def)
  have len: "length ?rows = 2" by (simp add: operator_rows_def g Let_def)
  have route: "route_operator_event_to_graph (\<lambda>_. 7) of_nat of_nat 0 True True (\<lambda>_ _. Inr ()) demo_operator_event []
      = (Inr (1, 1), ?rows)"
    by (simp add: route_operator_event_to_graph_def g)
  have inj: "inj_on (of_nat :: nat \<Rightarrow> uuid) {..<length ?rows}"
    unfolding len by (auto simp: inj_on_def less_2_cases_iff)
  show ?thesis
    using operator_edge_ends_edge_task [OF _ inj route, of sample_env 50 "\<lparr>qc_payload_type = TEdge, qc_max_deliver = 5\<rparr>"
        "oc_start True oc_init" sample_pydantic "\<lambda>t. t" sample_dlq "sample_oc_env (\<lambda>_. True)"
        "[EdgeMsg (sample_oc_env (\<lambda>_. True)) ''outbox.edge.upsert'' (sample_edge_event (uuid_str 6) (uuid_str 1))]"]
    unfolding route by (simp add: g len good_tick_def sample_env_def oc_start_def oc_init_def) blast
qed

end
