(* ===== verification/IngestWorker.thy ===== *)
theory IngestWorker
  imports Pipeline Secrets Dedup OperatorGraph "HOL-Library.Multiset"
begin

text \<open>
  The ingestion worker (\<^verbatim>\<open>apps/server/src/omniscience_server/ingestion/worker.py\<close>) with its run tracker
  (\<^verbatim>\<open>run_tracker.py\<close>) and the workspace rule (\<^verbatim>\<open>packages/index/src/omniscience_index/workspace.py\<close>): the
  loop over document change events, the dedup gate, the fan-out of a sync marker, the operator
  bridge and the run counters. One message is one step of \<open>worker_step\<close>; an exception that leaves the
  loop ends the worker. The runs of a fan-out are interleaved at the grain of one document, in any
  order.
\<close>

section \<open>State and environment\<close>

definition OPERATOR_SOURCE_TYPE :: string where "OPERATOR_SOURCE_TYPE = ''k8s-operator''"
definition DEDUP_DROP_ACTION :: string where "DEDUP_DROP_ACTION = ''dedup_dropped''"

definition TRUTHY_ENV_VALUES :: "string list" where
  "TRUTHY_ENV_VALUES = [''enabled'', ''true'', ''1'', ''yes'', ''on'']"

record ('q, 'g) worker =
  wk_stores :: "('q, 'g) stores"
  wk_outbox :: "outbox_row list"
  wk_emitters :: emitter_table
  wk_run_id :: "uuid option"
  wk_error_count :: nat
  wk_running :: bool

record ('c) connector =
  cn_validate :: "metadata \<Rightarrow> 'c option"
  cn_fetch :: "'c \<Rightarrow> secrets \<Rightarrow> document_ref \<Rightarrow> fetched_document res"
  cn_discover :: "'c \<Rightarrow> secrets \<Rightarrow> document_ref list res"

text \<open>What the worker is built with, and what one message meets.\<close>

record 'c worker_conf =
  wc_registry :: "string \<Rightarrow> 'c connector res"
  wc_dedup :: dedup_config
  wc_linking_env :: "string option"
  wc_graph_store :: bool

record ('q, 'g, 'c, 'p) work_env =
  wv_pipe :: "nat \<Rightarrow> ('q, 'g, 'c, 'p) penv"
  wv_order :: "nat list"
  wv_source_read :: bool
  wv_gate_session :: bool
  wv_now :: rat
  wv_environ :: "(string, string) dict"
  wv_read_text :: "string \<Rightarrow> string res"
  wv_uuid5 :: "string \<Rightarrow> uuid"
  wv_row_id :: "nat \<Rightarrow> uuid"
  wv_edge_id :: "nat \<Rightarrow> uuid"
  wv_outbox_commit :: bool
  wv_new_run :: uuid
  wv_run_write :: bool
  wv_stamp_write :: bool
  wv_clock :: int
  wv_settles :: "settle \<Rightarrow> bool"
  wv_exn_str :: "py_exn \<Rightarrow> string"

definition on_stores :: "(('q, 'g) stores, 'a) prog \<Rightarrow> (('q, 'g) worker, 'a) prog" where
  "on_stores m = (\<lambda>w. case m (wk_stores w) of
     None \<Rightarrow> None
   | Some (r, s) \<Rightarrow> Some (r, w\<lparr>wk_stores := s\<rparr>))"

section \<open>The run tracker\<close>

definition tracker_start :: "('q, 'g, 'c, 'p) work_env \<Rightarrow> uuid \<Rightarrow> (('q, 'g) worker, uuid) prog" where
  "tracker_start env source_id = (\<lambda>w.
     if \<not> wv_run_write env then Some (Inl (BackendError ''postgres''), w)
     else if source_id \<notin> so_id ` set (st_sources (wk_stores w)) \<or> wv_new_run env \<in> ru_id ` set (st_runs (wk_stores w))
     then Some (Inl (BackendError ''IntegrityError''), w)
     else let r = \<lparr>ru_id = wv_new_run env, ru_source_id = source_id, ru_started_at = wv_clock env, ru_finished_at = None,
                   ru_status = Run_running, ru_docs_new = 0, ru_docs_updated = 0, ru_docs_removed = 0, ru_errors = []\<rparr>
          in Some (Inr (wv_new_run env), w\<lparr>wk_stores := (wk_stores w)\<lparr>st_runs := st_runs (wk_stores w) @ [r]\<rparr>\<rparr>))"

text \<open>An update of the run's row; nothing happens when the row is gone.\<close>

definition update_row :: "('q, 'g, 'c, 'p) work_env \<Rightarrow> uuid \<Rightarrow> (ingestion_run \<Rightarrow> ingestion_run) \<Rightarrow> (('q, 'g) worker, unit) prog" where
  "update_row env run_id f = (\<lambda>w.
     if \<not> wv_run_write env then Some (Inl (BackendError ''postgres''), w)
     else Some (Inr (), w\<lparr>wk_stores := (wk_stores w)\<lparr>st_runs :=
            map (\<lambda>r. if ru_id r = run_id then f r else r) (st_runs (wk_stores w))\<rparr>\<rparr>))"

definition record_new :: "('q, 'g, 'c, 'p) work_env \<Rightarrow> uuid \<Rightarrow> (('q, 'g) worker, unit) prog" where
  "record_new env run_id = update_row env run_id (\<lambda>r. r\<lparr>ru_docs_new := ru_docs_new r + 1\<rparr>)"

definition record_updated :: "('q, 'g, 'c, 'p) work_env \<Rightarrow> uuid \<Rightarrow> (('q, 'g) worker, unit) prog" where
  "record_updated env run_id = update_row env run_id (\<lambda>r. r\<lparr>ru_docs_updated := ru_docs_updated r + 1\<rparr>)"

definition record_removed :: "('q, 'g, 'c, 'p) work_env \<Rightarrow> uuid \<Rightarrow> (('q, 'g) worker, unit) prog" where
  "record_removed env run_id = update_row env run_id (\<lambda>r. r\<lparr>ru_docs_removed := ru_docs_removed r + 1\<rparr>)"

definition record_error :: "('q, 'g, 'c, 'p) work_env \<Rightarrow> uuid \<Rightarrow> string \<Rightarrow> string \<Rightarrow> (('q, 'g) worker, unit) prog" where
  "record_error env run_id external_id error =
     update_row env run_id (\<lambda>r. r\<lparr>ru_errors := dict_set (ru_errors r) external_id error\<rparr>)"

definition tracker_finish :: "('q, 'g, 'c, 'p) work_env \<Rightarrow> uuid \<Rightarrow> bool \<Rightarrow> (('q, 'g) worker, unit) prog" where
  "tracker_finish env run_id had_errors =
     update_row env run_id (\<lambda>r. r\<lparr>ru_finished_at := Some (wv_clock env), ru_status := (if had_errors then Run_partial else Run_ok)\<rparr>)"

definition ensure_run :: "('q, 'g, 'c, 'p) work_env \<Rightarrow> uuid \<Rightarrow> (('q, 'g) worker, uuid) prog" where
  "ensure_run env source_id = (\<lambda>w.
     case wk_run_id w of
       Some i \<Rightarrow> Some (Inr i, w)
     | None \<Rightarrow> bind_p (tracker_start env source_id) (\<lambda>i w'. Some (Inr i, w'\<lparr>wk_run_id := Some i\<rparr>)) w)"

definition update_run :: "('q, 'g, 'c, 'p) work_env \<Rightarrow> process_result \<Rightarrow> (('q, 'g) worker, unit) prog" where
  "update_run env result =
     bind_p (ensure_run env (pr_source_id result)) (\<lambda>run_id.
       if pr_action result = ''created'' then record_new env run_id
       else if pr_action result = ''updated'' then record_updated env run_id
       else if pr_action result = ''deleted'' then record_removed env run_id
       else if pr_action result = ''error'' then (\<lambda>w.
         record_error env run_id (pr_external_id result)
           (case pr_error result of None \<Rightarrow> ''unknown error'' | Some m \<Rightarrow> if m = [] then ''unknown error'' else m)
           (w\<lparr>wk_error_count := wk_error_count w + 1\<rparr>))
       else ret_p ())"

definition mark_source_synced :: "('q, 'g, 'c, 'p) work_env \<Rightarrow> uuid \<Rightarrow> (('q, 'g) worker, unit) prog" where
  "mark_source_synced env source_id = (\<lambda>w.
     if \<not> wv_stamp_write env then Some (Inl (BackendError ''postgres''), w)
     else Some (Inr (), w\<lparr>wk_stores := (wk_stores w)\<lparr>st_sources :=
            map (\<lambda>x. if so_id x = source_id then x\<lparr>so_last_sync_at := Some (wv_clock env)\<rparr> else x) (st_sources (wk_stores w))\<rparr>\<rparr>))"

section \<open>Helpers\<close>

definition resolve_source_workspace :: "source_row \<Rightarrow> uuid option \<Rightarrow> uuid res" where
  "resolve_source_workspace source default_workspace_id =
     (case so_tenant_id source of
        Some t \<Rightarrow> Inr t
      | None \<Rightarrow> (case default_workspace_id of
                  Some d \<Rightarrow> Inr d
                | None \<Rightarrow> Inl (MissingWorkspaceError (so_name source))))"

definition resolve_entity_linker :: "string option \<Rightarrow> 'l option \<Rightarrow> 'l option" where
  "resolve_entity_linker env_value linker =
     (case linker of
        None \<Rightarrow> None
      | Some l \<Rightarrow>
          (case env_value of
             None \<Rightarrow> Some l
           | Some raw \<Rightarrow> if map lower_char (strip_by is_space raw) \<in> set TRUTHY_ENV_VALUES then Some l else None))"

definition to_operator_event :: "document_change_event \<Rightarrow> uuid \<Rightarrow> operator_event" where
  "to_operator_event event ws =
     \<lparr>op_source_id = dc_source_id event, op_source_type = dc_source_type event, op_external_id = dc_external_id event,
      op_uri = dc_uri event, op_action = dc_action event, op_workspace_id = ws,
      op_metadata = (case dc_metadata event of None \<Rightarrow> [] | Some m \<Rightarrow> m),
      op_topology_edges = (case dc_topology_edges event of None \<Rightarrow> [] | Some es \<Rightarrow> es)\<rparr>"

definition is_sync_marker :: "document_change_event \<Rightarrow> bool" where
  "is_sync_marker event \<longleftrightarrow> dc_external_id event = ''*'' \<or> starts ''sync://'' (dc_uri event)"

definition load_source_and_workspace ::
  "('q, 'g, 'c, 'p) work_env \<Rightarrow> document_change_event \<Rightarrow> (('q, 'g) worker, (source_row \<times> uuid) option) prog" where
  "load_source_and_workspace env event = (\<lambda>w.
     if \<not> wv_source_read env then Some (Inl (BackendError ''postgres''), w)
     else case find (\<lambda>x. so_id x = dc_source_id event) (st_sources (wk_stores w)) of
       None \<Rightarrow> Some (Inr None, w)
     | Some source \<Rightarrow>
         (case resolve_source_workspace source None of
            Inl _ \<Rightarrow> Some (Inr None, w)
          | Inr ws \<Rightarrow> Some (Inr (Some (source, ws)), w)))"

definition gate_evaluate ::
  "'c worker_conf \<Rightarrow> ('q, 'g, 'c, 'p) work_env \<Rightarrow> uuid \<Rightarrow> document_change_event \<Rightarrow> (('q, 'g) worker, dedup_decision) prog" where
  "gate_evaluate conf env ws event = (\<lambda>w.
     if \<not> wv_gate_session env \<and> gated (wc_dedup conf) (dc_source_type event) then Some (Inl (BackendError ''postgres''), w)
     else case evaluate (wc_dedup conf) ws event (wv_now env) (wk_emitters w) of
            Inl e \<Rightarrow> Some (Inl e, w)
          | Inr (decision, tab) \<Rightarrow> Some (Inr decision, w\<lparr>wk_emitters := tab\<rparr>))"

section \<open>The operator bridge\<close>

definition maybe_route_operator_graph ::
  "'c worker_conf \<Rightarrow> ('q, 'g, 'c, 'p) work_env \<Rightarrow> document_change_event \<Rightarrow> process_result \<Rightarrow> uuid
   \<Rightarrow> (('q, 'g) worker, process_result) prog" where
  "maybe_route_operator_graph conf env event result ws =
     (if \<not> wc_graph_store conf then ret_p result
      else if dc_source_type event \<noteq> OPERATOR_SOURCE_TYPE then ret_p result
      else if pr_action result \<notin> {''created'', ''updated''} then ret_p result
      else case dc_metadata event of
             None \<Rightarrow> ret_p result
           | Some [] \<Rightarrow> ret_p result
           | Some _ \<Rightarrow> (\<lambda>w.
               case route_operator_event_to_graph (wv_uuid5 env) (wv_row_id env) (wv_edge_id env) (wv_now env) True
                      (wv_outbox_commit env) (\<lambda>_ _. Inr ()) (to_operator_event event ws) (wk_outbox w) of
                 (Inl exc, _) \<Rightarrow> Some (Inr (result\<lparr>pr_action := ''error'', pr_error := Some (wv_exn_str env exc)\<rparr>), w)
               | (Inr _, rows) \<Rightarrow> Some (Inr result, w\<lparr>wk_outbox := rows\<rparr>)))"

section \<open>Sync markers\<close>

text \<open>The pipeline the worker builds for a message, and the run of the refs in the order they finish.\<close>

definition message_pipeline ::
  "'c worker_conf \<Rightarrow> ('q, 'g, 'c, 'p) work_env \<Rightarrow> 'c connector \<Rightarrow> nat \<Rightarrow> ('q, 'g, 'c, 'p) penv" where
  "message_pipeline conf env connector i =
     (wv_pipe env i)\<lparr>pv_fetch := cn_fetch connector, pv_linker := resolve_entity_linker (wc_linking_env conf) (pv_linker (wv_pipe env i))\<rparr>"

fun run_refs ::
  "(nat \<Rightarrow> ('q, 'g, 'c, 'p) penv) \<Rightarrow> document_change_event \<Rightarrow> 'c \<Rightarrow> secrets \<Rightarrow> uuid \<Rightarrow> uuid option \<Rightarrow> document_ref list
   \<Rightarrow> nat list \<Rightarrow> (('q, 'g) stores, (nat \<times> process_result) list) prog" where
  "run_refs pipe event config secrets ws run_id refs [] = ret_p []"
| "run_refs pipe event config secrets ws run_id refs (i # order) =
     bind_p (run_ref (pipe i) event (refs ! i) config secrets ws run_id) (\<lambda>r.
     bind_p (run_refs pipe event config secrets ws run_id refs order) (\<lambda>rs. ret_p ((i, r) # rs)))"

definition fan_out_refs ::
  "(nat \<Rightarrow> ('q, 'g, 'c, 'p) penv) \<Rightarrow> document_change_event \<Rightarrow> 'c \<Rightarrow> secrets \<Rightarrow> uuid \<Rightarrow> uuid option \<Rightarrow> document_ref list
   \<Rightarrow> nat list \<Rightarrow> (('q, 'g) stores, process_result list) prog" where
  "fan_out_refs pipe event config secrets ws run_id refs order =
     bind_p (run_refs pipe event config secrets ws run_id refs
              (if mset order = mset [0..<length refs] then order else [0..<length refs])) (\<lambda>rs.
       ret_p (map snd (order_by fst rs)))"

definition process_sync_event ::
  "'c worker_conf \<Rightarrow> ('q, 'g, 'c, 'p) work_env \<Rightarrow> document_change_event \<Rightarrow> 'c connector \<Rightarrow> 'c \<Rightarrow> secrets \<Rightarrow> uuid
   \<Rightarrow> (('q, 'g) worker, process_result) prog" where
  "process_sync_event conf env event connector config secrets ws = (\<lambda>w.
     case cn_discover connector config secrets of
       Inl NotImplementedError \<Rightarrow>
         on_stores (run_ref (message_pipeline conf env connector 0) event (bare_ref (dc_external_id event) (dc_uri event))
           config secrets ws (wk_run_id w)) w
     | Inl exc \<Rightarrow> Some (Inl exc, w)
     | Inr refs \<Rightarrow>
         bind_p (on_stores (fan_out_refs (message_pipeline conf env connector) event config secrets ws (wk_run_id w) refs (wv_order env))) (\<lambda>results.
           let error_count = length (filter (\<lambda>r. pr_action r = ''error'') results);
               action = (if error_count = length results \<and> results \<noteq> [] then ''error'' else ''updated'')
           in ret_p (result_of event (dc_external_id event) action 0 None)) w)"

section \<open>One message\<close>

definition process_accepted ::
  "'c worker_conf \<Rightarrow> ('q, 'g, 'c, 'p) work_env \<Rightarrow> document_change_event \<Rightarrow> source_row \<Rightarrow> uuid
   \<Rightarrow> (('q, 'g) worker, process_result) prog" where
  "process_accepted conf env event source ws =
     bind_p (res_p (wc_registry conf (dc_source_type event))) (\<lambda>connector.
     case cn_validate connector (so_config source) of
       None \<Rightarrow> ret_p (result_of event (dc_external_id event) ''error'' 0 (Some ''source_config_invalid''))
     | Some config \<Rightarrow>
         bind_p (res_p (resolve_secrets (wv_environ env) (wv_read_text env) (so_secrets_ref source))) (\<lambda>secrets.
         if is_sync_marker event then process_sync_event conf env event connector config secrets ws
         else (\<lambda>w.
           bind_p (on_stores (run_ref (message_pipeline conf env connector 0) event
                     (bare_ref (dc_external_id event) (dc_uri event)) config secrets ws (wk_run_id w))) (\<lambda>result.
             maybe_route_operator_graph conf env event result ws) w)))"

definition dropped_by_gate ::
  "'c worker_conf \<Rightarrow> ('q, 'g, 'c, 'p) work_env \<Rightarrow> document_change_event \<Rightarrow> uuid \<Rightarrow> (('q, 'g) worker, bool) prog" where
  "dropped_by_gate conf env event ws =
     (if dc_action event \<noteq> Deleted \<and> \<not> is_sync_marker event
      then bind_p (gate_evaluate conf env ws event) (\<lambda>d. ret_p (de_action d = Drop))
      else ret_p False)"

definition process_document ::
  "'c worker_conf \<Rightarrow> ('q, 'g, 'c, 'p) work_env \<Rightarrow> document_change_event \<Rightarrow> (('q, 'g) worker, process_result) prog" where
  "process_document conf env event =
     bind_p (load_source_and_workspace env event) (\<lambda>loaded.
       case loaded of
         None \<Rightarrow> ret_p (result_of event (dc_external_id event) ''error'' 0
                   (Some ''workspace_resolution_failed: tenant_id is null or source not found''))
       | Some (source, ws) \<Rightarrow>
           bind_p (dropped_by_gate conf env event ws) (\<lambda>dropped.
             if dropped then ret_p (result_of event (dc_external_id event) DEDUP_DROP_ACTION 0 None)
             else process_accepted conf env event source ws))"

definition settle_doc :: "('q, 'g, 'c, 'p) work_env \<Rightarrow> settle \<Rightarrow> (('q, 'g) worker, settle) prog" where
  "settle_doc env k = (if wv_settles env k then ret_p k else raise_p (BackendError ''nats''))"

definition worker_body ::
  "'c worker_conf \<Rightarrow> ('q, 'g, 'c, 'p) work_env \<Rightarrow> document_change_event \<Rightarrow> (('q, 'g) worker, settle) prog" where
  "worker_body conf env event =
     bind_p (try_p (bind_p (process_document conf env event) (\<lambda>r. ret_p (Inr r)))
               (\<lambda>_. bind_p (settle_doc env (Nak None)) (\<lambda>k. ret_p (Inl k)))) (\<lambda>outcome.
       case outcome of
         Inl k \<Rightarrow> ret_p k
       | Inr result \<Rightarrow>
           then_p (update_run env result)
             (if pr_action result = ''error'' then settle_doc env (Nak None)
              else then_p (mark_source_synced env (pr_source_id result)) (settle_doc env Ack)))"

text \<open>One iteration of \<^verbatim>\<open>start\<close>: the settlement of the message, none when the loop is over.\<close>

definition worker_step ::
  "'c worker_conf \<Rightarrow> ('q, 'g, 'c, 'p) work_env \<Rightarrow> document_change_event \<Rightarrow> ('q, 'g) worker
   \<Rightarrow> (settle option \<times> ('q, 'g) worker) option" where
  "worker_step conf env event w =
     (if \<not> wk_running w then Some (None, w)
      else case worker_body conf env event w of
             None \<Rightarrow> None
           | Some (Inl _, w') \<Rightarrow> Some (None, w'\<lparr>wk_running := False\<rparr>)
           | Some (Inr k, w') \<Rightarrow> Some (Some k, w'))"

definition worker_stop :: "('q, 'g, 'c, 'p) work_env \<Rightarrow> (('q, 'g) worker, unit) prog" where
  "worker_stop env = (\<lambda>w.
     let w1 = w\<lparr>wk_running := False\<rparr>
     in case wk_run_id w of
          None \<Rightarrow> Some (Inr (), w1)
        | Some i \<Rightarrow> tracker_finish env i (0 < wk_error_count w) w1)"

section \<open>Structure of a step\<close>

lemma load_cases:
  assumes "load_source_and_workspace env event w = Some (r, w')"
  obtains (failed) e where "r = Inl e" "w' = w"
  | (refused) "r = Inr None" "w' = w"
  | (loaded) source ws where "r = Inr (Some (source, ws))" "w' = w"
      "find (\<lambda>x. so_id x = dc_source_id event) (st_sources (wk_stores w)) = Some source" "so_tenant_id source = Some ws"
  using assms
  by (auto simp: load_source_and_workspace_def resolve_source_workspace_def split: if_splits option.splits)

lemma gate_frame:
  assumes "dropped_by_gate conf env event ws w = Some (r, w')"
  shows "\<exists>tab. w' = w\<lparr>wk_emitters := tab\<rparr>"
  using assms
  by (auto simp: dropped_by_gate_def gate_evaluate_def bind_p_eq ret_p_def split: if_splits sum.splits intro: exI [of _ "wk_emitters w"])

lemma gate_drops:
  assumes "dropped_by_gate conf env event ws w = Some (Inr True, w')"
  shows "dc_action event \<noteq> Deleted \<and> (\<exists>d. evaluate (wc_dedup conf) ws event (wv_now env) (wk_emitters w) = Inr (d, wk_emitters w') \<and> de_action d = Drop)"
  using assms by (auto simp: dropped_by_gate_def gate_evaluate_def bind_p_eq ret_p_def split: if_splits sum.splits)

lemma on_stores_eq:
  "on_stores m w = Some (r, w') \<longleftrightarrow> (\<exists>s. m (wk_stores w) = Some (r, s) \<and> w' = w\<lparr>wk_stores := s\<rparr>)"
  by (auto simp: on_stores_def split: option.splits)

lemma outbox_same: "\<exists>rows. (w :: ('q, 'g) worker) = w\<lparr>wk_outbox := rows\<rparr>"
  by (rule exI [of _ "wk_outbox w"]) simp

lemma route_frame:
  assumes "maybe_route_operator_graph conf env event result ws w = Some (r, w')"
  obtains p rows where "r = Inr p" "w' = w\<lparr>wk_outbox := rows\<rparr>" "pr_action p \<noteq> ''error'' \<Longrightarrow> p = result"
proof -
  have "\<exists>p rows. r = Inr p \<and> w' = w\<lparr>wk_outbox := rows\<rparr> \<and> (pr_action p \<noteq> ''error'' \<longrightarrow> p = result)"
    using assms by (auto simp: maybe_route_operator_graph_def ret_p_def outbox_same
        split: if_splits option.splits list.splits sum.splits prod.splits)
  then show thesis using that by blast
qed

text \<open>A result that is no error, of an event that is no sync marker: the gate dropped it or the pipeline ran.\<close>

lemma process_single:
  assumes "process_document conf env event w = Some (Inr p, w')" and "\<not> is_sync_marker event" and "pr_action p \<noteq> ''error''"
  obtains (dropped) source ws d where "dc_action event \<noteq> Deleted" "so_tenant_id source = Some ws"
      "find (\<lambda>x. so_id x = dc_source_id event) (st_sources (wk_stores w)) = Some source"
      "evaluate (wc_dedup conf) ws event (wv_now env) (wk_emitters w) = Inr (d, wk_emitters w')" "de_action d = Drop"
      "wk_stores w' = wk_stores w"
  | (ran) source ws connector config secrets where "so_tenant_id source = Some ws"
      "find (\<lambda>x. so_id x = dc_source_id event) (st_sources (wk_stores w)) = Some source"
      "wc_registry conf (dc_source_type event) = Inr connector" "cn_validate connector (so_config source) = Some config"
      "resolve_secrets (wv_environ env) (wv_read_text env) (so_secrets_ref source) = Inr secrets"
      "run_ref (message_pipeline conf env connector 0) event (bare_ref (dc_external_id event) (dc_uri event))
        config secrets ws (wk_run_id w) (wk_stores w) = Some (Inr p, wk_stores w')"
proof -
  obtain loaded w1 where l: "load_source_and_workspace env event w = Some (Inr loaded, w1)"
    using assms(1) unfolding process_document_def bind_p_Inr by blast
  then show thesis
  proof (cases rule: load_cases)
    case (loaded source ws)
    then have b: "bind_p (dropped_by_gate conf env event ws) (\<lambda>dropped.
        if dropped then ret_p (result_of event (dc_external_id event) DEDUP_DROP_ACTION 0 None)
        else process_accepted conf env event source ws) w = Some (Inr p, w')"
      using assms(1) l by (simp add: process_document_def bind_p_def)
    then obtain dropped w2 where g: "dropped_by_gate conf env event ws w = Some (Inr dropped, w2)"
      and k: "(if dropped then ret_p (result_of event (dc_external_id event) DEDUP_DROP_ACTION 0 None)
          else process_accepted conf env event source ws) w2 = Some (Inr p, w')"
      unfolding bind_p_Inr by blast
    obtain tab where w2: "w2 = w\<lparr>wk_emitters := tab\<rparr>" using gate_frame [OF g] by blast
    show thesis
    proof (cases dropped)
      case True
      then have "w' = w2" using k by (simp add: ret_p_def)
      then show thesis using gate_drops [of conf env event ws w w2] g True loaded(3,4) w2 by (auto intro: that(1))
    next
      case False
      then have a: "process_accepted conf env event source ws w2 = Some (Inr p, w')" using k by simp
      then obtain connector where c: "wc_registry conf (dc_source_type event) = Inr connector"
        by (auto simp: process_accepted_def bind_p_Inr res_p_def)
      obtain config where v: "cn_validate connector (so_config source) = Some config"
        using a assms(3) by (auto simp: process_accepted_def c ret_p_def result_of_def split: option.splits)
      obtain secrets where sec: "resolve_secrets (wv_environ env) (wv_read_text env) (so_secrets_ref source) = Inr secrets"
        using a by (auto simp: process_accepted_def c v bind_p_Inr res_p_def)
      obtain q w3 where r: "on_stores (run_ref (message_pipeline conf env connector 0) event
          (bare_ref (dc_external_id event) (dc_uri event)) config secrets ws (wk_run_id w2)) w2 = Some (Inr q, w3)"
        and m: "maybe_route_operator_graph conf env event q ws w3 = Some (Inr p, w')"
        using a assms(2) by (auto simp: process_accepted_def c v sec bind_p_Inr)
      obtain rows where "w' = w3\<lparr>wk_outbox := rows\<rparr>" "p = q" using m assms(3) by (auto elim: route_frame)
      then show thesis using that(2) [OF loaded(4,3) c v sec] r w2 by (auto simp: on_stores_eq)
    qed
  qed (use assms(1,3) l in \<open>auto simp: process_document_def bind_p_def ret_p_def result_of_def\<close>)
qed

text \<open>The bookkeeping after a message leaves the documents, the chunks and the other stores alone.\<close>

definition same_content :: "('q, 'g) worker \<Rightarrow> ('q, 'g) worker \<Rightarrow> bool" where
  "same_content w w' \<longleftrightarrow> st_documents (wk_stores w') = st_documents (wk_stores w) \<and> st_chunks (wk_stores w') = st_chunks (wk_stores w)
     \<and> st_vectors (wk_stores w') = st_vectors (wk_stores w) \<and> st_graph (wk_stores w') = st_graph (wk_stores w)
     \<and> wk_outbox w' = wk_outbox w \<and> wk_emitters w' = wk_emitters w"

lemma update_row_content: "update_row env i f w = Some (r, w') \<Longrightarrow> same_content w w'"
  by (auto simp: update_row_def same_content_def split: if_splits)

lemma ensure_run_content: "ensure_run env src w = Some (r, w') \<Longrightarrow> same_content w w'"
  by (auto simp: ensure_run_def tracker_start_def bind_p_def same_content_def Let_def split: if_splits option.splits)

lemma same_content_trans: "same_content w w' \<Longrightarrow> same_content w' w'' \<Longrightarrow> same_content w w''"
  by (simp add: same_content_def)

lemma same_content_count [simp]: "same_content (w\<lparr>wk_error_count := n\<rparr>) w' = same_content w w'"
  by (simp add: same_content_def)

lemma keeps_content: "(\<And>w r w'. m w = Some (r, w') \<Longrightarrow> same_content w w') \<Longrightarrow> keeps_p (same_content v) m"
  by (rule keeps_pI) (blast intro: same_content_trans)

lemma record_content:
  "keeps_p (same_content v) (record_new env i)" "keeps_p (same_content v) (record_updated env i)"
  "keeps_p (same_content v) (record_removed env i)"
  "keeps_p (same_content v) (\<lambda>w. record_error env i ext m (w\<lparr>wk_error_count := Suc (wk_error_count w)\<rparr>))"
  unfolding record_new_def record_updated_def record_removed_def record_error_def
  by (rule keeps_content, drule update_row_content, simp)+

lemma update_run_content:
  assumes "update_run env p w = Some (r, w')"
  shows "same_content w w'"
proof -
  have "keeps_p (same_content w) (update_run env p)"
    unfolding update_run_def
    by (rule keeps_p_bind, rule keeps_content, erule ensure_run_content) (simp add: record_content keeps_p_intros)
  then show ?thesis using keeps_pD [of "same_content w"] assms by (auto simp: same_content_def)
qed

lemma mark_synced_content: "mark_source_synced env src w = Some (r, w') \<Longrightarrow> same_content w w'"
  by (auto simp: mark_source_synced_def same_content_def split: if_splits)

lemma worker_body_runs:
  "process_document conf env event w = None \<Longrightarrow> worker_body conf env event w = None"
  "process_document conf env event w = Some (Inl e, w1) \<Longrightarrow> worker_body conf env event w = settle_doc env (Nak None) w1"
  "process_document conf env event w = Some (Inr p, w1) \<Longrightarrow> worker_body conf env event w =
     then_p (update_run env p)
       (if pr_action p = ''error'' then settle_doc env (Nak None)
        else then_p (mark_source_synced env (pr_source_id p)) (settle_doc env Ack)) w1"
  by (simp_all add: worker_body_def bind_p_def try_p_def settle_doc_def ret_p_def raise_p_def)

lemma settle_doc_Inr: "settle_doc env k w = Some (Inr k', w') \<longleftrightarrow> wv_settles env k \<and> k' = k \<and> w' = w"
  by (auto simp: settle_doc_def ret_p_def raise_p_def)

lemma acked_result:
  assumes "worker_step conf env event w = Some (Some Ack, w')"
  obtains p w1 where "process_document conf env event w = Some (Inr p, w1)" "pr_action p \<noteq> ''error''" "same_content w1 w'"
proof -
  have body: "worker_body conf env event w = Some (Inr Ack, w')"
    using assms by (auto simp: worker_step_def split: if_splits option.splits sum.splits prod.splits)
  then obtain r w1 where d: "process_document conf env event w = Some (r, w1)"
    using worker_body_runs(1) [of conf env event w] by (cases "process_document conf env event w") auto
  then obtain p where p: "r = Inr p"
    using body worker_body_runs(2) [of conf env event w] by (cases r) (auto simp: settle_doc_Inr)
  have k: "then_p (update_run env p)
       (if pr_action p = ''error'' then settle_doc env (Nak None)
        else then_p (mark_source_synced env (pr_source_id p)) (settle_doc env Ack)) w1 = Some (Inr Ack, w')"
    using body worker_body_runs(3) d p by metis
  then have e: "pr_action p \<noteq> ''error''" by (auto simp: then_p_def bind_p_Inr settle_doc_Inr)
  obtain x w2 y where u: "update_run env p w1 = Some (Inr x, w2)" "mark_source_synced env (pr_source_id p) w2 = Some (Inr y, w')"
    using k e by (auto simp: then_p_def bind_p_Inr settle_doc_Inr)
  have "same_content w1 w'" using update_run_content [OF u(1)] mark_synced_content [OF u(2)] by (rule same_content_trans)
  then show thesis using that [of p w1] d p e by simp
qed

section \<open>Acknowledged events\<close>

lemma execute_ref_delete:
  assumes "execute_ref env event ref config secrets ws run_id s = Some (Inr p, s')" and "dc_action event = Deleted"
  obtains found where "writer_tombstone (pv_writer env) (dc_source_id event) (dc_external_id event) (Some ws) s = Some (Inr found, s')"
  using assms by (auto simp: execute_ref_def handle_delete_def bind_p_Inr ret_p_def)

text \<open>The row has the hash of what the source's connector fetches with the source's configuration and secrets.\<close>

definition stored_content ::
  "'c worker_conf \<Rightarrow> ('q, 'g, 'c, 'p) work_env \<Rightarrow> source_row \<Rightarrow> document_change_event \<Rightarrow> document_row \<Rightarrow> bool" where
  "stored_content conf env source event doc \<longleftrightarrow> (\<exists>connector config secrets fetched.
     wc_registry conf (dc_source_type event) = Inr connector \<and> cn_validate connector (so_config source) = Some config
     \<and> resolve_secrets (wv_environ env) (wv_read_text env) (so_secrets_ref source) = Inr secrets
     \<and> cn_fetch connector config secrets (bare_ref (dc_external_id event) (dc_uri event)) = Inr fetched
     \<and> dx_content_hash doc = pipeline_content_hash (wv_pipe env 0) (pv_decode (wv_pipe env 0) (fd_content_bytes fetched)))"

lemma message_pipeline_fields [simp]:
  "pv_fetch (message_pipeline conf env c i) = cn_fetch c" "pv_decode (message_pipeline conf env c i) = pv_decode (wv_pipe env i)"
  "pv_writer (message_pipeline conf env c i) = pv_writer (wv_pipe env i)" "pv_sha256 (message_pipeline conf env c i) = pv_sha256 (wv_pipe env i)"
  by (simp_all add: message_pipeline_def)

lemma index_args_fields [simp]:
  "da_source_id (index_args env event ref fetched t chunks ws r) = dc_source_id event"
  "da_external_id (index_args env event ref fetched t chunks ws r) = rf_external_id ref"
  "da_content_hash (index_args env event ref fetched t chunks ws r) = pipeline_content_hash env t"
  "da_run_id (index_args env event ref fetched t chunks ws r) = r" "da_chunks (index_args env event ref fetched t chunks ws r) = chunks"
  by (simp_all add: index_args_def)

lemma pipeline_content_hash_message [simp]: "pipeline_content_hash (message_pipeline conf env c i) t = pipeline_content_hash (wv_pipe env i) t"
  by (simp add: pipeline_content_hash_def)

text \<open>
  Claim C31: An acknowledged event is durable. When the worker acknowledges a change of a single
  document, then the dedup gate dropped it, or the document's row is in the table with the hash of
  the content that was fetched; for a deletion the row is tombstoned or there is none. This holds
  whatever the stores, the connector and the broker do.
\<close>

theorem acked_event_is_stored:
  assumes "rows_ok (wk_stores w)" and "worker_step conf env event w = Some (Some Ack, w')" and "\<not> is_sync_marker event"
  shows "if dc_action event = Deleted
    then (case find_document_row (dc_source_id event) (dc_external_id event) (st_documents (wk_stores w')) of
            Inr (Some doc) \<Rightarrow> dx_tombstoned_at doc \<noteq> None | Inr None \<Rightarrow> True | Inl _ \<Rightarrow> False)
    else (\<exists>ws d tab. evaluate (wc_dedup conf) ws event (wv_now env) (wk_emitters w) = Inr (d, tab) \<and> de_action d = Drop)
      \<or> (\<exists>source doc. source \<in> set (st_sources (wk_stores w)) \<and> so_id source = dc_source_id event
           \<and> find_document_row (dc_source_id event) (dc_external_id event) (st_documents (wk_stores w')) = Inr (Some doc)
           \<and> stored_content conf env source event doc)"
proof -
  obtain p w1 where d: "process_document conf env event w = Some (Inr p, w1)" and ok: "pr_action p \<noteq> ''error''"
    and same: "same_content w1 w'"
    using assms(2) by (rule acked_result)
  have docs: "st_documents (wk_stores w') = st_documents (wk_stores w1)" using same by (simp add: same_content_def)
  from d assms(3) ok show ?thesis
  proof (cases rule: process_single)
    case (dropped source ws g)
    then show ?thesis by auto
  next
    case (ran source ws connector config secrets)
    let ?env = "message_pipeline conf env connector 0" and ?ref = "bare_ref (dc_external_id event) (dc_uri event)"
    obtain p1 where x: "execute_ref ?env event ?ref config secrets ws (wk_run_id w) (wk_stores w) = Some (Inr p1, wk_stores w1)"
      using run_ref_ok [OF ran(6) ok] by blast
    show ?thesis
    proof (cases "dc_action event = Deleted")
      case True
      then obtain found where "writer_tombstone (pv_writer ?env) (dc_source_id event) (dc_external_id event) (Some ws) (wk_stores w)
          = Some (Inr found, wk_stores w1)"
        using x by (auto elim: execute_ref_delete)
      from tombstone_found [OF assms(1) this] True show ?thesis by (auto simp: docs split: if_splits)
    next
      case False
      obtain fetched chunks u s1 g where f: "cn_fetch connector config secrets ?ref = Inr fetched"
        and up: "upsert_document (pv_writer ?env) (index_args ?env event ?ref fetched (pv_decode ?env (fd_content_bytes fetched))
            chunks ws (wk_run_id w)) (wk_stores w) = Some (Inr u, s1)"
        and s1: "wk_stores w1 = s1\<lparr>st_graph := g\<rparr>"
        using execute_ref_document [OF x False] by (metis message_pipeline_fields(1))
      obtain doc where "find_document_row (dc_source_id event) (dc_external_id event) (st_documents s1) = Inr (Some doc)"
        "dx_content_hash doc = pipeline_content_hash (wv_pipe env 0) (pv_decode (wv_pipe env 0) (fd_content_bytes fetched))"
        using upsert_document_found [OF assms(1) up] by (auto simp: bare_ref_def)
      then have row: "find_document_row (dc_source_id event) (dc_external_id event) (st_documents (wk_stores w')) = Inr (Some doc)"
        "stored_content conf env source event doc"
        using f ran(3-5) unfolding docs s1 stored_content_def by (simp, blast)
      have "source \<in> set (st_sources (wk_stores w))" "so_id source = dc_source_id event"
        using ran(2) by (auto simp: find_Some_iff)
      then show ?thesis using False row by auto
    qed
  qed
qed

text \<open>
  An event of an unknown source ends the worker. When the first message a worker handles
  names a source that is not in the table, the result is an error, the run row for it violates the
  foreign key, the exception leaves the loop, the message is neither acknowledged nor rejected, and
  every later message is ignored.
\<close>

theorem unknown_source_ends_worker:
  assumes "wk_running w" and "wk_run_id w = None" and "wv_source_read env"
    and "dc_source_id event \<notin> so_id ` set (st_sources (wk_stores w))"
  shows "worker_step conf env event w = Some (None, w\<lparr>wk_running := False\<rparr>)
    \<and> worker_step conf env' event' (w\<lparr>wk_running := False\<rparr>) = Some (None, w\<lparr>wk_running := False\<rparr>)"
proof -
  have none: "find (\<lambda>x. so_id x = dc_source_id event) (st_sources (wk_stores w)) = None"
    using assms(4) by (force simp: find_None_iff)
  define p where "p = result_of event (dc_external_id event) ''error'' 0 (Some ''workspace_resolution_failed: tenant_id is null or source not found'')"
  have "process_document conf env event w = Some (Inr p, w)"
    using assms(3) none by (simp add: process_document_def load_source_and_workspace_def bind_p_def ret_p_def p_def)
  moreover have "\<exists>e. ensure_run env (pr_source_id p) w = Some (Inl e, w)"
    using assms(2,4) by (simp add: ensure_run_def tracker_start_def bind_p_def p_def result_of_def)
  then obtain e where "update_run env p w = Some (Inl e, w)" by (auto simp: update_run_def bind_p_def)
  ultimately show ?thesis
    using assms(1) worker_body_runs(3) [of conf env event w p w] by (simp add: worker_step_def then_p_def bind_p_def)
qed

section \<open>Operator payloads\<close>

lemma decoded_document_bare:
  assumes "decode_payload pyd ty data = Inr (PDoc event)"
  shows "dc_metadata event = None \<and> dc_topology_edges event = None"
  using assms
  by (cases ty) (auto simp: decode_payload_def bind_res_eq_Inr validate_document_def split: option.splits)

lemma process_outbox:
  assumes "dc_metadata event = None"
  shows "keeps_p (\<lambda>w. wk_outbox w = ob) (process_document conf env event)"
proof -
  have route: "maybe_route_operator_graph conf env event r ws = ret_p r" for r ws
    using assms by (simp add: maybe_route_operator_graph_def)
  have sync: "keeps_p (\<lambda>w. wk_outbox w = ob) (process_sync_event conf env event c cf sec ws)" for c cf sec ws
    by (rule keeps_pI) (auto simp: process_sync_event_def on_stores_eq bind_p_eq ret_p_def Let_def split: sum.splits py_exn.splits)
  have single: "keeps_p (\<lambda>w. wk_outbox w = ob) (\<lambda>w. bind_p (on_stores (m (wk_run_id w))) ret_p w)" for m :: "uuid option \<Rightarrow> (('q, 'g) stores, process_result) prog"
    by (rule keeps_pI) (auto simp: on_stores_eq bind_p_eq ret_p_def)
  have accepted: "keeps_p (\<lambda>w. wk_outbox w = ob) (process_accepted conf env event source ws)" for source ws
    unfolding process_accepted_def route using sync single by (auto intro!: keeps_p_intros split: option.split)
  have load: "keeps_p (\<lambda>w. wk_outbox w = ob) (load_source_and_workspace env event)"
    by (rule keeps_pI) (auto elim: load_cases)
  have gate: "keeps_p (\<lambda>w. wk_outbox w = ob) (dropped_by_gate conf env event ws)" for ws
    by (rule keeps_pI) (auto dest!: gate_frame)
  show ?thesis unfolding process_document_def
    using load gate accepted by (auto intro!: keeps_p_intros split: option.split)
qed

lemma worker_step_content:
  assumes "worker_step conf env event w = Some (k, w')"
  shows "w' = w \<or> (\<exists>r w1. process_document conf env event w = Some (r, w1) \<and> same_content w1 w')"
proof (cases "wk_running w")
  case True
  obtain q w2 where b: "worker_body conf env event w = Some (q, w2)" "w' = w2 \<or> w' = w2\<lparr>wk_running := False\<rparr>"
    using assms True by (auto simp: worker_step_def split: option.splits sum.splits)
  then obtain r w1 where d: "process_document conf env event w = Some (r, w1)"
    using worker_body_runs(1) [of conf env event w] by (cases "process_document conf env event w") auto
  have settle: "settle_doc env j v = Some (z, v') \<Longrightarrow> v' = v" for j v z v'
    by (auto simp: settle_doc_def ret_p_def raise_p_def split: if_splits)
  have "same_content w1 w2"
  proof (cases r)
    case (Inl e)
    then show ?thesis using b(1) d worker_body_runs(2) [of conf env event w e w1] by (auto dest: settle simp: same_content_def)
  next
    case (Inr p)
    have parts: "keeps_p (same_content w1) (update_run env p)" "keeps_p (same_content w1) (mark_source_synced env (pr_source_id p))"
      "keeps_p (same_content w1) (settle_doc env j)" for j
      by (rule keeps_content, erule update_run_content, rule keeps_content, erule mark_synced_content,
          rule keeps_content, drule settle, simp add: same_content_def)
    have "keeps_p (same_content w1) (then_p (update_run env p)
       (if pr_action p = ''error'' then settle_doc env (Nak None)
        else then_p (mark_source_synced env (pr_source_id p)) (settle_doc env Ack)))"
      by (intro keeps_p_then parts) (simp add: keeps_p_then parts)
    then show ?thesis
      using keeps_pD [of "same_content w1"] b(1) d Inr worker_body_runs(3) [of conf env event w p w1] by (auto simp: same_content_def)
  qed
  then have "same_content w1 w'" using b(2) by (auto simp: same_content_def)
  then show ?thesis using d by blast
qed (use assms in \<open>simp add: worker_step_def\<close>)

text \<open>
  Claim C35: The payload of an operator never reaches the graph bridge. Whatever bytes arrive on the
  queue of document changes, the event they decode to has no metadata and no edges, so handling it
  writes no row to the outbox, in every environment and every configuration.
\<close>

theorem operator_payload_never_arrives:
  assumes "co_yield (process_raw pyd replaced dlq qc raw) = Some (PDoc event)"
    and "worker_step conf env event w = Some (k, w')"
  shows "dc_metadata event = None \<and> dc_topology_edges event = None \<and> wk_outbox w' = wk_outbox w"
proof -
  have "decode_payload pyd (qc_payload_type qc) (rm_data raw) = Inr (PDoc event)"
    using assms(1) by (auto simp: process_raw_def consumer_route_to_dlq_def Let_def split: if_splits sum.splits)
  then have bare: "dc_metadata event = None \<and> dc_topology_edges event = None" by (rule decoded_document_bare)
  have "wk_outbox w1 = wk_outbox w" if "process_document conf env event w = Some (r, w1)" for r w1
    by (rule keeps_pD [OF process_outbox [of event "wk_outbox w"] _ that]) (use bare in simp_all)
  then show ?thesis using worker_step_content [OF assms(2)] bare by (auto simp: same_content_def)
qed

section \<open>Sync markers\<close>

text \<open>The message can be processed: its source has a workspace, a connector, a valid configuration and secrets.\<close>

definition ready ::
  "'c worker_conf \<Rightarrow> ('q, 'g, 'c, 'p) work_env \<Rightarrow> document_change_event \<Rightarrow> ('q, 'g) worker \<Rightarrow> source_row \<Rightarrow> uuid
   \<Rightarrow> 'c connector \<Rightarrow> 'c \<Rightarrow> secrets \<Rightarrow> bool" where
  "ready conf env event w source ws connector config secrets \<longleftrightarrow> wv_source_read env
     \<and> find (\<lambda>x. so_id x = dc_source_id event) (st_sources (wk_stores w)) = Some source \<and> so_tenant_id source = Some ws
     \<and> wc_registry conf (dc_source_type event) = Inr connector \<and> cn_validate connector (so_config source) = Some config
     \<and> resolve_secrets (wv_environ env) (wv_read_text env) (so_secrets_ref source) = Inr secrets"

lemma process_ready:
  assumes "ready conf env event w source ws connector config secrets"
  shows "process_document conf env event w = bind_p (dropped_by_gate conf env event ws) (\<lambda>dropped.
      if dropped then ret_p (result_of event (dc_external_id event) DEDUP_DROP_ACTION 0 None)
      else process_accepted conf env event source ws) w"
  using assms
  by (simp add: process_document_def ready_def load_source_and_workspace_def resolve_source_workspace_def bind_p_def)

lemma process_ready_sync:
  assumes "ready conf env event w source ws connector config secrets" and "is_sync_marker event"
  shows "process_document conf env event w = process_sync_event conf env event connector config secrets ws w"
  using assms unfolding process_ready [OF assms(1)]
  by (simp add: dropped_by_gate_def process_accepted_def ready_def)

lemma process_sync_refs:
  assumes "cn_discover connector config secrets = Inr refs"
    and "fan_out_refs (message_pipeline conf env connector) event config secrets ws (wk_run_id w) refs (wv_order env) (wk_stores w)
      = Some (Inr results, s1)"
  shows "process_sync_event conf env event connector config secrets ws w = Some (Inr (result_of event (dc_external_id event)
      (if length (filter (\<lambda>r. pr_action r = ''error'') results) = length results \<and> results \<noteq> [] then ''error'' else ''updated'') 0 None),
      w\<lparr>wk_stores := s1\<rparr>)"
  using assms by (simp add: process_sync_event_def on_stores_def bind_p_def ret_p_def Let_def)

lemma some_ok_not_all_errors:
  "r \<in> set results \<Longrightarrow> pr_action r \<noteq> ''error'' \<Longrightarrow> length (filter (\<lambda>r. pr_action r = ''error'') results) \<noteq> length results"
  using length_filter_less [of r results "\<lambda>r. pr_action r = ''error''"] by auto

text \<open>
  Claim C34: A sync with failed documents is acknowledged. When one of the discovered documents was
  processed, the sync marker is acknowledged whatever happened to the others: the source is stamped
  as synced, the run counts one updated document, and no error of a document is recorded in the run
  or in the error count from which the run's final status is computed.
\<close>

theorem partial_sync_is_acked:
  assumes "ready conf env event w source ws connector config secrets" and "is_sync_marker event"
    and "cn_discover connector config secrets = Inr refs"
    and "fan_out_refs (message_pipeline conf env connector) event config secrets ws (wk_run_id w) refs (wv_order env) (wk_stores w)
      = Some (Inr results, s1)"
    and "r \<in> set results" and "pr_action r \<noteq> ''error''"
    and "wk_running w" and "wk_run_id w = Some i" and "wv_run_write env" and "wv_stamp_write env" and "wv_settles env Ack"
  shows "\<exists>w'. worker_step conf env event w = Some (Some Ack, w') \<and> wk_error_count w' = wk_error_count w
    \<and> map ru_errors (st_runs (wk_stores w')) = map ru_errors (st_runs s1)
    \<and> map ru_docs_updated (filter (\<lambda>x. ru_id x = i) (st_runs (wk_stores w')))
      = map (\<lambda>x. ru_docs_updated x + 1) (filter (\<lambda>x. ru_id x = i) (st_runs s1))
    \<and> list_all (\<lambda>x. so_id x = dc_source_id event \<longrightarrow> so_last_sync_at x = Some (wv_clock env)) (st_sources (wk_stores w'))"
proof -
  define p where "p = result_of event (dc_external_id event) ''updated'' 0 None"
  have d: "process_document conf env event w = Some (Inr p, w\<lparr>wk_stores := s1\<rparr>)"
    using process_ready_sync [OF assms(1,2)] process_sync_refs [OF assms(3,4)] some_ok_not_all_errors [OF assms(5,6)]
    by (simp add: p_def)
  define w2 where "w2 = w\<lparr>wk_stores := s1\<lparr>st_runs := map (\<lambda>x. if ru_id x = i then x\<lparr>ru_docs_updated := ru_docs_updated x + 1\<rparr> else x) (st_runs s1)\<rparr>\<rparr>"
  have u: "update_run env p (w\<lparr>wk_stores := s1\<rparr>) = Some (Inr (), w2)"
    using assms(8,9) by (simp add: update_run_def ensure_run_def bind_p_def record_updated_def update_row_def w2_def p_def result_of_def)
  define w3 where "w3 = w2\<lparr>wk_stores := (wk_stores w2)\<lparr>st_sources :=
      map (\<lambda>x. if so_id x = dc_source_id event then x\<lparr>so_last_sync_at := Some (wv_clock env)\<rparr> else x) (st_sources s1)\<rparr>\<rparr>"
  have m: "mark_source_synced env (pr_source_id p) w2 = Some (Inr (), w3)"
    using assms(10) by (simp add: mark_source_synced_def w3_def w2_def p_def result_of_def)
  have "worker_step conf env event w = Some (Some Ack, w3)"
    using assms(7,11) worker_body_runs(3) [OF d] u m
    by (simp add: worker_step_def then_p_def bind_p_def settle_doc_def ret_p_def p_def result_of_def)
  moreover have "map ru_errors (st_runs (wk_stores w3)) = map ru_errors (st_runs s1)" by (simp add: w3_def w2_def)
  moreover have "map ru_docs_updated (filter (\<lambda>x. ru_id x = i) (map (\<lambda>x. if ru_id x = i then x\<lparr>ru_docs_updated := ru_docs_updated x + 1\<rparr> else x) rs))
      = map (\<lambda>x. ru_docs_updated x + 1) (filter (\<lambda>x. ru_id x = i) rs)" for rs by (induction rs) auto
  ultimately show ?thesis by (intro exI [of _ w3]) (auto simp: w3_def w2_def list_all_iff)
qed

lemma operator_owned_dropped:
  assumes "gated cfg EMITTER_AGENTIC" and "dd_ttl_seconds cfg = None" and "operator_holds (ws, dc_external_id event) tab"
    and "dc_source_type event = EMITTER_AGENTIC"
  obtains d tab' where "evaluate cfg ws event now tab = Inr (d, tab')" "de_action d = Drop"
proof -
  obtain r where inv: "dedup_inv tab" and r: "map_of tab (ws, dc_external_id event) = Some r" "er_authority r = EMITTER_OPERATOR"
    using assms(3) by (auto simp: operator_holds_def)
  obtain d tab' where dec: "decide_in_session None ws (dc_external_id event) EMITTER_AGENTIC now
      (dict_get tab (ws, dc_external_id event)) tab = (d, tab')" by fastforce
  have "de_action d = Drop"
    using decide_spec [OF inv _ dec] r by (simp add: gate_spec_def is_k8s_emitter_def expired_def)
  moreover have "evaluate cfg ws event now tab = Inr (d, tab')"
    using evaluate_gated [of cfg event ws now tab] assms(1,2,4) dec by (simp add: evaluate_in_session_def cutoff_of_def)
  ultimately show thesis using that by blast
qed

lemma fan_out_one:
  assumes "run_ref (pipe 0) event ref config secrets ws run_id s = Some (Inr p, s1)"
  shows "fan_out_refs pipe event config secrets ws run_id [ref] order s = Some (Inr [p], s1)"
proof -
  have "(if mset order = mset [0..<length [ref]] then order else [0..<length [ref]]) = [0]" by auto
  then show ?thesis
    using assms by (simp add: fan_out_refs_def bind_p_def ret_p_def order_by_def)
qed

text \<open>
  Claim C33: A sync bypasses the dedup gate. For a resource that the operator owns for good, an event
  of the agentic emitter is dropped and nothing is written; but a sync marker of the same source
  that discovers the same resource writes the emitter's content into the table and leaves the
  gate's table alone.
\<close>

theorem sync_bypasses_gate:
  assumes "ready conf env event w source ws connector config secrets" and "rows_ok (wk_stores w)"
    and "dc_source_type event = EMITTER_AGENTIC" and "dc_action event \<noteq> Deleted" and "\<not> is_sync_marker event"
    and "gated (wc_dedup conf) EMITTER_AGENTIC" and "dd_ttl_seconds (wc_dedup conf) = None" and "wv_gate_session env"
    and "operator_holds (ws, dc_external_id event) (wk_emitters w)"
    and "cn_discover connector config secrets = Inr [ref]" and "rf_external_id ref = dc_external_id event"
    and "run_ref (message_pipeline conf env connector 0) (event\<lparr>dc_external_id := ''*''\<rparr>) ref config secrets ws (wk_run_id w) (wk_stores w)
      = Some (Inr p, s1)" and "pr_action p \<noteq> ''error''"
  shows "(\<exists>w1. process_document conf env event w = Some (Inr (result_of event (dc_external_id event) DEDUP_DROP_ACTION 0 None), w1)
        \<and> wk_stores w1 = wk_stores w)
    \<and> (\<exists>q w2 doc fetched. process_document conf env (event\<lparr>dc_external_id := ''*''\<rparr>) w = Some (Inr q, w2)
        \<and> wk_emitters w2 = wk_emitters w \<and> cn_fetch connector config secrets ref = Inr fetched
        \<and> find_document_row (dc_source_id event) (dc_external_id event) (st_documents (wk_stores w2)) = Inr (Some doc)
        \<and> dx_content_hash doc = pipeline_content_hash (wv_pipe env 0) (pv_decode (wv_pipe env 0) (fd_content_bytes fetched)))"
proof (intro conjI)
  obtain d tab where d: "evaluate (wc_dedup conf) ws event (wv_now env) (wk_emitters w) = Inr (d, tab)" "de_action d = Drop"
    using operator_owned_dropped [OF assms(6,7,9,3)] by blast
  have "dropped_by_gate conf env event ws w = Some (Inr True, w\<lparr>wk_emitters := tab\<rparr>)"
    using assms(4,5,8) d by (simp add: dropped_by_gate_def gate_evaluate_def bind_p_def ret_p_def)
  then show "\<exists>w1. process_document conf env event w = Some (Inr (result_of event (dc_external_id event) DEDUP_DROP_ACTION 0 None), w1)
        \<and> wk_stores w1 = wk_stores w"
    unfolding process_ready [OF assms(1)] by (simp add: bind_p_def ret_p_def)
next
  let ?ev = "event\<lparr>dc_external_id := ''*''\<rparr>" and ?env = "message_pipeline conf env connector 0"
  have ready: "ready conf env ?ev w source ws connector config secrets" and sync: "is_sync_marker ?ev"
    using assms(1) by (simp_all add: ready_def is_sync_marker_def)
  have fan: "fan_out_refs (message_pipeline conf env connector) ?ev config secrets ws (wk_run_id w) [ref] (wv_order env) (wk_stores w)
      = Some (Inr [p], s1)"
    by (rule fan_out_one) (rule assms(12))
  obtain q where q: "process_document conf env ?ev w = Some (Inr q, w\<lparr>wk_stores := s1\<rparr>)"
    unfolding process_ready_sync [OF ready sync] process_sync_refs [OF assms(10) fan] by blast
  obtain p1 where x: "execute_ref ?env ?ev ref config secrets ws (wk_run_id w) (wk_stores w) = Some (Inr p1, s1)"
    using run_ref_ok [OF assms(12,13)] by blast
  obtain fetched chunks u s2 g where f: "cn_fetch connector config secrets ref = Inr fetched"
    and up: "upsert_document (pv_writer ?env) (index_args ?env ?ev ref fetched (pv_decode ?env (fd_content_bytes fetched))
        chunks ws (wk_run_id w)) (wk_stores w) = Some (Inr u, s2)"
    and s1: "s1 = s2\<lparr>st_graph := g\<rparr>"
    by (rule execute_ref_document [OF x]) (use assms(4) in \<open>simp, simp add: that\<close>)
  obtain doc where "find_document_row (dc_source_id event) (dc_external_id event) (st_documents s1) = Inr (Some doc)"
    "dx_content_hash doc = pipeline_content_hash (wv_pipe env 0) (pv_decode (wv_pipe env 0) (fd_content_bytes fetched))"
    using upsert_document_found [OF assms(2) up] assms(11) by (auto simp: s1)
  then show "\<exists>q w2 doc fetched. process_document conf env ?ev w = Some (Inr q, w2)
        \<and> wk_emitters w2 = wk_emitters w \<and> cn_fetch connector config secrets ref = Inr fetched
        \<and> find_document_row (dc_source_id event) (dc_external_id event) (st_documents (wk_stores w2)) = Inr (Some doc)
        \<and> dx_content_hash doc = pipeline_content_hash (wv_pipe env 0) (pv_decode (wv_pipe env 0) (fd_content_bytes fetched))"
    using q f by (intro exI [of _ q] exI [of _ "w\<lparr>wk_stores := s1\<rparr>"] exI [of _ doc] exI [of _ fetched]) simp
qed

section \<open>Workspaces\<close>








text \<open>
  A message whose secrets cannot be resolved is rejected, but the failure is an exception and no
  result: neither the error count nor the run's errors know of it, so a worker that only met such
  failures finishes its run as ok.
\<close>

lemma secrets_failure_not_recorded:
  assumes "wk_running w" and "wv_source_read env" and "wv_settles env (Nak None)"
    and "find (\<lambda>x. so_id x = dc_source_id event) (st_sources (wk_stores w)) = Some source" and "so_tenant_id source = Some ws"
    and "is_sync_marker event" and "wc_registry conf (dc_source_type event) = Inr connector"
    and "cn_validate connector (so_config source) = Some config"
    and "resolve_secrets (wv_environ env) (wv_read_text env) (so_secrets_ref source) = Inl e"
  shows "worker_step conf env event w = Some (Some (Nak None), w)"
proof -
  have "process_document conf env event w = Some (Inl e, w)"
    using assms by (simp add: process_document_def load_source_and_workspace_def resolve_source_workspace_def dropped_by_gate_def
        process_accepted_def bind_p_def ret_p_def res_p_def)
  then show ?thesis using assms(1,3) worker_body_runs(2) [of conf env event w e w] by (simp add: worker_step_def settle_doc_def ret_p_def)
qed

section \<open>Witnesses\<close>

definition demo_penv :: "nat \<Rightarrow> (qpoint list, unit, unit, unit) penv" where
  "demo_penv i = \<lparr>pv_fetch = (\<lambda>_ _ _. Inl (BackendError ''fetch'')), pv_decode = (\<lambda>t. t), pv_sha256 = (\<lambda>_. ''h''),
     pv_embed = (\<lambda>ts. Inr (map (\<lambda>_. [1]) ts)), pv_model_name = ''m'', pv_provider_name = ''p'',
     pv_chunk_id = (\<lambda>j. if i = 0 then 11 else 12), pv_can_handle = (\<lambda>_. False), pv_parse = (\<lambda>_ _. Inr ()),
     pv_extractor = Some (\<lambda>_ _. Inr ([], [])), pv_uuid5 = (\<lambda>_. 7), pv_linker = None, pv_writer = demo_pg_only 3 (if i = 0 then 20 else 21),
     pv_exn_str = (\<lambda>_. ''down''), pv_elapsed_ms = 1\<rparr>"

definition demo_connector :: "document_ref list \<Rightarrow> unit connector" where
  "demo_connector refs = \<lparr>cn_validate = (\<lambda>_. Some ()),
     cn_fetch = (\<lambda>_ _ ref. if rf_external_id ref = ''bad'' then Inl (BackendError ''fetch'')
                          else Inr \<lparr>fd_ref = ref, fd_content_bytes = ''text'', fd_content_type = ''text/plain''\<rparr>),
     cn_discover = (\<lambda>_ _. Inr refs)\<rparr>"

definition demo_conf :: "document_ref list \<Rightarrow> unit worker_conf" where
  "demo_conf refs = \<lparr>wc_registry = (\<lambda>_. Inr (demo_connector refs)), wc_dedup = ttl_config None, wc_linking_env = None, wc_graph_store = True\<rparr>"

definition demo_work :: "(qpoint list, unit, unit, unit) work_env" where
  "demo_work = \<lparr>wv_pipe = demo_penv, wv_order = [], wv_source_read = True, wv_gate_session = True, wv_now = 2000, wv_environ = [],
     wv_read_text = (\<lambda>_. Inl (BackendError ''file'')), wv_uuid5 = (\<lambda>_. 7), wv_row_id = of_nat, wv_edge_id = of_nat,
     wv_outbox_commit = True, wv_new_run = 30, wv_run_write = True, wv_stamp_write = True, wv_clock = 77,
     wv_settles = (\<lambda>_. True), wv_exn_str = (\<lambda>_. ''down'')\<rparr>"

definition demo_worker :: "emitter_table \<Rightarrow> uuid option \<Rightarrow> (qpoint list, unit) worker" where
  "demo_worker tab run_id = \<lparr>wk_stores = demo_stores\<lparr>st_runs := (case run_id of None \<Rightarrow> [] | Some i \<Rightarrow> [\<lparr>ru_id = i, ru_source_id = 5,
        ru_started_at = 1, ru_finished_at = None, ru_status = Run_running, ru_docs_new = 0, ru_docs_updated = 0, ru_docs_removed = 0,
        ru_errors = []\<rparr>])\<rparr>,
     wk_outbox = [], wk_emitters = tab, wk_run_id = run_id, wk_error_count = 0, wk_running = True\<rparr>"

definition demo_change :: "uuid \<Rightarrow> string \<Rightarrow> string \<Rightarrow> document_change_event" where
  "demo_change src ty ext = \<lparr>dc_source_id = src, dc_source_type = ty, dc_external_id = ext, dc_uri = ''u'', dc_action = Updated,
     dc_metadata = None, dc_topology_edges = None\<rparr>"

lemmas demo_worker_defs = demo_penv_def demo_connector_def demo_conf_def demo_work_def demo_worker_def demo_change_def
  demo_stores_def demo_source_def demo_pg_only_def demo_wenv_def

theorem unknown_source_ends_worker_witness:
  "worker_step (demo_conf []) demo_work (demo_change 6 ''git'' ''a'') (demo_worker [] None)
     = Some (None, (demo_worker [] None)\<lparr>wk_running := False\<rparr>)"
  using unknown_source_ends_worker [of "demo_worker [] None" demo_work "demo_change 6 ''git'' ''a''" "demo_conf []" demo_work "demo_change 6 ''git'' ''a''"]
  by (simp add: demo_worker_defs)

text \<open>The pipeline of the demonstration: one new document, and a document that cannot be fetched.\<close>

lemma demo_run_new:
  assumes "st_documents s = []" and "st_chunks s = []" and "so_id ` set (st_sources s) = {5}" and "rf_external_id ref \<noteq> ''bad''"
    and "dc_source_id event = 5" and "dc_action event = Updated" and "rf_metadata ref = []"
    and "(case run_id of None \<Rightarrow> True | Some i \<Rightarrow> i \<in> ru_id ` set (st_runs s))"
  shows "\<exists>s1. run_ref (message_pipeline (demo_conf refs) demo_work (demo_connector refs) 0) event ref () [] 9 run_id s
      = Some (Inr (result_of event (rf_external_id ref) ''created'' 1 None), s1)"
  using assms
    by (simp add: run_ref_def execute_ref_def try_p_def bind_p_def then_p_def ret_p_def res_p_def stage_fetch_def stage_hash_check_def
        stage_parse_def stage_chunk_def stage_embed_def build_chunks_def stage_index_def stage_graph_def stage_link_def
        extract_graph_def extract_code_graph_def route_document_def supports_def str_field_def truthy_field_def starts_def
        upsert_document_def pg_txn_def write_rows_def find_document_row_def insert_document_row_def insert_chunks_def vector_write_def
        index_args_def result_of_def action_name_def message_pipeline_def resolve_entity_linker_def Let_def
        demo_penv_def demo_connector_def demo_conf_def demo_work_def demo_pg_only_def demo_wenv_def split: option.splits)

lemma demo_message_ready:
  "dc_source_id event = 5 \<Longrightarrow> ready (demo_conf refs) demo_work event (demo_worker tab i) demo_source 9 (demo_connector refs) () []"
  by (simp add: ready_def demo_worker_defs resolve_secrets_def)

lemma demo_rows_ok [simp]: "rows_ok (wk_stores (demo_worker tab i))"
  by (simp add: demo_worker_def rows_ok_def demo_stores_def)

lemma demo_run_id [simp]: "wk_run_id (demo_worker tab i) = i"
  by (simp add: demo_worker_def)

lemma demo_ack:
  "\<exists>w'. worker_step (demo_conf []) demo_work (demo_change 5 ''git'' ''a'') (demo_worker [] (Some 30)) = Some (Some Ack, w')"
proof -
  let ?ev = "demo_change 5 ''git'' ''a''" and ?w = "demo_worker [] (Some 30)" and ?c = "demo_conf []"
  let ?p = "result_of ?ev ''a'' ''created'' 1 None"
  have ok: "\<not> is_sync_marker ?ev" "dc_action ?ev = Updated" "dc_source_id ?ev = 5" "dc_source_type ?ev = ''git''"
    by (simp_all add: is_sync_marker_def demo_change_def starts_def)
  obtain s1 where run: "run_ref (message_pipeline ?c demo_work (demo_connector []) 0) ?ev (bare_ref (dc_external_id ?ev) (dc_uri ?ev)) () [] 9
      (Some 30) (wk_stores ?w) = Some (Inr ?p, s1)"
    using demo_run_new [of "wk_stores ?w" "bare_ref (dc_external_id ?ev) (dc_uri ?ev)" ?ev "Some 30" "[]"] ok
    by (auto simp: bare_ref_def demo_worker_defs)
  have "dropped_by_gate ?c demo_work ?ev 9 ?w = Some (Inr False, ?w)"
    using ok by (simp add: dropped_by_gate_def gate_evaluate_def gated_def evaluate_def is_k8s_emitter_def EMITTER_OPERATOR_def
        EMITTER_AGENTIC_def demo_conf_def ttl_config_def bind_p_def ret_p_def)
  then have "process_document ?c demo_work ?ev ?w = process_accepted ?c demo_work ?ev demo_source 9 ?w"
    using process_ready [OF demo_message_ready [OF ok(3)], of "[]"] by (simp add: bind_p_def)
  also have "\<dots> = Some (Inr ?p, ?w\<lparr>wk_stores := s1\<rparr>)"
    using ok run demo_message_ready [of ?ev "[]" "[]" "Some 30"]
    by (simp add: process_accepted_def ready_def on_stores_def bind_p_def maybe_route_operator_graph_def OPERATOR_SOURCE_TYPE_def ret_p_def res_p_def)
  finally have pd: "process_document ?c demo_work ?ev ?w = Some (Inr ?p, ?w\<lparr>wk_stores := s1\<rparr>)" .
  have "worker_body ?c demo_work ?ev ?w = then_p (update_run demo_work ?p)
      (then_p (mark_source_synced demo_work (pr_source_id ?p)) (settle_doc demo_work Ack)) (?w\<lparr>wk_stores := s1\<rparr>)"
    using worker_body_runs(3) [OF pd] by (simp add: result_of_def)
  then show ?thesis
    by (simp add: worker_step_def then_p_def bind_p_def update_run_def ensure_run_def record_new_def update_row_def
        mark_source_synced_def settle_doc_def ret_p_def result_of_def demo_worker_def demo_work_def)
qed

theorem acked_event_is_stored_witness:
  "\<exists>w' doc. worker_step (demo_conf []) demo_work (demo_change 5 ''git'' ''a'') (demo_worker [] (Some 30)) = Some (Some Ack, w')
     \<and> find_document_row 5 ''a'' (st_documents (wk_stores w')) = Inr (Some doc) \<and> dx_content_hash doc = ''h''"
proof -
  let ?ev = "demo_change 5 ''git'' ''a''"
  obtain w' where w': "worker_step (demo_conf []) demo_work ?ev (demo_worker [] (Some 30)) = Some (Some Ack, w')"
    using demo_ack by blast
  have no: "\<not> is_sync_marker ?ev" by (simp add: is_sync_marker_def demo_change_def starts_def)
  have gate: "de_action d \<noteq> Drop" if "evaluate (wc_dedup (demo_conf [])) ws ?ev now tab = Inr (d, tab')" for ws now tab d tab'
    using that by (auto simp: evaluate_def is_k8s_emitter_def EMITTER_OPERATOR_def EMITTER_AGENTIC_def demo_conf_def ttl_config_def
        demo_change_def Let_def)
  from acked_event_is_stored [OF demo_rows_ok w' no] show ?thesis
    using w' gate by (auto simp: demo_change_def stored_content_def pipeline_content_hash_def compute_content_hash_def demo_work_def demo_penv_def)
qed

theorem operator_payload_never_arrives_witness:
  "\<exists>w'. worker_step (demo_conf []) demo_work (wire_document (demo_change 5 ''git'' ''a'')) (demo_worker [] (Some 30)) = Some (Some Ack, w')
     \<and> wk_outbox w' = []"
proof -
  let ?ev = "demo_change 5 ''git'' ''a''"
  let ?raw = "\<lparr>rm_subject = ''ingest.changes.git'', rm_data = encode_payload sample_pydantic (PDoc ?ev), rm_num_delivered = Some 1\<rparr>"
  have y: "co_yield (process_raw sample_pydantic (\<lambda>t. t) sample_dlq \<lparr>qc_payload_type = TDoc, qc_max_deliver = 5\<rparr> ?raw) = Some (PDoc (wire_document ?ev))"
    by (simp add: process_raw_def get_num_delivered_def decode_encode_document)
  have ev: "wire_document ?ev = ?ev" by (simp add: wire_document_def demo_change_def)
  obtain w' where w': "worker_step (demo_conf []) demo_work (wire_document ?ev) (demo_worker [] (Some 30)) = Some (Some Ack, w')"
    using demo_ack ev by auto
  show ?thesis using operator_payload_never_arrives [OF y w'] w' by (auto simp: demo_worker_def)
qed

definition demo_refs :: "document_ref list" where
  "demo_refs = [bare_ref ''bad'' ''u'', bare_ref ''a'' ''u'']"

lemma demo_fan_out:
  "\<exists>p q s1. fan_out_refs (message_pipeline (demo_conf demo_refs) demo_work (demo_connector demo_refs)) (demo_change 5 ''git'' ''*'') () [] 9
      (Some 30) demo_refs [] (wk_stores (demo_worker [] (Some 30))) = Some (Inr [p, q], s1)
    \<and> pr_action p = ''error'' \<and> pr_action q = ''created''"
  by (simp add: fan_out_refs_def demo_refs_def order_by_def run_ref_def execute_ref_def try_p_def bind_p_def then_p_def ret_p_def res_p_def stage_fetch_def stage_hash_check_def
        stage_parse_def stage_chunk_def stage_embed_def build_chunks_def stage_index_def stage_graph_def stage_link_def
        extract_graph_def extract_code_graph_def route_document_def supports_def str_field_def truthy_field_def starts_def
        upsert_document_def pg_txn_def write_rows_def find_document_row_def insert_document_row_def insert_chunks_def vector_write_def
        index_args_def result_of_def action_name_def message_pipeline_def resolve_entity_linker_def Let_def bare_ref_def
        demo_worker_defs raw_chunk_def chunk_row_of_def upt_rec)

theorem partial_sync_is_acked_witness:
  "\<exists>w'. worker_step (demo_conf demo_refs) demo_work (demo_change 5 ''git'' ''*'') (demo_worker [] (Some 30)) = Some (Some Ack, w')
     \<and> wk_error_count w' = 0"
proof -
  let ?ev = "demo_change 5 ''git'' ''*''" and ?w = "demo_worker [] (Some 30)"
  have sync: "is_sync_marker ?ev" by (simp add: is_sync_marker_def demo_change_def)
  have ready: "ready (demo_conf demo_refs) demo_work ?ev ?w demo_source 9 (demo_connector demo_refs) () []"
    by (rule demo_message_ready) (simp add: demo_change_def)
  have disc: "cn_discover (demo_connector demo_refs) () [] = Inr demo_refs" by (simp add: demo_connector_def)
  obtain p q s1 where fan: "fan_out_refs (message_pipeline (demo_conf demo_refs) demo_work (demo_connector demo_refs)) ?ev () [] 9
      (wk_run_id ?w) demo_refs (wv_order demo_work) (wk_stores ?w) = Some (Inr [p, q], s1)" and q: "pr_action q = ''created''"
    using demo_fan_out by (auto simp: demo_work_def)
  show ?thesis
    using partial_sync_is_acked [OF ready sync disc fan, of q 30] q by (auto simp: demo_worker_def demo_work_def)
qed

theorem sync_bypasses_gate_witness:
  "\<exists>w1 q w2 doc. process_document (demo_conf [bare_ref ''r'' ''u'']) demo_work (demo_change 5 EMITTER_AGENTIC ''r'')
        (demo_worker [((9, ''r''), \<lparr>er_authority = EMITTER_OPERATOR, er_last_emit_at = 1000, er_authority_changed_at = None\<rparr>)] (Some 30))
      = Some (Inr (result_of (demo_change 5 EMITTER_AGENTIC ''r'') ''r'' DEDUP_DROP_ACTION 0 None), w1)
    \<and> process_document (demo_conf [bare_ref ''r'' ''u'']) demo_work ((demo_change 5 EMITTER_AGENTIC ''r'')\<lparr>dc_external_id := ''*''\<rparr>)
        (demo_worker [((9, ''r''), \<lparr>er_authority = EMITTER_OPERATOR, er_last_emit_at = 1000, er_authority_changed_at = None\<rparr>)] (Some 30))
      = Some (Inr q, w2)
    \<and> find_document_row 5 ''r'' (st_documents (wk_stores w2)) = Inr (Some doc)"
proof -
  let ?refs = "[bare_ref ''r'' ''u'']" and ?ev = "demo_change 5 EMITTER_AGENTIC ''r''"
  let ?tab = "[((9 :: uuid, ''r''), \<lparr>er_authority = EMITTER_OPERATOR, er_last_emit_at = 1000 :: rat, er_authority_changed_at = None\<rparr>)]"
  let ?w = "demo_worker ?tab (Some 30)"
  have ev: "dc_source_id ?ev = 5" "dc_source_type ?ev = EMITTER_AGENTIC" "dc_action ?ev = Updated" "dc_external_id ?ev = ''r''" "\<not> is_sync_marker ?ev"
    by (simp_all add: demo_change_def is_sync_marker_def starts_def)
  have gate: "gated (wc_dedup (demo_conf ?refs)) EMITTER_AGENTIC" "dd_ttl_seconds (wc_dedup (demo_conf ?refs)) = None"
    by (simp_all add: demo_conf_def ttl_config_def gated_def is_k8s_emitter_def)
  have holds: "operator_holds (9, dc_external_id ?ev) (wk_emitters ?w)"
    by (simp add: operator_holds_def dedup_inv_def is_k8s_emitter_def ev demo_worker_def)
  obtain s1 where run: "run_ref (message_pipeline (demo_conf ?refs) demo_work (demo_connector ?refs) 0) (?ev\<lparr>dc_external_id := ''*''\<rparr>)
      (bare_ref ''r'' ''u'') () [] 9 (wk_run_id ?w) (wk_stores ?w)
      = Some (Inr (result_of (?ev\<lparr>dc_external_id := ''*''\<rparr>) ''r'' ''created'' 1 None), s1)"
    using demo_run_new [of "wk_stores ?w" "bare_ref ''r'' ''u''" "?ev\<lparr>dc_external_id := ''*''\<rparr>" "Some 30" ?refs] ev
    by (auto simp: bare_ref_def demo_worker_def demo_stores_def demo_source_def)
  show ?thesis
    using sync_bypasses_gate [OF demo_message_ready [OF ev(1)] demo_rows_ok ev(2) _ ev(5) gate _ holds _ _ run] ev
    by (auto simp: demo_connector_def demo_work_def bare_ref_def result_of_def)
qed














end
