(* ===== verification/SourceSync.thy ===== *)
theory SourceSync
  imports IngestWorker
begin

text \<open>
  How sources come to be synchronised: the discovery worker that registers repositories as sources
  (server \<^verbatim>\<open>discovery_worker.py\<close>, \<^verbatim>\<open>packages/connectors/.../github_discovery.py\<close>), the scheduler that
  publishes a sync marker for a stale source (server \<^verbatim>\<open>scheduler.py\<close>) and the freshness monitor (core
  \<^verbatim>\<open>freshness.py\<close>, server \<^verbatim>\<open>freshness_worker.py\<close>). All three read the table of sources that the
  ingestion worker stamps. Times are instants in microseconds (a naive time is read as UTC), ages are
  rational numbers of seconds. GitHub, the regular expressions and the clock are arguments; a tick of
  a worker is one call, and an exception that the loop logs leaves the state as the tick left it.
\<close>

section \<open>The scheduler\<close>

definition DEFAULT_TTLS :: "(string, int) dict" where
  "DEFAULT_TTLS = [(''git'', 300), (''fs'', 60), (''s3'', 900), (''aws'', 3600), (''confluence'', 900), (''notion'', 900),
     (''slack'', 300), (''jira'', 600), (''database'', 3600), (''k8s'', 1800)]"

definition load_active_sources :: "source_row list \<Rightarrow> source_row list" where
  "load_active_sources sources = filter so_active sources"

definition is_push :: "source_row \<Rightarrow> bool" where
  "is_push source \<longleftrightarrow> so_sync_mode source = Push"

definition effective_ttl :: "source_row \<Rightarrow> int option" where
  "effective_ttl source =
     (case so_freshness_sla_seconds source of
        Some sla \<Rightarrow> Some sla
      | None \<Rightarrow> dict_get DEFAULT_TTLS (so_type source))"

text \<open>\<^verbatim>\<open>(now - then).total_seconds()\<close>.\<close>

definition total_seconds :: "int \<Rightarrow> int \<Rightarrow> rat" where
  "total_seconds now t = of_int (now - t) / 1000000"

definition is_stale :: "source_row \<Rightarrow> int \<Rightarrow> int \<Rightarrow> bool" where
  "is_stale source now ttl =
     (case so_last_sync_at source of
        None \<Rightarrow> True
      | Some last_sync \<Rightarrow> total_seconds now last_sync > of_int ttl)"

definition sync_trigger :: "source_row \<Rightarrow> document_change_event" where
  "sync_trigger source =
     \<lparr>dc_source_id = so_id source, dc_source_type = so_type source, dc_external_id = ''*'',
      dc_uri = ''sync://'' @ uuid_str (so_id source), dc_action = Updated, dc_metadata = None, dc_topology_edges = None\<rparr>"

definition trigger_subject :: "source_row \<Rightarrow> string" where
  "trigger_subject source = ''ingest.changes.'' @ so_type source"

text \<open>The connection the worker was built with: none, one without JetStream, or a broker.\<close>

datatype nats_conn = No_nats | No_jetstream | Jetstream broker

definition publish_trigger :: "pydantic \<Rightarrow> nats_conn \<Rightarrow> source_row \<Rightarrow> stream \<Rightarrow> bool \<times> stream" where
  "publish_trigger pyd nats source js =
     (case nats of
        No_nats \<Rightarrow> (False, js)
      | No_jetstream \<Rightarrow> (False, js)
      | Jetstream broker \<Rightarrow>
          (case publish pyd broker (trigger_subject source) (PDoc (sync_trigger source)) js of
             (Inl _, js') \<Rightarrow> (False, js')
           | (Inr _, js') \<Rightarrow> (True, js')))"

fun trigger_sources :: "pydantic \<Rightarrow> nats_conn \<Rightarrow> int \<Rightarrow> source_row list \<Rightarrow> nat \<Rightarrow> stream \<Rightarrow> nat \<times> stream" where
  "trigger_sources pyd nats now [] triggered js = (triggered, js)"
| "trigger_sources pyd nats now (source # sources) triggered js =
     (if is_push source then trigger_sources pyd nats now sources triggered js
      else case effective_ttl source of
        None \<Rightarrow> trigger_sources pyd nats now sources triggered js
      | Some ttl \<Rightarrow>
          if is_stale source now ttl
          then (case publish_trigger pyd nats source js of
                  (published, js') \<Rightarrow> trigger_sources pyd nats now sources (if published then triggered + 1 else triggered) js')
          else trigger_sources pyd nats now sources triggered js)"

definition check_and_trigger ::
  "pydantic \<Rightarrow> nats_conn \<Rightarrow> bool \<Rightarrow> int \<Rightarrow> source_row list \<Rightarrow> stream \<Rightarrow> nat res \<times> stream" where
  "check_and_trigger pyd nats readable now sources js =
     (if \<not> readable then (Inl (BackendError ''postgres''), js)
      else case trigger_sources pyd nats now (load_active_sources sources) 0 js of (n, js') \<Rightarrow> (Inr n, js'))"

section \<open>Freshness\<close>

datatype py_float = Finite_float rat | Infinity | NaN

record freshness_report =
  fr_source_id :: uuid
  fr_source_name :: string
  fr_freshness_sla_seconds :: "int option"
  fr_last_sync_at :: "int option"
  fr_age_seconds :: py_float
  fr_is_stale :: bool
  fr_staleness_margin_seconds :: py_float

definition compute_report :: "source_row \<Rightarrow> int \<Rightarrow> freshness_report" where
  "compute_report source now =
     (case so_freshness_sla_seconds source of
        None \<Rightarrow>
          \<lparr>fr_source_id = so_id source, fr_source_name = so_name source, fr_freshness_sla_seconds = None,
           fr_last_sync_at = so_last_sync_at source,
           fr_age_seconds = (case so_last_sync_at source of None \<Rightarrow> Infinity | Some t \<Rightarrow> Finite_float (total_seconds now t)),
           fr_is_stale = False, fr_staleness_margin_seconds = NaN\<rparr>
      | Some sla \<Rightarrow>
          (case so_last_sync_at source of
             None \<Rightarrow>
               \<lparr>fr_source_id = so_id source, fr_source_name = so_name source, fr_freshness_sla_seconds = Some sla,
                fr_last_sync_at = None, fr_age_seconds = Infinity, fr_is_stale = True, fr_staleness_margin_seconds = Infinity\<rparr>
           | Some t \<Rightarrow>
               (let age = total_seconds now t
                in \<lparr>fr_source_id = so_id source, fr_source_name = so_name source, fr_freshness_sla_seconds = Some sla,
                    fr_last_sync_at = Some t, fr_age_seconds = Finite_float age, fr_is_stale = (age > of_int sla),
                    fr_staleness_margin_seconds = Finite_float (age - of_int sla)\<rparr>)))"

definition check_all :: "bool \<Rightarrow> int \<Rightarrow> source_row list \<Rightarrow> freshness_report list res" where
  "check_all readable now sources =
     (if readable then Inr (map (\<lambda>s. compute_report s now) sources) else Inl (BackendError ''postgres''))"

definition check_source :: "bool \<Rightarrow> int \<Rightarrow> uuid \<Rightarrow> source_row list \<Rightarrow> freshness_report res" where
  "check_source readable now source_id sources =
     (if \<not> readable then Inl (BackendError ''postgres'')
      else case find (\<lambda>s. so_id s = source_id) sources of
             None \<Rightarrow> Inl (KeyError (''Source '' @ uuid_str source_id @ '' not found''))
           | Some source \<Rightarrow> Inr (compute_report source now))"

text \<open>The two freshness_gauges of the monitor, the first labelled by identifier and name.\<close>

record freshness_gauges =
  gg_age :: "(string \<times> string, rat) dict"
  gg_stale_total :: nat

definition NEVER_SYNCED_AGE_SENTINEL :: rat where "NEVER_SYNCED_AGE_SENTINEL = 10 ^ 15"

definition prometheus_age :: "freshness_report \<Rightarrow> rat" where
  "prometheus_age report = (case fr_age_seconds report of Finite_float a \<Rightarrow> a | _ \<Rightarrow> NEVER_SYNCED_AGE_SENTINEL)"

fun set_gauges :: "freshness_report list \<Rightarrow> nat \<Rightarrow> freshness_gauges \<Rightarrow> freshness_gauges" where
  "set_gauges [] stale_count g = g\<lparr>gg_stale_total := stale_count\<rparr>"
| "set_gauges (report # reports) stale_count g =
     set_gauges reports (if fr_is_stale report then stale_count + 1 else stale_count)
       (g\<lparr>gg_age := dict_set (gg_age g) (uuid_str (fr_source_id report), fr_source_name report) (prometheus_age report)\<rparr>)"

definition freshness_tick :: "bool \<Rightarrow> int \<Rightarrow> source_row list \<Rightarrow> freshness_gauges \<Rightarrow> unit res \<times> freshness_gauges" where
  "freshness_tick readable now sources g =
     (case check_all readable now sources of
        Inl e \<Rightarrow> (Inl e, g)
      | Inr reports \<Rightarrow> (Inr (), set_gauges reports 0 g))"

section \<open>Discovery\<close>

record discovered_source =
  ds_name :: string
  ds_type :: string
  ds_uri :: string
  ds_external_id :: string
  ds_metadata :: metadata

text \<open>A repository in the answer of GitHub, with the fields its documentation lists.\<close>

record gh_repo =
  gh_name :: string
  gh_archived :: bool
  gh_clone_url :: string
  gh_id :: int
  gh_full_name :: string
  gh_description :: json
  gh_language :: json
  gh_stargazers_count :: json

record discovery_env =
  dv_readable :: bool
  dv_github :: "string \<Rightarrow> string \<Rightarrow> json \<Rightarrow> gh_repo list res"
  dv_re_search :: "json \<Rightarrow> string \<Rightarrow> bool res"
  dv_new_id :: "nat \<Rightarrow> uuid"
  dv_now_iso :: string
  dv_commit :: "uuid \<Rightarrow> bool"

text \<open>\<^verbatim>\<open>set(config.get("exclude_repos", []))\<close>.\<close>

definition exclude_repos :: "metadata \<Rightarrow> json list res" where
  "exclude_repos config =
     (case dict_get config ''exclude_repos'' of
        None \<Rightarrow> Inr []
      | Some (JArr xs) \<Rightarrow> if list_ex (\<lambda>x. case x of JArr _ \<Rightarrow> True | JObj _ \<Rightarrow> True | _ \<Rightarrow> False) xs then Inl TypeError else Inr xs
      | Some (JStr s) \<Rightarrow> Inr (map (\<lambda>c. JStr [c]) s)
      | Some (JObj kvs) \<Rightarrow> Inr (map (\<lambda>kv. JStr (fst kv)) kvs)
      | Some _ \<Rightarrow> Inl TypeError)"

definition source_of_repo :: "gh_repo \<Rightarrow> discovered_source" where
  "source_of_repo repo =
     \<lparr>ds_name = gh_name repo, ds_type = ''git'', ds_uri = gh_clone_url repo, ds_external_id = int_str (gh_id repo),
      ds_metadata = [(''description'', gh_description repo), (''language'', gh_language repo), (''stars'', gh_stargazers_count repo),
        (''github_full_name'', JStr (gh_full_name repo))]\<rparr>"

text \<open>An error of the pattern ends the loop; what was found before it is kept.\<close>

fun collect_repos ::
  "(json \<Rightarrow> string \<Rightarrow> bool res) \<Rightarrow> json list \<Rightarrow> json option \<Rightarrow> gh_repo list \<Rightarrow> discovered_source list" where
  "collect_repos re_search excluded pattern [] = []"
| "collect_repos re_search excluded pattern (repo # repos) =
     (if JStr (gh_name repo) \<in> set excluded then collect_repos re_search excluded pattern repos
      else if gh_archived repo then collect_repos re_search excluded pattern repos
      else case pattern of
             None \<Rightarrow> source_of_repo repo # collect_repos re_search excluded pattern repos
           | Some p \<Rightarrow>
               (case re_search p (gh_name repo) of
                  Inl _ \<Rightarrow> []
                | Inr False \<Rightarrow> collect_repos re_search excluded pattern repos
                | Inr True \<Rightarrow> source_of_repo repo # collect_repos re_search excluded pattern repos))"

definition github_discover :: "discovery_env \<Rightarrow> metadata \<Rightarrow> json option \<Rightarrow> discovered_source list res" where
  "github_discover env config token =
     (case (truthy_field config ''org'', token) of
        (Some org, Some tok) \<Rightarrow>
          if \<not> json_truthy tok then Inr []
          else bind_res (exclude_repos config) (\<lambda>excluded.
            case dv_github env (''https://api.github.com/orgs/'' @ py_str org @ ''/repos'') (''token '' @ py_str tok)
                   (case dict_get config ''repo_type'' of None \<Rightarrow> JStr ''all'' | Some t \<Rightarrow> t) of
              Inl _ \<Rightarrow> Inr []
            | Inr repos \<Rightarrow> Inr (collect_repos (dv_re_search env) excluded (truthy_field config ''include_pattern'') repos))
      | _ \<Rightarrow> Inr [])"

definition SOURCE_TYPES :: "string list" where
  "SOURCE_TYPES = [''git'', ''fs'', ''confluence'', ''notion'', ''slack'', ''jira'', ''grafana'', ''k8s'', ''terraform'', ''s3'', ''aws'',
     ''alerts'', ''otel'', ''k8s_operator'']"

text \<open>\<^verbatim>\<open>{"uri": ds.uri, **ds.metadata, ...}\<close>: a later key replaces an earlier one.\<close>

definition discovered_config :: "discovery_env \<Rightarrow> discovered_source \<Rightarrow> metadata" where
  "discovered_config env ds =
     dict_set (dict_set (foldl (\<lambda>d (k, v). dict_set d k v) [(''uri'', JStr (ds_uri ds))] (ds_metadata ds))
       ''provisioned_by'' (JStr ''discovery_worker'')) ''discovered_at'' (JStr (dv_now_iso env))"

definition ensure_source ::
  "discovery_env \<Rightarrow> uuid \<Rightarrow> discovered_source \<Rightarrow> source_row list \<Rightarrow> source_row list res" where
  "ensure_source env workspace_id ds sources =
     (case filter (\<lambda>s. so_name s = ds_name ds \<and> so_tenant_id s = Some workspace_id) sources of
        [_] \<Rightarrow> Inr sources
      | [] \<Rightarrow>
          if ds_type ds \<notin> set SOURCE_TYPES then Inl (ValueError (ds_type ds @ '' is not a valid SourceType''))
          else let new_id = dv_new_id env (length sources) in
            if new_id \<in> so_id ` set sources then Inl (BackendError ''IntegrityError'')
            else Inr (sources @ [\<lparr>so_id = new_id, so_type = ds_type ds, so_name = ds_name ds, so_sync_mode = Pull,
                   so_freshness_sla_seconds = Some 86400, so_active = True, so_tenant_id = Some workspace_id, so_secrets_ref = None,
                   so_config = discovered_config env ds, so_last_sync_at = None\<rparr>])
      | _ \<Rightarrow> Inl (BackendError ''MultipleResultsFound''))"

fun ensure_sources ::
  "discovery_env \<Rightarrow> uuid \<Rightarrow> discovered_source list \<Rightarrow> source_row list \<Rightarrow> source_row list res" where
  "ensure_sources env workspace_id [] sources = Inr sources"
| "ensure_sources env workspace_id (ds # dss) sources =
     bind_res (ensure_source env workspace_id ds sources) (ensure_sources env workspace_id dss)"

record workspace_row =
  wr_id :: uuid
  wr_settings :: metadata

definition discover_for_workspace ::
  "discovery_env \<Rightarrow> workspace_row \<Rightarrow> source_row list \<Rightarrow> source_row list res" where
  "discover_for_workspace env workspace sources =
     (case truthy_field (wr_settings workspace) ''discovery'' of
        None \<Rightarrow> Inr sources
      | Some (JObj discovery_config) \<Rightarrow>
          (case truthy_field discovery_config ''github'' of
             None \<Rightarrow> Inr sources
           | Some (JObj github_cfg) \<Rightarrow>
               bind_res (github_discover env github_cfg (dict_get github_cfg ''token''))
                 (\<lambda>discovered. ensure_sources env (wr_id workspace) discovered sources)
           | Some _ \<Rightarrow> Inl AttributeError)
      | Some _ \<Rightarrow> Inl AttributeError)"

text \<open>The workspaces of a cycle: the one that fails ends it, with the workspaces before it committed.\<close>

fun discover_workspaces ::
  "discovery_env \<Rightarrow> workspace_row list \<Rightarrow> source_row list \<Rightarrow> unit res \<times> source_row list" where
  "discover_workspaces env [] sources = (Inr (), sources)"
| "discover_workspaces env (ws # workspaces) sources =
     (case discover_for_workspace env ws sources of
        Inl e \<Rightarrow> (Inl e, sources)
      | Inr sources' \<Rightarrow>
          if dv_commit env (wr_id ws) then discover_workspaces env workspaces sources'
          else (Inl (BackendError ''postgres''), sources))"

definition discovery_run_once ::
  "discovery_env \<Rightarrow> workspace_row list \<Rightarrow> source_row list \<Rightarrow> unit res \<times> source_row list" where
  "discovery_run_once env workspaces sources =
     (if dv_readable env then discover_workspaces env workspaces sources else (Inl (BackendError ''postgres''), sources))"

section \<open>What a tick of the scheduler publishes\<close>

text \<open>
  When a source is due: it is active and pulled, it has a time to live, its own or that of its type, and
  it was never synchronised or longer ago than that, counted in microseconds.
\<close>

definition due :: "int \<Rightarrow> source_row \<Rightarrow> bool" where
  "due now source \<longleftrightarrow> so_active source \<and> so_sync_mode source = Pull
     \<and> (case (so_freshness_sla_seconds source, dict_get DEFAULT_TTLS (so_type source)) of
          (None, None) \<Rightarrow> False
        | (Some sla, _) \<Rightarrow> (case so_last_sync_at source of None \<Rightarrow> True | Some t \<Rightarrow> t + 1000000 * sla < now)
        | (None, Some ttl) \<Rightarrow> (case so_last_sync_at source of None \<Rightarrow> True | Some t \<Rightarrow> t + 1000000 * ttl < now))"

lemma total_seconds_less: "of_int ttl < total_seconds now t \<longleftrightarrow> t + 1000000 * ttl < now"
proof -
  have "of_int ttl < total_seconds now t \<longleftrightarrow> of_int (1000000 * ttl) < (of_int (now - t) :: rat)"
    by (simp add: total_seconds_def field_simps)
  also have "\<dots> \<longleftrightarrow> t + 1000000 * ttl < now" unfolding of_int_less_iff by linarith
  finally show ?thesis .
qed

lemma due_iff:
  "due now source \<longleftrightarrow> so_active source \<and> \<not> is_push source
     \<and> (case effective_ttl source of None \<Rightarrow> False | Some ttl \<Rightarrow> is_stale source now ttl)"
  by (cases "so_sync_mode source") (auto simp: due_def is_push_def effective_ttl_def is_stale_def total_seconds_less split: option.splits)

definition trigger_message :: "pydantic \<Rightarrow> source_row \<Rightarrow> string \<times> string" where
  "trigger_message pyd source = (trigger_subject source, encode_payload pyd (PDoc (sync_trigger source)))"

lemma publish_trigger_eq:
  "publish_trigger pyd (Jetstream broker) source js =
     (let m = trigger_message pyd source in (broker (fst m) (snd m) = Stored, if broker (fst m) (snd m) = Refused then js else js @ [m]))"
  by (simp add: publish_trigger_def publish_def trigger_message_def Let_def split: pub_outcome.split)

lemma trigger_sources_eq:
  assumes "list_all so_active sources"
  shows "trigger_sources pyd (Jetstream broker) now sources n js =
     (let ms = map (trigger_message pyd) (filter (due now) sources)
      in (n + length (filter (\<lambda>m. broker (fst m) (snd m) = Stored) ms), js @ filter (\<lambda>m. broker (fst m) (snd m) \<noteq> Refused) ms))"
  using assms
  by (induction sources arbitrary: n js)
     (simp_all add: due_iff publish_trigger_eq Let_def split: option.split)


lemma check_and_trigger_eq:
  "check_and_trigger pyd (Jetstream broker) True now sources js =
     (let ms = map (trigger_message pyd) (filter (due now) sources)
      in (Inr (length (filter (\<lambda>m. broker (fst m) (snd m) = Stored) ms)), js @ filter (\<lambda>m. broker (fst m) (snd m) \<noteq> Refused) ms))"
proof -
  have act: "list_all so_active (load_active_sources sources)" by (simp add: load_active_sources_def list_all_iff)
  have f: "filter (due now) (load_active_sources sources) = filter (due now) sources"
    by (induction sources) (auto simp: load_active_sources_def due_def)
  show ?thesis unfolding check_and_trigger_def trigger_sources_eq [OF act] f by (simp add: Let_def)
qed

lemma trigger_wire [simp]: "wire_document (sync_trigger source) = sync_trigger source"
  by (simp add: wire_document_def sync_trigger_def)

lemma trigger_decoded:
  assumes "qc_payload_type qc = TDoc" and "get_num_delivered raw < qc_max_deliver qc" and "rm_data raw = snd (trigger_message pyd source)"
  shows "co_yield (process_raw pyd replaced dlq qc raw) = Some (PDoc (sync_trigger source))"
  using assms by (simp add: process_raw_def trigger_message_def decode_encode_document)


section \<open>From the marker to the stamp\<close>

text \<open>A property of every value that a program returns.\<close>

definition yields_p :: "('a \<Rightarrow> bool) \<Rightarrow> ('s, 'a) prog \<Rightarrow> bool" where
  "yields_p P m \<longleftrightarrow> (\<forall>s x s'. m s = Some (Inr x, s') \<longrightarrow> P x)"

lemma yields_pD: "yields_p P m \<Longrightarrow> m s = Some (Inr x, s') \<Longrightarrow> P x"
  unfolding yields_p_def by blast

lemma yields_p_ret [simp]: "yields_p P (ret_p x) \<longleftrightarrow> P x"
  by (simp add: yields_p_def ret_p_def)

lemma yields_p_bind: "(\<And>x. yields_p P (f x)) \<Longrightarrow> yields_p P (bind_p m f)"
  unfolding yields_p_def bind_p_Inr by blast

lemma yields_p_then: "yields_p P m' \<Longrightarrow> yields_p P (then_p m m')"
  unfolding then_p_def by (rule yields_p_bind)

lemma yields_p_try: "yields_p P m \<Longrightarrow> (\<And>e. yields_p P (h e)) \<Longrightarrow> yields_p P (try_p m h)"
  unfolding yields_p_def try_p_def by (auto split: option.splits sum.splits)

lemma yields_p_on_stores: "yields_p P m \<Longrightarrow> yields_p P (on_stores m)"
  unfolding yields_p_def by (auto simp: on_stores_eq)

definition of_source :: "uuid \<Rightarrow> process_result \<Rightarrow> bool" where
  "of_source src p \<longleftrightarrow> pr_source_id p = src"

lemma of_source_result [simp]: "of_source (dc_source_id event) (result_of event ext act ms err)"
  by (simp add: of_source_def result_of_def)

lemma of_source_duration [simp]: "of_source src (p\<lparr>pr_duration_ms := ms\<rparr>) \<longleftrightarrow> of_source src p"
  by (simp add: of_source_def)

lemma execute_ref_source: "yields_p (of_source (dc_source_id event)) (execute_ref env event ref config secrets ws run_id)"
  unfolding execute_ref_def handle_delete_def Let_def
  by (auto intro!: yields_p_bind yields_p_then split: prod.split)

lemma run_ref_source: "yields_p (of_source (dc_source_id event)) (run_ref env event ref config secrets ws run_id)"
proof -
  have "yields_p (of_source (dc_source_id event))
      (bind_p (execute_ref env event ref config secrets ws run_id) (\<lambda>result. ret_p (result\<lparr>pr_duration_ms := pv_elapsed_ms env\<rparr>)))"
    using yields_pD [OF execute_ref_source] unfolding yields_p_def bind_p_Inr by (fastforce simp: ret_p_def)
  then show ?thesis unfolding run_ref_def by (rule yields_p_try) simp
qed

lemma route_source:
  assumes "maybe_route_operator_graph conf env event q ws w = Some (Inr p, w')" and "of_source src q"
  shows "of_source src p"
  using assms
  by (auto simp: maybe_route_operator_graph_def of_source_def ret_p_def split: if_splits option.splits list.splits prod.splits sum.splits)

lemma process_sync_source:
  "yields_p (of_source (dc_source_id event)) (process_sync_event conf env event connector config secrets ws)"
proof -
  have "of_source (dc_source_id event) p" if "process_sync_event conf env event connector config secrets ws w = Some (Inr p, w')" for w p w'
    using that yields_pD [OF yields_p_on_stores [OF run_ref_source]]
    by (auto simp: process_sync_event_def bind_p_Inr ret_p_def Let_def split: sum.splits py_exn.splits)
  then show ?thesis unfolding yields_p_def by blast
qed

lemma process_accepted_source:
  "yields_p (of_source (dc_source_id event)) (process_accepted conf env event source ws)"
proof -
  have "of_source (dc_source_id event) p" if "process_accepted conf env event source ws w = Some (Inr p, w')" for w p w'
    using that yields_pD [OF yields_p_on_stores [OF run_ref_source]] yields_pD [OF process_sync_source] route_source
    unfolding process_accepted_def
    by (fastforce simp: bind_p_Inr res_p_def ret_p_def split: option.splits if_splits)
  then show ?thesis unfolding yields_p_def by blast
qed

lemma process_source_id:
  assumes "process_document conf env event w = Some (Inr p, w')"
  shows "pr_source_id p = dc_source_id event"
proof -
  have "yields_p (of_source (dc_source_id event)) (process_document conf env event)"
    unfolding process_document_def
    by (intro yields_p_bind) (auto intro!: yields_p_bind process_accepted_source split: option.split)
  then show ?thesis using yields_pD assms by (fastforce simp: of_source_def)
qed

definition stamped :: "uuid \<Rightarrow> int \<Rightarrow> source_row list \<Rightarrow> bool" where
  "stamped src t sources \<longleftrightarrow> list_all (\<lambda>x. so_id x = src \<longrightarrow> so_last_sync_at x = Some t) sources"

lemma acked_is_stamped:
  assumes "worker_step conf env event w = Some (Some Ack, w')"
  shows "stamped (dc_source_id event) (wv_clock env) (st_sources (wk_stores w'))"
proof -
  have body: "worker_body conf env event w = Some (Inr Ack, w')"
    using assms by (auto simp: worker_step_def split: if_splits option.splits sum.splits prod.splits)
  then obtain r w1 where d: "process_document conf env event w = Some (r, w1)"
    using worker_body_runs(1) [of conf env event w] by (cases "process_document conf env event w") auto
  then obtain p where p: "r = Inr p"
    using body worker_body_runs(2) [of conf env event w] by (cases r) (auto simp: settle_doc_Inr)
  have "then_p (update_run env p)
       (if pr_action p = ''error'' then settle_doc env (Nak None)
        else then_p (mark_source_synced env (pr_source_id p)) (settle_doc env Ack)) w1 = Some (Inr Ack, w')"
    using body worker_body_runs(3) d p by metis
  then obtain w2 y where "mark_source_synced env (pr_source_id p) w2 = Some (Inr y, w')"
    by (auto simp: then_p_def bind_p_Inr settle_doc_Inr split: if_splits)
  then show ?thesis
    using process_source_id [of conf env event w p w1] d p
    by (auto simp: mark_source_synced_def stamped_def list_all_iff split: if_splits)
qed

lemma stamped_not_due:
  assumes "stamped src t sources" and "x \<in> set sources" and "so_id x = src" and "effective_ttl x = Some ttl"
    and "now \<le> t + 1000000 * ttl"
  shows "\<not> due now x"
proof -
  have l: "so_last_sync_at x = Some t" using assms(1-3) by (simp add: stamped_def list_all_iff)
  have "of_int (now - t) \<le> (of_int (1000000 * ttl) :: rat)" unfolding of_int_le_iff using assms(5) by simp
  then have "total_seconds now t \<le> of_int ttl" by (simp add: total_seconds_def)
  then show ?thesis using l assms(4) by (simp add: due_iff is_stale_def)
qed

lemma trigger_is_sync [simp]: "is_sync_marker (sync_trigger source)"
  by (simp add: is_sync_marker_def sync_trigger_def)

text \<open>
  Claim C36: A due source is refreshed. The tick publishes its sync marker, the queue hands the
  worker exactly that marker, and once the worker acknowledges it the source is not due again before
  its time to live has passed since the stamp.
\<close>

theorem scheduled_sync_refreshes_source:
  assumes "source \<in> set sources" and "due now source" and "broker (trigger_subject source) (encode_payload pyd (PDoc (sync_trigger source))) \<noteq> Refused"
    and "check_and_trigger pyd (Jetstream broker) True now sources js = (r, js')"
    and "rm_data raw = encode_payload pyd (PDoc (sync_trigger source))" and "get_num_delivered raw < qc_max_deliver qc" and "qc_payload_type qc = TDoc"
    and "worker_step conf env (sync_trigger source) w = Some (Some Ack, w')"
    and "effective_ttl source = Some ttl" and "now' \<le> wv_clock env + 1000000 * ttl"
  shows "trigger_message pyd source \<in> set js'
    \<and> co_yield (process_raw pyd replaced dlq qc raw) = Some (PDoc (sync_trigger source))
    \<and> list_all (\<lambda>x. so_id x = so_id source \<and> effective_ttl x = Some ttl \<longrightarrow> \<not> due now' x) (st_sources (wk_stores w'))"
proof (intro conjI)
  show "trigger_message pyd source \<in> set js'"
    using assms(1-4) by (auto simp: check_and_trigger_eq Let_def trigger_message_def)
  show "co_yield (process_raw pyd replaced dlq qc raw) = Some (PDoc (sync_trigger source))"
    by (rule trigger_decoded [OF assms(7,6)]) (simp add: assms(5) trigger_message_def)
  have "stamped (so_id source) (wv_clock env) (st_sources (wk_stores w'))"
    using acked_is_stamped [OF assms(8)] by (simp add: sync_trigger_def)
  then show "list_all (\<lambda>x. so_id x = so_id source \<and> effective_ttl x = Some ttl \<longrightarrow> \<not> due now' x) (st_sources (wk_stores w'))"
    using stamped_not_due assms(10) unfolding list_all_iff by blast
qed

lemma demo_trigger: "sync_trigger demo_source = (demo_change 5 ''git'' ''*'')\<lparr>dc_uri := ''sync://'' @ uuid_str 5\<rparr>"
  by (simp add: sync_trigger_def demo_source_def demo_change_def)

lemma demo_due: "due now demo_source" and demo_ttl: "effective_ttl demo_source = Some 300"
  by (simp_all add: due_def effective_ttl_def demo_source_def DEFAULT_TTLS_def)

lemma demo_sync_ack:
  "\<exists>w'. worker_step (demo_conf []) demo_work (sync_trigger demo_source) (demo_worker [] (Some 30)) = Some (Some Ack, w')"
proof -
  let ?ev = "sync_trigger demo_source" and ?w = "demo_worker [] (Some 30)"
  have ready: "ready (demo_conf []) demo_work ?ev ?w demo_source 9 (demo_connector []) () []"
    by (rule demo_message_ready) (simp add: sync_trigger_def demo_source_def)
  have "process_document (demo_conf []) demo_work ?ev ?w = Some (Inr (result_of ?ev (dc_external_id ?ev) ''updated'' 0 None), ?w)"
    unfolding process_ready_sync [OF ready trigger_is_sync]
    by (simp add: process_sync_event_def demo_connector_def on_stores_def fan_out_refs_def bind_p_def ret_p_def order_by_def Let_def)
  from worker_body_runs(3) [OF this] show ?thesis
    by (simp add: worker_step_def then_p_def bind_p_def update_run_def ensure_run_def record_updated_def update_row_def
        mark_source_synced_def settle_doc_def ret_p_def result_of_def demo_worker_def demo_work_def)
qed


theorem scheduled_sync_refreshes_source_witness:
  "\<exists>w'. worker_step (demo_conf []) demo_work (sync_trigger demo_source) (demo_worker [] (Some 30)) = Some (Some Ack, w')
     \<and> trigger_message sample_pydantic demo_source \<in> set (snd (check_and_trigger sample_pydantic (Jetstream (\<lambda>_ _. Stored)) True 50 [demo_source] []))
     \<and> \<not> list_ex (\<lambda>x. so_id x = 5 \<and> effective_ttl x = Some 300 \<and> due 1000 x) (st_sources (wk_stores w'))"
proof -
  obtain w' where w': "worker_step (demo_conf []) demo_work (sync_trigger demo_source) (demo_worker [] (Some 30)) = Some (Some Ack, w')"
    using demo_sync_ack by blast
  let ?raw = "\<lparr>rm_subject = ''ingest.changes.git'', rm_data = encode_payload sample_pydantic (PDoc (sync_trigger demo_source)), rm_num_delivered = Some 1\<rparr>"
  let ?qc = "\<lparr>qc_payload_type = TDoc, qc_max_deliver = 5\<rparr>"
  have d: "get_num_delivered ?raw < qc_max_deliver ?qc" by (simp add: get_num_delivered_def)
  obtain r js' where t: "check_and_trigger sample_pydantic (Jetstream (\<lambda>_ _. Stored)) True 50 [demo_source] [] = (r, js')" by fastforce
  have i: "so_id demo_source = 5" by (simp add: demo_source_def)
  from scheduled_sync_refreshes_source [of demo_source "[demo_source]" 50 "\<lambda>_ _. Stored" sample_pydantic "[]" r js' ?raw ?qc "demo_conf []" demo_work
      "demo_worker [] (Some 30)" w' 300 1000 "\<lambda>t. t" sample_dlq] demo_due [of 50] t d w' demo_ttl
  show ?thesis by (auto simp: demo_work_def i list_all_iff list_ex_iff)
qed

text \<open>
  What the stamp does not tell: any acknowledged event of a source postpones its sync, a change of a
  single document as well as an event that the dedup gate dropped without writing anything.
\<close>

lemma any_acked_event_postpones_sync:
  assumes "worker_step conf env event w = Some (Some Ack, w')" and "x \<in> set (st_sources (wk_stores w'))" and "so_id x = dc_source_id event"
    and "effective_ttl x = Some ttl" and "now' \<le> wv_clock env + 1000000 * ttl"
  shows "\<not> due now' x"
  by (rule stamped_not_due [OF acked_is_stamped [OF assms(1)] assms(2-5)])

section \<open>The freshness monitor\<close>

lemma report_is_stale:
  "fr_is_stale (compute_report source now) \<longleftrightarrow> (\<exists>sla. so_freshness_sla_seconds source = Some sla \<and> is_stale source now sla)"
  by (simp add: compute_report_def is_stale_def Let_def split: option.split)

text \<open>A source that is reported stale is due, unless it is inactive or pushed.\<close>

lemma reported_source_is_due:
  assumes "fr_is_stale (compute_report source now)" and "so_active source" and "so_sync_mode source = Pull"
  shows "due now source"
  using assms by (auto simp: report_is_stale due_iff is_push_def effective_ttl_def)

lemma set_gauges_total: "gg_stale_total (set_gauges reports n g) = n + length (filter fr_is_stale reports)"
  by (induction reports arbitrary: n g) auto

lemma set_gauges_other:
  "k \<notin> (\<lambda>r. (uuid_str (fr_source_id r), fr_source_name r)) ` set reports \<Longrightarrow> dict_get (gg_age (set_gauges reports n g)) k = dict_get (gg_age g) k"
  by (induction reports arbitrary: n g) auto

lemma set_gauges_age:
  assumes "distinct (map fr_source_id reports)" and "r \<in> set reports"
  shows "dict_get (gg_age (set_gauges reports n g)) (uuid_str (fr_source_id r), fr_source_name r) = Some (prometheus_age r)"
  using assms
proof (induction reports arbitrary: n g)
  case (Cons a reports)
  show ?case
  proof (cases "r = a")
    case True
    have "(uuid_str (fr_source_id r), fr_source_name r) \<notin> (\<lambda>r. (uuid_str (fr_source_id r), fr_source_name r)) ` set reports"
      using Cons.prems(1) True by (auto simp: image_iff rev_image_eqI)
    then show ?thesis using True by (simp add: set_gauges_other)
  qed (use Cons in auto)
qed simp

lemma compute_report_id [simp]: "fr_source_id (compute_report source now) = so_id source"
  "fr_source_name (compute_report source now) = so_name source"
  by (simp_all add: compute_report_def Let_def split: option.split)

lemma freshness_tick_exact:
  assumes "distinct (map so_id sources)" and "source \<in> set sources"
  shows "\<exists>g'. freshness_tick True now sources g = (Inr (), g')
    \<and> dict_get (gg_age g') (uuid_str (so_id source), so_name source)
      = Some (case so_last_sync_at source of None \<Rightarrow> NEVER_SYNCED_AGE_SENTINEL | Some t \<Rightarrow> total_seconds now t)
    \<and> gg_stale_total g' = length (filter (\<lambda>s. fr_is_stale (compute_report s now)) sources)"
proof -
  let ?rs = "map (\<lambda>s. compute_report s now) sources"
  have "distinct (map fr_source_id ?rs)" using assms(1) by (simp add: o_def)
  then have "dict_get (gg_age (set_gauges ?rs 0 g)) (uuid_str (so_id source), so_name source) = Some (prometheus_age (compute_report source now))"
    using set_gauges_age [of ?rs "compute_report source now"] assms(2) by simp
  moreover have "prometheus_age (compute_report source now)
      = (case so_last_sync_at source of None \<Rightarrow> NEVER_SYNCED_AGE_SENTINEL | Some t \<Rightarrow> total_seconds now t)"
    by (simp add: prometheus_age_def compute_report_def Let_def split: option.split)
  ultimately show ?thesis
    by (simp add: freshness_tick_def check_all_def set_gauges_total filter_map o_def)
qed

section \<open>Discovery\<close>

text \<open>The constraints of the table: the primary key and \<^verbatim>\<open>uq_sources_tenant_name\<close>, in which nulls are distinct.\<close>

definition sources_ok :: "source_row list \<Rightarrow> bool" where
  "sources_ok sources \<longleftrightarrow> distinct (map so_id sources)
     \<and> distinct (map (\<lambda>s. (so_tenant_id s, so_name s)) (filter (\<lambda>s. so_tenant_id s \<noteq> None) sources))"

definition has_source :: "uuid \<Rightarrow> string \<Rightarrow> source_row list \<Rightarrow> bool" where
  "has_source ws name sources \<longleftrightarrow> list_ex (\<lambda>s. so_tenant_id s = Some ws \<and> so_name s = name) sources"

text \<open>A row that discovery adds to the table: active, pulled, never synced and due after a day.\<close>

definition provisioned :: "uuid \<Rightarrow> source_row \<Rightarrow> bool" where
  "provisioned ws s \<longleftrightarrow> so_tenant_id s = Some ws \<and> so_active s \<and> so_sync_mode s = Pull \<and> so_freshness_sla_seconds s = Some 86400
     \<and> so_last_sync_at s = None \<and> so_type s \<in> set SOURCE_TYPES \<and> dict_get (so_config s) ''provisioned_by'' = Some (JStr ''discovery_worker'')"

lemma provisioned_due: "provisioned ws s \<Longrightarrow> due now s"
  by (simp add: provisioned_def due_def)

lemma has_source_filter:
  "filter (\<lambda>s. so_name s = name \<and> so_tenant_id s = Some ws) sources = [] \<longleftrightarrow> \<not> has_source ws name sources"
  by (auto simp: has_source_def list_ex_iff filter_empty_conv)

lemma ensure_source_cases:
  assumes "ensure_source env ws ds sources = Inr sources'"
  obtains (known) "has_source ws (ds_name ds) sources" "sources' = sources"
  | (added) s where "\<not> has_source ws (ds_name ds) sources" "sources' = sources @ [s]" "so_name s = ds_name ds" "provisioned ws s"
      "so_id s \<notin> so_id ` set sources"
proof (cases "filter (\<lambda>s. so_name s = ds_name ds \<and> so_tenant_id s = Some ws) sources")
  case Nil
  define s where "s = \<lparr>so_id = dv_new_id env (length sources), so_type = ds_type ds, so_name = ds_name ds, so_sync_mode = Pull,
      so_freshness_sla_seconds = Some 86400, so_active = True, so_tenant_id = Some ws, so_secrets_ref = None,
      so_config = discovered_config env ds, so_last_sync_at = None\<rparr>"
  have new: "\<not> has_source ws (ds_name ds) sources" using Nil unfolding has_source_filter .
  have e: "(if ds_type ds \<notin> set SOURCE_TYPES then Inl (ValueError (ds_type ds @ '' is not a valid SourceType''))
      else if dv_new_id env (length sources) \<in> so_id ` set sources then Inl (BackendError ''IntegrityError'')
      else Inr (sources @ [s])) = Inr sources'"
    using assms unfolding ensure_source_def Nil Let_def s_def by simp
  then have k: "ds_type ds \<in> set SOURCE_TYPES" "dv_new_id env (length sources) \<notin> so_id ` set sources" "sources' = sources @ [s]"
    by (auto split: if_splits)
  have "dict_get (discovered_config env ds) ''provisioned_by'' = Some (JStr ''discovery_worker'')"
    by (simp add: discovered_config_def)
  then have "provisioned ws s" "so_name s = ds_name ds" "so_id s \<notin> so_id ` set sources"
    using k(1,2) by (simp_all add: provisioned_def s_def)
  then show thesis using added new k(3) by blast
next
  case (Cons a list)
  have "has_source ws (ds_name ds) sources" using has_source_filter [of "ds_name ds" ws sources] unfolding Cons by simp
  moreover have "sources' = sources"
    using assms unfolding ensure_source_def Cons by (cases list) simp_all
  ultimately show thesis by (rule known)
qed

text \<open>What a successful pass over one workspace adds.\<close>

definition extends :: "uuid \<Rightarrow> source_row list \<Rightarrow> source_row list \<Rightarrow> bool" where
  "extends ws sources sources' \<longleftrightarrow> (\<exists>new. sources' = sources @ new \<and> list_all (provisioned ws) new
     \<and> list_all (\<lambda>s. \<not> has_source ws (so_name s) sources) new)"

lemma extends_refl: "extends ws sources sources"
  by (auto simp: extends_def)

lemma extends_trans: "extends ws a b \<Longrightarrow> extends ws b c \<Longrightarrow> extends ws a c"
  by (auto simp: extends_def has_source_def list_all_iff)

lemma ensure_source_extends: "ensure_source env ws ds sources = Inr sources' \<Longrightarrow> extends ws sources sources'"
  by (erule ensure_source_cases) (auto simp: extends_refl extends_def)

lemma ensure_source_ok:
  assumes "sources_ok sources" and "ensure_source env ws ds sources = Inr sources'"
  shows "sources_ok sources'"
  using assms(2)
proof (cases rule: ensure_source_cases)
  case (added s)
  then show ?thesis using assms(1) by (auto simp: sources_ok_def provisioned_def has_source_def list_ex_iff)
qed (use assms(1) in simp)

lemma ensure_source_has: "ensure_source env ws ds sources = Inr sources' \<Longrightarrow> has_source ws (ds_name ds) sources'"
  by (erule ensure_source_cases) (auto simp: has_source_def provisioned_def)

lemma ensure_sources_extends:
  "ensure_sources env ws dss sources = Inr sources' \<Longrightarrow> extends ws sources sources'"
  by (induction dss arbitrary: sources) (auto simp: bind_res_eq_Inr extends_refl intro: ensure_source_extends extends_trans)

lemma ensure_sources_ok:
  "sources_ok sources \<Longrightarrow> ensure_sources env ws dss sources = Inr sources' \<Longrightarrow> sources_ok sources'"
  by (induction dss arbitrary: sources) (auto simp: bind_res_eq_Inr dest: ensure_source_ok)

lemma extends_has: "extends ws sources sources' \<Longrightarrow> has_source ws' name sources \<Longrightarrow> has_source ws' name sources'"
  by (auto simp: extends_def has_source_def)

lemma ensure_sources_has:
  "ensure_sources env ws dss sources = Inr sources' \<Longrightarrow> ds \<in> set dss \<Longrightarrow> has_source ws (ds_name ds) sources'"
proof (induction dss arbitrary: sources)
  case (Cons a dss)
  then obtain s1 where "ensure_source env ws a sources = Inr s1" "ensure_sources env ws dss s1 = Inr sources'"
    by (auto simp: bind_res_eq_Inr)
  then show ?case using Cons ensure_source_has extends_has ensure_sources_extends by fastforce
qed simp

lemma distinct_same_single:
  assumes "distinct (map f xs)" and "xs \<noteq> []" and "\<And>x. x \<in> set xs \<Longrightarrow> f x = c"
  shows "\<exists>a. xs = [a]"
proof (cases xs)
  case (Cons a ys)
  then show ?thesis using assms by (cases ys) auto
qed (use assms(2) in simp)

lemma known_source_kept:
  assumes "sources_ok sources" and "has_source ws (ds_name ds) sources"
  shows "ensure_source env ws ds sources = Inr sources"
proof -
  define f where "f = filter (\<lambda>s. so_name s = ds_name ds \<and> so_tenant_id s = Some ws) sources"
  have "f = filter (\<lambda>s. so_name s = ds_name ds \<and> so_tenant_id s = Some ws) (filter (\<lambda>s. so_tenant_id s \<noteq> None) sources)"
    unfolding f_def filter_filter by (rule filter_cong) auto
  then have "distinct (map (\<lambda>s. (so_tenant_id s, so_name s)) f)"
    using assms(1) distinct_map_filter unfolding sources_ok_def by blast
  moreover have "f \<noteq> []" using assms(2) has_source_filter unfolding f_def by blast
  moreover have "(so_tenant_id s, so_name s) = (Some ws, ds_name ds)" if "s \<in> set f" for s using that by (simp add: f_def)
  ultimately have "\<exists>a. f = [a]" by (rule distinct_same_single)
  then show ?thesis unfolding ensure_source_def f_def [symmetric] by auto
qed

text \<open>What discovery finds for a workspace, before it looks at the table.\<close>

definition found :: "discovery_env \<Rightarrow> workspace_row \<Rightarrow> discovered_source list res" where
  "found env workspace =
     (case truthy_field (wr_settings workspace) ''discovery'' of
        None \<Rightarrow> Inr []
      | Some (JObj discovery_config) \<Rightarrow>
          (case truthy_field discovery_config ''github'' of
             None \<Rightarrow> Inr []
           | Some (JObj github_cfg) \<Rightarrow> github_discover env github_cfg (dict_get github_cfg ''token'')
           | Some _ \<Rightarrow> Inl AttributeError)
      | Some _ \<Rightarrow> Inl AttributeError)"

lemma discover_found:
  "discover_for_workspace env ws sources = bind_res (found env ws) (\<lambda>dss. ensure_sources env (wr_id ws) dss sources)"
  by (simp add: discover_for_workspace_def found_def split: option.split json.split)

lemma discover_extends: "discover_for_workspace env ws sources = Inr sources' \<Longrightarrow> extends (wr_id ws) sources sources'"
  by (auto simp: discover_found bind_res_eq_Inr intro: ensure_sources_extends)

lemma discover_ok: "sources_ok sources \<Longrightarrow> discover_for_workspace env ws sources = Inr sources' \<Longrightarrow> sources_ok sources'"
  by (auto simp: discover_found bind_res_eq_Inr intro: ensure_sources_ok)

text \<open>A whole cycle extends the table for the workspaces it went through, whether it ends in an error or not.\<close>

definition grows :: "workspace_row list \<Rightarrow> source_row list \<Rightarrow> source_row list \<Rightarrow> bool" where
  "grows wss sources sources' \<longleftrightarrow> (\<exists>new. sources' = sources @ new \<and> list_all (\<lambda>s. list_ex (\<lambda>ws. provisioned (wr_id ws) s) wss) new)"

lemma discover_workspaces_grows: "discover_workspaces env wss sources = (r, sources') \<Longrightarrow> grows wss sources sources'"
proof (induction wss arbitrary: sources)
  case (Cons ws wss)
  show ?case
  proof (cases "discover_for_workspace env ws sources")
    case (Inr s1)
    show ?thesis
    proof (cases "dv_commit env (wr_id ws)")
      case True
      have "extends (wr_id ws) sources s1" "grows wss s1 sources'"
        using discover_extends [OF Inr] Cons Inr True by simp_all
      then show ?thesis by (auto simp: extends_def grows_def list_all_iff)
    qed (use Cons.prems Inr in \<open>simp add: grows_def\<close>)
  qed (use Cons.prems in \<open>simp add: grows_def\<close>)
qed (simp add: grows_def)

lemma discover_workspaces_ok:
  "sources_ok sources \<Longrightarrow> sources_ok (snd (discover_workspaces env wss sources))"
  by (induction wss arbitrary: sources) (auto split: sum.split dest: discover_ok)

definition discovery_step :: "discovery_env \<times> workspace_row list \<Rightarrow> source_row list \<Rightarrow> source_row list" where
  "discovery_step = (\<lambda>(env, wss) sources. snd (discovery_run_once env wss sources))"

interpretation source_table: invariant_of discovery_step sources_ok
  by unfold_locales (auto simp: discovery_step_def discovery_run_once_def discover_workspaces_ok)

text \<open>
  Claim C40: Discovery never touches a registered source and never registers one twice. In every
  sequence of cycles, whatever GitHub answers and whatever fails, identifiers and names within a
  workspace stay unique, a cycle only appends rows, and each appended row belongs to a workspace of
  the cycle and is due, so the next tick of the scheduler publishes its sync marker.
\<close>

theorem discovery_registers_due_sources:
  assumes "sources_ok sources\<^sub>0" and "run discovery_step sources\<^sub>0 cycles = sources"
    and "discovery_run_once env wss sources = (r, sources')"
  shows "sources_ok sources' \<and> take (length sources) sources' = sources
    \<and> list_all (\<lambda>s. list_ex (\<lambda>ws. so_tenant_id s = Some (wr_id ws)) wss
        \<and> trigger_message pyd s \<in> set (snd (check_and_trigger pyd (Jetstream (\<lambda>_ _. Stored)) True now sources' [])))
        (drop (length sources) sources')"
proof -
  have ok: "sources_ok sources" using source_table.run_inv [OF assms(1)] assms(2) by blast
  have ok': "sources_ok sources'"
    using source_table.step_inv [OF ok, of "(env, wss)"] assms(3) by (simp add: discovery_step_def)
  have "grows wss sources sources'"
    using assms(3) discover_workspaces_grows by (auto simp: discovery_run_once_def grows_def split: if_splits)
  then obtain new where new: "sources' = sources @ new" "list_all (\<lambda>s. list_ex (\<lambda>ws. provisioned (wr_id ws) s) wss) new"
    by (auto simp: grows_def)
  have "trigger_message pyd s \<in> set (snd (check_and_trigger pyd (Jetstream (\<lambda>_ _. Stored)) True now sources' []))" if sn: "s \<in> set new" for s
  proof -
    obtain ws where "provisioned ws s" using new(2) sn by (auto simp: list_all_iff list_ex_iff)
    then have "s \<in> set (filter (due now) sources')" using sn new(1) provisioned_due [of ws s now] by simp
    then show ?thesis by (simp add: check_and_trigger_eq Let_def)
  qed
  moreover have "list_all (\<lambda>s. list_ex (\<lambda>ws. so_tenant_id s = Some (wr_id ws)) wss) new"
    using new(2) by (auto simp: list_all_iff list_ex_iff provisioned_def)
  ultimately show ?thesis using ok' new(1) by (simp add: list_all_iff)
qed

definition demo_repo :: gh_repo where
  "demo_repo = \<lparr>gh_name = ''docs'', gh_archived = False, gh_clone_url = ''u'', gh_id = 3,
       gh_full_name = ''org/docs'', gh_description = JNull, gh_language = JNull, gh_stargazers_count = JInt 2\<rparr>"

definition demo_discovery :: discovery_env where
  "demo_discovery = \<lparr>dv_readable = True, dv_github = (\<lambda>_ _ _. Inr [demo_repo, demo_repo\<lparr>gh_name := ''old'', gh_archived := True\<rparr>]),
     dv_re_search = (\<lambda>_ _. Inr True), dv_new_id = (\<lambda>n. of_nat n + 20), dv_now_iso = ''t'', dv_commit = (\<lambda>_. True)\<rparr>"

definition demo_workspace :: workspace_row where
  "demo_workspace = \<lparr>wr_id = 8, wr_settings = [(''discovery'', JObj [(''github'', JObj [(''org'', JStr ''org''), (''token'', JStr ''t'')])])]\<rparr>"

lemma demo_found: "found demo_discovery demo_workspace = Inr [source_of_repo demo_repo]"
  by (simp add: found_def demo_workspace_def demo_discovery_def github_discover_def truthy_field_def json_truthy_def exclude_repos_def demo_repo_def)

lemma demo_discovered:
  "\<exists>s. discovery_run_once demo_discovery [demo_workspace] [demo_source] = (Inr (), [demo_source, s]) \<and> so_name s = ''docs'' \<and> so_id s = 21"
proof -
  have "\<exists>s. ensure_source demo_discovery 8 (source_of_repo demo_repo) [demo_source] = Inr [demo_source, s] \<and> so_name s = ''docs'' \<and> so_id s = 21"
    by (simp add: ensure_source_def demo_source_def source_of_repo_def demo_repo_def SOURCE_TYPES_def demo_discovery_def Let_def)
  then obtain s where e: "ensure_source demo_discovery 8 (source_of_repo demo_repo) [demo_source] = Inr [demo_source, s]"
    and s: "so_name s = ''docs''" "so_id s = 21" by blast
  have d: "dv_readable demo_discovery" "dv_commit demo_discovery ws" "wr_id demo_workspace = 8" for ws
    by (simp_all add: demo_discovery_def demo_workspace_def)
  show ?thesis using e s by (simp add: discovery_run_once_def discover_found demo_found d)
qed

theorem discovery_registers_due_sources_witness:
  "\<exists>s. discovery_run_once demo_discovery [demo_workspace] [demo_source] = (Inr (), [demo_source, s])
     \<and> trigger_message sample_pydantic s \<in> set (snd (check_and_trigger sample_pydantic (Jetstream (\<lambda>_ _. Stored)) True 0 [demo_source, s] []))"
proof -
  obtain s where s: "discovery_run_once demo_discovery [demo_workspace] [demo_source] = (Inr (), [demo_source, s])"
    using demo_discovered by blast
  have ok: "sources_ok [demo_source]" by (simp add: sources_ok_def)
  from discovery_registers_due_sources [OF ok, of "[]", OF _ s, of sample_pydantic 0] show ?thesis
    using s by simp
qed

section \<open>Discovery twice\<close>

lemma grows_has: "grows wss sources sources' \<Longrightarrow> has_source ws name sources \<Longrightarrow> has_source ws name sources'"
  by (auto simp: grows_def has_source_def)

lemma discover_workspaces_complete:
  assumes "discover_workspaces env wss sources = (Inr (), sources')" and "ws \<in> set wss"
  shows "\<exists>dss. found env ws = Inr dss \<and> list_all (\<lambda>ds. has_source (wr_id ws) (ds_name ds) sources') dss"
  using assms
proof (induction wss arbitrary: sources)
  case (Cons w wss)
  obtain s1 where d: "discover_for_workspace env w sources = Inr s1" "discover_workspaces env wss s1 = (Inr (), sources')"
    using Cons.prems(1) by (auto split: sum.splits if_splits)
  show ?case
  proof (cases "ws \<in> set wss")
    case False
    then have "ws = w" using Cons.prems(2) by simp
    moreover obtain dss where "found env w = Inr dss" "ensure_sources env (wr_id w) dss sources = Inr s1"
      using d(1) by (auto simp: discover_found bind_res_eq_Inr)
    ultimately show ?thesis
      using ensure_sources_has grows_has [OF discover_workspaces_grows [OF d(2)]] by (fastforce simp: list_all_iff)
  qed (use Cons.IH d(2) in blast)
qed simp

lemma known_sources_kept:
  "sources_ok sources \<Longrightarrow> list_all (\<lambda>ds. has_source ws (ds_name ds) sources) dss \<Longrightarrow> ensure_sources env ws dss sources = Inr sources"
  by (induction dss) (auto simp: known_source_kept)

lemma found_same:
  assumes "dv_github env' = dv_github env" and "dv_re_search env' = dv_re_search env"
  shows "found env' ws = found env ws"
  unfolding found_def github_discover_def assms ..

lemma discover_workspaces_same:
  assumes "sources_ok sources" and "\<And>ws. dv_commit env ws"
    and "\<And>ws. ws \<in> set wss \<Longrightarrow> \<exists>dss. found env ws = Inr dss \<and> list_all (\<lambda>ds. has_source (wr_id ws) (ds_name ds) sources) dss"
  shows "discover_workspaces env wss sources = (Inr (), sources)"
  using assms(3)
proof (induction wss)
  case (Cons ws wss)
  obtain dss where dss: "found env ws = Inr dss" "list_all (\<lambda>ds. has_source (wr_id ws) (ds_name ds) sources) dss"
    using Cons.prems [of ws] by auto
  then show ?case using Cons.IH Cons.prems assms(2) known_sources_kept [OF assms(1) dss(2)] by (simp add: discover_found)
qed simp

text \<open>A cycle that succeeded and is repeated with the same answers of GitHub registers nothing more.\<close>

lemma discovery_is_idempotent:
  assumes "sources_ok sources" and "discovery_run_once env wss sources = (Inr (), sources')"
    and "dv_github env' = dv_github env" and "dv_re_search env' = dv_re_search env" and "dv_readable env'" and "\<And>ws. dv_commit env' ws"
  shows "discovery_run_once env' wss sources' = (Inr (), sources')"
proof -
  have run: "discover_workspaces env wss sources = (Inr (), sources')"
    using assms(2) by (simp add: discovery_run_once_def split: if_splits)
  have "sources_ok sources'" using discover_workspaces_ok [OF assms(1), of env wss] run by simp
  moreover have "\<exists>dss. found env' ws = Inr dss \<and> list_all (\<lambda>ds. has_source (wr_id ws) (ds_name ds) sources') dss" if "ws \<in> set wss" for ws
    using discover_workspaces_complete [OF run that] found_same [OF assms(3,4)] by simp
  ultimately show ?thesis using discover_workspaces_same assms(5,6) by (simp add: discovery_run_once_def)
qed

end
