(* ===== verification/GraphTiers.thy ===== *)
theory GraphTiers
  imports Fingerprint Messages
begin

text \<open>
  The retention methods of the Neo4j store (\<^verbatim>\<open>packages/index/.../stores/neo4j/store.py\<close>) with the Cypher
  statements they send (\<^verbatim>\<open>neo4j/_cypher.py\<close>). A property value has the type it was written with, and
  comparisons are those of Cypher: an ordering between values of different types is unknown, equality
  between them is false, and a \<^verbatim>\<open>WHERE\<close> keeps a row only when its condition is true. Rows are read in the
  order of the lists, which is also the order in which a \<^verbatim>\<open>LIMIT\<close> takes them; the items of a \<^verbatim>\<open>SET\<close> are
  evaluated and applied from left to right, as Cypher 5 does (the server deployed is Neo4j 5). The server's conversions
  between instants and texts are fields of the environment, which also says which transaction fails; a
  transaction that fails changes nothing.
\<close>

section \<open>Calendar\<close>

type_synonym date = "nat \<times> nat \<times> nat"

text \<open>The day of an instant (microseconds since 1970) in the proleptic Gregorian calendar.\<close>

definition date_of_instant :: "int \<Rightarrow> date" where
  "date_of_instant t =
     (let z = t div 86400000000 + 719468; era = z div 146097; doe = z mod 146097;
          yoe = (doe - doe div 1460 + doe div 36524 - doe div 146096) div 365;
          doy = doe - (365 * yoe + yoe div 4 - yoe div 100);
          mp = (5 * doy + 2) div 153; d = doy - (153 * mp + 2) div 5 + 1;
          m = (if mp < 10 then mp + 3 else mp - 9);
          y = yoe + era * 400 + (if m \<le> 2 then 1 else 0)
      in (nat y, nat m, nat d))"

text \<open>\<^verbatim>\<open>{n:0wd}\<close>.\<close>

definition pad :: "nat \<Rightarrow> nat \<Rightarrow> string" where
  "pad w n = replicate (w - length (digits10 n)) CHR ''0'' @ digits10 n"

definition iso_date :: "date \<Rightarrow> string" where
  "iso_date = (\<lambda>(y, m, d). pad 4 y @ ''-'' @ pad 2 m @ ''-'' @ pad 2 d)"

text \<open>\<^verbatim>\<open>date.fromisoformat\<close> on the extended format.\<close>

definition date_fromisoformat :: "string \<Rightarrow> date res" where
  "date_fromisoformat s =
     (if length s = 10 \<and> s ! 4 = CHR ''-'' \<and> s ! 7 = CHR ''-'' \<and> list_all is_dec (take 4 s @ take 2 (drop 5 s) @ drop 8 s)
      then Inr (dec_value (take 4 s), dec_value (take 2 (drop 5 s)), dec_value (drop 8 s))
      else Inl (ValueError (''Invalid isoformat string'')))"

section \<open>Cypher values\<close>

datatype cval = CNull | CStr string | CDate date | CDateTime int

fun c_lt :: "cval \<Rightarrow> cval \<Rightarrow> bool option" where
  "c_lt (CStr a) (CStr b) = Some (a < b)"
| "c_lt (CDate (y, m, d)) (CDate (y', m', d')) = Some (y < y' \<or> y = y' \<and> (m < m' \<or> m = m' \<and> d < d'))"
| "c_lt (CDateTime a) (CDateTime b) = Some (a < b)"
| "c_lt _ _ = None"

definition is_true :: "bool option \<Rightarrow> bool" where
  "is_true b \<longleftrightarrow> b = Some True"

definition c_match :: "cval \<Rightarrow> cval \<Rightarrow> bool" where
  "c_match a b \<longleftrightarrow> a \<noteq> CNull \<and> a = b"

section \<open>Rows\<close>

record state_props =
  sp_valid_from :: cval
  sp_valid_to :: cval
  sp_recorded_at :: cval
  sp_kind :: cval
  sp_name :: cval
  sp_display_name :: cval
  sp_source_id :: cval
  sp_chunk_id :: cval
  sp_metadata :: cval

record entity_state =
  es_workspace_id :: uuid
  es_id :: string
  es_props :: state_props
  es_tier_pending :: "string option"

record entity_snapshot =
  sn_workspace_id :: uuid
  sn_id :: string
  sn_snapshot_date :: cval
  sn_props :: state_props

text \<open>A relationship; \<open>gr_entities\<close> says that both of its ends are entities.\<close>

record relationship =
  gr_workspace_id :: uuid
  gr_source_entity :: string
  gr_target_entity :: string
  gr_entities :: bool
  gr_edge_type :: string
  gr_source_id :: cval
  gr_valid_from :: cval
  gr_valid_to :: cval
  gr_recorded_at :: cval
  gr_metadata :: cval
  gr_tier_pending :: "string option"

record relationship_snapshot =
  rn_workspace_id :: uuid
  rn_source_entity_id :: string
  rn_target_entity_id :: string
  rn_edge_type :: string
  rn_snapshot_date :: cval
  rn_source_id :: cval
  rn_valid_from :: cval
  rn_valid_to :: cval
  rn_recorded_at :: cval
  rn_metadata :: cval

record tier_graph =
  tg_states :: "entity_state list"
  tg_edges :: "relationship list"
  tg_snapshots :: "entity_snapshot list"
  tg_rel_snapshots :: "relationship_snapshot list"

record graph_env =
  nv_fails :: "string \<Rightarrow> nat \<Rightarrow> bool"
  nv_isoformat :: "int \<Rightarrow> string"
  nv_to_string :: "int \<Rightarrow> string"
  nv_datetime :: "string \<Rightarrow> int res"

definition tx :: "graph_env \<Rightarrow> string \<Rightarrow> nat \<Rightarrow> 'a res \<Rightarrow> 'a res" where
  "tx env name i r = (if nv_fails env name i then Inl (BackendError ''neo4j'') else r)"

section \<open>The read phase\<close>

definition hot_state :: "graph_env \<Rightarrow> uuid \<Rightarrow> int \<Rightarrow> entity_state \<Rightarrow> bool" where
  "hot_state env ws hot_cutoff s \<longleftrightarrow> es_workspace_id s = ws
     \<and> is_true (c_lt (sp_recorded_at (es_props s)) (CStr (nv_isoformat env hot_cutoff))) \<and> sp_valid_to (es_props s) \<noteq> CNull"

definition hot_edge :: "graph_env \<Rightarrow> uuid \<Rightarrow> int \<Rightarrow> relationship \<Rightarrow> bool" where
  "hot_edge env ws hot_cutoff r \<longleftrightarrow> gr_workspace_id r = ws
     \<and> is_true (c_lt (gr_recorded_at r) (CStr (nv_isoformat env hot_cutoff))) \<and> gr_valid_to r \<noteq> CNull"

definition count_hot_to_warm_eligible :: "graph_env \<Rightarrow> uuid \<Rightarrow> int \<Rightarrow> tier_graph \<Rightarrow> (nat \<times> nat) res" where
  "count_hot_to_warm_eligible env ws hot_cutoff g =
     bind_res (tx env ''count_states'' 0 (Inr (length (filter (hot_state env ws hot_cutoff) (tg_states g))))) (\<lambda>es.
     bind_res (tx env ''count_edges'' 0 (Inr (length (filter (hot_edge env ws hot_cutoff) (tg_edges g))))) (\<lambda>edges.
       Inr (es, edges)))"

text \<open>The value least in the order of Cypher, among those that the condition has made comparable.\<close>

fun c_min :: "cval list \<Rightarrow> cval" where
  "c_min [] = CNull"
| "c_min [v] = v"
| "c_min (v # w # vs) = (let m = c_min (w # vs) in if is_true (c_lt v m) then v else m)"

fun c_insert :: "entity_state \<Rightarrow> entity_state list \<Rightarrow> entity_state list" where
  "c_insert s [] = [s]"
| "c_insert s (t # ts) =
     (if is_true (c_lt (sp_recorded_at (es_props t)) (sp_recorded_at (es_props s))) then t # c_insert s ts else s # t # ts)"

definition sample_hot_to_warm_eligible ::
  "graph_env \<Rightarrow> uuid \<Rightarrow> int \<Rightarrow> nat \<Rightarrow> tier_graph \<Rightarrow> (string \<times> cval \<times> cval) list res" where
  "sample_hot_to_warm_eligible env ws hot_cutoff limit g =
     (if limit = 0 then Inr []
      else tx env ''sample'' 0 (Inr (map (\<lambda>s. (es_id s, sp_valid_from (es_props s), sp_recorded_at (es_props s)))
             (take limit (foldr c_insert (filter (hot_state env ws hot_cutoff) (tg_states g)) [])))))"

definition coerce_to_datetime :: "graph_env \<Rightarrow> cval \<Rightarrow> int res" where
  "coerce_to_datetime env v =
     (case v of CDateTime t \<Rightarrow> Inr t | CStr s \<Rightarrow> nv_datetime env s | _ \<Rightarrow> Inl TypeError)"

definition oldest_hot_to_warm_recorded_at :: "graph_env \<Rightarrow> uuid \<Rightarrow> int \<Rightarrow> tier_graph \<Rightarrow> int option res" where
  "oldest_hot_to_warm_recorded_at env ws hot_cutoff g =
     bind_res (tx env ''oldest'' 0 (Inr (c_min (map (\<lambda>s. sp_recorded_at (es_props s)) (filter (hot_state env ws hot_cutoff) (tg_states g)))))) (\<lambda>v.
       if v = CNull then Inr None else bind_res (coerce_to_datetime env v) (\<lambda>t. Inr (Some t)))"

definition archivable :: "uuid \<Rightarrow> date \<Rightarrow> entity_snapshot \<Rightarrow> bool" where
  "archivable ws warm_cutoff_date s \<longleftrightarrow> sn_workspace_id s = ws \<and> is_true (c_lt (sn_snapshot_date s) (CStr (iso_date warm_cutoff_date)))"

definition count_warm_to_archive_eligible :: "graph_env \<Rightarrow> uuid \<Rightarrow> date \<Rightarrow> tier_graph \<Rightarrow> nat res" where
  "count_warm_to_archive_eligible env ws warm_cutoff_date g =
     tx env ''count_warm'' 0 (Inr (length (filter (archivable ws warm_cutoff_date) (tg_snapshots g))))"

definition coerce_to_date :: "cval \<Rightarrow> date res" where
  "coerce_to_date v =
     (case v of CDate d \<Rightarrow> Inr d | CDateTime t \<Rightarrow> Inr (date_of_instant t) | CStr s \<Rightarrow> date_fromisoformat s | CNull \<Rightarrow> Inl TypeError)"

fun coerce_dates :: "cval list \<Rightarrow> date list res" where
  "coerce_dates [] = Inr []"
| "coerce_dates (v # vs) = bind_res (coerce_to_date v) (\<lambda>d. bind_res (coerce_dates vs) (\<lambda>ds. Inr (d # ds)))"

fun c_insert_val :: "cval \<Rightarrow> cval list \<Rightarrow> cval list" where
  "c_insert_val v [] = [v]"
| "c_insert_val v (w # ws) = (if is_true (c_lt w v) then w # c_insert_val v ws else v # w # ws)"

definition list_warm_to_archive_dates :: "graph_env \<Rightarrow> uuid \<Rightarrow> date \<Rightarrow> nat \<Rightarrow> tier_graph \<Rightarrow> date list res" where
  "list_warm_to_archive_dates env ws warm_cutoff_date limit g =
     (if limit = 0 then Inr []
      else bind_res (tx env ''list_dates'' 0
             (Inr (take limit (foldr c_insert_val (remdups (map sn_snapshot_date (filter (archivable ws warm_cutoff_date) (tg_snapshots g)))) []))))
             coerce_dates)"

definition count_records_by_tier :: "graph_env \<Rightarrow> uuid \<Rightarrow> tier_graph \<Rightarrow> (nat \<times> nat) res" where
  "count_records_by_tier env ws g =
     bind_res (tx env ''count_hot'' 0 (Inr (length (filter (\<lambda>s. es_workspace_id s = ws) (tg_states g))))) (\<lambda>hot.
     bind_res (tx env ''count_snapshots'' 0 (Inr (length (filter (\<lambda>s. sn_workspace_id s = ws) (tg_snapshots g))))) (\<lambda>warm.
       Inr (hot, warm)))"

section \<open>Mark and move\<close>

text \<open>The first \<open>n\<close> elements that satisfy the condition: changed in place, or taken out of the list.\<close>

fun update_first :: "('a \<Rightarrow> bool) \<Rightarrow> ('a \<Rightarrow> 'a) \<Rightarrow> nat \<Rightarrow> 'a list \<Rightarrow> nat \<times> 'a list" where
  "update_first P f n [] = (0, [])"
| "update_first P f n (x # xs) =
     (if 0 < n \<and> P x then (case update_first P f (n - 1) xs of (c, ys) \<Rightarrow> (c + 1, f x # ys))
      else (case update_first P f n xs of (c, ys) \<Rightarrow> (c, x # ys)))"

fun take_first :: "('a \<Rightarrow> bool) \<Rightarrow> nat \<Rightarrow> 'a list \<Rightarrow> 'a list \<times> 'a list" where
  "take_first P n [] = ([], [])"
| "take_first P n (x # xs) =
     (if 0 < n \<and> P x then (case take_first P (n - 1) xs of (ts, ys) \<Rightarrow> (x # ts, ys))
      else (case take_first P n xs of (ts, ys) \<Rightarrow> (ts, x # ys)))"

definition mark_states_pass :: "graph_env \<Rightarrow> uuid \<Rightarrow> int \<Rightarrow> nat \<Rightarrow> tier_graph \<Rightarrow> (nat \<times> tier_graph) res" where
  "mark_states_pass env ws hot_cutoff batch_size g =
     (case update_first (\<lambda>s. hot_state env ws hot_cutoff s \<and> es_tier_pending s \<noteq> Some ''warm'')
             (\<lambda>s. s\<lparr>es_tier_pending := Some ''warm''\<rparr>) batch_size (tg_states g) of
        (marked, states) \<Rightarrow> Inr (marked, g\<lparr>tg_states := states\<rparr>))"

definition mark_edges_pass :: "graph_env \<Rightarrow> uuid \<Rightarrow> int \<Rightarrow> nat \<Rightarrow> tier_graph \<Rightarrow> (nat \<times> tier_graph) res" where
  "mark_edges_pass env ws hot_cutoff batch_size g =
     (case update_first (\<lambda>r. hot_edge env ws hot_cutoff r \<and> gr_tier_pending r \<noteq> Some ''warm'')
             (\<lambda>r. r\<lparr>gr_tier_pending := Some ''warm''\<rparr>) batch_size (tg_edges g) of
        (marked, edges) \<Rightarrow> Inr (marked, g\<lparr>tg_edges := edges\<rparr>))"

text \<open>\<^verbatim>\<open>date(datetime(v))\<close>; a \<^verbatim>\<open>MERGE\<close> on a null is an error.\<close>

definition snap_date :: "graph_env \<Rightarrow> cval \<Rightarrow> cval res" where
  "snap_date env v =
     (case v of
        CNull \<Rightarrow> Inl (BackendError ''neo4j'')
      | CStr s \<Rightarrow> bind_res (nv_datetime env s) (\<lambda>t. Inr (CDate (date_of_instant t)))
      | CDate d \<Rightarrow> Inr (CDate d)
      | CDateTime t \<Rightarrow> Inr (CDate (date_of_instant t)))"

definition snapshot_key :: "entity_snapshot \<Rightarrow> uuid \<times> string \<times> cval" where
  "snapshot_key s = (sn_workspace_id s, sn_id s, sn_snapshot_date s)"

text \<open>
  One item of \<^verbatim>\<open>ON MATCH SET\<close>: the \<^verbatim>\<open>CASE\<close> reads the snapshot as the items before it have left it.
\<close>

definition set_newer :: "state_props \<Rightarrow> (state_props \<Rightarrow> state_props) \<Rightarrow> state_props \<Rightarrow> state_props" where
  "set_newer p item x = (if is_true (c_lt (sp_valid_from x) (sp_valid_from p)) then item x else x)"

definition on_match_set :: "state_props \<Rightarrow> state_props \<Rightarrow> state_props" where
  "on_match_set p =
     fold (set_newer p)
       [\<lambda>x. x\<lparr>sp_valid_from := sp_valid_from p\<rparr>, \<lambda>x. x\<lparr>sp_valid_to := sp_valid_to p\<rparr>, \<lambda>x. x\<lparr>sp_recorded_at := sp_recorded_at p\<rparr>,
        \<lambda>x. x\<lparr>sp_kind := sp_kind p\<rparr>, \<lambda>x. x\<lparr>sp_name := sp_name p\<rparr>, \<lambda>x. x\<lparr>sp_display_name := sp_display_name p\<rparr>,
        \<lambda>x. x\<lparr>sp_source_id := sp_source_id p\<rparr>, \<lambda>x. x\<lparr>sp_chunk_id := sp_chunk_id p\<rparr>, \<lambda>x. x\<lparr>sp_metadata := sp_metadata p\<rparr>]"

definition merge_snapshot :: "entity_state \<Rightarrow> cval \<Rightarrow> entity_snapshot list \<Rightarrow> entity_snapshot list" where
  "merge_snapshot s d snaps =
     (if list_ex (\<lambda>x. snapshot_key x = (es_workspace_id s, es_id s, d)) snaps
      then map (\<lambda>x. if snapshot_key x = (es_workspace_id s, es_id s, d)
                     then x\<lparr>sn_props := on_match_set (es_props s) (sn_props x)\<rparr> else x) snaps
      else snaps @ [\<lparr>sn_workspace_id = es_workspace_id s, sn_id = es_id s, sn_snapshot_date = d, sn_props = es_props s\<rparr>])"

fun merge_snapshots :: "graph_env \<Rightarrow> entity_state list \<Rightarrow> entity_snapshot list \<Rightarrow> entity_snapshot list res" where
  "merge_snapshots env [] snaps = Inr snaps"
| "merge_snapshots env (s # ss) snaps =
     bind_res (snap_date env (sp_recorded_at (es_props s))) (\<lambda>d. merge_snapshots env ss (merge_snapshot s d snaps))"

definition move_states_pass :: "graph_env \<Rightarrow> uuid \<Rightarrow> nat \<Rightarrow> tier_graph \<Rightarrow> (nat \<times> tier_graph) res" where
  "move_states_pass env ws batch_size g =
     (case take_first (\<lambda>s. es_workspace_id s = ws \<and> es_tier_pending s = Some ''warm'') batch_size (tg_states g) of
        (moved, rest) \<Rightarrow>
          bind_res (merge_snapshots env moved (tg_snapshots g)) (\<lambda>snaps.
            Inr (length moved, g\<lparr>tg_states := rest, tg_snapshots := snaps\<rparr>)))"

definition rel_snapshot_key :: "relationship_snapshot \<Rightarrow> uuid \<times> string \<times> string \<times> string \<times> cval" where
  "rel_snapshot_key s = (rn_workspace_id s, rn_source_entity_id s, rn_target_entity_id s, rn_edge_type s, rn_snapshot_date s)"

text \<open>A second relationship of the same key and day leaves the first one's snapshot.\<close>

definition merge_rel_snapshot :: "relationship \<Rightarrow> cval \<Rightarrow> relationship_snapshot list \<Rightarrow> relationship_snapshot list" where
  "merge_rel_snapshot r d snaps =
     (if list_ex (\<lambda>x. rel_snapshot_key x = (gr_workspace_id r, gr_source_entity r, gr_target_entity r, gr_edge_type r, d)) snaps then snaps
      else snaps @ [\<lparr>rn_workspace_id = gr_workspace_id r, rn_source_entity_id = gr_source_entity r, rn_target_entity_id = gr_target_entity r,
             rn_edge_type = gr_edge_type r, rn_snapshot_date = d, rn_source_id = gr_source_id r, rn_valid_from = gr_valid_from r,
             rn_valid_to = gr_valid_to r, rn_recorded_at = gr_recorded_at r, rn_metadata = gr_metadata r\<rparr>])"

fun merge_rel_snapshots :: "graph_env \<Rightarrow> relationship list \<Rightarrow> relationship_snapshot list \<Rightarrow> relationship_snapshot list res" where
  "merge_rel_snapshots env [] snaps = Inr snaps"
| "merge_rel_snapshots env (r # rs) snaps =
     bind_res (snap_date env (gr_recorded_at r)) (\<lambda>d. merge_rel_snapshots env rs (merge_rel_snapshot r d snaps))"

definition move_edges_pass :: "graph_env \<Rightarrow> uuid \<Rightarrow> nat \<Rightarrow> tier_graph \<Rightarrow> (nat \<times> tier_graph) res" where
  "move_edges_pass env ws batch_size g =
     (case take_first (\<lambda>r. gr_entities r \<and> gr_workspace_id r = ws \<and> gr_tier_pending r = Some ''warm'') batch_size (tg_edges g) of
        (moved, rest) \<Rightarrow>
          bind_res (merge_rel_snapshots env moved (tg_rel_snapshots g)) (\<lambda>snaps.
            Inr (length moved, g\<lparr>tg_edges := rest, tg_rel_snapshots := snaps\<rparr>)))"

text \<open>\<^verbatim>\<open>_loop_count_query\<close>: passes in transactions of their own until one of them counts nothing.\<close>

partial_function (option) loop_count_query ::
  "graph_env \<Rightarrow> string \<Rightarrow> (tier_graph \<Rightarrow> (nat \<times> tier_graph) res) \<Rightarrow> nat \<Rightarrow> nat \<Rightarrow> tier_graph \<Rightarrow> (nat res \<times> tier_graph) option" where
  "loop_count_query env name pass i so_far g =
     (case tx env name i (pass g) of
        Inl e \<Rightarrow> Some (Inl e, g)
      | Inr (count, g') \<Rightarrow>
          if count = 0 then Some (Inr so_far, g') else loop_count_query env name pass (i + 1) (so_far + count) g')"

definition mark_hot_to_warm :: "graph_env \<Rightarrow> uuid \<Rightarrow> int \<Rightarrow> nat \<Rightarrow> (tier_graph, nat \<times> nat) prog" where
  "mark_hot_to_warm env ws hot_cutoff batch_size =
     bind_p (loop_count_query env ''mark_states'' (mark_states_pass env ws hot_cutoff batch_size) 0 0) (\<lambda>es.
     bind_p (loop_count_query env ''mark_edges'' (mark_edges_pass env ws hot_cutoff batch_size) 0 0) (\<lambda>edges. ret_p (es, edges)))"

definition move_hot_to_warm :: "graph_env \<Rightarrow> uuid \<Rightarrow> nat \<Rightarrow> (tier_graph, nat \<times> nat) prog" where
  "move_hot_to_warm env ws batch_size =
     bind_p (loop_count_query env ''move_states'' (move_states_pass env ws batch_size) 0 0) (\<lambda>es.
     bind_p (loop_count_query env ''move_edges'' (move_edges_pass env ws batch_size) 0 0) (\<lambda>edges. ret_p (es, edges)))"

section \<open>The archive phase\<close>

definition c_to_string :: "graph_env \<Rightarrow> cval \<Rightarrow> cval" where
  "c_to_string env v = (case v of CDateTime t \<Rightarrow> CStr (nv_to_string env t) | CDate d \<Rightarrow> CStr (iso_date d) | _ \<Rightarrow> v)"

type_synonym graph_row = "(string, cval) dict"

definition entity_row :: "graph_env \<Rightarrow> entity_snapshot \<Rightarrow> graph_row" where
  "entity_row env s =
     [(''id'', CStr (sn_id s)), (''kind'', sp_kind (sn_props s)), (''name'', sp_name (sn_props s)),
      (''display_name'', sp_display_name (sn_props s)), (''source_id'', sp_source_id (sn_props s)), (''chunk_id'', sp_chunk_id (sn_props s)),
      (''valid_from'', c_to_string env (sp_valid_from (sn_props s))), (''valid_to'', c_to_string env (sp_valid_to (sn_props s))),
      (''recorded_at'', c_to_string env (sp_recorded_at (sn_props s))), (''metadata'', sp_metadata (sn_props s))]"

definition edge_row :: "graph_env \<Rightarrow> relationship_snapshot \<Rightarrow> graph_row" where
  "edge_row env s =
     [(''source_entity_id'', CStr (rn_source_entity_id s)), (''target_entity_id'', CStr (rn_target_entity_id s)),
      (''edge_type'', CStr (rn_edge_type s)), (''source_id'', rn_source_id s),
      (''valid_from'', c_to_string env (rn_valid_from s)), (''valid_to'', c_to_string env (rn_valid_to s)),
      (''recorded_at'', c_to_string env (rn_recorded_at s)), (''metadata'', rn_metadata s)]"

definition on_day :: "uuid \<Rightarrow> date \<Rightarrow> entity_snapshot \<Rightarrow> bool" where
  "on_day ws d s \<longleftrightarrow> sn_workspace_id s = ws \<and> c_match (sn_snapshot_date s) (CStr (iso_date d))"

definition rel_on_day :: "uuid \<Rightarrow> date \<Rightarrow> relationship_snapshot \<Rightarrow> bool" where
  "rel_on_day ws d s \<longleftrightarrow> rn_workspace_id s = ws \<and> c_match (rn_snapshot_date s) (CStr (iso_date d))"

definition fetch_warm_snapshot_rows ::
  "graph_env \<Rightarrow> uuid \<Rightarrow> date \<Rightarrow> tier_graph \<Rightarrow> (graph_row list \<times> graph_row list) res" where
  "fetch_warm_snapshot_rows env ws d g =
     bind_res (tx env (''fetch_entities '' @ iso_date d) 0 (Inr (map (entity_row env) (filter (on_day ws d) (tg_snapshots g))))) (\<lambda>es.
     bind_res (tx env (''fetch_edges '' @ iso_date d) 0 (Inr (map (edge_row env) (filter (rel_on_day ws d) (tg_rel_snapshots g))))) (\<lambda>edges.
       Inr (es, edges)))"

definition delete_warm_snapshot :: "graph_env \<Rightarrow> uuid \<Rightarrow> date \<Rightarrow> (tier_graph, nat \<times> nat) prog" where
  "delete_warm_snapshot env ws d = (\<lambda>g.
     if nv_fails env (''delete_entities '' @ iso_date d) 0 then Some (Inl (BackendError ''neo4j''), g)
     else let g1 = g\<lparr>tg_snapshots := filter (\<lambda>s. \<not> on_day ws d s) (tg_snapshots g)\<rparr>;
              es = length (filter (on_day ws d) (tg_snapshots g))
          in if nv_fails env (''delete_edges '' @ iso_date d) 0 then Some (Inl (BackendError ''neo4j''), g1)
             else Some (Inr (es, length (filter (rel_on_day ws d) (tg_rel_snapshots g))),
                    g1\<lparr>tg_rel_snapshots := filter (\<lambda>s. \<not> rel_on_day ws d s) (tg_rel_snapshots g)\<rparr>))"

section \<open>The loops\<close>

lemma update_first_count:
  assumes "\<And>x. P x \<Longrightarrow> \<not> P (f x)" and "update_first P f n xs = (c, ys)"
  shows "length (filter P ys) + c = length (filter P xs)"
  using assms(2) by (induction xs arbitrary: n c ys) (auto simp: assms(1) split: if_splits prod.splits)

lemma take_first_length: "take_first P n xs = (ts, ys) \<Longrightarrow> length ts + length ys = length xs"
  by (induction xs arbitrary: n ts ys) (fastforce split: if_splits prod.splits)+

lemma update_first_none: "list_all (\<lambda>x. \<not> P x) xs \<Longrightarrow> update_first P f n xs = (0, xs)"
  by (induction xs) auto

lemma take_first_none: "list_all (\<lambda>x. \<not> P x) xs \<Longrightarrow> take_first P n xs = ([], xs)"
  by (induction xs) auto

text \<open>A loop whose passes use up a measure returns, and it keeps what its passes keep.\<close>

lemma loop_returns:
  fixes m :: "tier_graph \<Rightarrow> nat"
  assumes "\<And>g c g'. pass g = Inr (c, g') \<Longrightarrow> m g' + c \<le> m g"
  shows "\<exists>r. loop_count_query env name pass i so_far g = Some r"
proof (induction "m g" arbitrary: g i so_far rule: less_induct)
  case less
  show ?case
  proof (cases "tx env name i (pass g)")
    case (Inr p)
    obtain c g' where p: "p = (c, g')" by fastforce
    have "pass g = Inr (c, g')" using Inr p by (simp add: tx_def split: if_splits)
    then have "m g' + c \<le> m g" by (rule assms)
    then show ?thesis
      using less [of g' "i + 1" "so_far + c"] Inr p by (subst loop_count_query.simps) (cases "c = 0"; simp)
  qed (subst loop_count_query.simps, simp)
qed

lemma loop_keeps:
  assumes "\<And>g c g'. I g \<Longrightarrow> pass g = Inr (c, g') \<Longrightarrow> I g'"
  shows "keeps_p I (loop_count_query env name pass i so_far)"
proof (rule keeps_pI)
  fix g r g'
  assume g: "I g" and run: "loop_count_query env name pass i so_far g = Some (r, g')"
  let ?P = "\<lambda>env name p (i :: nat) (so_far :: nat) g q. p = pass \<longrightarrow> I g \<longrightarrow> I (snd q)"
  have "?P env name pass i so_far g (r, g')"
  proof (rule loop_count_query.raw_induct [where P = ?P, OF _ run])
    fix query env name p i so_far g q
    assume ih: "\<And>env name p i so_far g q. query env name p i so_far g = Some q \<Longrightarrow> p = pass \<longrightarrow> I g \<longrightarrow> I (snd q)"
      and body: "(case tx env name i (p g) of Inl e \<Rightarrow> Some (Inl e, g)
        | Inr (count, g') \<Rightarrow> if count = 0 then Some (Inr so_far, g') else query env name p (i + 1) (so_far + count) g') = Some q"
    show "p = pass \<longrightarrow> I g \<longrightarrow> I (snd q)"
    proof (intro impI)
      assume p: "p = pass" and g: "I g"
      show "I (snd q)"
      proof (cases "tx env name i (p g)")
        case (Inr cg)
        obtain c g1 where cg: "cg = (c, g1)" by fastforce
        then have "pass g = Inr (c, g1)" using Inr p by (simp add: tx_def split: if_splits)
        then have "I g1" using assms g by blast
        then show ?thesis using body ih Inr cg p by (auto split: if_splits)
      qed (use body g in auto)
    qed
  qed
  then show "I g'" using g by simp
qed

lemma loop_idle:
  assumes "pass g = Inr (0, g)"
  shows "\<exists>r. loop_count_query env name pass i so_far g = Some (r, g)"
  using assms by (subst loop_count_query.simps) (simp add: tx_def)

text \<open>The mark and the move phase end, whatever fails.\<close>

lemma mark_hot_to_warm_returns: "\<exists>r. mark_hot_to_warm env ws hot_cutoff batch_size g = Some r"
proof -
  let ?S = "\<lambda>s. hot_state env ws hot_cutoff s \<and> es_tier_pending s \<noteq> Some ''warm''"
  let ?E = "\<lambda>r. hot_edge env ws hot_cutoff r \<and> gr_tier_pending r \<noteq> Some ''warm''"
  have s: "length (filter ?S (tg_states g')) + c \<le> length (filter ?S (tg_states g))"
    if "mark_states_pass env ws hot_cutoff batch_size g = Inr (c, g')" for g c g'
    using that update_first_count [of ?S "\<lambda>s. s\<lparr>es_tier_pending := Some ''warm''\<rparr>" batch_size "tg_states g"]
    by (auto simp: mark_states_pass_def split: prod.splits)
  have e: "length (filter ?E (tg_edges g')) + c \<le> length (filter ?E (tg_edges g))"
    if "mark_edges_pass env ws hot_cutoff batch_size g = Inr (c, g')" for g c g'
    using that update_first_count [of ?E "\<lambda>r. r\<lparr>gr_tier_pending := Some ''warm''\<rparr>" batch_size "tg_edges g"]
    by (auto simp: mark_edges_pass_def split: prod.splits)
  obtain r g1 where "loop_count_query env ''mark_states'' (mark_states_pass env ws hot_cutoff batch_size) 0 0 g = Some (r, g1)"
    using loop_returns [of "mark_states_pass env ws hot_cutoff batch_size" "\<lambda>g. length (filter ?S (tg_states g))", OF s] by fastforce
  moreover have "\<exists>q. loop_count_query env ''mark_edges'' (mark_edges_pass env ws hot_cutoff batch_size) 0 0 g1 = Some q"
    by (rule loop_returns [of _ "\<lambda>g. length (filter ?E (tg_edges g))", OF e])
  ultimately show ?thesis by (cases r) (auto simp: mark_hot_to_warm_def bind_p_def ret_p_def split: sum.splits)
qed

lemma move_hot_to_warm_returns: "\<exists>r. move_hot_to_warm env ws batch_size g = Some r"
proof -
  have s: "length (tg_states g') + c \<le> length (tg_states g)" if "move_states_pass env ws batch_size g = Inr (c, g')" for g c g'
    using that take_first_length
    by (fastforce simp: move_states_pass_def bind_res_eq_Inr split: prod.splits)
  have e: "length (tg_edges g') + c \<le> length (tg_edges g)" if "move_edges_pass env ws batch_size g = Inr (c, g')" for g c g'
    using that take_first_length
    by (fastforce simp: move_edges_pass_def bind_res_eq_Inr split: prod.splits)
  obtain r g1 where "loop_count_query env ''move_states'' (move_states_pass env ws batch_size) 0 0 g = Some (r, g1)"
    using loop_returns [of "move_states_pass env ws batch_size" "\<lambda>g. length (tg_states g)", OF s] by fastforce
  moreover have "\<exists>q. loop_count_query env ''move_edges'' (move_edges_pass env ws batch_size) 0 0 g1 = Some q"
    by (rule loop_returns [of _ "\<lambda>g. length (tg_edges g)", OF e])
  ultimately show ?thesis by (cases r) (auto simp: move_hot_to_warm_def bind_p_def ret_p_def split: sum.splits)
qed

section \<open>What happens to warm rows\<close>

text \<open>
  A second state of the same entity and day changes \<^verbatim>\<open>valid_from\<close> and nothing else: once the first item of
  the \<^verbatim>\<open>SET\<close> has run, the conditions of the others are false, so the snapshot of the newer state keeps the
  fields of the older one.
\<close>

lemma c_lt_irrefl [simp]: "\<not> is_true (c_lt v v)"
  by (cases v) (auto simp: is_true_def)

lemma match_keeps_old_fields:
  "on_match_set p x = (if is_true (c_lt (sp_valid_from x) (sp_valid_from p)) then x\<lparr>sp_valid_from := sp_valid_from p\<rparr> else x)"
  by (simp add: on_match_set_def set_newer_def)

definition with_valid_from :: "cval \<Rightarrow> entity_snapshot \<Rightarrow> entity_snapshot" where
  "with_valid_from v s = s\<lparr>sn_props := (sn_props s)\<lparr>sp_valid_from := v\<rparr>\<rparr>"

lemma with_valid_from_same [simp]: "with_valid_from (sp_valid_from (sn_props s)) s = s"
  by (simp add: with_valid_from_def)

lemma match_changes_valid_from: "\<exists>v. s\<lparr>sn_props := on_match_set p (sn_props s)\<rparr> = with_valid_from v s"
proof -
  have "s\<lparr>sn_props := on_match_set p (sn_props s)\<rparr>
      = with_valid_from (if is_true (c_lt (sp_valid_from (sn_props s)) (sp_valid_from p)) then sp_valid_from p else sp_valid_from (sn_props s)) s"
    by (simp add: match_keeps_old_fields with_valid_from_def)
  then show ?thesis by blast
qed

text \<open>
  What the move phase cannot change: a snapshot with a date value may get another \<^verbatim>\<open>valid_from\<close>, since the move
  phase merges by dates; every other snapshot stays as it is.
\<close>

definition settled :: "entity_snapshot \<Rightarrow> entity_snapshot" where
  "settled s = (case sn_snapshot_date s of CDate _ \<Rightarrow> with_valid_from CNull s | _ \<Rightarrow> s)"

lemma settled_valid_from: "sn_snapshot_date s = CDate d \<Longrightarrow> settled (with_valid_from v s) = settled s"
  by (simp add: settled_def with_valid_from_def)

lemma settled_eq: "settled x = settled s \<Longrightarrow> \<exists>v. x = with_valid_from v s"
proof (cases "\<exists>d. sn_snapshot_date s = CDate d")
  case True
  assume e: "settled x = settled s"
  have d: "sn_snapshot_date x = sn_snapshot_date s"
    using arg_cong [OF e, of sn_snapshot_date] by (simp add: settled_def with_valid_from_def split: cval.splits)
  have "with_valid_from CNull x = with_valid_from CNull s" using e True d by (auto simp: settled_def)
  then have "with_valid_from (sp_valid_from (sn_props x)) (with_valid_from CNull x)
      = with_valid_from (sp_valid_from (sn_props x)) (with_valid_from CNull s)" by simp
  then show ?thesis by (auto simp: with_valid_from_def)
next
  case False
  assume e: "settled x = settled s"
  have "sn_snapshot_date x = sn_snapshot_date s"
    using arg_cong [OF e, of sn_snapshot_date] by (simp add: settled_def with_valid_from_def split: cval.splits)
  then have "x = s" using e False by (cases "sn_snapshot_date s") (auto simp: settled_def)
  then show ?thesis using with_valid_from_same by metis
qed

definition warm_rows :: "tier_graph \<Rightarrow> (entity_snapshot + relationship_snapshot) set" where
  "warm_rows g = Inl ` settled ` set (tg_snapshots g) \<union> Inr ` set (tg_rel_snapshots g)"

lemma snap_date_CDate: "snap_date env v = Inr d \<Longrightarrow> \<exists>c. d = CDate c"
  unfolding snap_date_def by (cases v) (auto simp: bind_res_eq_Inr simp del: split_paired_Ex)

lemma merge_snapshot_rows: "settled ` set snaps \<subseteq> settled ` set (merge_snapshot s (CDate d) snaps)"
proof (rule image_subsetI)
  fix x assume x: "x \<in> set snaps"
  show "settled x \<in> settled ` set (merge_snapshot s (CDate d) snaps)"
  proof (cases "snapshot_key x = (es_workspace_id s, es_id s, CDate d)")
    case True
    let ?y = "x\<lparr>sn_props := on_match_set (es_props s) (sn_props x)\<rparr>"
    have "list_ex (\<lambda>x. snapshot_key x = (es_workspace_id s, es_id s, CDate d)) snaps" using x True by (auto simp: list_ex_iff)
    then have "?y \<in> set (merge_snapshot s (CDate d) snaps)" using x True by (auto simp: merge_snapshot_def)
    moreover have "settled ?y = settled x"
      using match_changes_valid_from [of "es_props s" x] True settled_valid_from [of x d] by (auto simp: snapshot_key_def)
    ultimately show ?thesis by (metis image_eqI)
  next
    case False
    then have "x \<in> set (merge_snapshot s (CDate d) snaps)" using x by (auto simp: merge_snapshot_def)
    then show ?thesis by blast
  qed
qed

lemma merge_snapshots_rows: "merge_snapshots env ss snaps = Inr snaps' \<Longrightarrow> settled ` set snaps \<subseteq> settled ` set snaps'"
proof (induction ss arbitrary: snaps)
  case (Cons a ss)
  then obtain d where d: "snap_date env (sp_recorded_at (es_props a)) = Inr d" "merge_snapshots env ss (merge_snapshot a d snaps) = Inr snaps'"
    by (auto simp: bind_res_eq_Inr)
  obtain c where c: "d = CDate c" using snap_date_CDate [OF d(1)] by blast
  from subset_trans [OF merge_snapshot_rows Cons.IH [OF d(2) [unfolded c]]] show ?case .
qed simp

lemma merge_rel_snapshots_rows: "merge_rel_snapshots env rs snaps = Inr snaps' \<Longrightarrow> set snaps \<subseteq> set snaps'"
proof (induction rs arbitrary: snaps)
  case (Cons r rs)
  then obtain d where "merge_rel_snapshots env rs (merge_rel_snapshot r d snaps) = Inr snaps'" by (auto simp: bind_res_eq_Inr)
  moreover have "set snaps \<subseteq> set (merge_rel_snapshot r d snaps)" by (auto simp: merge_rel_snapshot_def)
  ultimately show ?case using Cons.IH by blast
qed simp

lemma mark_keeps_warm: "keeps_p (\<lambda>g. K \<subseteq> warm_rows g) (mark_hot_to_warm env ws hot_cutoff batch_size)"
  unfolding mark_hot_to_warm_def
  by (intro keeps_p_bind loop_keeps keeps_p_leaf)
     (auto simp: mark_states_pass_def mark_edges_pass_def warm_rows_def split: prod.splits)

lemma move_pass_rows:
  "move_states_pass env ws batch_size g = Inr (c, g') \<Longrightarrow> warm_rows g \<subseteq> warm_rows g'"
  "move_edges_pass env ws batch_size g = Inr (c, g') \<Longrightarrow> warm_rows g \<subseteq> warm_rows g'"
  using merge_snapshots_rows merge_rel_snapshots_rows
  by (fastforce simp: move_states_pass_def move_edges_pass_def warm_rows_def bind_res_eq_Inr split: prod.splits)+

lemma move_keeps_warm: "keeps_p (\<lambda>g. K \<subseteq> warm_rows g) (move_hot_to_warm env ws batch_size)"
  unfolding move_hot_to_warm_def
  by (intro keeps_p_bind loop_keeps keeps_p_leaf) (use move_pass_rows in blast)+

text \<open>Whatever the deletion of a day removes was in the rows fetched for that day.\<close>

definition row_workspace :: "entity_snapshot + relationship_snapshot \<Rightarrow> uuid" where
  "row_workspace = case_sum sn_workspace_id rn_workspace_id"

definition row_day :: "entity_snapshot + relationship_snapshot \<Rightarrow> cval" where
  "row_day = case_sum sn_snapshot_date rn_snapshot_date"

definition fetched :: "graph_env \<Rightarrow> entity_snapshot + relationship_snapshot \<Rightarrow> graph_row list \<Rightarrow> graph_row list \<Rightarrow> bool" where
  "fetched env k es edges = (case k of Inl s \<Rightarrow> entity_row env s \<in> set es | Inr r \<Rightarrow> edge_row env r \<in> set edges)"

lemma deleted_was_fetched:
  assumes "fetch_warm_snapshot_rows env ws d g = Inr (es, edges)" and "delete_warm_snapshot env' ws d g = Some (r, g')"
    and "k \<in> warm_rows g" and "k \<notin> warm_rows g'"
  shows "row_workspace k = ws \<and> row_day k = CStr (iso_date d) \<and> fetched env k es edges"
proof -
  have rows: "es = map (entity_row env) (filter (on_day ws d) (tg_snapshots g))"
    "edges = map (edge_row env) (filter (rel_on_day ws d) (tg_rel_snapshots g))"
    using assms(1) by (auto simp: fetch_warm_snapshot_rows_def bind_res_eq_Inr tx_def split: if_splits)
  show ?thesis
  proof (cases k)
    case (Inl k')
    then obtain s where s: "s \<in> set (tg_snapshots g)" "k' = settled s" using assms(3) by (auto simp: warm_rows_def)
    have day: "on_day ws d s"
      using assms(2,4) s Inl by (auto simp: delete_warm_snapshot_def warm_rows_def Let_def split: if_splits)
    then have "k' = s" using s(2) by (simp add: settled_def on_day_def c_match_def)
    then show ?thesis
      using s(1) day by (auto simp: rows Inl row_workspace_def row_day_def fetched_def on_day_def c_match_def)
  next
    case (Inr k')
    then have k': "k' \<in> set (tg_rel_snapshots g)" using assms(3) by (auto simp: warm_rows_def)
    have "rel_on_day ws d k'"
      using assms(2,4) k' Inr by (auto simp: delete_warm_snapshot_def warm_rows_def Let_def split: if_splits)
    then show ?thesis
      using k' by (auto simp: rows Inr row_workspace_def row_day_def fetched_def rel_on_day_def c_match_def)
  qed
qed

section \<open>Graphs as the store writes them\<close>

text \<open>
  The statements that write states and relationships set \<^verbatim>\<open>recorded_at\<close> to \<^verbatim>\<open>datetime($now)\<close>, and the
  move phase sets \<^verbatim>\<open>snapshot_date\<close> to a \<^verbatim>\<open>date\<close>; the retention statements compare both with texts.
\<close>

definition is_datetime :: "cval \<Rightarrow> bool" where
  "is_datetime v \<longleftrightarrow> (case v of CDateTime _ \<Rightarrow> True | _ \<Rightarrow> False)"

definition is_date :: "cval \<Rightarrow> bool" where
  "is_date v \<longleftrightarrow> (case v of CDate _ \<Rightarrow> True | _ \<Rightarrow> False)"

definition as_written :: "tier_graph \<Rightarrow> bool" where
  "as_written g \<longleftrightarrow> list_all (\<lambda>s. is_datetime (sp_recorded_at (es_props s)) \<and> es_tier_pending s = None) (tg_states g)
     \<and> list_all (\<lambda>r. is_datetime (gr_recorded_at r) \<and> gr_tier_pending r = None) (tg_edges g)
     \<and> list_all (\<lambda>s. is_date (sn_snapshot_date s)) (tg_snapshots g)
     \<and> list_all (\<lambda>s. is_date (rn_snapshot_date s)) (tg_rel_snapshots g)"

lemma datetime_not_before_text: "is_datetime v \<Longrightarrow> \<not> is_true (c_lt v (CStr t))"
  by (cases v) (auto simp: is_datetime_def is_true_def)

lemma date_not_before_text: "is_date v \<Longrightarrow> \<not> is_true (c_lt v (CStr t))"
  by (cases v) (auto simp: is_date_def is_true_def)

lemma as_written_not_hot:
  assumes "as_written g"
  shows "list_all (\<lambda>s. \<not> hot_state env ws hot_cutoff s) (tg_states g)" "list_all (\<lambda>r. \<not> hot_edge env ws hot_cutoff r) (tg_edges g)"
  using assms by (auto simp: as_written_def list_all_iff hot_state_def hot_edge_def datetime_not_before_text)

lemma as_written_mark:
  assumes "as_written g"
  shows "\<exists>r. mark_hot_to_warm env ws hot_cutoff batch_size g = Some (r, g)"
proof -
  have ps: "mark_states_pass env ws hot_cutoff batch_size g = Inr (0, g)"
    using as_written_not_hot(1) [OF assms, of env ws hot_cutoff] by (simp add: mark_states_pass_def update_first_none list_all_iff)
  have pe: "mark_edges_pass env ws hot_cutoff batch_size g = Inr (0, g)"
    using as_written_not_hot(2) [OF assms, of env ws hot_cutoff] by (simp add: mark_edges_pass_def update_first_none list_all_iff)
  obtain r where "loop_count_query env ''mark_states'' (mark_states_pass env ws hot_cutoff batch_size) 0 0 g = Some (r, g)"
    using loop_idle [of "mark_states_pass env ws hot_cutoff batch_size" g, OF ps] by blast
  moreover obtain q where "loop_count_query env ''mark_edges'' (mark_edges_pass env ws hot_cutoff batch_size) 0 0 g = Some (q, g)"
    using loop_idle [of "mark_edges_pass env ws hot_cutoff batch_size" g, OF pe] by blast
  ultimately show ?thesis by (cases r; cases q) (auto simp: mark_hot_to_warm_def bind_p_def ret_p_def)
qed

lemma as_written_move:
  assumes "as_written g"
  shows "\<exists>r. move_hot_to_warm env ws batch_size g = Some (r, g)"
proof -
  have "take_first (\<lambda>s. es_workspace_id s = ws \<and> es_tier_pending s = Some ''warm'') batch_size (tg_states g) = ([], tg_states g)"
    "take_first (\<lambda>r. gr_entities r \<and> gr_workspace_id r = ws \<and> gr_tier_pending r = Some ''warm'') batch_size (tg_edges g) = ([], tg_edges g)"
    using assms by (auto intro!: take_first_none simp: as_written_def list_all_iff)
  then have p: "move_states_pass env ws batch_size g = Inr (0, g)" "move_edges_pass env ws batch_size g = Inr (0, g)"
    by (simp_all add: move_states_pass_def move_edges_pass_def)
  obtain r where "loop_count_query env ''move_states'' (move_states_pass env ws batch_size) 0 0 g = Some (r, g)"
    using loop_idle [of "move_states_pass env ws batch_size" g, OF p(1)] by blast
  moreover obtain q where "loop_count_query env ''move_edges'' (move_edges_pass env ws batch_size) 0 0 g = Some (q, g)"
    using loop_idle [of "move_edges_pass env ws batch_size" g, OF p(2)] by blast
  ultimately show ?thesis by (cases r; cases q) (auto simp: move_hot_to_warm_def bind_p_def ret_p_def)
qed

lemma as_written_dates:
  assumes "as_written g" and "list_warm_to_archive_dates env ws cutoff limit g = Inr ds"
  shows "ds = []"
proof -
  have "filter (archivable ws cutoff) (tg_snapshots g) = []"
    using assms(1) by (auto simp: filter_empty_conv as_written_def list_all_iff archivable_def date_not_before_text)
  then show ?thesis
    using assms(2) by (auto simp: list_warm_to_archive_dates_def tx_def bind_res_def split: if_splits)
qed

end
