(* ===== verification/Retention.thy ===== *)
theory Retention
  imports GraphTiers QdrantStore
begin

text \<open>
  The retention worker (server \<^verbatim>\<open>retention_worker.py\<close>) and its archive writer (\<^verbatim>\<open>retention_archive.py\<close>,
  \<^verbatim>\<open>retention_constants.py\<close>): the read, mark and move phases over the graph store, the mirrored eviction
  of vectors, and the archive of whole days. The graph store is a record of the methods the worker
  calls, with the Neo4j store of \<open>GraphTiers\<close> as the instance; vectors are those of \<open>QdrantStore\<close>; object
  storage is a dictionary from bucket and key to the stored object, and the Parquet encoding of a
  table is an argument. Metrics, logs and durations are left out.
\<close>

section \<open>Settings and state\<close>

definition RETENTION_ARCHIVE_DATES_PER_RUN :: nat where "RETENTION_ARCHIVE_DATES_PER_RUN = 32"
definition RETENTION_DRY_RUN_SAMPLE_DEFAULT :: nat where "RETENTION_DRY_RUN_SAMPLE_DEFAULT = 20"

record retention_settings =
  rs_hot_days :: int
  rs_warm_days :: int
  rs_batch_size :: int
  rs_sample_size :: int
  rs_dry_run :: bool
  rs_archive_bucket :: "string option"
  rs_archive_kms_key_arn :: "string option"

datatype encryption = SSE_KMS string | SSE_AES256

record archive_object =
  ao_body :: string
  ao_encryption :: encryption

record retention_report =
  wp_workspace_id :: uuid
  wp_entity_states :: nat
  wp_edges :: nat
  wp_chunks :: nat
  wp_entity_snapshots :: nat
  wp_dates :: "date list"
  wp_sampled :: "(string \<times> cval \<times> cval) list"
  wp_oldest :: "int option"
  wp_lag_seconds :: rat

record retention_run =
  rnr_started_at :: int
  rnr_dry_run :: bool
  rnr_per_workspace :: "retention_report list"

definition report_lag_seconds :: "retention_run \<Rightarrow> rat" where
  "report_lag_seconds r = (if rnr_per_workspace r = [] then 0 else Max (set (map wp_lag_seconds (rnr_per_workspace r))))"

record ('q, 'g) tiers =
  ti_graph :: 'g
  ti_vectors :: 'q
  ti_archive :: "(string \<times> string, archive_object) dict"
  ti_last_report :: "retention_run option"

record 'g graph_store =
  gs_count_hot :: "uuid \<Rightarrow> int \<Rightarrow> 'g \<Rightarrow> (nat \<times> nat) res"
  gs_count_warm :: "uuid \<Rightarrow> date \<Rightarrow> 'g \<Rightarrow> nat res"
  gs_list_dates :: "uuid \<Rightarrow> date \<Rightarrow> nat \<Rightarrow> 'g \<Rightarrow> date list res"
  gs_sample :: "uuid \<Rightarrow> int \<Rightarrow> nat \<Rightarrow> 'g \<Rightarrow> (string \<times> cval \<times> cval) list res"
  gs_oldest :: "uuid \<Rightarrow> int \<Rightarrow> 'g \<Rightarrow> int option res"
  gs_count_tiers :: "uuid \<Rightarrow> 'g \<Rightarrow> (nat \<times> nat) res"
  gs_mark :: "uuid \<Rightarrow> int \<Rightarrow> nat \<Rightarrow> ('g, nat \<times> nat) prog"
  gs_move :: "uuid \<Rightarrow> nat \<Rightarrow> ('g, nat \<times> nat) prog"
  gs_fetch :: "uuid \<Rightarrow> date \<Rightarrow> 'g \<Rightarrow> (graph_row list \<times> graph_row list) res"
  gs_delete :: "uuid \<Rightarrow> date \<Rightarrow> ('g, nat \<times> nat) prog"

definition neo4j_store :: "graph_env \<Rightarrow> tier_graph graph_store" where
  "neo4j_store env =
     \<lparr>gs_count_hot = count_hot_to_warm_eligible env, gs_count_warm = count_warm_to_archive_eligible env,
      gs_list_dates = list_warm_to_archive_dates env, gs_sample = sample_hot_to_warm_eligible env,
      gs_oldest = oldest_hot_to_warm_recorded_at env, gs_count_tiers = count_records_by_tier env,
      gs_mark = mark_hot_to_warm env, gs_move = move_hot_to_warm env,
      gs_fetch = fetch_warm_snapshot_rows env, gs_delete = delete_warm_snapshot env\<rparr>"

text \<open>What a run meets: the stores as they answer for each workspace, the encoder and the object storage.\<close>

record ('q, 'g) retention_env =
  rv_store :: "uuid \<Rightarrow> 'g graph_store"
  rv_engine :: "uuid \<Rightarrow> 'q engine"
  rv_parquet :: "(string \<times> string option list) list \<Rightarrow> string"
  rv_datetime_str :: "int \<Rightarrow> string"
  rv_put :: "string \<Rightarrow> string \<Rightarrow> bool"
  rv_workspaces :: "uuid list res"
  rv_now :: int

definition on_graph :: "('g, 'a) prog \<Rightarrow> (('q, 'g) tiers, 'a) prog" where
  "on_graph m = (\<lambda>s. case m (ti_graph s) of None \<Rightarrow> None | Some (r, g) \<Rightarrow> Some (r, s\<lparr>ti_graph := g\<rparr>))"

definition on_chunks :: "('q, 'a) prog \<Rightarrow> (('q, 'g) tiers, 'a) prog" where
  "on_chunks m = (\<lambda>s. case m (ti_vectors s) of None \<Rightarrow> None | Some (r, q) \<Rightarrow> Some (r, s\<lparr>ti_vectors := q\<rparr>))"

section \<open>The archive writer\<close>

definition ENTITY_SCHEMA :: "string list" where
  "ENTITY_SCHEMA = [''id'', ''kind'', ''name'', ''display_name'', ''source_id'', ''chunk_id'', ''valid_from'', ''valid_to'',
     ''recorded_at'', ''metadata_json'']"

definition EDGE_SCHEMA :: "string list" where
  "EDGE_SCHEMA = [''source_entity_id'', ''target_entity_id'', ''edge_type'', ''source_id'', ''valid_from'', ''valid_to'',
     ''recorded_at'', ''metadata_json'']"

definition py_str_cval :: "(int \<Rightarrow> string) \<Rightarrow> cval \<Rightarrow> string" where
  "py_str_cval datetime_str v =
     (case v of CNull \<Rightarrow> ''None'' | CStr s \<Rightarrow> s | CDate d \<Rightarrow> iso_date d | CDateTime t \<Rightarrow> datetime_str t)"

definition metadata_cell :: "(int \<Rightarrow> string) \<Rightarrow> graph_row \<Rightarrow> string" where
  "metadata_cell datetime_str row =
     (case dict_get row ''metadata'' of
        Some (CStr m) \<Rightarrow> if m = [] then ''{}'' else m
      | None \<Rightarrow> ''{}''
      | Some CNull \<Rightarrow> ''{}''
      | Some v \<Rightarrow> [CHR 0x22] @ py_str_cval datetime_str v @ [CHR 0x22])"

definition table_cell :: "(int \<Rightarrow> string) \<Rightarrow> graph_row \<Rightarrow> string \<Rightarrow> string option" where
  "table_cell datetime_str row field =
     (if field = ''metadata_json'' then Some (metadata_cell datetime_str row)
      else case dict_get row field of
             None \<Rightarrow> None
           | Some CNull \<Rightarrow> None
           | Some v \<Rightarrow> Some (py_str_cval datetime_str v))"

definition rows_to_table :: "(int \<Rightarrow> string) \<Rightarrow> graph_row list \<Rightarrow> string list \<Rightarrow> (string \<times> string option list) list" where
  "rows_to_table datetime_str rows schema = map (\<lambda>f. (f, map (\<lambda>row. table_cell datetime_str row f) rows)) schema"

text \<open>\<^verbatim>\<open>n.to_bytes(4, "big")\<close> and \<^verbatim>\<open>int.from_bytes(b, "big")\<close>.\<close>

definition to_bytes4 :: "nat \<Rightarrow> string res" where
  "to_bytes4 n =
     (if n < 2 ^ 32 then Inr (map (\<lambda>i. char_of (n div 256 ^ i mod 256)) [3, 2, 1, 0]) else Inl OverflowError)"


definition build_parquet_bytes :: "('q, 'g) retention_env \<Rightarrow> graph_row list \<Rightarrow> graph_row list \<Rightarrow> string res" where
  "build_parquet_bytes env entity_rows edge_rows =
     (let entities_bytes = rv_parquet env (rows_to_table (rv_datetime_str env) entity_rows ENTITY_SCHEMA);
          edges_bytes = rv_parquet env (rows_to_table (rv_datetime_str env) edge_rows EDGE_SCHEMA)
      in bind_res (to_bytes4 (length entities_bytes)) (\<lambda>header. Inr (header @ entities_bytes @ edges_bytes)))"


definition build_archive_key :: "uuid \<Rightarrow> date \<Rightarrow> string" where
  "build_archive_key ws = (\<lambda>(y, m, d). uuid_str ws @ ''/'' @ pad 4 y @ ''/'' @ pad 2 m @ ''/'' @ pad 2 d @ ''/snapshot.parquet'')"

definition write_archive_object ::
  "('q, 'g) retention_env \<Rightarrow> string \<Rightarrow> string \<Rightarrow> string \<Rightarrow> string option \<Rightarrow> (('q, 'g) tiers, unit) prog" where
  "write_archive_object env bucket key body kms_key_arn = (\<lambda>s.
     let enc = (case kms_key_arn of None \<Rightarrow> SSE_AES256 | Some arn \<Rightarrow> if arn = [] then SSE_AES256 else SSE_KMS arn)
     in if rv_put env bucket key
        then Some (Inr (), s\<lparr>ti_archive := dict_set (ti_archive s) (bucket, key) \<lparr>ao_body = body, ao_encryption = enc\<rparr>\<rparr>)
        else Some (Inl (BackendError ''s3''), s))"

section \<open>The archive phase\<close>

definition archive_one_date ::
  "('q, 'g) retention_env \<Rightarrow> retention_settings \<Rightarrow> uuid \<Rightarrow> date \<Rightarrow> string \<Rightarrow> (('q, 'g) tiers, unit) prog" where
  "archive_one_date env cfg ws d bucket =
     bind_p (on_graph (ask_p (gs_fetch (rv_store env ws) ws d))) (\<lambda>(entity_rows, edge_rows).
     bind_p (res_p (build_parquet_bytes env entity_rows edge_rows)) (\<lambda>body.
     then_p (write_archive_object env bucket (build_archive_key ws d) body (rs_archive_kms_key_arn cfg))
     (bind_p (on_graph (gs_delete (rv_store env ws) ws d)) (\<lambda>_.
      bind_p (on_chunks (delete_retention_archive (rv_engine env ws) ws (iso_date d))) (\<lambda>_. ret_p ())))))"

fun archive_each :: "('q, 'g) retention_env \<Rightarrow> retention_settings \<Rightarrow> uuid \<Rightarrow> string \<Rightarrow> date list \<Rightarrow> (('q, 'g) tiers, unit) prog" where
  "archive_each env cfg ws bucket [] = ret_p ()"
| "archive_each env cfg ws bucket (d # ds) = then_p (archive_one_date env cfg ws d bucket) (archive_each env cfg ws bucket ds)"

definition archive_dates :: "('q, 'g) retention_env \<Rightarrow> retention_settings \<Rightarrow> uuid \<Rightarrow> date list \<Rightarrow> (('q, 'g) tiers, unit) prog" where
  "archive_dates env cfg ws dates =
     (if dates = [] then ret_p ()
      else case rs_archive_bucket cfg of
             None \<Rightarrow> ret_p ()
           | Some bucket \<Rightarrow> if bucket = [] then ret_p () else archive_each env cfg ws bucket dates)"

section \<open>One workspace\<close>

definition batch_size :: "retention_settings \<Rightarrow> nat" where
  "batch_size cfg = nat (max (rs_batch_size cfg) 1)"

definition sample_limit :: "retention_settings \<Rightarrow> nat" where
  "sample_limit cfg = (let n = nat (max (rs_sample_size cfg) 0) in if n = 0 then RETENTION_DRY_RUN_SAMPLE_DEFAULT else n)"

definition days_before :: "int \<Rightarrow> int \<Rightarrow> int" where
  "days_before now days = now - days * 86400000000"

definition read_phase :: "('q, 'g) retention_env \<Rightarrow> retention_settings \<Rightarrow> uuid \<Rightarrow> int \<Rightarrow> (('q, 'g) tiers, retention_report) prog" where
  "read_phase env cfg ws now =
     (let hot_cutoff = days_before now (rs_hot_days cfg); warm_cutoff_date = date_of_instant (days_before now (rs_warm_days cfg));
          store = rv_store env ws
      in bind_p (on_graph (ask_p (gs_count_hot store ws hot_cutoff))) (\<lambda>(es_eligible, edge_eligible).
         bind_p (on_chunks (count_retention_eligible (rv_engine env ws) ws hot_cutoff)) (\<lambda>chunk_eligible.
         bind_p (on_graph (ask_p (gs_count_warm store ws warm_cutoff_date))) (\<lambda>archive_eligible.
         bind_p (on_graph (ask_p (gs_list_dates store ws warm_cutoff_date RETENTION_ARCHIVE_DATES_PER_RUN))) (\<lambda>archive_dates.
         bind_p (on_graph (ask_p (gs_sample store ws hot_cutoff (sample_limit cfg)))) (\<lambda>sampled.
         bind_p (on_graph (ask_p (gs_oldest store ws hot_cutoff))) (\<lambda>oldest.
         bind_p (on_graph (ask_p (gs_count_tiers store ws))) (\<lambda>_.
         bind_p (on_chunks (count_chunks_by_tier (rv_engine env ws) ws)) (\<lambda>_.
           ret_p \<lparr>wp_workspace_id = ws, wp_entity_states = es_eligible, wp_edges = edge_eligible, wp_chunks = chunk_eligible,
             wp_entity_snapshots = archive_eligible, wp_dates = archive_dates, wp_sampled = sampled, wp_oldest = oldest,
             wp_lag_seconds = (case oldest of None \<Rightarrow> 0 | Some t \<Rightarrow> max (of_int (now - t) / 1000000) 0)\<rparr>)))))))))"

definition process_workspace ::
  "('q, 'g) retention_env \<Rightarrow> retention_settings \<Rightarrow> int \<Rightarrow> uuid \<Rightarrow> (('q, 'g) tiers, retention_report) prog" where
  "process_workspace env cfg now ws =
     bind_p (read_phase env cfg ws now) (\<lambda>report.
       if rs_dry_run cfg then ret_p report
       else
         bind_p (on_graph (gs_mark (rv_store env ws) ws (days_before now (rs_hot_days cfg)) (batch_size cfg))) (\<lambda>_.
         bind_p (on_chunks (mark_retention_warm (rv_engine env ws) (\<lambda>t. iso_date (date_of_instant t)) ws
                  (days_before now (rs_hot_days cfg)))) (\<lambda>_.
         bind_p (on_graph (gs_move (rv_store env ws) ws (batch_size cfg))) (\<lambda>_.
         then_p (archive_dates env cfg ws (wp_dates report)) (ret_p report)))))"

fun process_workspaces ::
  "('q, 'g) retention_env \<Rightarrow> retention_settings \<Rightarrow> int \<Rightarrow> uuid list \<Rightarrow> (('q, 'g) tiers, retention_report list) prog" where
  "process_workspaces env cfg now [] = ret_p []"
| "process_workspaces env cfg now (ws # wss) =
     bind_p (process_workspace env cfg now ws) (\<lambda>report.
     bind_p (process_workspaces env cfg now wss) (\<lambda>reports. ret_p (report # reports)))"

definition retention_run_once ::
  "('q, 'g) retention_env \<Rightarrow> retention_settings \<Rightarrow> uuid option \<Rightarrow> int option \<Rightarrow> (('q, 'g) tiers, retention_run) prog" where
  "retention_run_once env cfg workspace_filter now =
     (let started = (case now of None \<Rightarrow> rv_now env | Some t \<Rightarrow> t) in
      bind_p (res_p (rv_workspaces env)) (\<lambda>all.
      let workspaces = (case workspace_filter of None \<Rightarrow> all | Some w \<Rightarrow> filter (\<lambda>x. x = w) all) in
      bind_p (process_workspaces env cfg started workspaces) (\<lambda>per_workspace.
      let report = \<lparr>rnr_started_at = started, rnr_dry_run = rs_dry_run cfg, rnr_per_workspace = per_workspace\<rparr>
      in (\<lambda>s. Some (Inr report, s\<lparr>ti_last_report := Some report\<rparr>)))))"

section \<open>Archive objects\<close>



section \<open>Archive keys\<close>




lemma dec_value_zeros: "dec_value (replicate k CHR ''0'' @ s) = dec_value s"
  by (induction k) (simp_all add: dec_value_def)

lemma dec_value_pad [simp]: "dec_value (pad w n) = n"
  by (simp add: pad_def dec_value_zeros digits10_value)

lemma pad_inject [simp]: "pad w a = pad w b \<longleftrightarrow> a = b"
  by (metis dec_value_pad)



section \<open>Reads and dry runs\<close>

lemma on_graph_eq: "on_graph m s = Some (r, s') \<longleftrightarrow> (\<exists>g. m (ti_graph s) = Some (r, g) \<and> s' = s\<lparr>ti_graph := g\<rparr>)"
  by (auto simp: on_graph_def split: option.splits)

lemma on_chunks_eq: "on_chunks m s = Some (r, s') \<longleftrightarrow> (\<exists>q. m (ti_vectors s) = Some (r, q) \<and> s' = s\<lparr>ti_vectors := q\<rparr>)"
  by (auto simp: on_chunks_def split: option.splits)

lemma graph_read_same: "keeps_p (\<lambda>s. s = s\<^sub>0) (on_graph (ask_p f))"
  by (auto intro!: keeps_pI simp: on_graph_eq ask_p_def)

lemma chunk_read_same: "(\<And>q. keeps_p (\<lambda>x. x = q) m) \<Longrightarrow> keeps_p (\<lambda>s. s = s\<^sub>0) (on_chunks m)"
  by (rule keeps_pI) (use keeps_pD in \<open>fastforce simp: on_chunks_eq\<close>)

lemma chunk_counts_same:
  "keeps_p (\<lambda>x. x = q) (count_retention_eligible en ws cutoff)" "keeps_p (\<lambda>x. x = q) (count_chunks_by_tier en ws)"
  unfolding count_retention_eligible_def count_chunks_by_tier_def by (intro keeps_p_bind keeps_p_leaf)+

lemma read_phase_same: "keeps_p (\<lambda>s. s = s\<^sub>0) (read_phase env cfg ws now)"
  unfolding read_phase_def Let_def case_prod_beta
  by (intro keeps_p_bind keeps_p_leaf graph_read_same chunk_read_same chunk_counts_same)

lemma read_phase_dates:
  assumes "read_phase env cfg ws now s = Some (Inr report, s')"
  shows "s' = s" "\<exists>cutoff. gs_list_dates (rv_store env ws) ws cutoff RETENTION_ARCHIVE_DATES_PER_RUN (ti_graph s) = Inr (wp_dates report)"
proof -
  show "s' = s" using keeps_pD [OF read_phase_same _ assms] by blast
  show "\<exists>cutoff. gs_list_dates (rv_store env ws) ws cutoff RETENTION_ARCHIVE_DATES_PER_RUN (ti_graph s) = Inr (wp_dates report)"
    using assms unfolding read_phase_def Let_def case_prod_beta bind_p_Inr on_graph_eq on_chunks_eq
    by (intro exI [of _ "date_of_instant (days_before now (rs_warm_days cfg))"]) (auto simp: ask_p_def ret_p_def)
qed

text \<open>A dry run changes no store and writes no object.\<close>

definition same_stores :: "('q, 'g) tiers \<Rightarrow> ('q, 'g) tiers \<Rightarrow> bool" where
  "same_stores s s' \<longleftrightarrow> ti_graph s' = ti_graph s \<and> ti_vectors s' = ti_vectors s \<and> ti_archive s' = ti_archive s"

lemma if_keeps_p: "keeps_p I m \<Longrightarrow> keeps_p I m' \<Longrightarrow> keeps_p I (if b then m else m')"
  by simp

lemma process_workspaces_keeps: "(\<And>ws. ws \<in> set wss \<Longrightarrow> keeps_p I (process_workspace env cfg now ws)) \<Longrightarrow> keeps_p I (process_workspaces env cfg now wss)"
  by (induction wss) (auto intro!: keeps_p_bind keeps_p_leaf)

lemma run_once_keeps:
  assumes "\<And>ws t. keeps_p I (process_workspace env cfg t ws)" and "\<And>s r. I s \<Longrightarrow> I (s\<lparr>ti_last_report := Some r\<rparr>)"
  shows "keeps_p I (retention_run_once env cfg workspace_filter now)"
  unfolding retention_run_once_def Let_def
  by (intro keeps_p_bind keeps_p_leaf process_workspaces_keeps assms(1)) (auto simp: keeps_p_def assms(2))

lemma dry_run_changes_nothing:
  assumes "rs_dry_run cfg" and "retention_run_once env cfg workspace_filter now s = Some (r, s')"
  shows "same_stores s s'"
proof -
  have "keeps_p (\<lambda>x. x = s\<^sub>0) (process_workspace env cfg t ws)" for s\<^sub>0 t ws
    unfolding process_workspace_def using assms(1) by (auto intro!: keeps_p_bind keeps_p_leaf read_phase_same)
  then have "keeps_p (same_stores s) (process_workspace env cfg t ws)" for t ws
    unfolding keeps_p_def by blast
  then have "keeps_p (same_stores s) (retention_run_once env cfg workspace_filter now)"
    by (rule run_once_keeps) (simp add: same_stores_def)
  from keeps_pD [OF this _ assms(2)] show ?thesis by (simp add: same_stores_def)
qed

section \<open>Archiving a day\<close>


section \<open>No warm row is lost in a run\<close>






lemma c_insert_val_set [simp]: "set (c_insert_val v vs) = insert v (set vs)"
  by (induction vs) auto

lemma c_insert_val_distinct [simp]: "distinct (c_insert_val v vs) \<longleftrightarrow> v \<notin> set vs \<and> distinct vs"
  by (induction vs) auto


section \<open>The Neo4j store keeps its warm rows\<close>










section \<open>Rows in archived tables\<close>











section \<open>A run ends\<close>

definition returns_p :: "('s, 'a) prog \<Rightarrow> bool" where
  "returns_p m \<longleftrightarrow> (\<forall>s. m s \<noteq> None)"

named_theorems returns_intros \<open>rules for programs that always return\<close>

lemma returns_leaf [returns_intros]:
  "returns_p (ret_p x)" "returns_p (raise_p e)" "returns_p (res_p r)" "returns_p (ask_p g)" "returns_p (tell_p h)"
  by (simp_all add: returns_p_def ret_p_def raise_p_def res_p_def ask_p_def tell_p_def split: sum.split)

lemma returns_bind [returns_intros]: "returns_p m \<Longrightarrow> (\<And>x. returns_p (f x)) \<Longrightarrow> returns_p (bind_p m f)"
  by (fastforce simp: returns_p_def bind_p_def split: option.split sum.split)

lemma returns_then [returns_intros]: "returns_p m \<Longrightarrow> returns_p m' \<Longrightarrow> returns_p (then_p m m')"
  unfolding then_p_def by (rule returns_bind)

lemma returns_if [returns_intros]: "returns_p m \<Longrightarrow> returns_p m' \<Longrightarrow> returns_p (if b then m else m')"
  by simp

lemma returns_on_graph [returns_intros]: "returns_p m \<Longrightarrow> returns_p (on_graph m)"
  by (fastforce simp: returns_p_def on_graph_def split: option.split)

lemma returns_on_chunks [returns_intros]: "returns_p m \<Longrightarrow> returns_p (on_chunks m)"
  by (fastforce simp: returns_p_def on_chunks_def split: option.split)

lemma returns_scroll [returns_intros]: "engine_ok en pts \<Longrightarrow> returns_p (scroll_all en f)"
  unfolding returns_p_def scroll_all_def
  using scroll_from_exact [of en pts SCROLL_PAGE _ f _ None 0 "[]"] by (fastforce simp: SCROLL_PAGE_def)

lemma returns_mark_days [returns_intros]: "returns_p (mark_days en days n)"
  by (induction days arbitrary: n) (auto intro!: returns_intros)

lemma returns_vectors [returns_intros]:
  "engine_ok en pts \<Longrightarrow> returns_p (mark_retention_warm en day_of ws cutoff)"
  "returns_p (delete_retention_archive en ws day)"
  "returns_p (count_retention_eligible en ws cutoff)"
  "returns_p (count_chunks_by_tier en ws)"
  unfolding mark_retention_warm_def delete_retention_archive_def count_retention_eligible_def count_chunks_by_tier_def Let_def
  by (intro returns_intros; assumption)+

lemma returns_neo4j [returns_intros]:
  "returns_p (gs_mark (neo4j_store env) ws cutoff n)" "returns_p (gs_move (neo4j_store env) ws n)"
  "returns_p (gs_delete (neo4j_store env) ws d)"
  using mark_hot_to_warm_returns move_hot_to_warm_returns
  by (simp_all add: neo4j_store_def returns_p_def delete_warm_snapshot_def Let_def)

lemma returns_write [returns_intros]: "returns_p (write_archive_object env bucket key body kms)"
  by (simp add: returns_p_def write_archive_object_def Let_def)

lemma returns_archive_each:
  assumes "rv_store env = (\<lambda>ws. neo4j_store (genv ws))"
  shows "returns_p (archive_each env cfg ws bucket ds)"
  by (induction ds) (simp_all add: archive_one_date_def assms case_prod_beta returns_intros)

lemma returns_workspace:
  assumes "rv_store env = (\<lambda>ws. neo4j_store (genv ws))" and "\<And>ws. engine_ok (rv_engine env ws) pts"
  shows "returns_p (process_workspace env cfg now ws)"
proof -
  have ad: "returns_p (archive_dates env cfg ws ds)" for ds
    using returns_archive_each [OF assms(1)] by (simp add: archive_dates_def returns_intros split: option.split)
  have rp: "returns_p (read_phase env cfg ws now)"
    unfolding read_phase_def Let_def case_prod_beta by (intro returns_intros)
  have mw: "returns_p (mark_retention_warm (rv_engine env ws) day_of ws c)" for day_of c
    by (rule returns_vectors(1) [OF assms(2)])
  show ?thesis
    unfolding process_workspace_def assms(1)
    by (intro returns_bind returns_then returns_if returns_leaf returns_on_graph returns_on_chunks returns_neo4j ad rp mw)
qed

lemma retention_run_returns:
  assumes "rv_store env = (\<lambda>ws. neo4j_store (genv ws))" and "\<And>ws. engine_ok (rv_engine env ws) pts"
  shows "\<exists>r s'. retention_run_once env cfg workspace_filter now s = Some (r, s')"
proof -
  have "returns_p (process_workspaces env cfg t wss)" for t wss
    by (induction wss) (simp_all add: returns_workspace [OF assms] returns_intros)
  then have "returns_p (retention_run_once env cfg workspace_filter now)"
    unfolding retention_run_once_def Let_def by (intro returns_intros) (auto simp: returns_p_def)
  then show ?thesis unfolding returns_p_def by fastforce
qed






text \<open>On a graph as the store writes it, a workspace is passed over.\<close>

definition untouched :: "('q, 'g) tiers \<Rightarrow> ('q, 'g) tiers \<Rightarrow> bool" where
  "untouched s x \<longleftrightarrow> ti_graph x = ti_graph s \<and> ti_archive x = ti_archive s"

lemma chunks_untouched: "keeps_p (untouched s) (on_chunks m)"
  by (auto intro!: keeps_pI simp: on_chunks_eq untouched_def)

lemma graph_untouched:
  assumes "\<exists>r. m (ti_graph s) = Some (r, ti_graph s)"
  shows "keeps_p (untouched s) (on_graph m)"
  using assms by (auto intro!: keeps_pI simp: on_graph_eq untouched_def)

lemma neo4j_workspace_untouched:
  assumes "rv_store env = (\<lambda>ws. neo4j_store (genv ws))" and "as_written (ti_graph s)"
  shows "keeps_p (untouched s) (process_workspace env cfg t ws)"
proof (rule keeps_pI)
  fix x q x' assume x: "untouched s x" and run: "process_workspace env cfg t ws x = Some (q, x')"
  let ?tail = "\<lambda>report. if rs_dry_run cfg then ret_p report else
      bind_p (on_graph (gs_mark (rv_store env ws) ws (days_before t (rs_hot_days cfg)) (batch_size cfg))) (\<lambda>_.
      bind_p (on_chunks (mark_retention_warm (rv_engine env ws) (\<lambda>t. iso_date (date_of_instant t)) ws (days_before t (rs_hot_days cfg)))) (\<lambda>_.
      bind_p (on_graph (gs_move (rv_store env ws) ws (batch_size cfg))) (\<lambda>_.
      then_p (archive_dates env cfg ws (wp_dates report)) (ret_p report))))"
  obtain p x1 where rd: "read_phase env cfg ws t x = Some (p, x1)"
    using run by (cases "read_phase env cfg ws t x") (auto simp: process_workspace_def bind_p_def)
  have x1: "x1 = x" using keeps_pD [OF read_phase_same _ rd] by blast
  show "untouched s x'"
  proof (cases p)
    case (Inl e)
    then show ?thesis using run rd x x1 by (simp add: process_workspace_def bind_p_def)
  next
    case (Inr report)
    have g: "ti_graph x = ti_graph s" using x by (simp add: untouched_def)
    obtain c where "list_warm_to_archive_dates (genv ws) ws c RETENTION_ARCHIVE_DATES_PER_RUN (ti_graph s) = Inr (wp_dates report)"
      using read_phase_dates(2) [OF rd [unfolded Inr]] unfolding assms(1) g by (auto simp: neo4j_store_def)
    then have none: "archive_dates env cfg ws (wp_dates report) = ret_p ()"
      using as_written_dates [OF assms(2)] by (simp add: archive_dates_def)
    have gs: "gs_mark (rv_store env ws) = mark_hot_to_warm (genv ws)" "gs_move (rv_store env ws) = move_hot_to_warm (genv ws)"
      by (simp_all add: assms(1) neo4j_store_def)
    have tail: "keeps_p (untouched s) (?tail report)"
      unfolding none gs
      by (intro if_keeps_p keeps_p_bind keeps_p_then keeps_p_leaf chunks_untouched graph_untouched as_written_mark as_written_move assms(2))
    have "?tail report x = Some (q, x')" using run rd x1 Inr by (simp add: process_workspace_def bind_p_def)
    from keeps_pD [OF tail x this] show ?thesis .
  qed
qed

text \<open>
  Claim C38: Retention never evicts anything from the graph. On a graph with the values that the store
  writes, no run of the worker changes the graph or writes an object, in every configuration and
  whatever fails: the statements compare instants and dates with texts, which Cypher leaves unknown, so
  no state is found too old and no day is found to archive.
\<close>

theorem retention_never_evicts_graph:
  assumes "rv_store env = (\<lambda>ws. neo4j_store (genv ws))" and "\<And>ws. engine_ok (rv_engine env ws) pts" and "as_written (ti_graph s)"
  shows "\<exists>r s'. retention_run_once env cfg workspace_filter now s = Some (r, s')
    \<and> ti_graph s' = ti_graph s \<and> ti_archive s' = ti_archive s"
proof -
  obtain r s' where run: "retention_run_once env cfg workspace_filter now s = Some (r, s')"
    using retention_run_returns [OF assms(1,2)] by blast
  have "keeps_p (untouched s) (retention_run_once env cfg workspace_filter now)"
    using neo4j_workspace_untouched [OF assms(1,3)] by (rule run_once_keeps) (simp add: untouched_def)
  from keeps_pD [OF this _ run] show ?thesis using run by (simp add: untouched_def)
qed

section \<open>Witnesses\<close>

definition demo_genv :: graph_env where
  "demo_genv = \<lparr>nv_fails = (\<lambda>_ _. False), nv_isoformat = (\<lambda>_. ''2024-01-01T00:00:00+00:00''), nv_to_string = (\<lambda>_. ''t''), nv_datetime = (\<lambda>_. Inr 0)\<rparr>"

definition demo_parquet :: "(string \<times> string option list) list \<Rightarrow> string" where
  "demo_parquet table = concat (map (\<lambda>(column, cells). column @ concat (map (\<lambda>c. case c of None \<Rightarrow> ''-'' | Some t \<Rightarrow> t @ '';'') cells)) table)"

definition demo_retention :: "(qpoint list, tier_graph) retention_env" where
  "demo_retention = \<lparr>rv_store = (\<lambda>_. neo4j_store demo_genv), rv_engine = (\<lambda>_. mem_engine), rv_parquet = demo_parquet, rv_datetime_str = (\<lambda>_. ''t''),
     rv_put = (\<lambda>_ _. True), rv_workspaces = Inr [9], rv_now = 86400000000 * 20000\<rparr>"

definition demo_retention_cfg :: retention_settings where
  "demo_retention_cfg = \<lparr>rs_hot_days = 90, rs_warm_days = 365, rs_batch_size = 500, rs_sample_size = 20, rs_dry_run = False,
     rs_archive_bucket = Some ''bucket'', rs_archive_kms_key_arn = None\<rparr>"

definition demo_props :: "cval \<Rightarrow> state_props" where
  "demo_props t = \<lparr>sp_valid_from = t, sp_valid_to = t, sp_recorded_at = t, sp_kind = CStr ''service'', sp_name = CStr ''n'', sp_display_name = CStr ''n'',
     sp_source_id = CNull, sp_chunk_id = CNull, sp_metadata = CNull\<rparr>"

definition demo_tiers :: "cval \<Rightarrow> cval \<Rightarrow> (qpoint list, tier_graph) tiers" where
  "demo_tiers t day = \<lparr>ti_graph = \<lparr>tg_states = [\<lparr>es_workspace_id = 9, es_id = ''a'', es_props = demo_props t, es_tier_pending = None\<rparr>], tg_edges = [],
       tg_snapshots = [\<lparr>sn_workspace_id = 9, sn_id = ''b'', sn_snapshot_date = day, sn_props = demo_props t\<rparr>],
       tg_rel_snapshots = [\<lparr>rn_workspace_id = 9, rn_source_entity_id = ''b'', rn_target_entity_id = ''c'', rn_edge_type = ''calls'', rn_snapshot_date = day,
         rn_source_id = CNull, rn_valid_from = t, rn_valid_to = t, rn_recorded_at = t, rn_metadata = CStr ''{m}''\<rparr>]\<rparr>,
     ti_vectors = [], ti_archive = [], ti_last_report = None\<rparr>"

lemmas demo_retention_defs = demo_retention_def demo_retention_cfg_def demo_tiers_def demo_props_def

theorem retention_never_evicts_graph_witness:
  "\<exists>r s'. retention_run_once demo_retention demo_retention_cfg None None (demo_tiers (CDateTime 0) (CDate (1970, 1, 1))) = Some (r, s')
     \<and> length (tg_states (ti_graph s')) = 1 \<and> ti_archive s' = []"
proof -
  let ?s = "demo_tiers (CDateTime 0) (CDate (1970, 1, 1))"
  have e: "engine_ok (rv_engine demo_retention ws) mem_points" for ws using mem_engine_ok by (simp add: demo_retention_def)
  have w: "as_written (ti_graph ?s)" by (simp add: as_written_def demo_retention_defs is_datetime_def is_date_def)
  have st: "rv_store demo_retention = (\<lambda>ws. neo4j_store ((\<lambda>_. demo_genv) ws))" by (simp add: demo_retention_def)
  from retention_never_evicts_graph [OF st e w, of demo_retention_cfg None None] show ?thesis
    by (auto simp: demo_tiers_def)
qed


end
