(* ===== verification/Spec2Isabelle.thy ===== *)
theory Spec2Isabelle
  imports Reconcile Admission Auth IndexServing SourceSync Retention
begin

text \<open>
  Omniscience keeps a knowledge graph of entities and edges in three stores: Postgres is
  the source of truth, Neo4j (or a null store) is the graph store and Qdrant the vector
  store. Documents arrive as change events: a worker runs each through a pipeline (fetch,
  hash, parse, chunk, embed), which writes rows to Postgres and vectors to Qdrant. Every
  change of the graph is an outbox row in Postgres; a worker publishes the rows to JetStream, a
  consumer applies the messages to the two derived stores, and a reconciler compares the
  stores and re-emits what has drifted. A gate decides between two Kubernetes emitters that
  claim the same entity. Periodic workers discover sources, request their synchronisation and move
  old graph rows to daily snapshots and from there to object storage. On the read side API tokens are issued, resolved and rate limited,
  and a composer answers a query from graph and vectors, pinned to what all stores have seen.

  \<^bold>\<open>Theories and sources\<close> (file names below \<^verbatim>\<open>packages/core/src/omniscience_core\<close> are marked
  core, those below \<^verbatim>\<open>apps/server/src/omniscience_server\<close> server, those below
  \<^verbatim>\<open>packages/index/src/omniscience_index\<close> index, those below
  \<^verbatim>\<open>packages/retrieval/src/omniscience_retrieval\<close> retrieval).

  Common ground:

  \<^item> \<open>Prelude\<close>: exceptions as values, dictionaries in insertion order, \<^verbatim>\<open>ORDER BY\<close>, the
    handler monad with its invariant calculus \<open>keeps\<close>, runs, the locale \<open>invariant_of\<close>. That
    locale is interpreted on every state machine below (outbox, outbox consumer, dedup,
    rate limit, tokens, the table of sources), and the invariants of their reachable states are its facts.
  \<^item> \<open>PyText\<close>, \<open>PyJson\<close>: UTF-8, hexadecimal, \<^verbatim>\<open>uuid.UUID\<close>, Python's JSON values, printer and
    reader. The reader has fuel \<open>2 * n + 2\<close> for a text of length \<open>n\<close>, which its round trip with
    the printer shows to be enough.
  \<^item> \<open>Fingerprint\<close>, \<open>Hashing\<close>: canonical JSON and content hash (core \<^verbatim>\<open>audit/fingerprint.py\<close>);
    normalised text and its hash (index \<^verbatim>\<open>hashing.py\<close>), with a characterisation of the normal form.

  From the outbox to the stores:

  \<^item> \<open>Messages\<close>, \<open>PbEvents\<close>, \<open>Queue\<close>: payload classes (core \<^verbatim>\<open>queue/messages.py\<close>), the hand
    written protobuf encoding (core \<^verbatim>\<open>queue/pb_events.py\<close>), publishing and the consumption
    of one raw message with the delivery limit and dead letters (core \<^verbatim>\<open>queue/producer.py\<close>,
    \<^verbatim>\<open>queue/consumer.py\<close>). The locale \<open>event_channel\<close> states what a channel promises and is
    interpreted on the entity, edge and document payloads.
  \<^item> \<open>OutboxWorker\<close>: the poller (server \<^verbatim>\<open>outbox_worker.py\<close>), one definition per part of a
    tick, and runs of inserts and ticks: a processed row was published, valid rows drain.
  \<^item> \<open>OutboxConsumer\<close>: entity, edge and merge handlers, retries, parking, eviction, the
    unpark loop (server \<^verbatim>\<open>outbox_consumer.py\<close>): the invariant of the parking tables, the
    acknowledgement after both stores, the retry schedule, the quarantine of parked entities.
  \<^item> \<open>Reconcile\<close>: every drift check and repair of one run (server \<^verbatim>\<open>reconcile_worker.py\<close>), with
    its caps.
  \<^item> \<open>QdrantFilters\<close>, \<open>QdrantStore\<close>, \<open>QdrantHistory\<close>, \<open>QdrantSearch\<close>: the vector store adapter
    (index \<^verbatim>\<open>stores/qdrant_filters.py\<close>, \<^verbatim>\<open>stores/qdrant_store.py\<close>) over an engine whose documented
    laws are the hypothesis \<open>engine_ok\<close>, satisfied by a concrete engine in the witnesses:
    bitemporal history, one open generation per chunk, separation of tenants, what a search
    serves, exact rank fusion. The scroll loop is a partial function; it returns on every
    collection and reads all of it.

  The ingestion side:

  \<^item> \<open>Secrets\<close>: references to secrets resolved at fetch time (core \<^verbatim>\<open>secrets.py\<close>).
  \<^item> \<open>IndexWriter\<close>, \<open>IndexServing\<close>: document and chunk rows with their transaction, followed by the
    vector write (index \<^verbatim>\<open>writer.py\<close>), and when what was written is served.
  \<^item> \<open>AwsLive\<close>: the AWS inventory extractor and the choice of an extractor
    (\<^verbatim>\<open>packages/parsers/src/omniscience_parsers/infra/aws_live.py\<close>, \<^verbatim>\<open>graph_dispatch.py\<close>).
  \<^item> \<open>Dedup\<close>, \<open>OperatorGraph\<close>: the gate between the in-cluster operator and the agentic connector
    (server \<^verbatim>\<open>ingestion/dedup.py\<close>), refining a decision table, and the bridge from operator
    events to graph rows (server \<^verbatim>\<open>ingestion/operator_graph.py\<close>).
  \<^item> \<open>Pipeline\<close>, \<open>IngestWorker\<close>: the stages of one document (server \<^verbatim>\<open>ingestion/pipeline.py\<close>) and the
    loop over messages with gate, fan-out of a sync marker, run counters and the handling of
    failures (server \<^verbatim>\<open>ingestion/worker.py\<close>, \<^verbatim>\<open>ingestion/run_tracker.py\<close>, index \<^verbatim>\<open>workspace.py\<close>). They
    compose \<open>Dedup\<close>, \<open>OperatorGraph\<close>, \<open>Secrets\<close>, \<open>AwsLive\<close>, \<open>IndexWriter\<close> and the Qdrant adapter;
    the theorems say when an acknowledged event is stored and when it is not.

  The periodic workers:

  \<^item> \<open>SourceSync\<close>: discovery of repositories (server \<^verbatim>\<open>discovery_worker.py\<close>,
    \<^verbatim>\<open>packages/connectors/src/omniscience_connectors/github_discovery.py\<close>), the scheduler of full
    syncs (server \<^verbatim>\<open>scheduler.py\<close>) and the freshness monitor (core \<^verbatim>\<open>freshness.py\<close>, server
    \<^verbatim>\<open>freshness_worker.py\<close>), over the table of sources that the ingestion worker stamps: what a tick
    publishes, that an acknowledged sync marker makes its source fresh, and that discovery only
    adds sources that are due.
  \<^item> \<open>GraphTiers\<close>: the retention methods of the Neo4j store (index \<^verbatim>\<open>stores/neo4j/store.py\<close>) and the
    Cypher statements they send (\<^verbatim>\<open>stores/neo4j/_cypher.py\<close>), over states, relationships and daily
    snapshots, with the three-valued comparison of Cypher. The loop of batches is a partial
    function; it returns because every counted pass leaves fewer rows to count.
  \<^item> \<open>Retention\<close>: a run of the retention worker and the archive object (server
    \<^verbatim>\<open>retention_worker.py\<close>, \<^verbatim>\<open>retention_archive.py\<close>, \<^verbatim>\<open>retention_constants.py\<close>). The locale
    \<open>warm_store\<close> is what the worker asks of the graph store and is interpreted on \<open>GraphTiers\<close>: a run
    ends and loses no entity or relationship snapshot, whatever fails, an archived one being in the
    table of its day with all its fields; and on a graph with the values that the store
    writes it evicts nothing.

  The read side:

  \<^item> \<open>Auth\<close>: scopes, token rows, minting, rotation, revocation, resolution of credentials and the
    endpoints (core \<^verbatim>\<open>auth/\<close>, server \<^verbatim>\<open>routes/tokens.py\<close>, \<^verbatim>\<open>rest/admin_session.py\<close>).
  \<^item> \<open>Admission\<close>: token buckets, the fail-closed controller and the request dependency
    (server \<^verbatim>\<open>admission/\<close>, \<^verbatim>\<open>rest/rate_limit.py\<close>). The locale \<open>admission_backend\<close> is what the
    controller asks of a backend, interpreted on both backends of the code.
  \<^item> \<open>Convergence\<close>: watermarks over the stores and the loop that waits for them (retrieval
    \<^verbatim>\<open>reconciler.py\<close>); the loop is a partial function that is shown to return.
  \<^item> \<open>Scoring\<close>: confidence and impact (retrieval \<^verbatim>\<open>probabilistic_scoring.py\<close>), over the reals.
  \<^item> \<open>GraphRag\<close>: anchor, vector and merge stage, epoch pinning, validation and pages (retrieval
    \<^verbatim>\<open>graph_rag.py\<close>). A client that follows the cursors has fuel; more fuel than hits is enough.

  This theory holds the properties that join reconciler, outbox, queue and consumer.

  \<^bold>\<open>Conventions.\<close> An exception is a value of \<open>py_exn\<close>; an operation that may raise returns a sum, and a
  handler is a function of its state. Services outside the repository (JetStream, Qdrant, the
  database driver, Argon2, hash functions, name-based UUIDs, the embedding model) are
  arguments. An environment argument says which calls fail, so every theorem about a handler
  speaks about all its failures. A publish may be stored and acknowledged, refused, or stored without an
  acknowledgement, which the caller sees as a failure. A transaction is all or nothing. Rows that an
  \<^verbatim>\<open>ORDER BY\<close> leaves tied come in table order, one of the orders that SQL permits; the items of a Cypher
  \<^verbatim>\<open>SET\<close> are applied from left to right, as Cypher 5 does. Handlers of one component
  run one after the other; the fan-out of a sync marker interleaves whole documents.
  Times are integers (microseconds) or rationals; floats are rationals or reals, without
  rounding.

  \<^bold>\<open>Not modelled.\<close>

  \<^item> The Neo4j adapter (index \<^verbatim>\<open>stores/neo4j/\<close>) is, apart from its retention methods, text of Cypher
    queries that the server executes; what the rest of the program asks of it is an environment
    function here. The same
    holds for the graph and search queries of index \<^verbatim>\<open>stores/postgres_only_store.py\<close>.
  \<^item> Connectors and embedding providers are clients of remote services; the pipeline takes them as
    environment. The parsers over tree-sitter and HCL syntax trees rest on those libraries' trees.
  \<^item> REST and MCP routes other than those of tokens and admission, the application wiring, the
    timers of the periodic workers, the incident tools, migrations, the privacy and management packages and the command line call or present what
    is modelled here; they keep no state of the pipeline.
  \<^item> Metrics, logs and traces; floating-point rounding; the TypeScript user interface and the Go
    operator.
\<close>

section \<open>From the reconciler to the stores\<close>

text \<open>The outbox row the database makes of an inserted event.\<close>

definition row_of_event :: "uuid \<Rightarrow> rat \<Rightarrow> new_event \<Rightarrow> outbox_row" where
  "row_of_event i t ev = \<lparr>ob_id = i, ob_event_type = ne_event_type ev, ob_payload = ne_payload ev,
     ob_entity_id = ne_entity_id ev, ob_created_at = t, ob_processed = False, ob_processed_at = None\<rparr>"

definition edge_reemission :: "outbox_row \<Rightarrow> bool" where
  "edge_reemission r \<longleftrightarrow> (\<exists>i t ws g. r = row_of_event i t (edge_event ws g))"

lemma edge_reemission_undecodable: "edge_reemission r \<Longrightarrow> undecodable pyd r"
  using edge_reemit_undecodable by (auto simp: edge_reemission_def row_of_event_def)

text \<open>
  Claim C3: The reconciler's edge events have no identifier and never validate. As soon as
  the oldest pending rows of the outbox are a full batch of them, a sole worker publishes
  nothing any more, so one tick of edge drift can stop the outbox for good.
\<close>

theorem edge_drift_blocks_outbox:
  assumes "take n (pending rows) = batch" and "length batch = n" and "list_all edge_reemission batch"
    and "distinct (map ob_id rows)" and "(sole_worker pyd n)\<^sup>*\<^sup>* (rows, js) (rows', js')"
  shows "js' = js"
proof -
  have "takeWhile (undecodable pyd) (pending rows) = batch @ takeWhile (undecodable pyd) (drop n (pending rows))"
  proof -
    have "pending rows = batch @ drop n (pending rows)" using assms(1) by (metis append_take_drop_id)
    moreover have "\<forall>r \<in> set batch. undecodable pyd r"
      using assms(3) edge_reemission_undecodable by (auto simp: list_all_iff)
    ultimately show ?thesis by (metis takeWhile_append2)
  qed
  then have "blocked pyd n rows" using assms(2) by (simp add: blocked_def)
  then show ?thesis using sole_worker_blocked_star [OF assms(5)] assms(4) by simp
qed

theorem edge_drift_blocks_outbox_witness:
  "\<exists>rows. length rows = 50 \<and> list_all edge_reemission rows \<and> distinct (map ob_id rows)
     \<and> snd (outbox_step sample_pydantic 50 (OTick sample_env) (rows, [])) = []"
proof -
  let ?row = "\<lambda>i. row_of_event (of_nat i) 0 (edge_event 1 waiting_edge)"
  let ?rows = "map ?row [0..<50]"
  have ord: "order_by ob_created_at (map ?row ns) = map ?row ns" for ns
    by (induction ns rule: rev_induct) (simp_all add: order_by_snoc ins_by_last row_of_event_def)
  have "pending ?rows = ?rows"
    using ord [of "[0..<50]"] by (simp add: pending_def row_of_event_def)
  then have batch: "take 50 (pending ?rows) = ?rows" by simp
  have all: "list_all edge_reemission ?rows" by (auto simp: list_all_iff edge_reemission_def)
  have small: "take_bit 128 x = x" if "x < 50" for x :: nat
    using that by (intro take_bit_nat_eq_self) simp
  have ids: "distinct (map ob_id ?rows)"
    by (auto simp: row_of_event_def distinct_map inj_on_def o_def word_of_nat_eq_iff small)
  obtain rows' js' where step: "outbox_step sample_pydantic 50 (OTick sample_env) (?rows, []) = (rows', js')" by fastforce
  have one: "sole_worker sample_pydantic 50 (?rows, []) (rows', js')"
    using sw_tick [of sample_env sample_pydantic 50 "(?rows, [])"] unfolding step by (simp add: sample_env_def)
  have star: "(sole_worker sample_pydantic 50)\<^sup>*\<^sup>* (?rows, []) (rows', js')"
    using one by (rule r_into_rtranclp)
  have "js' = []" using edge_drift_blocks_outbox [OF batch _ all ids star] by simp
  then show ?thesis
    using all ids step by (intro exI [of _ ?rows]) simp
qed

text \<open>
  Claim C2: The unpark loop cannot unpark an entity. Its backfill event loses the backfill
  flag on the wire, so the consumer dead-letters what it receives and the entity stays
  parked, in every reachable state and every environment.
\<close>

theorem unpark_backfill_never_unparks:
  assumes "run oc_step (oc_start sf oc_init) events = s" and "dict_has (oc_parked_entities s) (pe_id ent)"
    and "entity_wire_ok (entity_backfill_event ent tenant)"
    and "publish pyd broker ''outbox.entity.upsert'' (PEntity (entity_backfill_event ent tenant)) js
      = (r, js @ [(''outbox.entity.upsert'', data)])"
    and "get_num_delivered raw < qc_max_deliver qc" and "rm_data raw = data" and "qc_payload_type qc = TEntity"
  shows "\<exists>ev. co_yield (process_raw pyd replaced dlq qc raw) = Some (PEntity ev)
    \<and> dict_has (oc_parked_entities (oc_step (EntityMsg env subject ev) s)) (pe_id ent)"
proof -
  let ?ev = "wire_entity (entity_backfill_event ent tenant)"
  have "co_yield (process_raw pyd replaced dlq qc raw) = Some (PEntity ?ev)"
    using entity_channel.delivered [OF assms(3-7)] by simp
  moreover have "uuid_parse (eu_id ?ev) = Inr (pe_id ent)" "\<not> eu_is_backfill ?ev"
    by (simp_all add: wire_entity_def entity_backfill_event_def)
  then have "quarantined (pe_id ent) (oc_calls s) (oc_step (EntityMsg env subject ?ev) s)"
    using quarantined_step [OF _ assms(2)] reachable_inv assms(1) by blast
  ultimately show ?thesis by (auto simp: quarantined_def)
qed

lemma sample_backfill_wire_ok: "entity_wire_ok (entity_backfill_event (sample_pg_entity 1 10) (Some 1))"
  by (simp add: entity_wire_ok_def entity_backfill_event_def sample_pg_entity_def)

theorem unpark_backfill_never_unparks_witness:
  "\<exists>ev. co_yield (process_raw sample_pydantic (\<lambda>t. t) sample_dlq \<lparr>qc_payload_type = TEntity, qc_max_deliver = 5\<rparr>
        \<lparr>rm_subject = ''outbox.entity.upsert'',
         rm_data = encode_payload sample_pydantic (PEntity (entity_backfill_event (sample_pg_entity 1 10) (Some 1))),
         rm_num_delivered = None\<rparr>) = Some (PEntity ev)
    \<and> dict_has (oc_parked_entities (oc_step (EntityMsg (sample_oc_env (\<lambda>_. True)) ''outbox.entity.upsert'' ev)
        (run oc_step (oc_start True oc_init)
          (replicate 4 (EntityMsg down_env ''outbox.entity.upsert'' (sample_upsert (uuid_str 1))))))) 1"
proof -
  let ?ent = "sample_pg_entity 1 10"
  have e: "pe_id ?ent = 1" by (simp add: sample_pg_entity_def)
  have pub: "publish sample_pydantic (\<lambda>_ _. Stored) ''outbox.entity.upsert'' (PEntity (entity_backfill_event ?ent (Some 1))) []
      = (Inr (), [] @ [(''outbox.entity.upsert'', encode_payload sample_pydantic (PEntity (entity_backfill_event ?ent (Some 1))))])"
    by (simp add: publish_def)
  show ?thesis
    using unpark_backfill_never_unparks [OF refl _ sample_backfill_wire_ok pub, unfolded e, OF parked_sample_run]
    by (simp add: get_num_delivered_def)
qed

text \<open>What the consumer makes of a backfill event that has been through the queue, field by field.\<close>

lemma wired_entity_upsert:
  "entity_upsert_of (pe_id ent) (pe_source_id ent) (wire_entity (entity_backfill_event ent (Some ws))) =
      \<lparr>up_id = pe_id ent, up_source_id = pe_source_id ent, up_entity_type = pe_entity_type ent,
              up_name = pe_name ent, up_display_name = pe_display_name ent, up_chunk_id = None,
              up_metadata = pe_metadata ent, up_version = Some (pe_version ent), up_content_hash = None,
              up_bypass_source_checkpoint = False\<rparr>"
  by (simp add: entity_upsert_of_def wire_entity_def entity_backfill_event_def)

lemma wired_chunks_upsert:
  "UpsertChunks (chunks_upsert_of env ws (pe_source_id ent) emb (wire_entity (entity_backfill_event ent (Some ws)))) = UpsertChunks
              \<lparr>cu_source_id = pe_source_id ent, cu_external_id = ''entity:'' @ uuid_str (pe_id ent),
               cu_uri = ''entity://'' @ pe_entity_type ent @ ''/'' @ pe_name ent, cu_title = pe_display_name ent,
               cu_content_hash = entity_content_hash (ev_blake2b env) (pe_entity_type ent) (pe_name ent) (pe_display_name ent) (pe_metadata ent),
               cu_metadata = [(''workspace_id'', JStr (uuid_str ws))],
               cu_chunks = [\<lparr>ck_ord = 0,
                 ck_text = ''Entity: '' @ pe_entity_type ent @ '' '' @ pe_name ent @ '' ('' @ pe_display_name ent
                   @ ''). Metadata: '' @ py_repr (JObj (pe_metadata ent)),
                 ck_embedding = emb, ck_symbol = pe_name ent,
                 ck_metadata = foldl (\<lambda>d (k, v). dict_set d k v)
                   [(''workspace_id'', JStr (uuid_str ws)), (''entity_type'', JStr (pe_entity_type ent)),
                    (''name'', JStr (pe_name ent)), (''display_name'', JStr (pe_display_name ent))] (pe_metadata ent),
                 ck_embedding_model = ev_model_name env, ck_embedding_provider = ev_provider_name env,
                 ck_parser_version = ''outbox_v1'', ck_chunker_strategy = ''entity_outbox''\<rparr>],
               cu_version = Some (pe_version ent)\<rparr>"
  by (simp add: chunks_upsert_of_def entity_text_def wire_entity_def entity_backfill_event_def)

lemma wired_entity_text:
  "entity_text (wire_entity (entity_backfill_event ent (Some ws))) = ''Entity: '' @ pe_entity_type ent @ '' '' @ pe_name ent @ '' ('' @ pe_display_name ent
      @ ''). Metadata: '' @ py_repr (JObj (pe_metadata ent))"
  by (simp add: entity_text_def wire_entity_def entity_backfill_event_def)

text \<open>
  Claim C1: A drifted entity that the reconciler re-emits and that is not parked reaches
  both stores with the row's fields and version when every service answers. The vector write is
  one chunk with the text of the entity, the first embedding of that text and the hash of the
  entity's fields. The graph write does not ask to bypass the source checkpoint, which is what the
  backfill flag is for.
\<close>

theorem reemitted_entity_reaches_stores:
  assumes "good_tick tenv" and "0 < n"
    and "entity_wire_ok (entity_backfill_event ent (Some ws))"
    and "all_up env" and "oc_entity_task s" and "\<not> dict_has (oc_parked_entities s) (pe_id ent)"
    and "ev_edges env (edges_to_unpark (pe_id ent) s) = Inr erows"
    and "map (pg_id \<circ> fst) erows = edges_to_unpark (pe_id ent) s"
    and "qc_payload_type qc = TEntity" and "1 < qc_max_deliver qc"
  shows "\<exists>data ev emb embs. snd (tick pyd n tenv ([row_of_event i t (entity_event ws ent)], [])) = [(''outbox.entity.upsert'', data)]
    \<and> co_yield (process_raw pyd replaced dlq qc
        \<lparr>rm_subject = ''outbox.entity.upsert'', rm_data = data, rm_num_delivered = Some 1\<rparr>) = Some (PEntity ev)
    \<and> ev_embed env (''Entity: '' @ pe_entity_type ent @ '' '' @ pe_name ent @ '' ('' @ pe_display_name ent
          @ ''). Metadata: '' @ py_repr (JObj (pe_metadata ent))) = Inr (emb # embs)
    \<and> oc_settled (oc_step (EntityMsg env ''outbox.entity.upsert'' ev) s) = [Ack]
    \<and> oc_calls (oc_step (EntityMsg env ''outbox.entity.upsert'' ev) s) = oc_calls s
        @ [(UpsertEntity \<lparr>up_id = pe_id ent, up_source_id = pe_source_id ent, up_entity_type = pe_entity_type ent,
              up_name = pe_name ent, up_display_name = pe_display_name ent, up_chunk_id = None,
              up_metadata = pe_metadata ent, up_version = Some (pe_version ent), up_content_hash = None,
              up_bypass_source_checkpoint = False\<rparr> ws, True),
           (UpsertChunks
              \<lparr>cu_source_id = pe_source_id ent, cu_external_id = ''entity:'' @ uuid_str (pe_id ent),
               cu_uri = ''entity://'' @ pe_entity_type ent @ ''/'' @ pe_name ent, cu_title = pe_display_name ent,
               cu_content_hash = entity_content_hash (ev_blake2b env) (pe_entity_type ent) (pe_name ent) (pe_display_name ent) (pe_metadata ent),
               cu_metadata = [(''workspace_id'', JStr (uuid_str ws))],
               cu_chunks = [\<lparr>ck_ord = 0,
                 ck_text = ''Entity: '' @ pe_entity_type ent @ '' '' @ pe_name ent @ '' ('' @ pe_display_name ent
                   @ ''). Metadata: '' @ py_repr (JObj (pe_metadata ent)),
                 ck_embedding = emb, ck_symbol = pe_name ent,
                 ck_metadata = foldl (\<lambda>d (k, v). dict_set d k v)
                   [(''workspace_id'', JStr (uuid_str ws)), (''entity_type'', JStr (pe_entity_type ent)),
                    (''name'', JStr (pe_name ent)), (''display_name'', JStr (pe_display_name ent))] (pe_metadata ent),
                 ck_embedding_model = ev_model_name env, ck_embedding_provider = ev_provider_name env,
                 ck_parser_version = ''outbox_v1'', ck_chunker_strategy = ''entity_outbox''\<rparr>],
               cu_version = Some (pe_version ent)\<rparr>, True)]
        @ map backfill_call erows"
proof -
  define be where "be = entity_backfill_event ent (Some ws)"
  define data where "data = encode_payload pyd (PEntity be)"
  define ev where "ev = wire_entity be"
  let ?r = "row_of_event i t (entity_event ws ent)"
  have payload: "event_payload pyd ?r = Inr (Some (''outbox.entity.upsert'', PEntity be))"
    unfolding be_def row_of_event_def by (simp add: event_payload_def entity_event_def entity_drift_payload_def
      entity_model_validate_def entity_backfill_event_def req_str_def opt_str_def dict_metadata_def dict_version_def
      dict_backfill_def split: option.split)
  have sel: "select_batch n (te_locked tenv) [?r] = [?r]"
    using assms(1,2) by (cases n) (simp_all add: select_batch_def good_tick_def order_by_def row_of_event_def)
  have "row_event pyd (te_broker tenv) ?r = [(''outbox.entity.upsert'', data)]"
    using assms(1) payload by (simp add: row_event_def good_tick_def data_def)
  then have t: "snd (tick pyd n tenv ([?r], [])) = [(''outbox.entity.upsert'', data)]"
    using assms(1) tick_eq [of "[?r]" tenv _ n pyd "[]", OF _ _ sel [symmetric]] by (simp add: good_tick_def)
  have pub: "publish pyd (\<lambda>_ _. Stored) ''outbox.entity.upsert'' (PEntity be) [] = (Inr (), [] @ [(''outbox.entity.upsert'', data)])"
    by (simp add: publish_def data_def)
  have y: "co_yield (process_raw pyd replaced dlq qc
      \<lparr>rm_subject = ''outbox.entity.upsert'', rm_data = data, rm_num_delivered = Some 1\<rparr>) = Some (PEntity ev)"
    using entity_channel.delivered [OF _ pub, of _ qc] assms(3,9,10) by (simp add: be_def ev_def get_num_delivered_def)
  have f: "uuid_parse (eu_id ev) = Inr (pe_id ent)" "\<not> eu_is_backfill ev" "workspace_of (eu_workspace_id ev) = Inr ws"
    "uuid_parse (eu_source_id ev) = Inr (pe_source_id ent)"
    by (simp_all add: ev_def be_def wire_entity_def entity_backfill_event_def workspace_of_def truthy_str_def)
  obtain emb where e1: "first_embedding env (entity_text ev) = Inr emb"
    and st: "oc_settled (oc_step (EntityMsg env ''outbox.entity.upsert'' ev) s) = [Ack]"
    and calls: "oc_calls (oc_step (EntityMsg env ''outbox.entity.upsert'' ev) s) = oc_calls s
      @ [(UpsertEntity (entity_upsert_of (pe_id ent) (pe_source_id ent) ev) ws, True),
         (UpsertChunks (chunks_upsert_of env ws (pe_source_id ent) emb ev), True)] @ map backfill_call erows"
    using consume_entity_all_up [OF assms(4,5) f(1,2) assms(6) f(3,4) assms(7,8), of "''outbox.entity.upsert''"] by blast
  obtain embs where "ev_embed env (entity_text ev) = Inr (emb # embs)"
    using e1 unfolding first_embedding_def
    by (cases "ev_embed env (entity_text ev)") (auto simp: bind_res_eq_Inr split: list.splits)
  note embs = this [unfolded ev_def be_def wired_entity_text]
  show ?thesis using t y st embs calls [unfolded ev_def be_def wired_chunks_upsert wired_entity_upsert] unfolding ev_def be_def by blast
qed

theorem reemitted_entity_reaches_stores_witness:
  "\<exists>data ev. snd (tick sample_pydantic 50 sample_env ([row_of_event 3 0 (entity_event 1 (sample_pg_entity 1 10))], []))
       = [(''outbox.entity.upsert'', data)]
     \<and> co_yield (process_raw sample_pydantic (\<lambda>t. t) sample_dlq \<lparr>qc_payload_type = TEntity, qc_max_deliver = 5\<rparr>
          \<lparr>rm_subject = ''outbox.entity.upsert'', rm_data = data, rm_num_delivered = Some 1\<rparr>) = Some (PEntity ev)
     \<and> oc_settled (oc_step (EntityMsg (sample_oc_env (\<lambda>_. True)) ''outbox.entity.upsert'' ev) (oc_start True oc_init)) = [Ack]"
proof -
  have good: "good_tick sample_env" by (simp add: good_tick_def sample_env_def)
  have up: "all_up (sample_oc_env (\<lambda>_. True))"
    by (simp add: all_up_def sample_oc_env_def first_embedding_def)
  have edges: "edges_to_unpark e (oc_start True oc_init) = []" for e
    by (simp add: edges_to_unpark_def oc_start_def oc_init_def)
  show ?thesis
    using reemitted_entity_reaches_stores [OF good _ sample_backfill_wire_ok up, of 50 "oc_start True oc_init" "[]"
        "\<lparr>qc_payload_type = TEntity, qc_max_deliver = 5\<rparr>" sample_pydantic 3 0 "\<lambda>t. t" sample_dlq]
    by (simp add: edges, simp add: oc_start_def oc_init_def sample_oc_env_def) blast
qed

end
